(* ===== verification/Prelude66.thy ===== *)
theory Prelude66
  imports Main "HOL-Library.Word" "HOL-Library.State_Monad"
begin

text \<open>
  Shared ground of the development: the C integer types, the errno values the
  drivers return, the weakest-precondition reading of state-monad programs and
  the combinators for the C idioms that every component uses (an early return on
  a negative errno, a counted loop, a bounded poll).  Nothing here models a
  source line; the components below are written with these combinators.
\<close>

unbundle bit_operations_syntax

named_theorems wp_simps \<open>equations that compute the weakest precondition of a program\<close>
named_theorems wp_rules \<open>introduction rules for the weakest precondition of an operation\<close>
named_theorems keeps_rules \<open>introduction rules for programs that keep an invariant\<close>
named_theorems rets_rules \<open>introduction rules for what a program returns\<close>
named_theorems emits_rules \<open>introduction rules for what a program may append to the log\<close>

section \<open>C integers\<close>

type_synonym u8 = "8 word"
type_synonym u16 = "16 word"
type_synonym u32 = "32 word"
type_synonym u64 = "64 word"

text \<open>The kernel's \<^verbatim>\<open>BIT()\<close> macro.\<close>

definition BIT :: "nat \<Rightarrow> 'a::len word" where
  "BIT n = push_bit n 1"

lemma bit_BIT [simp]: "bit (BIT n :: 'a::len word) i \<longleftrightarrow> i = n \<and> n < LENGTH('a)"
  by (auto simp: BIT_def bit_simps)

lemma and_mask_less:
  fixes x m :: "'a::len word"
  assumes "m < n"
  shows "x AND m < n"
  using assms word_and_le1 [of x m] by (rule order.strict_trans1 [rotated])

lemma unat_and_le: "unat (x AND m) \<le> unat m" for x m :: "'a::len word"
  using word_and_le1 [of x m] by (simp add: word_le_nat_alt)

lemma and_not_self: "(x AND NOT m) AND m = 0" for x m :: "'a::len word"
  by (simp add: and.assoc)

lemma bit_eq_wordI:
  fixes x y :: "'a::len word"
  assumes "\<And>n. n < LENGTH('a) \<Longrightarrow> bit x n = bit y n"
  shows "x = y"
  using assms by (rule bit_word_eqI)

lemma or_less_2p:
  fixes x y :: "'a::len word"
  assumes "n < LENGTH('a)" and "x < 2 ^ n" and "y < 2 ^ n"
  shows "x OR y < 2 ^ n"
proof -
  have "(x OR y) AND mask n = x OR y"
    using assms(2,3) by (simp add: bit.conj_disj_distrib2 less_mask_eq)
  then show ?thesis using assms(1) by (simp add: mask_eq_iff_w2p word_size)
qed

lemma less_2p_not_bit:
  fixes x :: "'a::len word"
  assumes "x < 2 ^ n" and "n \<le> i"
  shows "\<not> bit x i"
proof
  assume "bit x i"
  moreover have "x = x AND mask n" using assms(1) by (simp add: less_mask_eq)
  ultimately have "bit (x AND mask n) i" by simp
  with assms(2) show False by (simp add: bit_simps)
qed

lemma and_BIT_eq_0_iff:
  fixes x :: "'a::len word"
  assumes "n < LENGTH('a)"
  shows "x AND BIT n = 0 \<longleftrightarrow> \<not> bit x n"
proof
  assume "x AND BIT n = 0"
  then have "\<not> bit (x AND BIT n) n" by simp
  with assms show "\<not> bit x n" by (simp add: bit_simps)
next
  assume "\<not> bit x n"
  then show "x AND BIT n = 0" by (intro bit_word_eqI) (auto simp: bit_simps)
qed

lemma bit_ffff_iff: "bit (0xffff :: u32) i \<longleftrightarrow> i < 16"
proof -
  have "bit (mask 16 :: u32) i \<longleftrightarrow> i < 16" unfolding bit_mask_iff by auto
  then show ?thesis by (simp add: mask_eq_exp_minus_1)
qed

section \<open>Errors\<close>

text \<open>The errno values the modelled code returns.  \<open>Kerr n\<close> is a code that a kernel
  service returned and the driver passes on unchanged.\<close>

datatype errno =
    ENOENT | EIO | ENXIO | EAGAIN | ENOMEM | EEXIST | ENODEV | EINVAL | ENOSPC | ERANGE
  | EOPNOTSUPP | ETIMEDOUT | EPROBE_DEFER | EOVERFLOW | EBUSY | EPROTO | ENOLINK | EXDEV | EUCLEAN
  | Kerr int

text \<open>The number an errno has in the machine, as the negative return value of a C function.\<close>

fun errno_val :: "errno \<Rightarrow> int" where
  "errno_val ENOENT = -2"
| "errno_val EIO = -5"
| "errno_val ENXIO = -6"
| "errno_val EAGAIN = -11"
| "errno_val ENOMEM = -12"
| "errno_val EBUSY = -16"
| "errno_val EEXIST = -17"
| "errno_val EXDEV = -18"
| "errno_val ENODEV = -19"
| "errno_val EINVAL = -22"
| "errno_val ENOSPC = -28"
| "errno_val ERANGE = -34"
| "errno_val ENOLINK = -67"
| "errno_val EPROTO = -71"
| "errno_val EOVERFLOW = -75"
| "errno_val EOPNOTSUPP = -95"
| "errno_val ETIMEDOUT = -110"
| "errno_val EUCLEAN = -117"
| "errno_val EPROBE_DEFER = -517"
| "errno_val (Kerr n) = n"

text \<open>The number a C function returns for success or an error.\<close>

definition cret :: "errno + unit \<Rightarrow> int" where
  "cret r = (case r of Inl e \<Rightarrow> errno_val e | Inr _ \<Rightarrow> 0)"

section \<open>Programs\<close>

abbreviation return :: "'a \<Rightarrow> ('s, 'a) state" where
  "return \<equiv> State_Monad.return"

definition gets :: "('s \<Rightarrow> 'a) \<Rightarrow> ('s, 'a) state" where
  "gets f = State (\<lambda>s. (f s, s))"

definition modify :: "('s \<Rightarrow> 's) \<Rightarrow> ('s, unit) state" where
  "modify f = State (\<lambda>s. ((), f s))"

text \<open>\<open>bindE\<close> is the C idiom \<^verbatim>\<open>ret = f(); if (ret) return ret;\<close>.\<close>

definition bindE :: "('s, errno + 'a) state \<Rightarrow> ('a \<Rightarrow> ('s, errno + 'b) state) \<Rightarrow> ('s, errno + 'b) state" where
  "bindE m f = do { r \<leftarrow> m; (case r of Inl e \<Rightarrow> return (Inl e) | Inr v \<Rightarrow> f v) }"

text \<open>\<open>for_each\<close> is a counted loop whose body cannot fail, \<open>for_eachE\<close> one that returns at the
  first error.\<close>

primrec for_each :: "'i list \<Rightarrow> ('i \<Rightarrow> ('s, unit) state) \<Rightarrow> ('s, unit) state" where
  "for_each [] f = return ()"
| "for_each (i # is) f = do { f i; for_each is f }"

primrec for_eachE :: "'i list \<Rightarrow> ('i \<Rightarrow> ('s, errno + unit) state) \<Rightarrow> ('s, errno + unit) state" where
  "for_eachE [] f = return (Inr ())"
| "for_eachE (i # is) f = bindE (f i) (\<lambda>_. for_eachE is f)"

text \<open>\<open>poll_loop n b\<close> runs the body at most \<open>n\<close> times, until it yields a value.\<close>

primrec poll_loop :: "nat \<Rightarrow> ('s, 'a option) state \<Rightarrow> ('s, 'a option) state" where
  "poll_loop 0 b = return None"
| "poll_loop (Suc n) b =
     do { r \<leftarrow> b; (case r of Some v \<Rightarrow> return (Some v) | None \<Rightarrow> poll_loop n b) }"

text \<open>\<open>poll_each\<close> is a poll whose body depends on the number of the pass.\<close>

primrec poll_each :: "'i list \<Rightarrow> ('i \<Rightarrow> ('s, 'a option) state) \<Rightarrow> ('s, 'a option) state" where
  "poll_each [] b = return None"
| "poll_each (i # is) b =
     do { r \<leftarrow> b i; (case r of Some v \<Rightarrow> return (Some v) | None \<Rightarrow> poll_each is b) }"

text \<open>A C function that may dereference a NULL pointer: \<open>Oops\<close> is the fault, after which the thread
  does nothing more.\<close>

datatype 'a outcome = Oops | Ret 'a

definition bindC :: "('s, 'a outcome) state \<Rightarrow> ('a \<Rightarrow> ('s, 'b outcome) state) \<Rightarrow> ('s, 'b outcome) state" where
  "bindC m f = do { r \<leftarrow> m; (case r of Oops \<Rightarrow> return Oops | Ret v \<Rightarrow> f v) }"

definition deref :: "'p option \<Rightarrow> ('s, 'p outcome) state" where
  "deref p = return (case p of None \<Rightarrow> Oops | Some x \<Rightarrow> Ret x)"

section \<open>Weakest preconditions\<close>

definition wp :: "('s, 'a) state \<Rightarrow> ('a \<Rightarrow> 's \<Rightarrow> bool) \<Rightarrow> 's \<Rightarrow> bool" where
  "wp m Q s = (case run_state m s of (r, s') \<Rightarrow> Q r s')"

lemma wpD: "wp m Q s \<Longrightarrow> run_state m s = (r, s') \<Longrightarrow> Q r s'"
  by (simp add: wp_def)

lemma wpI: "(\<And>r s'. run_state m s = (r, s') \<Longrightarrow> Q r s') \<Longrightarrow> wp m Q s"
  by (simp add: wp_def split: prod.splits)

lemma wp_run:
  assumes "wp m (\<lambda>r s'. r = v \<and> P s') s"
  obtains s' where "run_state m s = (v, s')" "P s'"
  using assms by (cases "run_state m s") (simp add: wp_def)

lemma wp_mono: "wp m P s \<Longrightarrow> (\<And>r s'. P r s' \<Longrightarrow> Q r s') \<Longrightarrow> wp m Q s"
  by (auto simp: wp_def split: prod.splits)

lemma wp_conj: "wp m P s \<Longrightarrow> wp m Q s \<Longrightarrow> wp m (\<lambda>r s'. P r s' \<and> Q r s') s"
  by (auto simp: wp_def split: prod.splits)

lemma wp_True: "wp m (\<lambda>_ _. True) s"
  by (simp add: wp_def split: prod.splits)

lemma wp_all: "(\<And>j. P j \<Longrightarrow> wp m (Q j) s) \<Longrightarrow> wp m (\<lambda>r s'. \<forall>j. P j \<longrightarrow> Q j r s') s"
  by (auto simp: wp_def split: prod.splits)

lemma wp_return [wp_simps]: "wp (return x) Q s = Q x s"
  by (simp add: wp_def)

lemma wp_bind [wp_simps]: "wp (State_Monad.bind m f) Q s = wp m (\<lambda>x. wp (f x) Q) s"
  by (simp add: wp_def split: prod.splits)

lemma wp_seq: "wp m P s \<Longrightarrow> (\<And>r t. P r t \<Longrightarrow> wp (f r) Q t) \<Longrightarrow> wp (State_Monad.bind m f) Q s"
  unfolding wp_bind by (erule wp_mono)

lemma wp_gets [wp_simps]: "wp (gets f) Q s = Q (f s) s"
  by (simp add: wp_def gets_def)

lemma wp_gets_seq: "wp (f (g s)) Q s \<Longrightarrow> wp (State_Monad.bind (gets g) f) Q s"
  by (simp add: wp_bind wp_gets)

lemma wp_modify [wp_simps]: "wp (modify f) Q s = Q () (f s)"
  by (simp add: wp_def modify_def)

lemma wp_bindE [wp_simps]:
  "wp (bindE m f) Q s = wp m (\<lambda>r. case r of Inl e \<Rightarrow> Q (Inl e) | Inr v \<Rightarrow> wp (f v) Q) s"
  by (auto simp: bindE_def wp_def split: prod.splits sum.splits)

lemma wp_bindE_fun: "wp (bindE m f) Q = wp m (\<lambda>r. case r of Inl e \<Rightarrow> Q (Inl e) | Inr v \<Rightarrow> wp (f v) Q)"
  by (rule ext) (rule wp_bindE)

lemma wp_bindC [wp_simps]:
  "wp (bindC m f) Q s = wp m (\<lambda>r. case r of Oops \<Rightarrow> Q Oops | Ret v \<Rightarrow> wp (f v) Q) s"
  by (auto simp: bindC_def wp_def split: prod.splits outcome.splits)

lemma wp_deref [wp_simps]: "wp (deref p) Q s = Q (case p of None \<Rightarrow> Oops | Some x \<Rightarrow> Ret x) s"
  by (simp add: deref_def wp_return)

lemma wp_case_outcome [wp_simps]:
  "wp (case x of Oops \<Rightarrow> m | Ret v \<Rightarrow> f v) Q s = (case x of Oops \<Rightarrow> wp m Q s | Ret v \<Rightarrow> wp (f v) Q s)"
  by (cases x) simp_all

lemma wp_if [wp_simps]: "wp (if b then m else n) Q s = (if b then wp m Q s else wp n Q s)"
  by simp

lemma wp_case_option [wp_simps]:
  "wp (case x of None \<Rightarrow> m | Some v \<Rightarrow> f v) Q s = (case x of None \<Rightarrow> wp m Q s | Some v \<Rightarrow> wp (f v) Q s)"
  by (cases x) simp_all

lemma wp_case_sum [wp_simps]:
  "wp (case x of Inl e \<Rightarrow> f e | Inr v \<Rightarrow> g v) Q s = (case x of Inl e \<Rightarrow> wp (f e) Q s | Inr v \<Rightarrow> wp (g v) Q s)"
  by (cases x) simp_all

lemma wp_modify_seq: "wp (f ()) Q (g s) \<Longrightarrow> wp (State_Monad.bind (modify g) f) Q s"
  by (simp add: wp_bind wp_modify)

text \<open>The branches as introduction rules.\<close>

lemma wp_ifI: "(b \<Longrightarrow> wp m Q s) \<Longrightarrow> (\<not> b \<Longrightarrow> wp n Q s) \<Longrightarrow> wp (if b then m else n) Q s"
  by simp

lemma wp_sumI:
  "(\<And>e. x = Inl e \<Longrightarrow> wp (f e) Q s) \<Longrightarrow> (\<And>v. x = Inr v \<Longrightarrow> wp (g v) Q s) \<Longrightarrow>
     wp (case x of Inl e \<Rightarrow> f e | Inr v \<Rightarrow> g v) Q s"
  by (cases x) simp_all

lemma wp_optionI:
  "(x = None \<Longrightarrow> wp m Q s) \<Longrightarrow> (\<And>v. x = Some v \<Longrightarrow> wp (f v) Q s) \<Longrightarrow>
     wp (case x of None \<Rightarrow> m | Some v \<Rightarrow> f v) Q s"
  by (cases x) simp_all

lemma wp_letI: "wp (f x) Q s \<Longrightarrow> wp (let y = x in f y) Q s"
  by simp

lemma wp_for_each_Nil [wp_simps]: "wp (for_each [] f) Q s = Q () s"
  by (simp add: wp_simps)

lemma wp_for_each_Cons [wp_simps]:
  "wp (for_each (i # is) f) Q s = wp (f i) (\<lambda>_. wp (for_each is f) Q) s"
  by (simp add: wp_simps)

text \<open>A postcondition on the successful outcome only.\<close>

definition on_ok :: "('s \<Rightarrow> bool) \<Rightarrow> errno + 'a \<Rightarrow> 's \<Rightarrow> bool" where
  "on_ok P r s = (case r of Inl _ \<Rightarrow> True | Inr _ \<Rightarrow> P s)"

lemma on_ok_simps [simp]: "on_ok P (Inl e) s" "on_ok P (Inr v) s = P s"
  by (simp_all add: on_ok_def)

lemma wp_bindE_ok:
  "wp m (on_ok P) s \<Longrightarrow> (\<And>x t. P t \<Longrightarrow> wp (f x) (on_ok Q) t) \<Longrightarrow> wp (bindE m f) (on_ok Q) s"
  unfolding wp_bindE by (erule wp_mono) (simp add: on_ok_def split: sum.splits)

lemma wp_bindE_Inr:
  "wp m (\<lambda>r t. r = Inr v \<and> P t) s \<Longrightarrow> (\<And>t. P t \<Longrightarrow> wp (f v) Q t) \<Longrightarrow> wp (bindE m f) Q s"
  unfolding wp_bindE by (erule wp_mono) auto

lemma wp_bindE_split:
  "wp m (\<lambda>r t. (\<forall>e. r = Inl e \<longrightarrow> Q (Inl e) t) \<and> (\<forall>v. r = Inr v \<longrightarrow> wp (f v) Q t)) s \<Longrightarrow> wp (bindE m f) Q s"
  unfolding wp_bindE by (erule wp_mono) (simp split: sum.split)

text \<open>A counted loop keeps an invariant that is indexed by the iterations already done.\<close>

lemma wp_for_each_inv:
  assumes "I [] s"
    and "\<And>xs i ys s'. is = xs @ i # ys \<Longrightarrow> I xs s' \<Longrightarrow> wp (f i) (\<lambda>_ s''. I (xs @ [i]) s'') s'"
    and "\<And>s'. I is s' \<Longrightarrow> Q () s'"
  shows "wp (for_each is f) Q s"
proof -
  have "I xs s' \<Longrightarrow> is = xs @ ys \<Longrightarrow> wp (for_each ys f) (\<lambda>_. I is) s'" for xs ys s'
  proof (induction ys arbitrary: xs s')
    case Nil
    then show ?case by (simp add: wp_simps)
  next
    case (Cons i ys)
    have "wp (f i) (\<lambda>_ s''. I (xs @ [i]) s'') s'"
      using assms(2) Cons.prems by blast
    then show ?case
      unfolding wp_for_each_Cons
      by (rule wp_mono) (use Cons.IH Cons.prems(2) in simp)
  qed
  from this [of "[]" s "is"] assms(1) have "wp (for_each is f) (\<lambda>_. I is) s" by simp
  then show ?thesis by (rule wp_mono) (simp add: assms(3))
qed

lemma wp_for_eachE_inv:
  assumes "I [] s"
    and "\<And>xs i ys s'. is = xs @ i # ys \<Longrightarrow> I xs s' \<Longrightarrow>
           wp (f i) (\<lambda>r s''. case r of Inl e \<Rightarrow> Q (Inl e) s'' | Inr _ \<Rightarrow> I (xs @ [i]) s'') s'"
    and "\<And>s'. I is s' \<Longrightarrow> Q (Inr ()) s'"
  shows "wp (for_eachE is f) Q s"
proof -
  have "I xs s' \<Longrightarrow> is = xs @ ys \<Longrightarrow> wp (for_eachE ys f) Q s'" for xs ys s'
  proof (induction ys arbitrary: xs s')
    case Nil
    then show ?case by (simp add: wp_simps assms(3))
  next
    case (Cons i ys)
    have "wp (f i) (\<lambda>r s''. case r of Inl e \<Rightarrow> Q (Inl e) s'' | Inr _ \<Rightarrow> I (xs @ [i]) s'') s'"
      using assms(2) Cons.prems by blast
    then show ?case
      unfolding for_eachE.simps wp_bindE
      by (rule wp_mono) (use Cons.IH Cons.prems(2) in \<open>auto split: sum.splits\<close>)
  qed
  from this [of "[]" s "is"] assms(1) show ?thesis by simp
qed

text \<open>A bounded poll: the invariant is kept by a body that yields nothing, and the value the
  body yields establishes the postcondition.\<close>

lemma wp_poll_loop:
  assumes "I s"
    and "\<And>s'. I s' \<Longrightarrow> wp b (\<lambda>r s''. case r of None \<Rightarrow> I s'' | Some v \<Rightarrow> Q (Some v) s'') s'"
    and "\<And>s'. I s' \<Longrightarrow> Q None s'"
  shows "wp (poll_loop n b) Q s"
  using assms(1)
proof (induction n arbitrary: s)
  case 0
  then show ?case by (simp add: wp_simps assms(3))
next
  case (Suc n)
  show ?case
    unfolding poll_loop.simps wp_bind
    by (rule wp_mono [OF assms(2) [OF Suc.prems]])
      (use Suc.IH in \<open>auto simp: wp_simps split: option.splits\<close>)
qed

lemma wp_poll_each:
  assumes "I s"
    and "\<And>i s'. i \<in> set is \<Longrightarrow> I s' \<Longrightarrow> wp (b i) (\<lambda>r s''. case r of None \<Rightarrow> I s'' | Some v \<Rightarrow> Q (Some v) s'') s'"
    and "\<And>s'. I s' \<Longrightarrow> Q None s'"
  shows "wp (poll_each is b) Q s"
  using assms(1,2)
proof (induction "is" arbitrary: s)
  case Nil
  then show ?case by (simp add: wp_simps assms(3))
next
  case (Cons i "is")
  show ?case
    unfolding poll_each.simps wp_bind
    by (rule wp_mono [OF Cons.prems(2) [OF _ Cons.prems(1)]])
      (use Cons.IH Cons.prems(2) in \<open>auto simp: wp_simps split: option.splits\<close>)
qed

text \<open>A poll whose first pass succeeds.\<close>

lemma wp_poll_first:
  assumes "0 < n" and "wp b (\<lambda>r s'. \<exists>v. r = Some v \<and> Q (Some v) s') s"
  shows "wp (poll_loop n b) Q s"
  using assms(1)
  by (cases n) (auto simp: wp_simps intro!: wp_mono [OF assms(2)])

lemma wp_poll_each_first:
  "wp (b i) (\<lambda>r s'. \<exists>v. r = Some v \<and> Q (Some v) s') s \<Longrightarrow> wp (poll_each (i # is) b) Q s"
  by (auto simp: wp_simps elim!: wp_mono)

section \<open>Programs that keep an invariant\<close>

definition keeps :: "('s \<Rightarrow> bool) \<Rightarrow> ('s, 'a) state \<Rightarrow> bool" where
  "keeps I m \<longleftrightarrow> (\<forall>s. I s \<longrightarrow> I (snd (run_state m s)))"

lemma keepsI: "(\<And>s. I s \<Longrightarrow> wp m (\<lambda>_. I) s) \<Longrightarrow> keeps I m"
  by (simp add: keeps_def wp_def case_prod_beta)

lemma keepsD: "keeps I m \<Longrightarrow> I s \<Longrightarrow> run_state m s = (r, s') \<Longrightarrow> I s'"
  unfolding keeps_def by (metis snd_conv)

lemma keeps_wp: "keeps I m \<Longrightarrow> I s \<Longrightarrow> wp m (\<lambda>_. I) s"
  by (auto simp: keeps_def wp_def split: prod.splits)

lemma keeps_run: "keeps I m \<Longrightarrow> I s \<Longrightarrow> I (snd (run_state m s))"
  by (simp add: keeps_def)

lemma keeps_modify: "(\<And>s. I s \<Longrightarrow> I (f s)) \<Longrightarrow> keeps I (modify f)"
  by (simp add: keeps_def modify_def)

lemma keeps_return [keeps_rules]: "keeps I (return x)"
  by (simp add: keeps_def)

lemma keeps_gets [keeps_rules]: "keeps I (gets f)"
  by (simp add: keeps_def gets_def)

lemma keeps_bind [keeps_rules]:
  "keeps I m \<Longrightarrow> (\<And>x. keeps I (f x)) \<Longrightarrow> keeps I (State_Monad.bind m f)"
  by (simp add: keeps_def case_prod_beta)

lemma keeps_bindE [keeps_rules]: "keeps I m \<Longrightarrow> (\<And>x. keeps I (f x)) \<Longrightarrow> keeps I (bindE m f)"
  unfolding bindE_def by (intro keeps_bind) (auto intro: keeps_return split: sum.splits)

lemma keeps_case_outcome [keeps_rules]:
  "(x = Oops \<Longrightarrow> keeps I m) \<Longrightarrow> (\<And>v. x = Ret v \<Longrightarrow> keeps I (f v)) \<Longrightarrow>
     keeps I (case x of Oops \<Rightarrow> m | Ret v \<Rightarrow> f v)"
  by (cases x) simp_all

lemma keeps_bindC [keeps_rules]: "keeps I m \<Longrightarrow> (\<And>x. keeps I (f x)) \<Longrightarrow> keeps I (bindC m f)"
  unfolding bindC_def by (intro keeps_bind) (auto intro: keeps_return split: outcome.splits)

lemma keeps_deref [keeps_rules]: "keeps I (deref p)"
  unfolding deref_def by (rule keeps_return)

lemma keeps_if [keeps_rules]:
  "(b \<Longrightarrow> keeps I m) \<Longrightarrow> (\<not> b \<Longrightarrow> keeps I n) \<Longrightarrow> keeps I (if b then m else n)"
  by simp

lemma keeps_let [keeps_rules]: "keeps I (f x) \<Longrightarrow> keeps I (let y = x in f y)"
  by simp

lemma keeps_case_option [keeps_rules]:
  "(x = None \<Longrightarrow> keeps I m) \<Longrightarrow> (\<And>v. x = Some v \<Longrightarrow> keeps I (f v)) \<Longrightarrow>
     keeps I (case x of None \<Rightarrow> m | Some v \<Rightarrow> f v)"
  by (cases x) simp_all

lemma keeps_case_sum [keeps_rules]:
  "(\<And>e. x = Inl e \<Longrightarrow> keeps I (f e)) \<Longrightarrow> (\<And>v. x = Inr v \<Longrightarrow> keeps I (g v)) \<Longrightarrow>
     keeps I (case x of Inl e \<Rightarrow> f e | Inr v \<Rightarrow> g v)"
  by (cases x) simp_all

lemma keeps_case_prod [keeps_rules]:
  "(\<And>a b. x = (a, b) \<Longrightarrow> keeps I (f a b)) \<Longrightarrow> keeps I (case x of (a, b) \<Rightarrow> f a b)"
  by (cases x) simp

lemma keeps_for_each [keeps_rules]:
  "(\<And>i. i \<in> set is \<Longrightarrow> keeps I (f i)) \<Longrightarrow> keeps I (for_each is f)"
  by (induction "is") (auto intro!: keeps_rules)

lemma keeps_for_eachE [keeps_rules]:
  "(\<And>i. i \<in> set is \<Longrightarrow> keeps I (f i)) \<Longrightarrow> keeps I (for_eachE is f)"
  by (induction "is") (auto intro!: keeps_rules)

lemma keeps_poll_loop [keeps_rules]: "keeps I b \<Longrightarrow> keeps I (poll_loop n b)"
  by (induction n) (auto intro!: keeps_rules)

lemma keeps_poll_each [keeps_rules]: "(\<And>i. keeps I (b i)) \<Longrightarrow> keeps I (poll_each is b)"
  by (induction "is") (auto intro!: keeps_rules)

section \<open>What a program returns, whatever its state\<close>

definition rets :: "('a \<Rightarrow> bool) \<Rightarrow> ('s, 'a) state \<Rightarrow> bool" where
  "rets P m \<longleftrightarrow> (\<forall>s. P (fst (run_state m s)))"

lemma retsD: "rets P m \<Longrightarrow> run_state m s = (r, s') \<Longrightarrow> P r"
  unfolding rets_def by (metis fst_conv)

lemma rets_after: "run_state m s = (a, s') \<Longrightarrow> rets P (f a) \<Longrightarrow> P (fst (run_state (State_Monad.bind m f) s))"
  by (simp add: rets_def)

lemma rets_return [rets_rules]: "P x \<Longrightarrow> rets P (return x)"
  by (simp add: rets_def)

lemma rets_bind [rets_rules]: "(\<And>x. rets P (f x)) \<Longrightarrow> rets P (State_Monad.bind m f)"
  by (simp add: rets_def case_prod_beta)

lemma rets_if [rets_rules]: "(b \<Longrightarrow> rets P m) \<Longrightarrow> (\<not> b \<Longrightarrow> rets P n) \<Longrightarrow> rets P (if b then m else n)"
  by simp

lemma rets_case_option [rets_rules]:
  "(x = None \<Longrightarrow> rets P m) \<Longrightarrow> (\<And>v. x = Some v \<Longrightarrow> rets P (f v)) \<Longrightarrow>
     rets P (case x of None \<Rightarrow> m | Some v \<Rightarrow> f v)"
  by (cases x) simp_all

section \<open>Systems with an invariant\<close>

text \<open>The contract several components share: a set of start states, one function per
  operation and an invariant that holds at the start and is kept by every operation.\<close>

locale inv_system =
  fixes start :: "'s \<Rightarrow> bool"
    and exec :: "'op \<Rightarrow> 's \<Rightarrow> 's"
    and inv :: "'s \<Rightarrow> bool"
  assumes start_inv: "start s \<Longrightarrow> inv s"
    and exec_inv: "inv s \<Longrightarrow> inv (exec op s)"
begin

lemma runs_inv: "inv s \<Longrightarrow> inv (fold exec ops s)"
  by (induction ops arbitrary: s) (simp_all add: exec_inv)

lemma reachable_inv: "start s \<Longrightarrow> inv (fold exec ops s)"
  by (intro runs_inv start_inv)

end

lemma run_for_each_append:
  "for_each (xs @ ys) f = do { for_each xs f; for_each ys f }"
  by (induction xs) simp_all

end
