(* ===== verification/Kio.thy ===== *)
theory Kio
  imports Prelude66
begin

text \<open>
  The world a driver of this tree sees: memory-mapped registers, kernel services that may
  fail, the reset-surviving stage marker of the board, delays and locks.  A program records
  everything it does in a log (newest event first).  The hardware and the kernel are not part
  of the sources: they are the parameter \<open>env\<close>, which answers a register read or a kernel call
  from the whole history so far, so a statement for every \<open>env\<close> is a statement for every
  device and every outcome of a kernel service.
\<close>

section \<open>Windows, locks, kernel services and events\<close>

text \<open>The register windows the drivers map (device tree names in enet6764.h; the GPIO banks of extsw6764.c, the
  two blocks of serdes6764.c).\<close>

datatype win =
    Procmon | SwCore | SwReg | SwMdio | SphyCtrl | PhyTest | Acb | EthMisc
  | Rbuf | Rdma | Tdma | Topctrl | GpioDir | GpioData | Serdes1 | EthTop

datatype klock = PmcLock | Sf2Lock | SpLock | TxLock | ExtswLock | SdLock

text \<open>Kernel services whose outcome the drivers branch on.\<close>

datatype kcall =
    KZalloc | IoRemap win | OfU32 string | SetDmaMask | DmaAlloc
  | AllocEtherdev | RegisterNetdev | AllocSkb | SkbPad | Jiffies | FactoryMac nat
  | RootDeviceRegister | RequestFirmware | OfFindCompatible string | OfMatchString string | OfIomap nat
  | MsecsToJiffies int

datatype event =
    Rd win nat u32
  | Wr win nat u32
  | Mark u8
  | Delay nat
  | Acq klock
  | Rel klock
  | Call kcall int
  | Deliver nat "u8 list"
  | KNote string nat

record env =
  env_rd :: "event list \<Rightarrow> win \<Rightarrow> nat \<Rightarrow> u32"
  env_call :: "event list \<Rightarrow> kcall \<Rightarrow> int"

record io =
  io_log :: "event list"

section \<open>Primitive operations\<close>

definition emit :: "event \<Rightarrow> ('z io_scheme, unit) state" where
  "emit e = State (\<lambda>s. ((), s\<lparr>io_log := e # io_log s\<rparr>))"

definition readl :: "env \<Rightarrow> win \<Rightarrow> nat \<Rightarrow> ('z io_scheme, u32) state" where
  "readl E w off = State (\<lambda>s. let v = env_rd E (io_log s) w off
     in (v, s\<lparr>io_log := Rd w off v # io_log s\<rparr>))"

definition kcall :: "env \<Rightarrow> kcall \<Rightarrow> ('z io_scheme, int) state" where
  "kcall E c = State (\<lambda>s. let v = env_call E (io_log s) c
     in (v, s\<lparr>io_log := Call c v # io_log s\<rparr>))"

abbreviation writel :: "win \<Rightarrow> nat \<Rightarrow> u32 \<Rightarrow> ('z io_scheme, unit) state" where
  "writel w off v \<equiv> emit (Wr w off v)"

text \<open>\<^verbatim>\<open>bcm96764_mark()\<close>: the last stage reached, in a register that survives a reset.\<close>

abbreviation mark :: "u8 \<Rightarrow> ('z io_scheme, unit) state" where
  "mark m \<equiv> emit (Mark m)"

abbreviation delay_us :: "nat \<Rightarrow> ('z io_scheme, unit) state" where
  "delay_us n \<equiv> emit (Delay n)"

text \<open>A chain of \<^verbatim>\<open>devm_platform_ioremap_resource_byname()\<close> calls, each with \<^verbatim>\<open>goto err_map\<close> on failure
  (a negative answer is an error pointer).\<close>

primrec ioremap_all :: "env \<Rightarrow> win list \<Rightarrow> ('z io_scheme, bool) state" where
  "ioremap_all E [] = return True"
| "ioremap_all E (w # ws) = do {
     a \<leftarrow> kcall E (IoRemap w); if a < 0 then return False else ioremap_all E ws }"

lemma wp_emit [wp_simps]: "wp (emit e) Q s = Q () (s\<lparr>io_log := e # io_log s\<rparr>)"
  by (simp add: wp_def emit_def)

lemma wp_readl [wp_simps]:
  "wp (readl E w off) Q s =
     Q (env_rd E (io_log s) w off) (s\<lparr>io_log := Rd w off (env_rd E (io_log s) w off) # io_log s\<rparr>)"
  by (simp add: wp_def readl_def Let_def)

lemma wp_kcall [wp_simps]:
  "wp (kcall E c) Q s =
     Q (env_call E (io_log s) c) (s\<lparr>io_log := Call c (env_call E (io_log s) c) # io_log s\<rparr>)"
  by (simp add: wp_def kcall_def Let_def)

text \<open>The same with the value read left open, so that the log does not grow into its own entries.\<close>

lemma wp_readl_any:
  "(\<And>v. Q v (s\<lparr>io_log := Rd w off v # io_log s\<rparr>)) \<Longrightarrow> wp (readl E w off) Q s"
  by (simp add: wp_readl)

lemma wp_kcall_any:
  "(\<And>v. Q v (s\<lparr>io_log := Call c v # io_log s\<rparr>)) \<Longrightarrow> wp (kcall E c) Q s"
  by (simp add: wp_kcall)

lemma wp_emit_any: "Q () (s\<lparr>io_log := e # io_log s\<rparr>) \<Longrightarrow> wp (emit e) Q s"
  by (simp add: wp_emit)

lemmas wp_open = wp_readl_any wp_kcall_any wp_emit_any
  wp_bind [THEN iffD2] wp_gets [THEN iffD2] wp_modify [THEN iffD2] wp_return [THEN iffD2]
  wp_bindE [THEN iffD2]

lemma run_emit [simp]: "run_state (emit e) s = ((), s\<lparr>io_log := e # io_log s\<rparr>)"
  by (simp add: emit_def)

lemma run_readl [simp]:
  "run_state (readl E w off) s =
     (env_rd E (io_log s) w off, s\<lparr>io_log := Rd w off (env_rd E (io_log s) w off) # io_log s\<rparr>)"
  by (simp add: readl_def Let_def)

lemma run_kcall [simp]:
  "run_state (kcall E c) s =
     (env_call E (io_log s) c, s\<lparr>io_log := Call c (env_call E (io_log s) c) # io_log s\<rparr>)"
  by (simp add: kcall_def Let_def)

lemma keeps_emit: "(\<And>s. I s \<Longrightarrow> I (s\<lparr>io_log := e # io_log s\<rparr>)) \<Longrightarrow> keeps I (emit e)"
  by (simp add: keeps_def)

lemma keeps_readl:
  "(\<And>s v. I s \<Longrightarrow> I (s\<lparr>io_log := Rd w off v # io_log s\<rparr>)) \<Longrightarrow> keeps I (readl E w off)"
  by (simp add: keeps_def)

lemma keeps_kcall:
  "(\<And>s v. I s \<Longrightarrow> I (s\<lparr>io_log := Call c v # io_log s\<rparr>)) \<Longrightarrow> keeps I (kcall E c)"
  by (simp add: keeps_def)

section \<open>What a program may append to the log\<close>

text \<open>\<open>emits P m\<close>: whatever the hardware answers, \<open>m\<close> only extends the log, and every event it
  adds satisfies \<open>P\<close>.\<close>

definition emits :: "(event \<Rightarrow> bool) \<Rightarrow> ('z io_scheme, 'a) state \<Rightarrow> bool" where
  "emits P m \<longleftrightarrow> (\<forall>s. \<exists>evs. io_log (snd (run_state m s)) = evs @ io_log s \<and> list_all P evs)"

lemma emitsI:
  "(\<And>s r s'. run_state m s = (r, s') \<Longrightarrow> \<exists>evs. io_log s' = evs @ io_log s \<and> list_all P evs) \<Longrightarrow> emits P m"
  unfolding emits_def by (metis prod.collapse)

lemma emitsD:
  "emits P m \<Longrightarrow> run_state m s = (r, s') \<Longrightarrow> \<exists>evs. io_log s' = evs @ io_log s \<and> list_all P evs"
  unfolding emits_def by (metis snd_conv)

lemma emits_wp: "emits P m \<Longrightarrow> wp m (\<lambda>_ s'. \<exists>evs. io_log s' = evs @ io_log s \<and> list_all P evs) s"
  by (rule wpI) (rule emitsD)

lemma emits_let [emits_rules]: "emits P (f x) \<Longrightarrow> emits P (let y = x in f y)"
  by simp

lemma emits_mono: "emits P m \<Longrightarrow> (\<And>e. P e \<Longrightarrow> P' e) \<Longrightarrow> emits P' m"
  unfolding emits_def by (meson list.pred_mono_strong)

lemma emits_any: "emits P m \<Longrightarrow> emits (\<lambda>_. True) m"
  by (erule emits_mono) simp

lemma emits_return [emits_rules]: "emits P (return x)"
  by (simp add: emits_def)

lemma emits_gets [emits_rules]: "emits P (gets f)"
  by (simp add: emits_def gets_def)

lemma emits_modify: "(\<And>s. io_log (f s) = io_log s) \<Longrightarrow> emits P (modify f)"
  by (simp add: emits_def modify_def)

lemma emits_emit [emits_rules]: "P e \<Longrightarrow> emits P (emit e)"
  by (auto simp: emits_def)

lemma emits_readl [emits_rules]: "(\<And>v. P (Rd w off v)) \<Longrightarrow> emits P (readl E w off)"
  by (auto simp: emits_def)

lemma emits_kcall [emits_rules]: "(\<And>v. P (Call c v)) \<Longrightarrow> emits P (kcall E c)"
  by (auto simp: emits_def)

lemma emits_bind [emits_rules]:
  assumes "emits P m" and "\<And>x. emits P (f x)"
  shows "emits P (State_Monad.bind m f)"
proof (rule emitsI)
  fix s r s'
  assume "run_state (State_Monad.bind m f) s = (r, s')"
  then obtain x t where m: "run_state m s = (x, t)" and f: "run_state (f x) t = (r, s')"
    by (auto split: prod.splits)
  from emitsD [OF assms(1) m] emitsD [OF assms(2) f]
  show "\<exists>evs. io_log s' = evs @ io_log s \<and> list_all P evs"
    by (metis append.assoc list_all_append)
qed

lemma emits_if [emits_rules]:
  "(b \<Longrightarrow> emits P m) \<Longrightarrow> (\<not> b \<Longrightarrow> emits P n) \<Longrightarrow> emits P (if b then m else n)"
  by simp

lemma emits_case_option [emits_rules]:
  "(x = None \<Longrightarrow> emits P m) \<Longrightarrow> (\<And>v. x = Some v \<Longrightarrow> emits P (f v)) \<Longrightarrow>
     emits P (case x of None \<Rightarrow> m | Some v \<Rightarrow> f v)"
  by (cases x) simp_all

lemma emits_case_sum [emits_rules]:
  "(\<And>e. x = Inl e \<Longrightarrow> emits P (f e)) \<Longrightarrow> (\<And>v. x = Inr v \<Longrightarrow> emits P (g v)) \<Longrightarrow>
     emits P (case x of Inl e \<Rightarrow> f e | Inr v \<Rightarrow> g v)"
  by (cases x) simp_all

lemma emits_case_prod [emits_rules]:
  "(\<And>a b. x = (a, b) \<Longrightarrow> emits P (f a b)) \<Longrightarrow> emits P (case x of (a, b) \<Rightarrow> f a b)"
  by (cases x) simp

lemma emits_case_outcome [emits_rules]:
  "(x = Oops \<Longrightarrow> emits P m) \<Longrightarrow> (\<And>v. x = Ret v \<Longrightarrow> emits P (f v)) \<Longrightarrow>
     emits P (case x of Oops \<Rightarrow> m | Ret v \<Rightarrow> f v)"
  by (cases x) simp_all

lemma emits_bindC [emits_rules]:
  "emits P m \<Longrightarrow> (\<And>x. emits P (f x)) \<Longrightarrow> emits P (bindC m f)"
  unfolding bindC_def by (intro emits_rules)

lemma emits_deref [emits_rules]: "emits P (deref p)"
  unfolding deref_def by (rule emits_return)

lemma emits_bindE [emits_rules]:
  "emits P m \<Longrightarrow> (\<And>x. emits P (f x)) \<Longrightarrow> emits P (bindE m f)"
  unfolding bindE_def by (intro emits_rules)

lemma emits_for_each [emits_rules]:
  "(\<And>i. i \<in> set is \<Longrightarrow> emits P (f i)) \<Longrightarrow> emits P (for_each is f)"
  by (induction "is") (auto intro!: emits_rules)

lemma emits_for_eachE [emits_rules]:
  "(\<And>i. i \<in> set is \<Longrightarrow> emits P (f i)) \<Longrightarrow> emits P (for_eachE is f)"
  by (induction "is") (auto intro!: emits_rules)

lemma emits_poll_loop [emits_rules]: "emits P b \<Longrightarrow> emits P (poll_loop n b)"
  by (induction n) (auto intro!: emits_rules)

lemma emits_poll_each [emits_rules]: "(\<And>i. emits P (b i)) \<Longrightarrow> emits P (poll_each is b)"
  by (induction "is") (auto intro!: emits_rules)

text \<open>\<open>grows P s s'\<close>: \<open>s'\<close> is \<open>s\<close> with more log, all of it satisfying \<open>P\<close>; nothing else changed.\<close>

definition grows :: "(event \<Rightarrow> bool) \<Rightarrow> 'z io_scheme \<Rightarrow> 'z io_scheme \<Rightarrow> bool" where
  "grows P s s' \<longleftrightarrow> (\<exists>evs. list_all P evs \<and> s' = s\<lparr>io_log := evs @ io_log s\<rparr>)"

lemma grows_refl [simp]: "grows P s s"
  unfolding grows_def by (rule exI [of _ "[]"]) simp

lemma grows_trans: "grows P s t \<Longrightarrow> grows P t u \<Longrightarrow> grows P s u"
  unfolding grows_def by (elim exE conjE, rule_tac x = "evsa @ evs" in exI) simp

lemma io_log_same [simp]: "s\<lparr>io_log := io_log s\<rparr> = s"
  by (cases s) simp

lemma grows_Cons [simp]:
  assumes "P e" and "grows P s (t\<lparr>io_log := xs\<rparr>)"
  shows "grows P s (t\<lparr>io_log := e # xs\<rparr>)"
proof -
  from assms(2) obtain evs where l: "list_all P evs" and t: "t\<lparr>io_log := xs\<rparr> = s\<lparr>io_log := evs @ io_log s\<rparr>"
    by (auto simp: grows_def)
  from arg_cong [OF t, of io_log] have xs: "xs = evs @ io_log s" by simp
  from arg_cong [OF t, of "\<lambda>u. u\<lparr>io_log := e # xs\<rparr>"]
  have "t\<lparr>io_log := e # xs\<rparr> = s\<lparr>io_log := (e # evs) @ io_log s\<rparr>" by (simp add: xs)
  then show ?thesis using l assms(1) unfolding grows_def by (intro exI [of _ "e # evs"]) simp
qed

lemma grows_mono: "grows P s s' \<Longrightarrow> (\<And>e. P e \<Longrightarrow> P' e) \<Longrightarrow> grows P' s s'"
  unfolding grows_def by (elim exE conjE, rule_tac x = evs in exI) (simp add: list.pred_mono_strong)

lemma grows_io_log: "grows P s s' \<Longrightarrow> \<exists>evs. list_all P evs \<and> io_log s' = evs @ io_log s"
  by (auto simp: grows_def)

text \<open>The log \<open>L\<close> extended by events that satisfy \<open>P\<close>, among them one that satisfies \<open>R\<close>.\<close>

definition ext_with :: "(event \<Rightarrow> bool) \<Rightarrow> (event \<Rightarrow> bool) \<Rightarrow> event list \<Rightarrow> event list \<Rightarrow> bool" where
  "ext_with P R L L' \<longleftrightarrow> (\<exists>evs. L' = evs @ L \<and> list_all P evs \<and> list_ex R evs)"

definition ext_by :: "(event \<Rightarrow> bool) \<Rightarrow> event list \<Rightarrow> event list \<Rightarrow> bool" where
  "ext_by P L L' \<longleftrightarrow> (\<exists>evs. L' = evs @ L \<and> list_all P evs)"

lemma ext_by_refl [simp]: "ext_by P L L"
  by (simp add: ext_by_def)

lemma ext_by_Cons [simp]: "P e \<Longrightarrow> ext_by P L L' \<Longrightarrow> ext_by P L (e # L')"
  unfolding ext_by_def by (elim exE conjE, rule_tac x = "e # evs" in exI) simp

lemma ext_by_trans: "ext_by P L L' \<Longrightarrow> ext_by P L' L'' \<Longrightarrow> ext_by P L L''"
  unfolding ext_by_def by (metis append.assoc list_all_append)

lemma ext_with_Cons1: "R e \<Longrightarrow> P e \<Longrightarrow> ext_by P L L' \<Longrightarrow> ext_with P R L (e # L')"
  unfolding ext_with_def ext_by_def by (elim exE conjE, rule_tac x = "e # evs" in exI) simp

lemma ext_with_Cons [simp]: "P e \<Longrightarrow> ext_with P R L L' \<Longrightarrow> ext_with P R L (e # L')"
  unfolding ext_with_def by (elim exE conjE, rule_tac x = "e # evs" in exI) simp

lemma ext_with_mono: "ext_with P R L L' \<Longrightarrow> (\<And>e. R e \<Longrightarrow> R' e) \<Longrightarrow> ext_with P R' L L'"
  by (auto simp: ext_with_def list_ex_iff)

lemma ext_with_by: "ext_with P R L L' \<Longrightarrow> ext_by P L L'"
  by (auto simp: ext_with_def ext_by_def)

lemma emits_ext_by: "emits P m \<Longrightarrow> ext_by P L (io_log s) \<Longrightarrow> wp m (\<lambda>_ s'. ext_by P L (io_log s')) s"
  by (rule wp_mono [OF emits_wp]) (auto intro: ext_by_trans simp: ext_by_def)

lemma emits_ioremap_all [emits_rules]:
  "(\<And>w v. P (Call (IoRemap w) v)) \<Longrightarrow> emits P (ioremap_all E ws)"
  by (induction ws) (auto intro!: emits_rules)

text \<open>\<open>same s s'\<close>: the two states differ in their log at most.\<close>

definition same :: "'z io_scheme \<Rightarrow> 'z io_scheme \<Rightarrow> bool" where
  "same s s' \<longleftrightarrow> s'\<lparr>io_log := []\<rparr> = s\<lparr>io_log := []\<rparr>"

lemma same_simps [simp]:
  "same s s" "same s (t\<lparr>io_log := L\<rparr>) = same s t"
  by (simp_all add: same_def)

lemma same_trans: "same s t \<Longrightarrow> same t u \<Longrightarrow> same s u"
  by (simp add: same_def)

section \<open>Reading a log\<close>

text \<open>The marks of a log, oldest first; the last value written to a register; whether a lock
  is held.\<close>

fun marks_of :: "event list \<Rightarrow> u8 list" where
  "marks_of [] = []"
| "marks_of (Mark m # es) = marks_of es @ [m]"
| "marks_of (_ # es) = marks_of es"

fun last_wr :: "event list \<Rightarrow> win \<Rightarrow> nat \<Rightarrow> u32 option" where
  "last_wr [] w off = None"
| "last_wr (Wr w' off' v # es) w off = (if w' = w \<and> off' = off then Some v else last_wr es w off)"
| "last_wr (_ # es) w off = last_wr es w off"

fun held :: "klock \<Rightarrow> event list \<Rightarrow> bool" where
  "held l [] = False"
| "held l (Acq l' # es) = (if l' = l then True else held l es)"
| "held l (Rel l' # es) = (if l' = l then False else held l es)"
| "held l (_ # es) = held l es"

text \<open>A log respects a lock when it is never taken twice or released while free, and every
  access to the registers it protects happens while it is held.\<close>

fun lock_ok :: "klock \<Rightarrow> (win \<Rightarrow> nat \<Rightarrow> bool) \<Rightarrow> event list \<Rightarrow> bool" where
  "lock_ok l W [] = True"
| "lock_ok l W (e # es) = (lock_ok l W es \<and>
     (case e of
        Rd w off _ \<Rightarrow> W w off \<longrightarrow> held l es
      | Wr w off _ \<Rightarrow> W w off \<longrightarrow> held l es
      | Acq l' \<Rightarrow> l' = l \<longrightarrow> \<not> held l es
      | Rel l' \<Rightarrow> l' = l \<longrightarrow> held l es
      | _ \<Rightarrow> True))"

lemma marks_of_append: "marks_of (xs @ ys) = marks_of ys @ marks_of xs"
  by (induction xs rule: marks_of.induct) simp_all

lemma lock_ok_append: "lock_ok l W (evs @ L) \<Longrightarrow> lock_ok l W L"
  by (induction evs) simp_all

lemma last_wr_append:
  "list_all (\<lambda>e. \<forall>v. e \<noteq> Wr w off v) evs \<Longrightarrow> last_wr (evs @ L) w off = last_wr L w off"
proof (induction evs)
  case (Cons e evs)
  then show ?case by (cases e) auto
qed simp

lemma emits_last_wr:
  assumes "emits (\<lambda>e. \<forall>v. e \<noteq> Wr w off v) m"
  shows "wp m (\<lambda>_ s'. last_wr (io_log s') w off = last_wr (io_log s) w off) s"
  by (rule wp_mono [OF emits_wp [OF assms]]) (auto simp: last_wr_append)

definition unmarked :: "event \<Rightarrow> bool" where
  "unmarked e \<longleftrightarrow> (\<forall>m. e \<noteq> Mark m)"

lemma unmarked_simps [simp]:
  "unmarked (Rd w off v)" "unmarked (Wr w off v)" "unmarked (Delay n)" "unmarked (Acq l)"
  "unmarked (Rel l)" "unmarked (Call c r)" "unmarked (Deliver i bs)" "unmarked (KNote nm i)"
  "\<not> unmarked (Mark m)"
  by (simp_all add: unmarked_def)

lemma marks_of_unmarked: "list_all unmarked evs \<Longrightarrow> marks_of evs = []"
proof (induction evs)
  case (Cons e evs)
  then show ?case by (cases e) simp_all
qed simp

lemma grows_marks: "grows unmarked s s' \<Longrightarrow> marks_of (io_log s') = marks_of (io_log s)"
  by (auto simp: grows_def marks_of_append marks_of_unmarked)

lemma ext_by_marks: "ext_by unmarked L L' \<Longrightarrow> marks_of L' = marks_of L"
  by (auto simp: ext_by_def marks_of_append marks_of_unmarked)

text \<open>Register windows that behave as plain storage: a read returns the last value written,
  or the reset value.\<close>

definition ram_rd :: "(win \<Rightarrow> nat \<Rightarrow> u32) \<Rightarrow> event list \<Rightarrow> win \<Rightarrow> nat \<Rightarrow> u32" where
  "ram_rd rst log w off = (case last_wr log w off of Some v \<Rightarrow> v | None \<Rightarrow> rst w off)"

definition ram_env :: "(win \<Rightarrow> nat \<Rightarrow> u32) \<Rightarrow> env" where
  "ram_env rst = \<lparr>env_rd = ram_rd rst, env_call = (\<lambda>_ _. 0)\<rparr>"

lemma ram_rd_simps [simp]:
  "ram_rd rst (Wr w off v # es) w' off' = (if w = w' \<and> off = off' then v else ram_rd rst es w' off')"
  "ram_rd rst (Rd w off v # es) w' off' = ram_rd rst es w' off'"
  "ram_rd rst (Mark m # es) w' off' = ram_rd rst es w' off'"
  "ram_rd rst (Delay n # es) w' off' = ram_rd rst es w' off'"
  "ram_rd rst (Acq l # es) w' off' = ram_rd rst es w' off'"
  "ram_rd rst (Rel l # es) w' off' = ram_rd rst es w' off'"
  "ram_rd rst (Call c r # es) w' off' = ram_rd rst es w' off'"
  "ram_rd rst [] w' off' = rst w' off'"
  by (simp_all add: ram_rd_def)

end
