(* ===== verification/Pmc.thy ===== *)
theory Pmc
  imports Kio
begin

text \<open>
  port66/enet66/pmc6764.c: BPCM register access through keyhole 0 of the procmon PMB block,
  and the power sequences built on it (switch block, WLAN units, SYSTEMPORT soft reset).
  The driver's state is the one pointer \<open>g_pmc\<close>; the keyhole itself is hardware, reached
  through \<open>env\<close>.
\<close>

section \<open>Constants (enet6764.h)\<close>

text \<open>Offsets of keyhole 0: \<^verbatim>\<open>PMB_KEYHOLE(0) = PMB_BASE + 0x10 = 0x110\<close>, plus the field offset.\<close>

abbreviation (input) PMB_CONFIG :: nat where "PMB_CONFIG \<equiv> 0x100"
abbreviation (input) KH_CONTROL :: nat where "KH_CONTROL \<equiv> 0x110"
abbreviation (input) KH_WR_DATA :: nat where "KH_WR_DATA \<equiv> 0x114"
abbreviation (input) KH_RD_DATA :: nat where "KH_RD_DATA \<equiv> 0x11c"

abbreviation (input) PMC_PMBM_START :: u32 where "PMC_PMBM_START \<equiv> BIT 31"
abbreviation (input) PMC_PMBM_TIMEOUT :: u32 where "PMC_PMBM_TIMEOUT \<equiv> BIT 30"
abbreviation (input) PMC_PMBM_BUSY :: u32 where "PMC_PMBM_BUSY \<equiv> BIT 28"
abbreviation (input) PMC_PMBM_READ :: u32 where "PMC_PMBM_READ \<equiv> 0"
abbreviation (input) PMC_PMBM_WRITE :: u32 where "PMC_PMBM_WRITE \<equiv> BIT 24"
abbreviation (input) PMC_PMBM_BUS_SHIFT :: nat where "PMC_PMBM_BUS_SHIFT \<equiv> 20"
abbreviation (input) PMB_NUM_REGS_SHIFT :: nat where "PMB_NUM_REGS_SHIFT \<equiv> 20"
abbreviation (input) PMB_NUM_REGS_MASK :: u32 where "PMB_NUM_REGS_MASK \<equiv> 0x3ff"
abbreviation (input) PMB_BUS_ID_SHIFT :: nat where "PMB_BUS_ID_SHIFT \<equiv> 12"
abbreviation (input) PMB_ADDR_SWITCH :: u32 where "PMB_ADDR_SWITCH \<equiv> 8"
abbreviation (input) PMB_ADDR_WLAN0 :: u32 where "PMB_ADDR_WLAN0 \<equiv> 0x1009"
abbreviation (input) PMB_ADDR_WLAN1 :: u32 where "PMB_ADDR_WLAN1 \<equiv> 0x100a"

abbreviation (input) BPCM_W_CAPABILITIES :: u32 where "BPCM_W_CAPABILITIES \<equiv> 1"
abbreviation (input) BPCM_W_SR_CONTROL :: u32 where "BPCM_W_SR_CONTROL \<equiv> 5"
definition BPCM_W_ZONE_CTRL :: "nat \<Rightarrow> u32" where "BPCM_W_ZONE_CTRL z = of_nat (32 + z * 8 + 0)"
definition BPCM_W_ZONE_STATUS :: "nat \<Rightarrow> u32" where "BPCM_W_ZONE_STATUS z = of_nat (32 + z * 8 + 3)"
abbreviation (input) BPCM_CAP_NUM_ZONES_MASK :: u32 where "BPCM_CAP_NUM_ZONES_MASK \<equiv> 0x7f"
abbreviation (input) ZONE_CTRL_DPG_CTL_EN :: u32 where "ZONE_CTRL_DPG_CTL_EN \<equiv> BIT 8"
abbreviation (input) ZONE_CTRL_PWR_DN_REQ :: u32 where "ZONE_CTRL_PWR_DN_REQ \<equiv> BIT 9"
abbreviation (input) ZONE_CTRL_PWR_UP_REQ :: u32 where "ZONE_CTRL_PWR_UP_REQ \<equiv> BIT 10"
abbreviation (input) ZONE_CTRL_MEM_PWR_CTL_EN :: u32 where "ZONE_CTRL_MEM_PWR_CTL_EN \<equiv> BIT 11"
abbreviation (input) ZONE_CTRL_BLK_RESET_ASSERT :: u32 where "ZONE_CTRL_BLK_RESET_ASSERT \<equiv> BIT 12"
abbreviation (input) ZONE_STS_PWR_ON_STATE :: u32 where "ZONE_STS_PWR_ON_STATE \<equiv> BIT 15"
abbreviation (input) BPCM_SR_SYSPORT_BIT :: u32 where "BPCM_SR_SYSPORT_BIT \<equiv> BIT 3"

abbreviation (input) MK_PMC_PROBE :: u8 where "MK_PMC_PROBE \<equiv> 0x60"
abbreviation (input) MK_SWITCH_POWERED :: u8 where "MK_SWITCH_POWERED \<equiv> 0x61"
abbreviation (input) MK_ERR_PMC_MAP :: u8 where "MK_ERR_PMC_MAP \<equiv> 0xE0"
abbreviation (input) MK_ERR_PMC_CONFIG :: u8 where "MK_ERR_PMC_CONFIG \<equiv> 0xE1"
abbreviation (input) MK_ERR_PMC_KEYHOLE :: u8 where "MK_ERR_PMC_KEYHOLE \<equiv> 0xE2"
abbreviation (input) MK_ERR_PMC_ZONE :: u8 where "MK_ERR_PMC_ZONE \<equiv> 0xE3"
abbreviation (input) PMB_BUSY_POLLS :: nat where "PMB_BUSY_POLLS \<equiv> 1000"

section \<open>State\<close>

record pmc6764 =
  num_regs :: u32

record pmc_world = io +
  g_pmc :: "pmc6764 option"

definition pmc6764_ready :: "('z pmc_world_scheme, bool) state" where
  "pmc6764_ready = gets (\<lambda>s. g_pmc s \<noteq> None)"

section \<open>The keyhole\<close>

definition pmb_wait_done :: "env \<Rightarrow> ('z pmc_world_scheme, errno + u32) state" where
  "pmb_wait_done E = do {
     r \<leftarrow> poll_loop PMB_BUSY_POLLS (do {
       ctl \<leftarrow> readl E Procmon KH_CONTROL;
       if ctl AND PMC_PMBM_BUSY = 0 then return (Some ctl)
       else do { delay_us 1; return None } });
     return (case r of Some ctl \<Rightarrow> Inr ctl | None \<Rightarrow> Inl ETIMEDOUT) }"

definition pmb_address :: "pmc6764 \<Rightarrow> u32 \<Rightarrow> u32 \<Rightarrow> u32" where
  "pmb_address pmc dev_addr word = ((dev_addr AND 0xff) * num_regs pmc) OR word"

definition pmb_bus :: "u32 \<Rightarrow> u32" where
  "pmb_bus dev_addr = drop_bit PMB_BUS_ID_SHIFT dev_addr AND 0x3"

text \<open>The command word both accessors write to the keyhole's control register.\<close>

definition pmb_cmd :: "pmc6764 \<Rightarrow> u32 \<Rightarrow> u32 \<Rightarrow> u32 \<Rightarrow> u32" where
  "pmb_cmd pmc opc dev_addr word =
     PMC_PMBM_START OR push_bit PMC_PMBM_BUS_SHIFT (pmb_bus dev_addr) OR opc OR
     pmb_address pmc dev_addr word"

definition pmc6764_read_bpcm :: "env \<Rightarrow> u32 \<Rightarrow> u32 \<Rightarrow> ('z pmc_world_scheme, errno + u32) state" where
  "pmc6764_read_bpcm E dev_addr word = do {
     p \<leftarrow> gets g_pmc;
     case p of None \<Rightarrow> return (Inl ENODEV)
     | Some pmc \<Rightarrow> do {
         emit (Acq PmcLock);
         writel Procmon KH_CONTROL (pmb_cmd pmc PMC_PMBM_READ dev_addr word);
         w \<leftarrow> pmb_wait_done E;
         ret \<leftarrow> (case w of
            Inl e \<Rightarrow> return (Inl e)
          | Inr ctl \<Rightarrow>
              if ctl AND PMC_PMBM_TIMEOUT \<noteq> 0 then return (Inl ETIMEDOUT)
              else do { v \<leftarrow> readl E Procmon KH_RD_DATA; return (Inr v) });
         emit (Rel PmcLock);
         return ret } }"

definition pmc6764_write_bpcm :: "env \<Rightarrow> u32 \<Rightarrow> u32 \<Rightarrow> u32 \<Rightarrow> ('z pmc_world_scheme, errno + unit) state" where
  "pmc6764_write_bpcm E dev_addr word val = do {
     p \<leftarrow> gets g_pmc;
     case p of None \<Rightarrow> return (Inl ENODEV)
     | Some pmc \<Rightarrow> do {
         emit (Acq PmcLock);
         writel Procmon KH_WR_DATA val;
         writel Procmon KH_CONTROL (pmb_cmd pmc PMC_PMBM_WRITE dev_addr word);
         w \<leftarrow> pmb_wait_done E;
         emit (Rel PmcLock);
         return (case w of
            Inl e \<Rightarrow> Inl e
          | Inr ctl \<Rightarrow> if ctl AND PMC_PMBM_TIMEOUT \<noteq> 0 then Inl ETIMEDOUT else Inr ()) } }"

section \<open>Power sequences\<close>

definition pmc6764_power_on_zone :: "env \<Rightarrow> u32 \<Rightarrow> nat \<Rightarrow> ('z pmc_world_scheme, errno + unit) state" where
  "pmc6764_power_on_zone E dev_addr zone =
     bindE (pmc6764_read_bpcm E dev_addr (BPCM_W_ZONE_CTRL zone)) (\<lambda>ctrl.
     bindE (pmc6764_read_bpcm E dev_addr (BPCM_W_ZONE_STATUS zone)) (\<lambda>sts.
       if sts AND ZONE_STS_PWR_ON_STATE \<noteq> 0 then return (Inr ())
       else pmc6764_write_bpcm E dev_addr (BPCM_W_ZONE_CTRL zone)
              ((ctrl AND NOT ZONE_CTRL_PWR_DN_REQ) OR
               (ZONE_CTRL_DPG_CTL_EN OR ZONE_CTRL_PWR_UP_REQ OR
                ZONE_CTRL_MEM_PWR_CTL_EN OR ZONE_CTRL_BLK_RESET_ASSERT))))"

definition pmc6764_power_on_device :: "env \<Rightarrow> u32 \<Rightarrow> ('z pmc_world_scheme, errno + unit) state" where
  "pmc6764_power_on_device E dev_addr =
     bindE (pmc6764_read_bpcm E dev_addr BPCM_W_CAPABILITIES) (\<lambda>caps.
       let zones = unat (caps AND BPCM_CAP_NUM_ZONES_MASK) in
       if zones = 0 \<or> zones > 32 then return (Inl EIO)
       else for_eachE [0..<zones] (pmc6764_power_on_zone E dev_addr))"

text \<open>The poll body yields the error of a failed read or success once the zone reports power.\<close>

definition pmc6764_wait_zone_powered :: "env \<Rightarrow> u32 \<Rightarrow> nat \<Rightarrow> ('z pmc_world_scheme, errno + unit) state" where
  "pmc6764_wait_zone_powered E dev_addr zone = do {
     r \<leftarrow> poll_loop 500 (do {
       s \<leftarrow> pmc6764_read_bpcm E dev_addr (BPCM_W_ZONE_STATUS zone);
       case s of
         Inl e \<Rightarrow> return (Some (Inl e))
       | Inr sts \<Rightarrow>
           if sts AND ZONE_STS_PWR_ON_STATE \<noteq> 0 then return (Some (Inr ()))
           else do { delay_us 100; return None } });
     return (case r of Some x \<Rightarrow> x | None \<Rightarrow> Inl ETIMEDOUT) }"

abbreviation pmc6764_wlan_pmb :: "u32 list" where
  "pmc6764_wlan_pmb \<equiv> [PMB_ADDR_WLAN0, PMB_ADDR_WLAN1]"

definition pmc6764_wlan_power_up :: "env \<Rightarrow> int \<Rightarrow> ('z pmc_world_scheme, errno + unit) state" where
  "pmc6764_wlan_power_up E unit = do {
     p \<leftarrow> gets g_pmc;
     if p = None then return (Inl ENODEV)
     else if unit < 0 \<or> unit \<ge> int (length pmc6764_wlan_pmb) then return (Inl EINVAL)
     else let addr = pmc6764_wlan_pmb ! nat unit in
       bindE (pmc6764_power_on_device E addr) (\<lambda>_.
       bindE (pmc6764_wait_zone_powered E addr 0) (\<lambda>_.
       bindE (pmc6764_write_bpcm E addr BPCM_W_SR_CONTROL 0) (\<lambda>_.
       return (Inr ())))) }"

definition pmc6764_wlan_power_down :: "env \<Rightarrow> int \<Rightarrow> ('z pmc_world_scheme, errno + unit) state" where
  "pmc6764_wlan_power_down E unit = do {
     p \<leftarrow> gets g_pmc;
     if p = None then return (Inl ENODEV)
     else if unit < 0 \<or> unit \<ge> int (length pmc6764_wlan_pmb) then return (Inl EINVAL)
     else pmc6764_write_bpcm E (pmc6764_wlan_pmb ! nat unit) BPCM_W_SR_CONTROL 1 }"

definition pmc6764_switch_power_up :: "env \<Rightarrow> ('z pmc_world_scheme, errno + unit) state" where
  "pmc6764_switch_power_up E = do {
     p \<leftarrow> gets g_pmc;
     if p = None then return (Inl ENODEV)
     else do {
       r \<leftarrow> pmc6764_power_on_device E PMB_ADDR_SWITCH;
       case r of
         Inl e \<Rightarrow> do { mark MK_ERR_PMC_KEYHOLE; return (Inl e) }
       | Inr _ \<Rightarrow> do {
           r \<leftarrow> pmc6764_wait_zone_powered E PMB_ADDR_SWITCH 0;
           case r of
             Inl e \<Rightarrow> do { mark MK_ERR_PMC_ZONE; return (Inl e) }
           | Inr _ \<Rightarrow> do { mark MK_SWITCH_POWERED; return (Inr ()) } } } }"

definition pmc6764_sysport_reset :: "env \<Rightarrow> ('z pmc_world_scheme, errno + unit) state" where
  "pmc6764_sysport_reset E = do {
     p \<leftarrow> gets g_pmc;
     if p = None then return (Inl ENODEV)
     else
       bindE (pmc6764_read_bpcm E PMB_ADDR_SWITCH BPCM_W_SR_CONTROL) (\<lambda>reg.
       bindE (pmc6764_write_bpcm E PMB_ADDR_SWITCH BPCM_W_SR_CONTROL (reg OR BPCM_SR_SYSPORT_BIT)) (\<lambda>_.
         pmc6764_write_bpcm E PMB_ADDR_SWITCH BPCM_W_SR_CONTROL (reg AND NOT BPCM_SR_SYSPORT_BIT))) }"

section \<open>Probe and remove\<close>

text \<open>A kernel service that yields a pointer answers 0 for NULL; \<open>ioremap\<close> by name answers a
  negative errno on failure.\<close>

definition pmc6764_probe :: "env \<Rightarrow> ('z pmc_world_scheme, errno + unit) state" where
  "pmc6764_probe E = do {
     mem \<leftarrow> kcall E KZalloc;
     if mem = 0 then return (Inl ENOMEM)
     else do {
       io \<leftarrow> kcall E (IoRemap Procmon);
       if io < 0 then do { mark MK_ERR_PMC_MAP; return (Inl (Kerr io)) }
       else do {
         config \<leftarrow> readl E Procmon PMB_CONFIG;
         let nr = drop_bit PMB_NUM_REGS_SHIFT config AND PMB_NUM_REGS_MASK in
         if config = 0 \<or> config = 0xffffffff \<or> nr = 0 then do {
           mark MK_ERR_PMC_CONFIG; return (Inl EIO) }
         else do {
           modify (g_pmc_update (\<lambda>_. Some \<lparr>num_regs = nr\<rparr>));
           mark MK_PMC_PROBE;
           return (Inr ()) } } } }"

definition pmc6764_remove :: "('z pmc_world_scheme, unit) state" where
  "pmc6764_remove = modify (g_pmc_update (\<lambda>_. None))"

section \<open>The command word\<close>

lemma pmb_address_bound:
  assumes "num_regs pmc \<le> 0x3ff" and "word < 2 ^ 18"
  shows "pmb_address pmc dev_addr word < 2 ^ 18"
proof -
  let ?d = "dev_addr AND 0xff"
  have d: "unat ?d \<le> 255" using unat_and_le [of dev_addr "0xff"] by simp
  have n: "unat (num_regs pmc) \<le> 1023" using assms(1) by (simp add: word_le_nat_alt)
  have le: "unat ?d * unat (num_regs pmc) \<le> 255 * 1023" using mult_le_mono [OF d n] .
  then have "unat (?d * num_regs pmc) = unat ?d * unat (num_regs pmc)"
    by (subst unat_mult_lem [symmetric]) simp
  with le have "?d * num_regs pmc < 2 ^ 18" by (simp add: word_less_nat_alt)
  with assms(2) show ?thesis unfolding pmb_address_def by (intro or_less_2p) simp_all
qed

lemma bit_3_iff: "bit (3::u32) i \<longleftrightarrow> i = 0 \<or> i = 1"
proof -
  have "bit (mask 2 :: u32) i \<longleftrightarrow> i = 0 \<or> i = 1" unfolding bit_mask_iff by auto
  then show ?thesis by (simp add: mask_eq_exp_minus_1)
qed

lemma bit_pmb_bus: "bit (pmb_bus d) i \<longleftrightarrow> (i = 0 \<or> i = 1) \<and> bit d (12 + i)"
  unfolding pmb_bus_def bit_and_iff bit_3_iff bit_drop_bit_eq by auto

lemma BIT_24_neq_0: "(BIT 24 :: u32) \<noteq> 0"
  by (simp add: BIT_def)

lemma bit_pmb_cmd:
  assumes "num_regs pmc \<le> 0x3ff" and "word < 2 ^ 18" and "opc = PMC_PMBM_READ \<or> opc = PMC_PMBM_WRITE"
  shows "bit (pmb_cmd pmc opc dev_addr word) i \<longleftrightarrow>
    i = 31 \<or> (i = 24 \<and> opc = PMC_PMBM_WRITE) \<or> ((i = 20 \<or> i = 21) \<and> bit dev_addr (i - 8)) \<or>
    (i < 18 \<and> bit (pmb_address pmc dev_addr word) i)"
proof -
  have a: "\<not> bit (pmb_address pmc dev_addr word) i" if "18 \<le> i" for i
    using pmb_address_bound [OF assms(1,2)] that by (rule less_2p_not_bit)
  show ?thesis
    unfolding pmb_cmd_def using assms(3) a [of i]
    by (cases "i = 20"; cases "i = 21"; cases "i < 18")
      (auto simp: bit_or_iff bit_push_bit_iff bit_pmb_bus BIT_24_neq_0)
qed

text \<open>Every command word carries exactly the fields it was built from: START set, neither
  status bit set, the operation in bit 24, the bus id in bits 21:20 and the PMB address below;
  the address never runs into the bus field, for any register stride the probe accepts.\<close>

theorem pmb_cmd_fields:
  assumes "num_regs pmc \<le> 0x3ff" and "word < 2 ^ 18" and "opc = PMC_PMBM_READ \<or> opc = PMC_PMBM_WRITE"
  shows "let cmd = pmb_cmd pmc opc dev_addr word in
    cmd AND PMC_PMBM_START \<noteq> 0 \<and> cmd AND PMC_PMBM_BUSY = 0 \<and> cmd AND PMC_PMBM_TIMEOUT = 0 \<and>
    (cmd AND PMC_PMBM_WRITE \<noteq> 0 \<longleftrightarrow> opc = PMC_PMBM_WRITE) \<and>
    drop_bit PMC_PMBM_BUS_SHIFT cmd AND 0x3 = pmb_bus dev_addr \<and>
    cmd AND mask 20 = pmb_address pmc dev_addr word"
proof -
  note b = bit_pmb_cmd [OF assms]
  have a: "bit (pmb_address pmc dev_addr word) i \<Longrightarrow> i < 18" for i
    using less_2p_not_bit [OF pmb_address_bound [OF assms(1,2)]] by (meson not_less)
  have bus: "drop_bit PMC_PMBM_BUS_SHIFT (pmb_cmd pmc opc dev_addr word) AND 0x3 = pmb_bus dev_addr"
    by (rule bit_word_eqI) (auto simp: b bit_and_iff bit_drop_bit_eq bit_3_iff bit_pmb_bus)
  have adr: "pmb_cmd pmc opc dev_addr word AND mask 20 = pmb_address pmc dev_addr word"
    by (rule bit_word_eqI) (auto simp: b bit_and_iff bit_mask_iff dest: a)
  show ?thesis
    unfolding Let_def using bus adr by (simp add: and_BIT_eq_0_iff b)
qed

theorem pmb_cmd_fields_witness:
  "let cmd = pmb_cmd \<lparr>num_regs = 64\<rparr> PMC_PMBM_WRITE PMB_ADDR_WLAN1 BPCM_W_SR_CONTROL in
    cmd AND PMC_PMBM_START \<noteq> 0 \<and> cmd AND PMC_PMBM_BUSY = 0 \<and> cmd AND PMC_PMBM_TIMEOUT = 0 \<and>
    cmd AND PMC_PMBM_WRITE \<noteq> 0 \<and>
    drop_bit PMC_PMBM_BUS_SHIFT cmd AND 0x3 = pmb_bus PMB_ADDR_WLAN1 \<and>
    cmd AND mask 20 = pmb_address \<lparr>num_regs = 64\<rparr> PMB_ADDR_WLAN1 BPCM_W_SR_CONTROL"
  using pmb_cmd_fields [of "\<lparr>num_regs = 64\<rparr>" "BPCM_W_SR_CONTROL" PMC_PMBM_WRITE PMB_ADDR_WLAN1]
  by (simp add: Let_def)

section \<open>Locking\<close>

text \<open>The keyhole registers are the ones the driver's spinlock serialises.\<close>

definition keyhole_reg :: "win \<Rightarrow> nat \<Rightarrow> bool" where
  "keyhole_reg w off \<longleftrightarrow> w = Procmon \<and> KH_CONTROL \<le> off \<and> off \<le> KH_RD_DATA"

text \<open>The invariant between two calls: the spinlock is free, every keyhole access so far was made
  under it, and a bound driver has a stride the probe accepted.\<close>

definition pmc_inv :: "'z pmc_world_scheme \<Rightarrow> bool" where
  "pmc_inv s \<longleftrightarrow> \<not> held PmcLock (io_log s) \<and> lock_ok PmcLock keyhole_reg (io_log s) \<and>
     (\<forall>p. g_pmc s = Some p \<longrightarrow> num_regs p \<noteq> 0 \<and> num_regs p \<le> 0x3ff)"

definition pmc_locked :: "'z pmc_world_scheme \<Rightarrow> bool" where
  "pmc_locked s \<longleftrightarrow> held PmcLock (io_log s) \<and> lock_ok PmcLock keyhole_reg (io_log s) \<and>
     (\<forall>p. g_pmc s = Some p \<longrightarrow> num_regs p \<noteq> 0 \<and> num_regs p \<le> 0x3ff)"

lemma pmb_wait_done_locked: "keeps pmc_locked (pmb_wait_done E)"
  unfolding pmb_wait_done_def
  by (intro keeps_rules keeps_readl keeps_emit) (simp_all add: pmc_locked_def)

lemma pmc6764_read_bpcm_inv [keeps_rules]: "keeps pmc_inv (pmc6764_read_bpcm E d w)"
proof (rule keepsI)
  fix s :: "'a pmc_world_scheme"
  assume "pmc_inv s"
  then show "wp (pmc6764_read_bpcm E d w) (\<lambda>_. pmc_inv) s"
    unfolding pmc6764_read_bpcm_def
    by (auto simp: wp_simps pmc_inv_def pmc_locked_def split: option.split sum.split
        intro!: wp_mono [OF keeps_wp [OF pmb_wait_done_locked]])
qed

lemma pmc6764_write_bpcm_inv [keeps_rules]: "keeps pmc_inv (pmc6764_write_bpcm E d w v)"
proof (rule keepsI)
  fix s :: "'a pmc_world_scheme"
  assume "pmc_inv s"
  then show "wp (pmc6764_write_bpcm E d w v) (\<lambda>_. pmc_inv) s"
    unfolding pmc6764_write_bpcm_def
    by (auto simp: wp_simps pmc_inv_def pmc_locked_def split: option.split sum.split
        intro!: wp_mono [OF keeps_wp [OF pmb_wait_done_locked]])
qed

lemma pmc_inv_mark [keeps_rules]: "keeps pmc_inv (mark m)"
  by (rule keeps_emit) (simp add: pmc_inv_def)

lemma pmc_inv_delay [keeps_rules]: "keeps pmc_inv (delay_us n)"
  by (rule keeps_emit) (simp add: pmc_inv_def)

lemma pmc_inv_kcall [keeps_rules]: "keeps pmc_inv (kcall E c)"
  by (rule keeps_kcall) (simp add: pmc_inv_def)

lemma pmc6764_power_on_zone_inv [keeps_rules]: "keeps pmc_inv (pmc6764_power_on_zone E d z)"
  unfolding pmc6764_power_on_zone_def by (intro keeps_rules)

lemma pmc6764_power_on_device_inv [keeps_rules]: "keeps pmc_inv (pmc6764_power_on_device E d)"
  unfolding pmc6764_power_on_device_def by (intro keeps_rules)

lemma pmc6764_wait_zone_powered_inv [keeps_rules]: "keeps pmc_inv (pmc6764_wait_zone_powered E d z)"
  unfolding pmc6764_wait_zone_powered_def by (intro keeps_rules)

lemma pmc6764_wlan_power_up_inv [keeps_rules]: "keeps pmc_inv (pmc6764_wlan_power_up E u)"
  unfolding pmc6764_wlan_power_up_def by (intro keeps_rules)

lemma pmc6764_wlan_power_down_inv [keeps_rules]: "keeps pmc_inv (pmc6764_wlan_power_down E u)"
  unfolding pmc6764_wlan_power_down_def by (intro keeps_rules)

lemma pmc6764_switch_power_up_inv [keeps_rules]: "keeps pmc_inv (pmc6764_switch_power_up E)"
  unfolding pmc6764_switch_power_up_def by (intro keeps_rules)

lemma pmc6764_sysport_reset_inv [keeps_rules]: "keeps pmc_inv (pmc6764_sysport_reset E)"
  unfolding pmc6764_sysport_reset_def by (intro keeps_rules)

lemma pmc6764_probe_inv [keeps_rules]: "keeps pmc_inv (pmc6764_probe E)"
proof -
  have mask: "drop_bit 20 config AND 0x3ff \<le> (0x3ff :: u32)" for config
    by (rule word_and_le1)
  show ?thesis
    unfolding pmc6764_probe_def Let_def
    by (intro keepsI) (use mask in \<open>auto simp: wp_simps pmc_inv_def keyhole_reg_def\<close>)
qed

lemma pmc6764_remove_inv [keeps_rules]: "keeps pmc_inv pmc6764_remove"
  unfolding pmc6764_remove_def by (rule keeps_modify) (simp add: pmc_inv_def)

text \<open>The exported operations, and one call of one of them as a step.\<close>

datatype pmc_op =
    PmcProbe | PmcRemove | ReadBpcm u32 u32 | WriteBpcm u32 u32 u32
  | WlanUp int | WlanDown int | SwitchUp | SysportReset

fun pmc_exec :: "env \<Rightarrow> pmc_op \<Rightarrow> 'z pmc_world_scheme \<Rightarrow> 'z pmc_world_scheme" where
  "pmc_exec E PmcProbe s = snd (run_state (pmc6764_probe E) s)"
| "pmc_exec E PmcRemove s = snd (run_state pmc6764_remove s)"
| "pmc_exec E (ReadBpcm d w) s = snd (run_state (pmc6764_read_bpcm E d w) s)"
| "pmc_exec E (WriteBpcm d w v) s = snd (run_state (pmc6764_write_bpcm E d w v) s)"
| "pmc_exec E (WlanUp u) s = snd (run_state (pmc6764_wlan_power_up E u) s)"
| "pmc_exec E (WlanDown u) s = snd (run_state (pmc6764_wlan_power_down E u) s)"
| "pmc_exec E SwitchUp s = snd (run_state (pmc6764_switch_power_up E) s)"
| "pmc_exec E SysportReset s = snd (run_state (pmc6764_sysport_reset E) s)"

interpretation pmc_sys: inv_system
  "\<lambda>s. io_log s = [] \<and> g_pmc s = None" "pmc_exec E" "pmc_inv :: 'z pmc_world_scheme \<Rightarrow> bool" for E
proof
  fix s :: "'z pmc_world_scheme"
  assume "io_log s = [] \<and> g_pmc s = None"
  then show "pmc_inv s" by (simp add: pmc_inv_def)
next
  fix s :: "'z pmc_world_scheme" and opn
  assume "pmc_inv s"
  then show "pmc_inv (pmc_exec E opn s)"
    by (cases opn) (auto intro!: keeps_run keeps_rules)
qed

text \<open>C2: in every history of exported PMC operations, whatever the hardware answers and whichever
  kernel calls fail, the keyhole spinlock is balanced, every keyhole access happens while it is
  held, and a bound driver never has a zero or oversized register stride.\<close>

theorem pmc_ops_locked:
  assumes "io_log s = []" and "g_pmc s = None"
  shows "pmc_inv (fold (pmc_exec E) ops s)"
  using assms pmc_sys.reachable_inv by blast

theorem pmc_ops_locked_witness:
  "pmc_inv (fold (pmc_exec (ram_env (\<lambda>_ _. 0x20000000))) [PmcProbe, SwitchUp, WlanUp 7, PmcRemove, SysportReset]
     \<lparr>io_log = [], g_pmc = None\<rparr>)"
  by (rule pmc_ops_locked) simp_all

section \<open>The keyhole as a device\<close>

text \<open>What the keyhole does with the accesses of a log: \<open>KH_WR_DATA\<close> latches a word, a command
  with START writes that latch to, or loads the read latch from, the BPCM register the command
  addresses (bits 21:0 hold bus and address).\<close>

record keyhole =
  kh_wdata :: u32
  kh_rdata :: u32
  kh_file :: "u32 \<Rightarrow> u32"

definition bpcm_sel :: "u32 \<Rightarrow> u32" where
  "bpcm_sel cmd = cmd AND mask 22"

definition keyhole_wr :: "nat \<Rightarrow> u32 \<Rightarrow> keyhole \<Rightarrow> keyhole" where
  "keyhole_wr off v k =
     (if off = KH_WR_DATA then k\<lparr>kh_wdata := v\<rparr>
      else if off = KH_CONTROL \<and> v AND PMC_PMBM_START \<noteq> 0 then
        (if v AND PMC_PMBM_WRITE \<noteq> 0
         then k\<lparr>kh_file := (kh_file k)(bpcm_sel v := kh_wdata k)\<rparr>
         else k\<lparr>kh_rdata := kh_file k (bpcm_sel v)\<rparr>)
      else k)"

fun keyhole_of :: "(u32 \<Rightarrow> u32) \<Rightarrow> event list \<Rightarrow> keyhole" where
  "keyhole_of rst [] = \<lparr>kh_wdata = 0, kh_rdata = 0, kh_file = rst\<rparr>"
| "keyhole_of rst (Wr w off v # es) =
     (if w = Procmon then keyhole_wr off v (keyhole_of rst es) else keyhole_of rst es)"
| "keyhole_of rst (_ # es) = keyhole_of rst es"

fun polls_since :: "event list \<Rightarrow> nat" where
  "polls_since [] = 0"
| "polls_since (Rd w off v # es) =
     (if w = Procmon \<and> off = KH_CONTROL then Suc (polls_since es) else polls_since es)"
| "polls_since (Wr w off v # es) =
     (if w = Procmon \<and> off = KH_CONTROL then 0 else polls_since es)"
| "polls_since (_ # es) = polls_since es"

text \<open>A working keyhole with latency \<open>lat\<close>: it returns its read latch, never reports a bus
  timeout, and is no longer busy after \<open>lat\<close> polls of a command.\<close>

definition keyhole_hw :: "env \<Rightarrow> (u32 \<Rightarrow> u32) \<Rightarrow> nat \<Rightarrow> bool" where
  "keyhole_hw E rst lat \<longleftrightarrow>
     (\<forall>log. env_rd E log Procmon KH_RD_DATA = kh_rdata (keyhole_of rst log)) \<and>
     (\<forall>log. env_rd E log Procmon KH_CONTROL AND PMC_PMBM_TIMEOUT = 0) \<and>
     (\<forall>log. lat \<le> polls_since log \<longrightarrow> env_rd E log Procmon KH_CONTROL AND PMC_PMBM_BUSY = 0)"

definition keyhole_env :: "(u32 \<Rightarrow> u32) \<Rightarrow> nat \<Rightarrow> env" where
  "keyhole_env rst lat = \<lparr>env_rd = (\<lambda>log w off.
      if w = Procmon \<and> off = KH_RD_DATA then kh_rdata (keyhole_of rst log)
      else if w = Procmon \<and> off = KH_CONTROL \<and> polls_since log < lat then PMC_PMBM_BUSY
      else 0), env_call = (\<lambda>_ _. 1)\<rparr>"

lemma keyhole_env_hw: "keyhole_hw (keyhole_env rst lat) rst lat"
  by (auto simp: keyhole_hw_def keyhole_env_def and_BIT_eq_0_iff)

abbreviation bpcm_file :: "(u32 \<Rightarrow> u32) \<Rightarrow> event list \<Rightarrow> u32 \<Rightarrow> u32" where
  "bpcm_file rst log \<equiv> kh_file (keyhole_of rst log)"

definition bpcm_key :: "pmc6764 \<Rightarrow> u32 \<Rightarrow> u32 \<Rightarrow> u32" where
  "bpcm_key pmc d w = bpcm_sel (pmb_cmd pmc PMC_PMBM_READ d w)"

definition is_poll :: "event \<Rightarrow> bool" where
  "is_poll e = (case e of Rd _ _ _ \<Rightarrow> True | Delay _ \<Rightarrow> True | _ \<Rightarrow> False)"

lemma is_poll_simps [simp]: "is_poll (Rd w off v)" "is_poll (Delay n)"
  by (simp_all add: is_poll_def)

lemma keyhole_of_polls: "grows is_poll s s' \<Longrightarrow> keyhole_of rst (io_log s') = keyhole_of rst (io_log s)"
proof -
  have "list_all is_poll evs \<Longrightarrow> keyhole_of rst (evs @ log) = keyhole_of rst log" for evs log
    by (induction evs) (auto simp: is_poll_def split: event.splits)
  then show "grows is_poll s s' \<Longrightarrow> ?thesis" by (auto simp: grows_def)
qed

lemma pmb_poll_hw:
  assumes "keyhole_hw E rst lat" and "lat \<le> polls_since (io_log s) + n"
  shows "wp (poll_loop (Suc n) (do {
       ctl \<leftarrow> readl E Procmon KH_CONTROL;
       if ctl AND PMC_PMBM_BUSY = 0 then return (Some ctl)
       else do { delay_us 1; return None } }))
     (\<lambda>r s'. \<exists>ctl. r = Some ctl \<and> ctl AND PMC_PMBM_TIMEOUT = 0 \<and> grows is_poll s s') s"
  using assms(2)
proof (induction n arbitrary: s)
  case 0
  with assms(1) show ?case
    by (auto simp: wp_simps keyhole_hw_def)
next
  case (Suc n)
  let ?c = "env_rd E (io_log s) Procmon KH_CONTROL"
  let ?t = "s\<lparr>io_log := Delay 1 # Rd Procmon KH_CONTROL ?c # io_log s\<rparr>"
  have st: "grows is_poll s ?t" by auto
  show ?case
  proof (cases "?c AND PMC_PMBM_BUSY = 0")
    case True
    with assms(1) show ?thesis
      by (subst poll_loop.simps) (auto simp: wp_simps keyhole_hw_def simp del: poll_loop.simps)
  next
    case False
    have "lat \<le> polls_since (io_log ?t) + n" using Suc.prems by simp
    from wp_mono [OF Suc.IH [OF this], of "\<lambda>r s'. \<exists>ctl. r = Some ctl \<and> ctl AND PMC_PMBM_TIMEOUT = 0 \<and> grows is_poll s s'"]
      grows_trans [OF st]
    show ?thesis using False
      by (subst poll_loop.simps) (simp add: wp_simps del: poll_loop.simps, blast)
  qed
qed

lemma pmb_wait_done_hw:
  assumes "keyhole_hw E rst lat" and "lat < PMB_BUSY_POLLS"
    and "\<And>ctl s'. ctl AND PMC_PMBM_TIMEOUT = 0 \<Longrightarrow> grows is_poll s s' \<Longrightarrow> Q (Inr ctl) s'"
  shows "wp (pmb_wait_done E) Q s"
proof -
  have n: "PMB_BUSY_POLLS = Suc 999" by simp
  show ?thesis
    unfolding pmb_wait_done_def wp_bind wp_return n
    by (rule wp_mono [OF pmb_poll_hw [OF assms(1)]]) (use assms(2,3) in auto)
qed

text \<open>Two addresses select the same register in a read and in a write command.\<close>

lemma bpcm_sel_cmd:
  assumes "num_regs pmc \<le> 0x3ff" and "w < 2 ^ 18" and "opc = PMC_PMBM_READ \<or> opc = PMC_PMBM_WRITE"
  shows "bpcm_sel (pmb_cmd pmc opc d w) = bpcm_key pmc d w"
  unfolding bpcm_key_def bpcm_sel_def
  by (rule bit_word_eqI)
    (auto simp: bit_and_iff bit_mask_iff bit_pmb_cmd [OF assms(1,2)] assms(3) BIT_24_neq_0)

lemma cmd_start: "num_regs pmc \<le> 0x3ff \<Longrightarrow> w < 2 ^ 18 \<Longrightarrow> opc = PMC_PMBM_READ \<or> opc = PMC_PMBM_WRITE \<Longrightarrow>
   pmb_cmd pmc opc d w AND PMC_PMBM_START \<noteq> 0"
  by (simp add: and_BIT_eq_0_iff bit_pmb_cmd)

lemma cmd_write: "num_regs pmc \<le> 0x3ff \<Longrightarrow> w < 2 ^ 18 \<Longrightarrow> opc = PMC_PMBM_READ \<or> opc = PMC_PMBM_WRITE \<Longrightarrow>
   pmb_cmd pmc opc d w AND PMC_PMBM_WRITE \<noteq> 0 \<longleftrightarrow> opc = PMC_PMBM_WRITE"
  by (simp add: and_BIT_eq_0_iff bit_pmb_cmd)

text \<open>On a working keyhole the two accessors refine a register file: a read returns the addressed
  register and changes nothing, a write updates it and nothing else.\<close>

lemma is_poll_unmarked: "is_poll e \<Longrightarrow> unmarked e"
  by (cases e) (simp_all add: is_poll_def)

lemma grows_pmc: "grows P s s' \<Longrightarrow> g_pmc s' = g_pmc s" for s s' :: "'z pmc_world_scheme"
  by (auto simp: grows_def)

lemma pmc6764_read_bpcm_hw:
  assumes hw: "keyhole_hw E rst lat" "lat < PMB_BUSY_POLLS"
    and s: "g_pmc s = Some pmc" "num_regs pmc \<le> 0x3ff" and w: "w < 2 ^ 18"
    and Q: "\<And>s'. grows unmarked s s' \<Longrightarrow> bpcm_file rst (io_log s') = bpcm_file rst (io_log s) \<Longrightarrow>
       Q (Inr (bpcm_file rst (io_log s) (bpcm_key pmc d w))) s'"
  shows "wp (pmc6764_read_bpcm E d w) Q s"
proof -
  let ?cmd = "pmb_cmd pmc PMC_PMBM_READ d w"
  let ?t = "s\<lparr>io_log := Wr Procmon KH_CONTROL ?cmd # Acq PmcLock # io_log s\<rparr>"
  have kt: "keyhole_of rst (io_log ?t) =
      (keyhole_of rst (io_log s))\<lparr>kh_rdata := bpcm_file rst (io_log s) (bpcm_key pmc d w)\<rparr>"
    using cmd_start [OF s(2) w, of 0] cmd_write [OF s(2) w, of 0] bpcm_sel_cmd [OF s(2) w, of 0]
    by (simp add: keyhole_wr_def BIT_24_neq_0)
  have "wp (pmb_wait_done E) (\<lambda>r s1. \<exists>ctl. r = Inr ctl \<and> ctl AND PMC_PMBM_TIMEOUT = 0 \<and>
      grows is_poll ?t s1) ?t"
    by (rule pmb_wait_done_hw [OF hw]) blast
  moreover
  {
    fix s1
    assume g: "grows is_poll ?t s1"
    note k1 = trans [OF keyhole_of_polls [OF g] kt]
    let ?v = "env_rd E (io_log s1) Procmon KH_RD_DATA"
    have v: "?v = bpcm_file rst (io_log s) (bpcm_key pmc d w)"
      using hw(1) by (simp add: keyhole_hw_def k1)
    have "grows unmarked ?t s1" using g is_poll_unmarked by (rule grows_mono)
    then have "grows unmarked s s1" by (rule grows_trans [rotated]) simp
    then have "Q (Inr ?v) (s1\<lparr>io_log := Rel PmcLock # Rd Procmon KH_RD_DATA ?v # io_log s1\<rparr>)"
      unfolding v by (intro Q) (simp_all add: k1)
  }
  ultimately show ?thesis
    unfolding pmc6764_read_bpcm_def
    by (auto simp: wp_simps s elim!: wp_mono)
qed

lemma pmc6764_write_bpcm_hw:
  assumes hw: "keyhole_hw E rst lat" "lat < PMB_BUSY_POLLS"
    and s: "g_pmc s = Some pmc" "num_regs pmc \<le> 0x3ff" and w: "w < 2 ^ 18"
    and Q: "\<And>s'. grows unmarked s s' \<Longrightarrow>
       bpcm_file rst (io_log s') = (bpcm_file rst (io_log s))(bpcm_key pmc d w := v) \<Longrightarrow> Q (Inr ()) s'"
  shows "wp (pmc6764_write_bpcm E d w v) Q s"
proof -
  let ?cmd = "pmb_cmd pmc PMC_PMBM_WRITE d w"
  let ?t = "s\<lparr>io_log := Wr Procmon KH_CONTROL ?cmd # Wr Procmon KH_WR_DATA v # Acq PmcLock # io_log s\<rparr>"
  have kt: "bpcm_file rst (io_log ?t) = (bpcm_file rst (io_log s))(bpcm_key pmc d w := v)"
    using cmd_start [OF s(2) w, of PMC_PMBM_WRITE] cmd_write [OF s(2) w, of PMC_PMBM_WRITE]
      bpcm_sel_cmd [OF s(2) w, of PMC_PMBM_WRITE]
    by (simp add: keyhole_wr_def)
  have "wp (pmb_wait_done E) (\<lambda>r s1. \<exists>ctl. r = Inr ctl \<and> ctl AND PMC_PMBM_TIMEOUT = 0 \<and>
      grows is_poll ?t s1) ?t"
    by (rule pmb_wait_done_hw [OF hw]) blast
  moreover
  {
    fix s1
    assume g: "grows is_poll ?t s1"
    note k1 = trans [OF arg_cong [where f = kh_file, OF keyhole_of_polls [OF g]] kt]
    have "grows unmarked ?t s1" using g is_poll_unmarked by (rule grows_mono)
    then have "grows unmarked s s1" by (rule grows_trans [rotated]) simp
    then have "Q (Inr ()) (s1\<lparr>io_log := Rel PmcLock # io_log s1\<rparr>)"
      by (intro Q) (simp_all add: k1)
  }
  ultimately show ?thesis
    unfolding pmc6764_write_bpcm_def
    by (auto simp: wp_simps s elim!: wp_mono)
qed

text \<open>What powering a zone up means for the register file.\<close>

definition zone_up_spec :: "pmc6764 \<Rightarrow> u32 \<Rightarrow> nat \<Rightarrow> (u32 \<Rightarrow> u32) \<Rightarrow> (u32 \<Rightarrow> u32)" where
  "zone_up_spec pmc d z f =
     (let ctrl = bpcm_key pmc d (BPCM_W_ZONE_CTRL z); sts = bpcm_key pmc d (BPCM_W_ZONE_STATUS z) in
      if f sts AND ZONE_STS_PWR_ON_STATE \<noteq> 0 then f
      else f(ctrl := (f ctrl AND NOT ZONE_CTRL_PWR_DN_REQ) OR
               (ZONE_CTRL_DPG_CTL_EN OR ZONE_CTRL_PWR_UP_REQ OR
                ZONE_CTRL_MEM_PWR_CTL_EN OR ZONE_CTRL_BLK_RESET_ASSERT)))"

lemma zone_word_bound:
  assumes "z < 128"
  shows "BPCM_W_ZONE_CTRL z < 2 ^ 18" and "BPCM_W_ZONE_STATUS z < 2 ^ 18"
proof -
  have *: "of_nat n < (2 ^ 18 :: u32)" if "n < 2000" for n
    using that by (simp add: word_less_nat_alt unat_of_nat)
  show "BPCM_W_ZONE_CTRL z < 2 ^ 18" unfolding BPCM_W_ZONE_CTRL_def by (rule *) (use assms in simp)
  show "BPCM_W_ZONE_STATUS z < 2 ^ 18" unfolding BPCM_W_ZONE_STATUS_def by (rule *) (use assms in simp)
qed

lemma pmc6764_power_on_zone_hw:
  assumes hw: "keyhole_hw E rst lat" "lat < PMB_BUSY_POLLS"
    and s: "g_pmc s = Some pmc" "num_regs pmc \<le> 0x3ff" and z: "z < 128"
  shows "wp (pmc6764_power_on_zone E d z) (\<lambda>r s'. r = Inr () \<and> grows unmarked s s' \<and>
     bpcm_file rst (io_log s') = zone_up_spec pmc d z (bpcm_file rst (io_log s))) s"
proof -
  note zb = zone_word_bound [OF z]
  show ?thesis
    unfolding pmc6764_power_on_zone_def wp_bindE
    apply (rule pmc6764_read_bpcm_hw [OF hw s zb(1)])
    apply (simp only: sum.case wp_bindE)
    apply (rule pmc6764_read_bpcm_hw [OF hw _ s(2) zb(2)])
     apply (simp add: grows_pmc s)
    apply (auto simp: wp_simps zone_up_spec_def Let_def grows_pmc s intro: grows_trans
        intro!: pmc6764_write_bpcm_hw [OF hw _ s(2) zb(1)])
    done
qed

definition bpcm_zones :: "pmc6764 \<Rightarrow> u32 \<Rightarrow> (u32 \<Rightarrow> u32) \<Rightarrow> nat" where
  "bpcm_zones pmc d f = unat (f (bpcm_key pmc d BPCM_W_CAPABILITIES) AND BPCM_CAP_NUM_ZONES_MASK)"

lemma pmc6764_power_on_device_hw:
  assumes hw: "keyhole_hw E rst lat" "lat < PMB_BUSY_POLLS"
    and s: "g_pmc s = Some pmc" "num_regs pmc \<le> 0x3ff"
    and n: "bpcm_zones pmc d (bpcm_file rst (io_log s)) = n"
  shows "wp (pmc6764_power_on_device E d) (\<lambda>r s'. grows unmarked s s' \<and>
     (if n = 0 \<or> n > 32 then r = Inl EIO \<and> bpcm_file rst (io_log s') = bpcm_file rst (io_log s)
      else r = Inr () \<and> bpcm_file rst (io_log s') =
             fold (zone_up_spec pmc d) [0..<n] (bpcm_file rst (io_log s)))) s"
    (is "wp _ ?Q s")
proof -
  let ?I = "\<lambda>zs s'. grows unmarked s s' \<and>
      bpcm_file rst (io_log s') = fold (zone_up_spec pmc d) zs (bpcm_file rst (io_log s))"
  have loop: "wp (for_eachE [0..<n] (pmc6764_power_on_zone E d)) ?Q s1"
    if "0 < n" "n \<le> 32" "?I [] s1" for s1
  proof (rule wp_for_eachE_inv [where I = ?I])
    fix xs z ys s2
    assume split: "[0..<n] = xs @ z # ys" and I: "?I xs s2"
    have "z \<in> set [0..<n]" unfolding split by simp
    with that(2) have z: "z < 128" by simp
    from I s(1) have p: "g_pmc s2 = Some pmc" by (auto dest: grows_pmc)
    show "wp (pmc6764_power_on_zone E d z)
       (\<lambda>r s''. case r of Inl e \<Rightarrow> ?Q (Inl e) s'' | Inr _ \<Rightarrow> ?I (xs @ [z]) s'') s2"
      by (rule wp_mono [OF pmc6764_power_on_zone_hw [OF hw p s(2) z]]) (use I grows_trans in auto)
  qed (use that in auto)
  show ?thesis
    unfolding pmc6764_power_on_device_def wp_bindE
    by (rule pmc6764_read_bpcm_hw [OF hw s]) (use n loop in \<open>auto simp: Let_def wp_simps bpcm_zones_def\<close>)
qed

text \<open>C3: on a working keyhole, powering a BPCM up is exactly the documented register effect: it
  succeeds when the capabilities register reports 1 to 32 zones, and then every zone that is not
  yet on gets its power-up request, enable and reset bits set and its power-down request cleared,
  in order, and no other BPCM register changes; an implausible zone count is rejected and leaves
  every register alone.\<close>

theorem pmc6764_power_on_device_refines:
  assumes "keyhole_hw E rst lat" and "lat < PMB_BUSY_POLLS"
    and "g_pmc s = Some pmc" and "num_regs pmc \<le> 0x3ff"
    and "run_state (pmc6764_power_on_device E d) s = (r, s')"
  shows "let f = bpcm_file rst (io_log s); n = bpcm_zones pmc d f in
     marks_of (io_log s') = marks_of (io_log s) \<and>
     (if n = 0 \<or> n > 32 then r = Inl EIO \<and> bpcm_file rst (io_log s') = f
      else r = Inr () \<and> bpcm_file rst (io_log s') = fold (zone_up_spec pmc d) [0..<n] f)"
  using wpD [OF pmc6764_power_on_device_hw [OF assms(1-4) refl] assms(5)] grows_marks
  by (auto simp: Let_def)

theorem pmc6764_power_on_device_refines_witness:
  "let p = \<lparr>num_regs = 512\<rparr>; rst = (\<lambda>_. 0)(bpcm_key p PMB_ADDR_SWITCH BPCM_W_CAPABILITIES := 4);
       res = run_state (pmc6764_power_on_device (keyhole_env rst 3) PMB_ADDR_SWITCH)
               \<lparr>io_log = [], g_pmc = Some p\<rparr>
   in fst res = Inr () \<and> marks_of (io_log (snd res)) = [] \<and>
      bpcm_file rst (io_log (snd res)) = fold (zone_up_spec p PMB_ADDR_SWITCH) [0..<4] rst"
  using pmc6764_power_on_device_refines [OF keyhole_env_hw, of 3 "\<lparr>io_log = [], g_pmc = Some \<lparr>num_regs = 512\<rparr>\<rparr>"
      "\<lparr>num_regs = 512\<rparr>" "(\<lambda>_. 0)(bpcm_key \<lparr>num_regs = 512\<rparr> PMB_ADDR_SWITCH BPCM_W_CAPABILITIES := 4)"
      PMB_ADDR_SWITCH, OF _ _ _ prod.collapse [symmetric]]
  by (simp add: Let_def bpcm_zones_def)

section \<open>Stage markers\<close>

definition powered_rd :: "event \<Rightarrow> bool" where
  "powered_rd e \<longleftrightarrow> (\<exists>v. e = Rd Procmon KH_RD_DATA v \<and> v AND ZONE_STS_PWR_ON_STATE \<noteq> 0)"

lemma pmb_wait_done_unmarked [emits_rules]: "emits unmarked (pmb_wait_done E)"
  unfolding pmb_wait_done_def by (intro emits_rules) simp_all

lemma pmc6764_read_bpcm_unmarked [emits_rules]: "emits unmarked (pmc6764_read_bpcm E d w)"
  unfolding pmc6764_read_bpcm_def by (intro emits_rules) simp_all

lemma pmc6764_write_bpcm_unmarked [emits_rules]: "emits unmarked (pmc6764_write_bpcm E d w v)"
  unfolding pmc6764_write_bpcm_def by (intro emits_rules) simp_all

lemma pmc6764_power_on_device_unmarked [emits_rules]: "emits unmarked (pmc6764_power_on_device E d)"
  unfolding pmc6764_power_on_device_def pmc6764_power_on_zone_def by (intro emits_rules)

text \<open>A successful read hands out the value it read from the keyhole.\<close>

lemma pmc6764_read_bpcm_evidence:
  assumes "ext_by unmarked L (io_log s)"
  shows "wp (pmc6764_read_bpcm E d w) (\<lambda>r s'. ext_by unmarked L (io_log s') \<and>
     (\<forall>v. r = Inr v \<longrightarrow> ext_with unmarked (\<lambda>e. e = Rd Procmon KH_RD_DATA v) L (io_log s'))) s"
proof -
  have "wp (pmb_wait_done E) (\<lambda>_ s'. ext_by unmarked L (io_log s')) t" if "ext_by unmarked L (io_log t)"
    for t :: "'a pmc_world_scheme"
    using that by (intro emits_ext_by pmb_wait_done_unmarked)
  note wait = wp_mono [OF this]
  show ?thesis
    unfolding pmc6764_read_bpcm_def using assms
    by (auto simp: wp_simps ext_with_Cons1 intro!: wait split: option.split sum.split)
qed

lemma powered_rdI:
  "ext_with P (\<lambda>e. e = Rd Procmon KH_RD_DATA v) L L' \<Longrightarrow> v AND ZONE_STS_PWR_ON_STATE \<noteq> 0 \<Longrightarrow>
     ext_with P powered_rd L L'"
  by (erule ext_with_mono) (simp add: powered_rd_def)

lemma pmc6764_wait_zone_powered_evidence:
  assumes "ext_by unmarked L (io_log s)"
  shows "wp (pmc6764_wait_zone_powered E d z) (\<lambda>r s'. ext_by unmarked L (io_log s') \<and>
     (r = Inr () \<longrightarrow> ext_with unmarked powered_rd L (io_log s'))) s"
  unfolding pmc6764_wait_zone_powered_def wp_bind wp_return
proof (rule wp_poll_loop [where I = "\<lambda>s'. ext_by unmarked L (io_log s')"], goal_cases)
  case 1
  show ?case by (rule assms)
next
  case (2 t)
  show ?case
    unfolding wp_bind
    by (rule wp_mono [OF pmc6764_read_bpcm_evidence [OF 2]])
      (auto simp: wp_simps elim: powered_rdI split: sum.split)
qed simp


section \<open>Round trip through the keyhole\<close>

text \<open>On a working keyhole a BPCM register written through one transaction is read back by the
  next one, with both transactions succeeding, for every device and word below the address bound.\<close>

theorem pmc6764_bpcm_roundtrip:
  assumes "keyhole_hw E rst lat" and "lat < PMB_BUSY_POLLS"
    and "g_pmc s = Some pmc" and "num_regs pmc \<le> 0x3ff" and "w < 2 ^ 18"
  shows "wp (do { r \<leftarrow> pmc6764_write_bpcm E d w v; r' \<leftarrow> pmc6764_read_bpcm E d w; return (r, r') })
     (\<lambda>rr s'. rr = (Inr (), Inr v) \<and>
        bpcm_file rst (io_log s') = (bpcm_file rst (io_log s))(bpcm_key pmc d w := v)) s"
  unfolding wp_bind
  by (rule pmc6764_write_bpcm_hw [OF assms])
    (auto simp: wp_simps grows_pmc assms(3) intro!: pmc6764_read_bpcm_hw [OF assms(1,2) _ assms(4,5)])

theorem pmc6764_bpcm_roundtrip_witness:
  "wp (do { r \<leftarrow> pmc6764_write_bpcm (keyhole_env (\<lambda>_. 0) 5) PMB_ADDR_WLAN0 BPCM_W_SR_CONTROL 7;
            r' \<leftarrow> pmc6764_read_bpcm (keyhole_env (\<lambda>_. 0) 5) PMB_ADDR_WLAN0 BPCM_W_SR_CONTROL; return (r, r') })
     (\<lambda>rr s'. rr = (Inr (), Inr 7) \<and>
        bpcm_file (\<lambda>_. 0) (io_log s') = (\<lambda>_. 0)(bpcm_key \<lparr>num_regs = 512\<rparr> PMB_ADDR_WLAN0 BPCM_W_SR_CONTROL := 7))
     \<lparr>io_log = [], g_pmc = Some \<lparr>num_regs = 512\<rparr>\<rparr>"
  using pmc6764_bpcm_roundtrip [OF keyhole_env_hw, of 5 "\<lparr>io_log = [], g_pmc = Some \<lparr>num_regs = 512\<rparr>\<rparr>"
      "\<lparr>num_regs = 512\<rparr>" BPCM_W_SR_CONTROL "\<lambda>_. 0" PMB_ADDR_WLAN0 7]
  by simp

end
