(* ===== verification/Sf2.thy ===== *)
theory Sf2
  imports Pmc
begin

text \<open>
  port66/enet66/sf2_6764.c, first part: the switch core register access, the MDIO master
  (Clause 22 and Clause 45), PHY advertisement, power-up and calibration of the internal
  EGPHY.  A register read that the source makes only to print it is kept, because it is a
  bus access; where C leaves the order of such reads open, the model takes them left to
  right.
\<close>

section \<open>Constants (enet6764.h, sf2_6764.c)\<close>

abbreviation (input) SF2_SWITCH_MODE :: nat where "SF2_SWITCH_MODE \<equiv> 0x00058"
abbreviation (input) SF2_SWITCH_CTRL :: nat where "SF2_SWITCH_CTRL \<equiv> 0x00110"
abbreviation (input) SF2_SOFTWARE_RESET :: nat where "SF2_SOFTWARE_RESET \<equiv> 0x003c8"
abbreviation (input) SF2_BRCM_HDR_CTRL :: nat where "SF2_BRCM_HDR_CTRL \<equiv> 0x01018"
definition SF2_PORT_TRAFFIC_CTRL :: "nat \<Rightarrow> nat" where "SF2_PORT_TRAFFIC_CTRL i = 0x00000 + i * 8"
definition SF2_PORT_VLAN_CTRL :: "nat \<Rightarrow> nat" where "SF2_PORT_VLAN_CTRL i = 0x18800 + i * 16"
definition SF2_STS_OVERRIDE_P :: "nat \<Rightarrow> nat" where "SF2_STS_OVERRIDE_P n = 0x72000 + n * 0x10"
abbreviation (input) SF2_IMP_PORT_STATE :: nat where "SF2_IMP_PORT_STATE \<equiv> 0x72080"
abbreviation (input) SF2_DIRECT_DATA_WR :: nat where "SF2_DIRECT_DATA_WR \<equiv> 0x08"
abbreviation (input) SF2_DIRECT_DATA_RD :: nat where "SF2_DIRECT_DATA_RD \<equiv> 0x0c"
abbreviation (input) SF2_MAX_PORTS :: nat where "SF2_MAX_PORTS \<equiv> 8"
abbreviation (input) SF2_IMP_PORT :: nat where "SF2_IMP_PORT \<equiv> 8"

abbreviation (input) SF2_MDIO_CMD :: nat where "SF2_MDIO_CMD \<equiv> 0x00"
abbreviation (input) SF2_MDIO_CFG :: nat where "SF2_MDIO_CFG \<equiv> 0x04"
abbreviation (input) ETHSW_MDIO_BUSY :: u32 where "ETHSW_MDIO_BUSY \<equiv> BIT 29"
abbreviation (input) ETHSW_MDIO_CMD_SHIFT :: nat where "ETHSW_MDIO_CMD_SHIFT \<equiv> 26"
abbreviation (input) ETHSW_MDIO_CMD_C22_READ :: u32 where "ETHSW_MDIO_CMD_C22_READ \<equiv> 2"
abbreviation (input) ETHSW_MDIO_CMD_C22_WRITE :: u32 where "ETHSW_MDIO_CMD_C22_WRITE \<equiv> 1"
abbreviation (input) ETHSW_MDIO_C22_PHY_ADDR_SHIFT :: nat where "ETHSW_MDIO_C22_PHY_ADDR_SHIFT \<equiv> 21"
abbreviation (input) ETHSW_MDIO_C22_PHY_REG_SHIFT :: nat where "ETHSW_MDIO_C22_PHY_REG_SHIFT \<equiv> 16"
abbreviation (input) ETHSW_MDIO_PHY_DATA_MASK :: u32 where "ETHSW_MDIO_PHY_DATA_MASK \<equiv> 0xffff"
abbreviation (input) ETHSW_MDIO_CFG_CLAUSE22 :: u32 where "ETHSW_MDIO_CFG_CLAUSE22 \<equiv> BIT 0"
abbreviation (input) ETHSW_MDIO_CMD_C45_ADDRESS :: u32 where "ETHSW_MDIO_CMD_C45_ADDRESS \<equiv> 0"
abbreviation (input) ETHSW_MDIO_CMD_C45_WRITE :: u32 where "ETHSW_MDIO_CMD_C45_WRITE \<equiv> 1"
abbreviation (input) ETHSW_MDIO_CMD_C45_READ :: u32 where "ETHSW_MDIO_CMD_C45_READ \<equiv> 3"
abbreviation (input) BCM_PHY_ID_M :: u32 where "BCM_PHY_ID_M \<equiv> 0x1f"
abbreviation (input) MDIO_BUSY_POLLS :: nat where "MDIO_BUSY_POLLS \<equiv> 1000"

abbreviation (input) ETHSW_SPHY_CTRL_IDDQ_BIAS :: u32 where "ETHSW_SPHY_CTRL_IDDQ_BIAS \<equiv> BIT 0"
abbreviation (input) ETHSW_SPHY_CTRL_EXT_PWR_DOWN :: u32 where "ETHSW_SPHY_CTRL_EXT_PWR_DOWN \<equiv> BIT 1"
abbreviation (input) ETHSW_SPHY_CTRL_IDDQ_GLOBAL_PWR :: u32 where "ETHSW_SPHY_CTRL_IDDQ_GLOBAL_PWR \<equiv> BIT 3"
abbreviation (input) ETHSW_SPHY_CTRL_RESET :: u32 where "ETHSW_SPHY_CTRL_RESET \<equiv> BIT 5"
abbreviation (input) ETHSW_SPHY_CTRL_PHYAD_SHIFT :: nat where "ETHSW_SPHY_CTRL_PHYAD_SHIFT \<equiv> 8"
abbreviation (input) ETHSW_SPHY_CTRL_PHYAD_MASK :: u32 where "ETHSW_SPHY_CTRL_PHYAD_MASK \<equiv> 0x1f00"

abbreviation (input) ADVERTISE_10HD :: u32 where "ADVERTISE_10HD \<equiv> BIT 12"
abbreviation (input) ADVERTISE_10FD :: u32 where "ADVERTISE_10FD \<equiv> BIT 13"
abbreviation (input) ADVERTISE_100HD :: u32 where "ADVERTISE_100HD \<equiv> BIT 14"
abbreviation (input) ADVERTISE_100FD :: u32 where "ADVERTISE_100FD \<equiv> BIT 15"
abbreviation (input) ADVERTISE_1000HD :: u32 where "ADVERTISE_1000HD \<equiv> BIT 16"
abbreviation (input) ADVERTISE_1000FD :: u32 where "ADVERTISE_1000FD \<equiv> BIT 17"
abbreviation (input) ADVERTISE_ALL_GMII :: u32 where
  "ADVERTISE_ALL_GMII \<equiv> ADVERTISE_10HD OR ADVERTISE_10FD OR ADVERTISE_100HD OR ADVERTISE_100FD OR
     ADVERTISE_1000HD OR ADVERTISE_1000FD"
abbreviation (input) PHY_ADV_CFG_VALID :: u32 where "PHY_ADV_CFG_VALID \<equiv> BIT 18"
abbreviation (input) MAC_CONNECTION :: u32 where "MAC_CONNECTION \<equiv> BIT 21"
abbreviation (input) MAC_MAC_IF :: u32 where "MAC_MAC_IF \<equiv> BIT 21"
abbreviation (input) MAC_CONN_VALID :: u32 where "MAC_CONN_VALID \<equiv> BIT 22"
abbreviation (input) MII_ANAR_REG :: u32 where "MII_ANAR_REG \<equiv> 0x04"
abbreviation (input) MII_K1CTL_REG :: u32 where "MII_K1CTL_REG \<equiv> 0x09"
abbreviation (input) MII_PHYSID1 :: u32 where "MII_PHYSID1 \<equiv> 0x02"

abbreviation (input) MK_SF2_RESET :: u8 where "MK_SF2_RESET \<equiv> 0x62"
abbreviation (input) MK_SF2_SANE :: u8 where "MK_SF2_SANE \<equiv> 0x63"
abbreviation (input) MK_GPHY_POWERED :: u8 where "MK_GPHY_POWERED \<equiv> 0x64"
abbreviation (input) MK_PHYID_OK :: u8 where "MK_PHYID_OK \<equiv> 0x65"
abbreviation (input) MK_PORTS_ENABLED :: u8 where "MK_PORTS_ENABLED \<equiv> 0x66"
abbreviation (input) MK_ERR_SF2_MAP :: u8 where "MK_ERR_SF2_MAP \<equiv> 0xE4"
abbreviation (input) MK_ERR_SF2_RESET :: u8 where "MK_ERR_SF2_RESET \<equiv> 0xE5"
abbreviation (input) MK_ERR_SF2_STUCK :: u8 where "MK_ERR_SF2_STUCK \<equiv> 0xE6"
abbreviation (input) MK_ERR_MDIO :: u8 where "MK_ERR_MDIO \<equiv> 0xE7"
abbreviation (input) MK_ERR_PHYID :: u8 where "MK_ERR_PHYID \<equiv> 0xE8"

section \<open>State\<close>

text \<open>\<open>sphy\<close> and \<open>phytest\<close> say whether the window pointer is non-NULL; \<open>phy_ids\<close> holds the first
  \<open>nphys\<close> entries of the array.\<close>

record sf2_6764 =
  sphy :: bool
  phytest :: bool
  phy_base :: u32
  phy_wkard_timeout :: u32
  phy_ids :: "u32 list"
  saved :: bool
  saved_port_ctrl :: "u32 list"
  saved_pbvlan :: "u32 list"

text \<open>Register values the driver exports read-only for diagnosis.\<close>

record sf2_diag =
  acb_ctrl_pre :: u32
  acb_port5_pre :: u32
  lp_ctrl_pre :: u32
  lp_exp1_pre :: u32
  lp_ctrl_post :: u32
  lp_exp1_post :: u32
  vlan0_post :: u32
  gmng_post :: u32
  hdr_post :: u32
  ovr5_post :: u32
  newctrl_post :: u32
  ulf_post :: u32
  mlf_post :: u32
  ipmc_post :: u32
  lnksts_post :: u32

text \<open>The driver's globals: whether \<^verbatim>\<open>g_sf2\<close> is set and the object it points to, the module
  parameters the driver reads and the exported diagnosis values.\<close>

record sf2_world = pmc_world +
  g_sf2 :: bool
  sf2_obj :: sf2_6764
  enet6764_split :: bool
  enet6764_wan_port :: u32
  enet6764_wan_port_sel :: u32
  serdes_port :: int
  p0_ovr :: int
  diag :: sf2_diag

text \<open>The state at module load: nothing bound, the parameters at their defaults.\<close>

definition sf2_boot :: sf2_world where
  "sf2_boot = \<lparr>io_log = [], g_pmc = None, g_sf2 = False,
     sf2_obj = \<lparr>sphy = False, phytest = False, phy_base = 0, phy_wkard_timeout = 0, phy_ids = [],
       saved = False, saved_port_ctrl = replicate 8 0, saved_pbvlan = replicate 8 0\<rparr>,
     enet6764_split = False, enet6764_wan_port = 0, enet6764_wan_port_sel = 0x201,
     serdes_port = 5, p0_ovr = -1,
     diag = \<lparr>acb_ctrl_pre = 0, acb_port5_pre = 0, lp_ctrl_pre = 0, lp_exp1_pre = 0, lp_ctrl_post = 0,
       lp_exp1_post = 0, vlan0_post = 0, gmng_post = 0, hdr_post = 0, ovr5_post = 0, newctrl_post = 0,
       ulf_post = 0, mlf_post = 0, ipmc_post = 0, lnksts_post = 0\<rparr>\<rparr>"

definition sf2_6764_get :: "('z sf2_world_scheme, bool) state" where
  "sf2_6764_get = gets g_sf2"

definition set_diag :: "(sf2_diag \<Rightarrow> sf2_diag) \<Rightarrow> ('z sf2_world_scheme, unit) state" where
  "set_diag f = modify (diag_update f)"

section \<open>Switch core register access\<close>

definition sf2_rd64 :: "env \<Rightarrow> nat \<Rightarrow> ('z io_scheme, u64) state" where
  "sf2_rd64 E off = do {
     lo \<leftarrow> readl E SwCore off;
     hi \<leftarrow> readl E SwReg SF2_DIRECT_DATA_RD;
     return (push_bit 32 (ucast hi) OR ucast lo) }"

definition sf2_wr64 :: "nat \<Rightarrow> u64 \<Rightarrow> ('z io_scheme, unit) state" where
  "sf2_wr64 off val = do {
     writel SwReg SF2_DIRECT_DATA_WR (ucast (drop_bit 32 val));
     writel SwCore off (ucast val) }"

definition sf2_rd32 :: "env \<Rightarrow> nat \<Rightarrow> ('z io_scheme, u32) state" where
  "sf2_rd32 E off = readl E SwCore off"

definition sf2_wr32 :: "nat \<Rightarrow> u32 \<Rightarrow> ('z io_scheme, unit) state" where
  "sf2_wr32 off val = writel SwCore off val"

text \<open>\<open>parsed\<close> is what \<^verbatim>\<open>kstrtoint\<close> makes of the text written to the parameter: a value, or the
  error it returns, with the parameter unchanged.\<close>

definition p0_ovr_set :: "errno + int \<Rightarrow> ('z sf2_world_scheme, errno + unit) state" where
  "p0_ovr_set parsed = (case parsed of
     Inl e \<Rightarrow> return (Inl e)
   | Inr v \<Rightarrow> do {
       modify (p0_ovr_update (\<lambda>_. v));
       g \<leftarrow> gets g_sf2;
       (if g \<and> v \<ge> 0 then sf2_wr32 (SF2_STS_OVERRIDE_P 0) (word_of_int v) else return ());
       return (Inr ()) })"

definition sf2_6764_force_port_state :: "int \<Rightarrow> int \<Rightarrow> bool \<Rightarrow> ('z sf2_world_scheme, errno + unit) state" where
  "sf2_6764_force_port_state port mbps link = do {
     g \<leftarrow> gets g_sf2;
     if \<not> g \<or> port < 0 \<or> port > 7 then return (Inl EINVAL)
     else if link then
       (let speed = (if mbps = 2500 then Some 0x0c else if mbps = 1000 then Some 0x08
                     else if mbps = 100 then Some 0x04 else if mbps = 10 then Some 0 else None)
        in case speed of
             None \<Rightarrow> return (Inl EINVAL)
           | Some sp \<Rightarrow> do {
               sf2_wr32 (SF2_STS_OVERRIDE_P (nat port)) (((0x40 OR sp) OR 0x02) OR 0x01);
               return (Inr ()) })
     else do { sf2_wr32 (SF2_STS_OVERRIDE_P (nat port)) 0x40; return (Inr ()) } }"

section \<open>MDIO\<close>

definition sf2_mdio_cmd :: "env \<Rightarrow> u32 \<Rightarrow> ('z io_scheme, errno + u32) state" where
  "sf2_mdio_cmd E cmd = do {
     writel SwMdio SF2_MDIO_CMD (cmd OR ETHSW_MDIO_BUSY);
     r \<leftarrow> poll_loop MDIO_BUSY_POLLS (do {
       delay_us 1;
       v \<leftarrow> readl E SwMdio SF2_MDIO_CMD;
       return (if v AND ETHSW_MDIO_BUSY = 0 then Some v else None) });
     case r of
       Some v \<Rightarrow> return (Inr v)
     | None \<Rightarrow> do { mark MK_ERR_MDIO; return (Inl ETIMEDOUT) } }"

text \<open>The two fields every command carries: the PHY address and the register (C22) or device
  (C45) number, and the operation.\<close>

definition mdio_hdr :: "u32 \<Rightarrow> u32 \<Rightarrow> u32 \<Rightarrow> u32" where
  "mdio_hdr phy reg opc =
     push_bit ETHSW_MDIO_C22_PHY_ADDR_SHIFT (phy AND BCM_PHY_ID_M) OR
     push_bit ETHSW_MDIO_C22_PHY_REG_SHIFT (reg AND 0x1f) OR
     push_bit ETHSW_MDIO_CMD_SHIFT opc"

definition sf2_mdio_read_unlocked :: "env \<Rightarrow> u32 \<Rightarrow> u32 \<Rightarrow> ('z io_scheme, errno + u16) state" where
  "sf2_mdio_read_unlocked E phy reg =
     (let cmd = mdio_hdr phy reg ETHSW_MDIO_CMD_C22_READ in
      bindE (sf2_mdio_cmd E cmd) (\<lambda>_.
      bindE (sf2_mdio_cmd E cmd) (\<lambda>val.
        return (Inr (ucast (val AND ETHSW_MDIO_PHY_DATA_MASK))))))"

definition sf2_mdio_write_unlocked :: "env \<Rightarrow> u32 \<Rightarrow> u32 \<Rightarrow> u16 \<Rightarrow> ('z io_scheme, errno + unit) state" where
  "sf2_mdio_write_unlocked E phy reg data =
     bindE (sf2_mdio_cmd E (mdio_hdr phy reg ETHSW_MDIO_CMD_C22_WRITE OR
              (ucast data AND ETHSW_MDIO_PHY_DATA_MASK))) (\<lambda>_. return (Inr ()))"

definition sf2_mdio_c45 :: "env \<Rightarrow> u32 \<Rightarrow> u32 \<Rightarrow> u32 \<Rightarrow> u32 \<Rightarrow> u16 \<Rightarrow> ('z io_scheme, errno + u32) state" where
  "sf2_mdio_c45 E opc phy dev reg data = do {
     cfg \<leftarrow> readl E SwMdio SF2_MDIO_CFG;
     writel SwMdio SF2_MDIO_CFG (cfg AND NOT ETHSW_MDIO_CFG_CLAUSE22);
     ret \<leftarrow> bindE (sf2_mdio_cmd E (mdio_hdr phy dev ETHSW_MDIO_CMD_C45_ADDRESS OR
                        (reg AND ETHSW_MDIO_PHY_DATA_MASK))) (\<lambda>_.
             sf2_mdio_cmd E (mdio_hdr phy dev opc OR
               (if opc = ETHSW_MDIO_CMD_C45_WRITE then ucast data AND ETHSW_MDIO_PHY_DATA_MASK else 0)));
     writel SwMdio SF2_MDIO_CFG cfg;
     return ret }"

definition sf2_mdio_c45_read :: "env \<Rightarrow> u32 \<Rightarrow> u32 \<Rightarrow> u32 \<Rightarrow> ('z sf2_world_scheme, errno + u16) state" where
  "sf2_mdio_c45_read E phy dev reg = do {
     g \<leftarrow> gets g_sf2;
     if \<not> g then return (Inl ENODEV)
     else do {
       emit (Acq Sf2Lock);
       ret \<leftarrow> sf2_mdio_c45 E ETHSW_MDIO_CMD_C45_READ phy dev reg 0;
       emit (Rel Sf2Lock);
       return (case ret of Inl e \<Rightarrow> Inl e | Inr val \<Rightarrow> Inr (ucast (val AND ETHSW_MDIO_PHY_DATA_MASK))) } }"

definition sf2_mdio_c45_write :: "env \<Rightarrow> u32 \<Rightarrow> u32 \<Rightarrow> u32 \<Rightarrow> u16 \<Rightarrow> ('z sf2_world_scheme, errno + unit) state" where
  "sf2_mdio_c45_write E phy dev reg val = do {
     g \<leftarrow> gets g_sf2;
     if \<not> g then return (Inl ENODEV)
     else do {
       emit (Acq Sf2Lock);
       ret \<leftarrow> sf2_mdio_c45 E ETHSW_MDIO_CMD_C45_WRITE phy dev reg val;
       emit (Rel Sf2Lock);
       return (case ret of Inl e \<Rightarrow> Inl e | Inr _ \<Rightarrow> Inr ()) } }"

definition sf2_6764_mdio_read :: "env \<Rightarrow> u32 \<Rightarrow> u32 \<Rightarrow> ('z sf2_world_scheme, errno + u16) state" where
  "sf2_6764_mdio_read E phy reg = do {
     emit (Acq Sf2Lock);
     ret \<leftarrow> sf2_mdio_read_unlocked E phy reg;
     emit (Rel Sf2Lock);
     return ret }"

definition sf2_6764_mdio_write :: "env \<Rightarrow> u32 \<Rightarrow> u32 \<Rightarrow> u16 \<Rightarrow> ('z sf2_world_scheme, errno + unit) state" where
  "sf2_6764_mdio_write E phy reg val = do {
     emit (Acq Sf2Lock);
     ret \<leftarrow> sf2_mdio_write_unlocked E phy reg val;
     emit (Rel Sf2Lock);
     return ret }"

definition sf2_mdio_read :: "env \<Rightarrow> u32 \<Rightarrow> u32 \<Rightarrow> ('z sf2_world_scheme, errno + u16) state" where
  "sf2_mdio_read E phy_addr reg = do {
     g \<leftarrow> gets g_sf2;
     if \<not> g then return (Inl ENODEV) else sf2_6764_mdio_read E phy_addr reg }"

definition sf2_mdio_write :: "env \<Rightarrow> u32 \<Rightarrow> u32 \<Rightarrow> u16 \<Rightarrow> ('z sf2_world_scheme, errno + unit) state" where
  "sf2_mdio_write E phy_addr reg val = do {
     g \<leftarrow> gets g_sf2;
     if \<not> g then return (Inl ENODEV) else sf2_6764_mdio_write E phy_addr reg val }"

section \<open>PHY advertisement\<close>

text \<open>\<open>set_if\<close> is \<^verbatim>\<open>if (phy_id & a) cap |= b;\<close>.\<close>

definition set_if :: "u32 \<Rightarrow> u32 \<Rightarrow> u16 \<Rightarrow> u16 \<Rightarrow> u16" where
  "set_if phy_id a b cap = (if phy_id AND a \<noteq> 0 then cap OR b else cap)"

definition phy_connected :: "u32 \<Rightarrow> bool" where
  "phy_connected phy_id =
     (if phy_id AND MAC_CONN_VALID \<noteq> 0 then phy_id AND MAC_CONNECTION \<noteq> MAC_MAC_IF
      else phy_id AND 0xff \<noteq> 0xff)"

definition sf2_phy_advertise_caps :: "env \<Rightarrow> u32 \<Rightarrow> ('z io_scheme, unit) state" where
  "sf2_phy_advertise_caps E phy_id = do {
     go \<leftarrow> (if phy_connected phy_id \<and> phy_id AND PHY_ADV_CFG_VALID \<noteq> 0 then do {
         r \<leftarrow> sf2_mdio_read_unlocked E phy_id MII_ANAR_REG;
         case r of Inl _ \<Rightarrow> return False
         | Inr cap \<Rightarrow> do {
             sf2_mdio_write_unlocked E phy_id MII_ANAR_REG
               (set_if phy_id ADVERTISE_100FD 0x0100 (set_if phy_id ADVERTISE_100HD 0x0080
                (set_if phy_id ADVERTISE_10FD 0x0040 (set_if phy_id ADVERTISE_10HD 0x0020
                 (cap AND NOT 0x01e0)))));
             r \<leftarrow> sf2_mdio_read_unlocked E phy_id MII_K1CTL_REG;
             case r of Inl _ \<Rightarrow> return False
             | Inr cap \<Rightarrow> do {
                 sf2_mdio_write_unlocked E phy_id MII_K1CTL_REG
                   (set_if phy_id ADVERTISE_1000FD 0x0200 (set_if phy_id ADVERTISE_1000HD 0x0100
                     (cap AND NOT 0x0300)));
                 return True } } }
       else return True);
     if go then do {
       r \<leftarrow> sf2_mdio_read_unlocked E phy_id MII_K1CTL_REG;
       case r of Inl _ \<Rightarrow> return ()
       | Inr cap \<Rightarrow> do { sf2_mdio_write_unlocked E phy_id MII_K1CTL_REG (cap OR 0x0400); return () } }
     else return () }"

section \<open>Internal EGPHY power-up\<close>

definition sphy_delay :: "u32 \<Rightarrow> ('z io_scheme, unit) state" where
  "sphy_delay usecs =
     (if usecs \<ge> 1000 then delay_us ((unat usecs + 999) div 1000 * 1000) else delay_us (unat usecs))"

definition sphy_init_power_workaround :: "env \<Rightarrow> u32 \<Rightarrow> ('z io_scheme, unit) state" where
  "sphy_init_power_workaround E timeout = do {
     v \<leftarrow> readl E SphyCtrl 0;
     writel SphyCtrl 0 (v OR ETHSW_SPHY_CTRL_RESET);
     sphy_delay timeout;
     writel PhyTest 0 1;
     v \<leftarrow> readl E SphyCtrl 0;
     writel SphyCtrl 0 ((v AND NOT ETHSW_SPHY_CTRL_IDDQ_BIAS) AND NOT ETHSW_SPHY_CTRL_IDDQ_GLOBAL_PWR);
     sphy_delay timeout;
     v \<leftarrow> readl E SphyCtrl 0;
     writel SphyCtrl 0 (v OR ETHSW_SPHY_CTRL_IDDQ_BIAS);
     v \<leftarrow> readl E SphyCtrl 0;
     writel SphyCtrl 0 (v OR ETHSW_SPHY_CTRL_IDDQ_GLOBAL_PWR);
     sphy_delay timeout;
     v \<leftarrow> readl E SphyCtrl 0;
     writel SphyCtrl 0 (v AND NOT ETHSW_SPHY_CTRL_RESET);
     sphy_delay timeout;
     writel PhyTest 0 0 }"

definition sgphy_powerup :: "env \<Rightarrow> u32 \<Rightarrow> ('z io_scheme, unit) state" where
  "sgphy_powerup E phy_id = do {
     v \<leftarrow> readl E SphyCtrl 0;
     let v = (v AND NOT (ETHSW_SPHY_CTRL_IDDQ_BIAS OR ETHSW_SPHY_CTRL_EXT_PWR_DOWN OR
                         ETHSW_SPHY_CTRL_PHYAD_MASK)) OR
             (ETHSW_SPHY_CTRL_RESET OR push_bit ETHSW_SPHY_CTRL_PHYAD_SHIFT phy_id) in do {
       writel SphyCtrl 0 v;
       delay_us 1;
       writel SphyCtrl 0 (v AND NOT ETHSW_SPHY_CTRL_IDDQ_GLOBAL_PWR);
       delay_us 1000;
       v \<leftarrow> readl E SphyCtrl 0;
       writel SphyCtrl 0 (v AND NOT ETHSW_SPHY_CTRL_RESET);
       delay_us 1000 } }"

definition sf2_gphy_powerup :: "env \<Rightarrow> sf2_6764 \<Rightarrow> ('z io_scheme, errno + unit) state" where
  "sf2_gphy_powerup E sf2 =
     (if \<not> sphy sf2 \<or> \<not> phytest sf2 then return (Inl ENODEV)
      else do {
        (if phy_wkard_timeout sf2 \<noteq> 0 then sphy_init_power_workaround E (phy_wkard_timeout sf2) else return ());
        sgphy_powerup E (phy_base sf2);
        v \<leftarrow> readl E SphyCtrl 0;
        if v AND ETHSW_SPHY_CTRL_RESET \<noteq> 0 \<or>
           drop_bit ETHSW_SPHY_CTRL_PHYAD_SHIFT (v AND ETHSW_SPHY_CTRL_PHYAD_MASK) \<noteq> phy_base sf2
        then return (Inl EIO)
        else do {
          mark MK_GPHY_POWERED;
          sf2_mdio_read_unlocked E (phy_base sf2) 0x02;
          bindE (sf2_mdio_read_unlocked E (phy_base sf2) MII_PHYSID1) (\<lambda>id1.
            if id1 = 0x0000 \<or> id1 = 0xffff then do { mark MK_ERR_PHYID; return (Inl EIO) }
            else do { mark MK_PHYID_OK; return (Inr ()) }) } })"

section \<open>Internal EGPHY AFE/PLL calibration\<close>

text \<open>\<^verbatim>\<open>u16 tmp = __sf2_mdio_read(...)\<close> and its like: an error is not checked, its negative errno is
  truncated to 16 bits.\<close>

definition mdio_u16 :: "errno + u16 \<Rightarrow> u16" where
  "mdio_u16 r = (case r of Inl e \<Rightarrow> word_of_int (errno_val e) | Inr v \<Rightarrow> v)"

definition sf2_exp_write :: "env \<Rightarrow> sf2_6764 \<Rightarrow> u16 \<Rightarrow> u16 \<Rightarrow> ('z io_scheme, unit) state" where
  "sf2_exp_write E sf2 reg val = do {
     sf2_mdio_write_unlocked E (phy_base sf2) 0x17 (0x0f00 OR (reg AND 0xff));
     sf2_mdio_write_unlocked E (phy_base sf2) 0x15 val;
     return () }"

definition sf2_exp_read :: "env \<Rightarrow> sf2_6764 \<Rightarrow> u16 \<Rightarrow> ('z io_scheme, errno + u16) state" where
  "sf2_exp_read E sf2 reg = do {
     sf2_mdio_write_unlocked E (phy_base sf2) 0x17 (0x0f00 OR (reg AND 0xff));
     sf2_mdio_read_unlocked E (phy_base sf2) 0x15 }"

definition sf2_misc_write :: "env \<Rightarrow> sf2_6764 \<Rightarrow> u16 \<Rightarrow> u16 \<Rightarrow> u16 \<Rightarrow> ('z io_scheme, unit) state" where
  "sf2_misc_write E sf2 reg chnl val = do {
     tmp \<leftarrow> sf2_mdio_read_unlocked E (phy_base sf2) 0x18;
     sf2_mdio_write_unlocked E (phy_base sf2) 0x18 (mdio_u16 tmp OR 0x800);
     sf2_mdio_write_unlocked E (phy_base sf2) 0x17 (push_bit 13 chnl OR (reg AND 0x1fff));
     sf2_mdio_write_unlocked E (phy_base sf2) 0x15 val;
     return () }"

definition sf2_misc_read :: "env \<Rightarrow> sf2_6764 \<Rightarrow> u16 \<Rightarrow> u16 \<Rightarrow> ('z io_scheme, errno + u16) state" where
  "sf2_misc_read E sf2 reg chnl = do {
     tmp \<leftarrow> sf2_mdio_read_unlocked E (phy_base sf2) 0x18;
     sf2_mdio_write_unlocked E (phy_base sf2) 0x18 (mdio_u16 tmp OR 0x800);
     sf2_mdio_write_unlocked E (phy_base sf2) 0x17 (push_bit 13 chnl OR (reg AND 0x1fff));
     sf2_mdio_read_unlocked E (phy_base sf2) 0x15 }"

text \<open>The three 16-bit values the calibration computes from what it reads back.\<close>

definition rcal_clamped :: "u16 \<Rightarrow> u16 \<Rightarrow> u16" where
  "rcal_clamped expa9 inc =
     (let c = drop_bit 1 (expa9 AND 0x007e) + inc in if c > 0x3f then 0x3f else c)"

definition afe_lp_word :: "u16 \<Rightarrow> u16" where
  "afe_lp_word expa9 = push_bit 8 (rcal_clamped expa9 16) + 0x00f8"

definition afe_txcfgch0 :: "u16 \<Rightarrow> u16 \<Rightarrow> u16" where
  "afe_txcfgch0 expa9 txcfgch0 =
     ((txcfgch0 AND NOT 0x0fe0) OR 0x0020) OR push_bit 5 (rcal_clamped expa9 10 AND 0xfffe)"

definition sf2_gphy_afe :: "env \<Rightarrow> sf2_6764 \<Rightarrow> ('z io_scheme, unit) state" where
  "sf2_gphy_afe E sf2 = do {
     sf2_mdio_write_unlocked E (phy_base sf2) 0x00 0x9140;
     delay_us 20000;
     sf2_exp_write E sf2 0x03 0x0006;
     delay_us 300;
     sf2_exp_write E sf2 0x03 0x0000;
     delay_us 20000;
     sf2_misc_write E sf2 0x39 3 0x0038;
     sf2_misc_write E sf2 0x39 3 0x003b;
     delay_us 1000;
     sf2_misc_write E sf2 0x39 3 0x003f;
     delay_us 1000;
     sf2_misc_write E sf2 0x39 1 0x1c82;
     sf2_misc_write E sf2 0x39 1 0x9e82;
     delay_us 1000;
     sf2_misc_write E sf2 0x39 1 0x9f82;
     delay_us 1000;
     sf2_misc_write E sf2 0x39 1 0x9e86;
     delay_us 1000;
     sf2_misc_write E sf2 0x39 1 0x9f86;
     delay_us 1000;
     sf2_misc_write E sf2 0x38 2 0xefe2;
     r \<leftarrow> sf2_exp_read E sf2 0xa9;
     let expa9 = mdio_u16 r in do {
     sf2_misc_write E sf2 0x39 3 (afe_lp_word expa9);
     sf2_misc_write E sf2 0x38 1 0xe3e4;
     sf2_misc_write E sf2 0x3b 0 0x8002;
     sf2_misc_write E sf2 0x3c 3 0xf882;
     sf2_misc_write E sf2 0x3d 0 0x3201;
     sf2_misc_write E sf2 0x3a 2 0x0c00;
     sf2_misc_write E sf2 0x3a 1 0x0020;
     sf2_misc_write E sf2 0x3b 2 0x0000;
     sf2_misc_write E sf2 0x3b 3 0x0000;
     sf2_misc_write E sf2 0x3c 0 0x0000;
     sf2_misc_write E sf2 0x3c 1 0x0000;
     sf2_misc_write E sf2 0x3a 3 0x0800;
     delay_us 1000;
     sf2_misc_write E sf2 0x3a 1 0x0000;
     r \<leftarrow> sf2_misc_read E sf2 0x3d 1;
     let txcfgch0 = afe_txcfgch0 expa9 (mdio_u16 r) in do {
     sf2_misc_write E sf2 0x3d 1 txcfgch0;
     sf2_misc_write E sf2 0x3d 2 txcfgch0;
     r \<leftarrow> sf2_misc_read E sf2 0x3d 0;
     sf2_misc_write E sf2 0x3d 0 ((mdio_u16 r AND NOT 0x3000) OR 0x3000);
     sf2_mdio_write_unlocked E (phy_base sf2) 0x04 0x01e1;
     sf2_mdio_write_unlocked E (phy_base sf2) 0x09 0x0300;
     sf2_mdio_write_unlocked E (phy_base sf2) 0x00 0x1340;
     sf2_exp_write E sf2 0xb0 0x0010;
     sf2_exp_write E sf2 0xb0 0x0000;
     delay_us 2000;
     mark MK_PHYID_OK } } }"

end
