(* ===== verification/Sf2_Switch.thy ===== *)
theory Sf2_Switch
  imports Sf2
begin

text \<open>
  port66/enet66/sf2_6764.c, second part: switch initialisation, the open and close of the
  switch ports with the boot-strap state saved and restored, the device-tree walk, probe and
  remove.
\<close>

section \<open>Constants\<close>

abbreviation (input) ACB_CONTROL :: nat where "ACB_CONTROL \<equiv> 0x000"
definition ACB_PORT_CONFIG :: "nat \<Rightarrow> nat" where "ACB_PORT_CONFIG p = 0x208 + p * 4"
abbreviation (input) SF2_NEW_CTRL :: nat where "SF2_NEW_CTRL \<equiv> 0x00108"
abbreviation (input) SF2_ULF_DROP_MAP :: nat where "SF2_ULF_DROP_MAP \<equiv> 0x00190"
abbreviation (input) SF2_MLF_DROP_MAP :: nat where "SF2_MLF_DROP_MAP \<equiv> 0x001a0"
abbreviation (input) SF2_MLF_IPMC_FWD_MAP :: nat where "SF2_MLF_IPMC_FWD_MAP \<equiv> 0x001b0"
abbreviation (input) NEW_CTRL_FWD_ALL :: u32 where "NEW_CTRL_FWD_ALL \<equiv> 0x80 OR 0x40 OR 0x01"
definition SF2_VLAN_CTRL :: "nat \<Rightarrow> nat" where "SF2_VLAN_CTRL n = 0x1a000 + n * 8"
abbreviation (input) SF2_VLAN_CTRL4 :: nat where "SF2_VLAN_CTRL4 \<equiv> 0x1a028"
abbreviation (input) SF2_VLAN_CTRL5 :: nat where "SF2_VLAN_CTRL5 \<equiv> 0x1a030"
definition SF2_DEFAULT_1Q_TAG :: "nat \<Rightarrow> nat" where "SF2_DEFAULT_1Q_TAG n = 0x1a080 + n * 0x10"
abbreviation (input) SF2_DIS_LEARN :: nat where "SF2_DIS_LEARN \<equiv> 0x001e0"
abbreviation (input) SF2_GMNGCFG :: nat where "SF2_GMNGCFG \<equiv> 0x01000"
abbreviation (input) SF2_LNKSTS :: nat where "SF2_LNKSTS \<equiv> 0x00800"
abbreviation (input) SF2_LOW_POWER_CTRL :: nat where "SF2_LOW_POWER_CTRL \<equiv> 0x006f0"
abbreviation (input) SF2_LOW_POWER_EXP1 :: nat where "SF2_LOW_POWER_EXP1 \<equiv> 0x00200"
abbreviation (input) LP_CTRL_SLEEP_BITS :: u32 where "LP_CTRL_SLEEP_BITS \<equiv> 0x9873"
abbreviation (input) LP_EXP1_SLEEP_BITS :: u32 where "LP_EXP1_SLEEP_BITS \<equiv> 0x01ff01ff"
abbreviation (input) SF2_WAN_PORT_SEL :: nat where "SF2_WAN_PORT_SEL \<equiv> 0x00130"
abbreviation (input) SF2_BRCM_HDR_RX_DIS :: nat where "SF2_BRCM_HDR_RX_DIS \<equiv> 0x01300"
abbreviation (input) SF2_BRCM_HDR_TX_DIS :: nat where "SF2_BRCM_HDR_TX_DIS \<equiv> 0x01310"
abbreviation (input) SF2_BRCM_HDR_PORTS_MASK :: u32 where "SF2_BRCM_HDR_PORTS_MASK \<equiv> 0x1ff"
abbreviation (input) PBMAP_MIPS :: u32 where "PBMAP_MIPS \<equiv> 0x100"
abbreviation (input) SP_SPLIT_LAN_PORT :: nat where "SP_SPLIT_LAN_PORT \<equiv> 5"
abbreviation (input) PORT_CTRL_RXTX_DISABLE :: u32 where "PORT_CTRL_RXTX_DISABLE \<equiv> 0x3"
abbreviation (input) PORT_CTRL_PORT_STATUS_M :: u32 where "PORT_CTRL_PORT_STATUS_M \<equiv> 0xe0"
abbreviation (input) PORT_CTRL_SWITCH_RESERVE :: u32 where "PORT_CTRL_SWITCH_RESERVE \<equiv> 0x1c"
abbreviation (input) PORT_CTRL_IMP_RX_ALL_EN :: u32 where "PORT_CTRL_IMP_RX_ALL_EN \<equiv> 0x1c"
abbreviation (input) ETHSW_SM_FORWARDING_EN :: u32 where "ETHSW_SM_FORWARDING_EN \<equiv> BIT 1"
abbreviation (input) IMP_STATE_10G :: u32 where
  "IMP_STATE_10G \<equiv> 0x100 OR 0x80 OR 0x20 OR 0x10 OR 0x02 OR 0x01 OR 0x40"
abbreviation (input) OVR_2500_FDX_LINK :: u32 where "OVR_2500_FDX_LINK \<equiv> 0x40 OR 0x0c OR 0x02 OR 0x01"
abbreviation (input) OVR_1000_FDX_LINK :: u32 where "OVR_1000_FDX_LINK \<equiv> 0x40 OR 0x08 OR 0x02 OR 0x01"

section \<open>Initialisation\<close>

definition sf2_6764_acb_disable :: "env \<Rightarrow> ('z sf2_world_scheme, unit) state" where
  "sf2_6764_acb_disable E = do {
     acb \<leftarrow> kcall E (IoRemap Acb);
     if acb = 0 then return ()
     else do {
       ctrl \<leftarrow> readl E Acb ACB_CONTROL;
       set_diag (acb_ctrl_pre_update (\<lambda>_. ctrl));
       p5 \<leftarrow> readl E Acb (ACB_PORT_CONFIG 5);
       set_diag (acb_port5_pre_update (\<lambda>_. p5));
       writel Acb ACB_CONTROL (ctrl AND NOT 0x1);
       for_each [0..<9] (\<lambda>p. writel Acb (ACB_PORT_CONFIG p) 0);
       readl E Acb ACB_CONTROL;
       return () } }"

definition rd_diag :: "env \<Rightarrow> nat \<Rightarrow> (u32 \<Rightarrow> sf2_diag \<Rightarrow> sf2_diag) \<Rightarrow> ('z sf2_world_scheme, u32) state" where
  "rd_diag E off f = do { v \<leftarrow> sf2_rd32 E off; set_diag (f v); return v }"

text \<open>The software reset: request it, then poll its self-clearing bit at most 1000 times.\<close>

definition sf2_soft_reset :: "env \<Rightarrow> ('z io_scheme, bool) state" where
  "sf2_soft_reset E = do {
     v \<leftarrow> sf2_rd64 E SF2_SOFTWARE_RESET;
     sf2_wr64 SF2_SOFTWARE_RESET (v OR (BIT 7 OR BIT 4));
     r \<leftarrow> poll_loop 1000 (do {
       v \<leftarrow> sf2_rd64 E SF2_SOFTWARE_RESET;
       if v AND BIT 7 = 0 then return (Some ()) else do { delay_us 100; return None } });
     return (r \<noteq> None) }"

text \<open>From the completed reset to the first unlock: clear VLAN state, make lookup failures flood,
  wake every port clock.\<close>

definition sf2_clean_slate :: "env \<Rightarrow> ('z sf2_world_scheme, unit) state" where
  "sf2_clean_slate E = do {
     lpc \<leftarrow> rd_diag E SF2_LOW_POWER_CTRL (\<lambda>v. lp_ctrl_post_update (\<lambda>_. v));
     lpe \<leftarrow> rd_diag E SF2_LOW_POWER_EXP1 (\<lambda>v. lp_exp1_post_update (\<lambda>_. v));
     rd_diag E (SF2_VLAN_CTRL 0) (\<lambda>v. vlan0_post_update (\<lambda>_. v));
     rd_diag E SF2_GMNGCFG (\<lambda>v. gmng_post_update (\<lambda>_. v));
     rd_diag E SF2_BRCM_HDR_CTRL (\<lambda>v. hdr_post_update (\<lambda>_. v));
     rd_diag E (SF2_STS_OVERRIDE_P 5) (\<lambda>v. ovr5_post_update (\<lambda>_. v));
     for_each [0..<4] (\<lambda>i. sf2_wr32 (SF2_VLAN_CTRL i) 0);
     sf2_wr32 SF2_VLAN_CTRL4 0;
     sf2_wr32 SF2_VLAN_CTRL5 0;
     for_each [0..<9] (\<lambda>i. sf2_wr32 (SF2_DEFAULT_1Q_TAG i) 1);
     sf2_wr32 SF2_DIS_LEARN 0;
     nc \<leftarrow> rd_diag E SF2_NEW_CTRL (\<lambda>v. newctrl_post_update (\<lambda>_. v));
     rd_diag E SF2_ULF_DROP_MAP (\<lambda>v. ulf_post_update (\<lambda>_. v));
     rd_diag E SF2_MLF_DROP_MAP (\<lambda>v. mlf_post_update (\<lambda>_. v));
     rd_diag E SF2_MLF_IPMC_FWD_MAP (\<lambda>v. ipmc_post_update (\<lambda>_. v));
     sf2_wr32 SF2_NEW_CTRL (nc AND NOT NEW_CTRL_FWD_ALL);
     sf2_wr32 SF2_ULF_DROP_MAP 0x1ff;
     sf2_wr32 SF2_MLF_DROP_MAP 0x1ff;
     sf2_wr32 SF2_MLF_IPMC_FWD_MAP 0x1ff;
     sf2_rd32 E SF2_NEW_CTRL;
     sf2_wr32 SF2_LOW_POWER_CTRL (lpc AND NOT LP_CTRL_SLEEP_BITS);
     sf2_wr32 SF2_LOW_POWER_EXP1 (lpe AND NOT LP_EXP1_SLEEP_BITS);
     sf2_rd32 E SF2_LOW_POWER_CTRL;
     sf2_rd32 E SF2_LOW_POWER_EXP1;
     return () }"

text \<open>The WAN/LAN split of the switch.  Shifting by a WAN port of 32 or more is undefined in C; the
  model takes 0.\<close>

definition split_hdr_dis :: "nat \<Rightarrow> u32" where
  "split_hdr_dis wan = SF2_BRCM_HDR_PORTS_MASK AND
     NOT (BIT wan OR BIT SP_SPLIT_LAN_PORT OR BIT SF2_IMP_PORT)"

definition sf2_split :: "env \<Rightarrow> nat \<Rightarrow> u32 \<Rightarrow> ('z io_scheme, unit) state" where
  "sf2_split E wan sel = do {
     sf2_wr32 SF2_WAN_PORT_SEL sel;
     sf2_wr32 SF2_DIS_LEARN (BIT wan);
     sf2_wr32 SF2_BRCM_HDR_RX_DIS (split_hdr_dis wan);
     sf2_wr32 SF2_BRCM_HDR_TX_DIS (split_hdr_dis wan);
     sf2_wr32 (SF2_PORT_VLAN_CTRL wan) (PBMAP_MIPS OR BIT wan);
     sf2_wr32 (SF2_PORT_VLAN_CTRL SP_SPLIT_LAN_PORT) (PBMAP_MIPS OR BIT SP_SPLIT_LAN_PORT);
     sf2_wr32 (SF2_PORT_VLAN_CTRL SF2_IMP_PORT) 0x1ff;
     sf2_rd32 E SF2_WAN_PORT_SEL;
     sf2_rd32 E SF2_DIS_LEARN;
     sf2_rd32 E SF2_BRCM_HDR_RX_DIS;
     sf2_rd32 E SF2_BRCM_HDR_TX_DIS;
     return () }"

text \<open>The second locked part: advertisement, ports off, managed mode with the Broadcom tag on the
  IMP port, the split, IMP state, and the read-back that decides.\<close>

definition sf2_managed_mode :: "env \<Rightarrow> ('z sf2_world_scheme, errno + unit) state" where
  "sf2_managed_mode E = do {
     sf2 \<leftarrow> gets sf2_obj;
     for_each (phy_ids sf2) (sf2_phy_advertise_caps E);
     for_each [0..<SF2_MAX_PORTS] (\<lambda>i. do {
       v \<leftarrow> sf2_rd64 E (SF2_PORT_TRAFFIC_CTRL i);
       sf2_wr64 (SF2_PORT_TRAFFIC_CTRL i) ((v AND 0xff) OR ucast PORT_CTRL_RXTX_DISABLE) });
     v \<leftarrow> sf2_rd32 E SF2_SWITCH_MODE;
     if v = 0xffffffff then do {
       emit (Rel Sf2Lock); mark MK_ERR_SF2_STUCK; return (Inl EIO) }
     else do {
       sf2_wr32 SF2_GMNGCFG (0x80 OR 0x02);
       sf2_wr32 SF2_SWITCH_MODE ((v AND 0xff) OR (ETHSW_SM_FORWARDING_EN OR BIT 2 OR BIT 0));
       sf2_wr32 SF2_BRCM_HDR_CTRL 0x01;
       sf2_wr32 SF2_SWITCH_CTRL 0;
       nc \<leftarrow> sf2_rd32 E SF2_NEW_CTRL;
       sf2_wr32 SF2_NEW_CTRL ((nc AND 0xff) OR NEW_CTRL_FWD_ALL);
       sf2_wr32 SF2_ULF_DROP_MAP 0x100;
       sf2_wr32 SF2_MLF_DROP_MAP 0x100;
       sf2_wr32 SF2_MLF_IPMC_FWD_MAP 0x100;
       sf2_wr32 SF2_DIS_LEARN 0x100;
       split \<leftarrow> gets enet6764_split;
       wan \<leftarrow> gets enet6764_wan_port;
       sel \<leftarrow> gets enet6764_wan_port_sel;
       (if split then sf2_split E (unat wan) sel else return ());
       sf2_wr32 SF2_IMP_PORT_STATE IMP_STATE_10G;
       v \<leftarrow> sf2_rd32 E SF2_SWITCH_MODE;
       sf2_rd32 E SF2_IMP_PORT_STATE;
       if v AND ETHSW_SM_FORWARDING_EN = 0 then do {
         emit (Rel Sf2Lock); mark MK_ERR_SF2_STUCK; return (Inl EIO) }
       else do { mark MK_SF2_SANE; emit (Rel Sf2Lock); return (Inr ()) } } }"

definition sf2_6764_init :: "env \<Rightarrow> ('z sf2_world_scheme, errno + unit) state" where
  "sf2_6764_init E =
     bindE (pmc6764_switch_power_up E) (\<lambda>_. do {
       emit (Acq Sf2Lock);
       rd_diag E SF2_LOW_POWER_CTRL (\<lambda>v. lp_ctrl_pre_update (\<lambda>_. v));
       rd_diag E SF2_LOW_POWER_EXP1 (\<lambda>v. lp_exp1_pre_update (\<lambda>_. v));
       done \<leftarrow> sf2_soft_reset E;
       if \<not> done then do {
         emit (Rel Sf2Lock); mark MK_ERR_SF2_RESET; return (Inl ETIMEDOUT) }
       else do {
         delay_us 1000;
         mark MK_SF2_RESET;
         sf2_6764_acb_disable E;
         em \<leftarrow> kcall E (IoRemap EthMisc);
         (if em \<noteq> 0 then do {
            v \<leftarrow> readl E EthMisc 0xc; writel EthMisc 0xc (v OR 0x1) }
          else return ());
         sf2_clean_slate E;
         emit (Rel Sf2Lock);
         sf2 \<leftarrow> gets sf2_obj;
         bindE (sf2_gphy_powerup E sf2) (\<lambda>_. do {
           sf2_gphy_afe E sf2;
           emit (Acq Sf2Lock);
           sf2_managed_mode E }) } })"

section \<open>Open and close\<close>

definition port_on :: "u64 \<Rightarrow> u64" where
  "port_on v = (v AND 0xff) AND NOT (ucast (PORT_CTRL_RXTX_DISABLE OR PORT_CTRL_PORT_STATUS_M))"

definition sf2_save :: "env \<Rightarrow> nat \<Rightarrow> ('z sf2_world_scheme, unit) state" where
  "sf2_save E i = do {
     pc \<leftarrow> sf2_rd64 E (SF2_PORT_TRAFFIC_CTRL i);
     pv \<leftarrow> sf2_rd32 E (SF2_PORT_VLAN_CTRL i);
     modify (sf2_obj_update (\<lambda>b. b\<lparr>
       saved_port_ctrl := (saved_port_ctrl b)[i := ucast pc AND 0xff],
       saved_pbvlan := (saved_pbvlan b)[i := pv AND 0xffff]\<rparr>)) }"

definition sf2_port_enable :: "env \<Rightarrow> nat \<Rightarrow> ('z io_scheme, unit) state" where
  "sf2_port_enable E i = do {
     sf2_wr32 (SF2_PORT_VLAN_CTRL i) (0x100 OR BIT i);
     v \<leftarrow> sf2_rd64 E (SF2_PORT_TRAFFIC_CTRL i);
     sf2_wr64 (SF2_PORT_TRAFFIC_CTRL i) (port_on v) }"

definition sf2_overrides :: "env \<Rightarrow> ('z sf2_world_scheme, unit) state" where
  "sf2_overrides E = do {
     sp \<leftarrow> gets serdes_port;
     if 0 \<le> sp \<and> sp \<le> 7 then do {
       sf2_rd32 E (SF2_STS_OVERRIDE_P (nat sp));
       sf2_wr32 (SF2_STS_OVERRIDE_P (nat sp)) OVR_2500_FDX_LINK;
       p0 \<leftarrow> gets p0_ovr;
       sf2_wr32 (SF2_STS_OVERRIDE_P 0) (if p0 \<ge> 0 then word_of_int p0 else OVR_1000_FDX_LINK);
       wan \<leftarrow> gets enet6764_wan_port;
       (if wan \<noteq> 0 \<and> wan \<noteq> word_of_int sp then do {
          sf2_wr32 (SF2_STS_OVERRIDE_P (unat wan)) OVR_2500_FDX_LINK;
          sf2_rd32 E (SF2_STS_OVERRIDE_P (unat wan));
          return () }
        else return ());
       rd_diag E SF2_LNKSTS (\<lambda>v. lnksts_post_update (\<lambda>_. v));
       sf2_rd32 E (SF2_STS_OVERRIDE_P (nat sp));
       sf2_rd32 E (SF2_STS_OVERRIDE_P (nat sp));
       return () }
     else return () }"

text \<open>The registers the open path reads back to print them.\<close>

definition sf2_open_report :: "env \<Rightarrow> ('z sf2_world_scheme, unit) state" where
  "sf2_open_report E = do {
     sf2_rd64 E (SF2_PORT_TRAFFIC_CTRL SF2_IMP_PORT);
     sf2_rd64 E (SF2_PORT_TRAFFIC_CTRL 0);
     sf2_rd32 E (SF2_PORT_VLAN_CTRL 0);
     split \<leftarrow> gets enet6764_split;
     wan \<leftarrow> gets enet6764_wan_port;
     (if split then do {
        sf2_rd32 E (SF2_PORT_VLAN_CTRL (unat wan));
        sf2_rd32 E (SF2_PORT_VLAN_CTRL SP_SPLIT_LAN_PORT);
        sf2_rd32 E (SF2_PORT_VLAN_CTRL SF2_IMP_PORT);
        sf2_rd32 E SF2_WAN_PORT_SEL;
        return () }
      else return ()) }"

definition sf2_6764_open :: "env \<Rightarrow> ('z sf2_world_scheme, errno + unit) state" where
  "sf2_6764_open E = do {
     emit (Acq Sf2Lock);
     for_each [0..<SF2_MAX_PORTS] (sf2_save E);
     modify (sf2_obj_update (saved_update (\<lambda>_. True)));
     for_each [0..<SF2_MAX_PORTS] (sf2_port_enable E);
     v \<leftarrow> sf2_rd64 E (SF2_PORT_TRAFFIC_CTRL SF2_IMP_PORT);
     sf2_wr64 (SF2_PORT_TRAFFIC_CTRL SF2_IMP_PORT)
       (ucast (((ucast v AND 0xff) AND NOT (PORT_CTRL_RXTX_DISABLE OR PORT_CTRL_PORT_STATUS_M)) OR
               PORT_CTRL_IMP_RX_ALL_EN));
     sf2_wr32 (SF2_PORT_VLAN_CTRL SF2_IMP_PORT) 0x1ff;
     sf2_open_report E;
     emit (Rel Sf2Lock);
     sf2_overrides E;
     mark MK_PORTS_ENABLED;
     return (Inr ()) }"

definition sf2_restore :: "env \<Rightarrow> sf2_6764 \<Rightarrow> nat \<Rightarrow> ('z io_scheme, unit) state" where
  "sf2_restore E sf2 i = do {
     v \<leftarrow> sf2_rd64 E (SF2_PORT_TRAFFIC_CTRL i);
     sf2_wr64 (SF2_PORT_TRAFFIC_CTRL i)
       (ucast ((ucast v AND PORT_CTRL_SWITCH_RESERVE) OR
               (saved_port_ctrl sf2 ! i AND NOT PORT_CTRL_SWITCH_RESERVE)));
     sf2_wr32 (SF2_PORT_VLAN_CTRL i) (saved_pbvlan sf2 ! i) }"

definition sf2_6764_close :: "env \<Rightarrow> ('z sf2_world_scheme, unit) state" where
  "sf2_6764_close E = do {
     emit (Acq Sf2Lock);
     sf2 \<leftarrow> gets sf2_obj;
     (if saved sf2 then for_each [0..<SF2_MAX_PORTS] (sf2_restore E sf2) else return ());
     emit (Rel Sf2Lock) }"

section \<open>Probe and remove\<close>

text \<open>What the device tree says of one port: whether it is available, its phy-mode, and the node
  its phy-handle names with that node's reg property.\<close>

record dt_port =
  dt_avail :: bool
  dt_mode :: "string option"
  dt_phy :: "u32 option option"

definition to_lower :: "char \<Rightarrow> char" where
  "to_lower c = (if 65 \<le> (of_char c :: nat) \<and> (of_char c :: nat) \<le> 90 then char_of (of_char c + 32 :: nat) else c)"

definition strcasecmp_eq :: "string \<Rightarrow> string \<Rightarrow> bool" where
  "strcasecmp_eq a b \<longleftrightarrow> map to_lower a = map to_lower b"

definition sf2_parse_port :: "dt_port \<Rightarrow> u32 list \<Rightarrow> u32 list" where
  "sf2_parse_port p ids =
     (if \<not> dt_avail p then ids
      else case dt_mode p of None \<Rightarrow> ids
      | Some mode \<Rightarrow>
          if \<not> strcasecmp_eq mode ''gmii'' then ids
          else case dt_phy p of None \<Rightarrow> ids
          | Some reg \<Rightarrow>
              (case reg of
                 Some phy_addr \<Rightarrow>
                   if length ids < SF2_MAX_PORTS
                   then ids @ [phy_addr OR ADVERTISE_ALL_GMII OR PHY_ADV_CFG_VALID]
                   else ids
               | None \<Rightarrow> ids))"

definition sf2_parse_ports :: "dt_port list list \<Rightarrow> u32 list" where
  "sf2_parse_ports np = fold (fold sf2_parse_port) np []"

definition sf2_6764_probe :: "env \<Rightarrow> dt_port list list \<Rightarrow> ('z sf2_world_scheme, errno + unit) state" where
  "sf2_6764_probe E np = do {
     rdy \<leftarrow> pmc6764_ready;
     if \<not> rdy then do { mark 0xF2; return (Inl EPROBE_DEFER) }
     else do {
       mem \<leftarrow> kcall E KZalloc;
       if mem = 0 then return (Inl ENOMEM)
       else do {
         mapped \<leftarrow> ioremap_all E [SwCore, SwReg, SwMdio, SphyCtrl, PhyTest];
         if \<not> mapped then do { mark MK_ERR_SF2_MAP; return (Inl ENXIO) }
         else do {
             pb \<leftarrow> kcall E (OfU32 ''phy_base'');
             wk \<leftarrow> kcall E (OfU32 ''phy_wkard_timeout'');
             modify (\<lambda>s. s\<lparr>g_sf2 := True, sf2_obj := \<lparr>sphy = True, phytest = True,
               phy_base = (if pb < 0 then 1 else word_of_int pb),
               phy_wkard_timeout = (if wk < 0 then 0 else word_of_int wk),
               phy_ids = sf2_parse_ports np, saved = False,
               saved_port_ctrl = replicate SF2_MAX_PORTS 0,
               saved_pbvlan = replicate SF2_MAX_PORTS 0\<rparr>\<rparr>);
             mark 0x6B;
             return (Inr ()) } } } }"

definition sf2_6764_remove :: "('z sf2_world_scheme, unit) state" where
  "sf2_6764_remove = modify (g_sf2_update (\<lambda>_. False))"

end
