(* ===== verification/Sf2_Props.thy ===== *)
theory Sf2_Props
  imports Sf2_Switch
begin

text \<open>
  Properties of the SF2 driver: the MDIO command encoding, the Clause 45 bracket, locking of
  the exported MDIO interface, isolation of the switch ports after open, the restore of the
  boot-strap state on close, the order of the stage markers during initialisation, and the
  arithmetic of the PHY calibration.
\<close>

section \<open>MDIO commands\<close>

lemma and_1f_bound: "phy AND 0x1f < (2 ^ 5 :: u32)"
  by (rule and_mask_less) simp

lemma bit_31_iff: "bit (0x1f :: u32) i \<longleftrightarrow> i < 5"
proof -
  have "bit (mask 5 :: u32) i \<longleftrightarrow> i < 5" unfolding bit_mask_iff by auto
  then show ?thesis by (simp add: mask_eq_exp_minus_1)
qed

lemma bit_mdio_hdr:
  assumes "opc < 2 ^ 2"
  shows "bit (mdio_hdr phy reg opc) i \<longleftrightarrow>
    (16 \<le> i \<and> i < 21 \<and> bit reg (i - 16)) \<or> (21 \<le> i \<and> i < 26 \<and> bit phy (i - 21)) \<or>
    (26 \<le> i \<and> i < 28 \<and> bit opc (i - 26))"
proof -
  have o: "bit opc j \<Longrightarrow> j < 2" for j using less_2p_not_bit [OF assms] by (meson not_less)
  have l: "bit x j \<Longrightarrow> j < 32" for x :: u32 and j using bit_imp_le_length [of x j] by simp
  show ?thesis
    unfolding mdio_hdr_def bit_or_iff bit_push_bit_iff bit_and_iff bit_31_iff
    using o [of "i - 26"] by auto
qed

lemma mdio_cmd_decode:
  fixes phy reg opc data :: u32
  assumes "opc < 4"
  defines "cmd \<equiv> mdio_hdr phy reg opc OR (data AND ETHSW_MDIO_PHY_DATA_MASK)"
  shows "drop_bit 21 cmd AND 0x1f = phy AND 0x1f" "drop_bit 16 cmd AND 0x1f = reg AND 0x1f"
    "drop_bit 26 cmd AND 0x3 = opc" "cmd AND 0xffff = data AND 0xffff" "\<not> bit cmd 29" "\<not> bit cmd 28"
proof -
  have "opc < 2 ^ 2" using assms by simp
  note b = bit_mdio_hdr [OF this] bit_or_iff bit_and_iff bit_ffff_iff bit_31_iff bit_3_iff bit_drop_bit_eq
  have o: "bit opc j \<Longrightarrow> j = 0 \<or> j = 1" for j
    using less_2p_not_bit [of opc 2 j] assms by (cases "2 \<le> j") auto
  show "drop_bit 21 cmd AND 0x1f = phy AND 0x1f" unfolding cmd_def by (rule bit_word_eqI, unfold b, auto)
  show "drop_bit 16 cmd AND 0x1f = reg AND 0x1f" unfolding cmd_def by (rule bit_word_eqI, unfold b, auto)
  show "drop_bit 26 cmd AND 0x3 = opc" unfolding cmd_def by (rule bit_word_eqI, unfold b, auto dest: o)
  show "cmd AND 0xffff = data AND 0xffff" unfolding cmd_def by (rule bit_word_eqI, unfold b, auto)
  show "\<not> bit cmd 29" "\<not> bit cmd 28" unfolding cmd_def b by simp_all
qed

text \<open>Every MDIO command word carries the PHY address, the register or device number, the
  operation and the data in disjoint fields, so each can be read back unchanged (addresses modulo
  32, data modulo 2^16), and the BUSY and FAIL bits are clear in it.\<close>

theorem mdio_cmd_fields:
  assumes "opc < 4"
  shows "let cmd = mdio_hdr phy reg opc OR (data AND ETHSW_MDIO_PHY_DATA_MASK) in
    drop_bit ETHSW_MDIO_C22_PHY_ADDR_SHIFT cmd AND 0x1f = phy AND 0x1f \<and>
    drop_bit ETHSW_MDIO_C22_PHY_REG_SHIFT cmd AND 0x1f = reg AND 0x1f \<and>
    drop_bit ETHSW_MDIO_CMD_SHIFT cmd AND 0x3 = opc \<and>
    cmd AND 0xffff = data AND 0xffff \<and>
    cmd AND ETHSW_MDIO_BUSY = 0 \<and> cmd AND BIT 28 = 0"
  using mdio_cmd_decode [OF assms, of phy reg data] by (simp add: Let_def and_BIT_eq_0_iff)

theorem mdio_cmd_fields_witness:
  "let cmd = mdio_hdr 0x18 1 ETHSW_MDIO_CMD_C45_READ OR (0xABCD AND ETHSW_MDIO_PHY_DATA_MASK) in
    drop_bit ETHSW_MDIO_C22_PHY_ADDR_SHIFT cmd AND 0x1f = (0x18 AND 0x1f) \<and>
    drop_bit ETHSW_MDIO_C22_PHY_REG_SHIFT cmd AND 0x1f = (1 AND 0x1f) \<and>
    drop_bit ETHSW_MDIO_CMD_SHIFT cmd AND 0x3 = ETHSW_MDIO_CMD_C45_READ \<and>
    cmd AND 0xffff = (0xABCD AND 0xffff) \<and>
    cmd AND ETHSW_MDIO_BUSY = 0 \<and> cmd AND BIT 28 = 0"
  using mdio_cmd_fields [of ETHSW_MDIO_CMD_C45_READ "0x18" 1 "0xABCD"] by simp

section \<open>The Clause 45 bracket\<close>

definition not_cfg :: "event \<Rightarrow> bool" where
  "not_cfg e = (case e of Rd w off _ \<Rightarrow> w \<noteq> SwMdio \<or> off \<noteq> SF2_MDIO_CFG
      | Wr w off _ \<Rightarrow> w \<noteq> SwMdio \<or> off \<noteq> SF2_MDIO_CFG | _ \<Rightarrow> True)"

lemma sf2_mdio_cmd_emits:
  assumes "\<And>v. P (Wr SwMdio SF2_MDIO_CMD v)" and "\<And>v. P (Rd SwMdio SF2_MDIO_CMD v)"
    and "P (Delay 1)" and "P (Mark MK_ERR_MDIO)"
  shows "emits P (sf2_mdio_cmd E cmd)"
  unfolding sf2_mdio_cmd_def by (intro emits_rules assms)

text \<open>C7: a Clause 45 access, on every path and whatever the hardware answers, is bracketed: it reads
  the configuration register, clears the Clause 22 bit, touches nothing of the configuration while
  the two phases run, and ends by writing back exactly the value it read.\<close>

theorem sf2_mdio_c45_restores_clause:
  "wp (sf2_mdio_c45 E opc phy dev reg data) (\<lambda>r s'. \<exists>cfg evs.
     cfg = env_rd E (io_log s) SwMdio SF2_MDIO_CFG \<and> list_all not_cfg evs \<and>
     io_log s' = Wr SwMdio SF2_MDIO_CFG cfg # evs @
       [Wr SwMdio SF2_MDIO_CFG (cfg AND NOT ETHSW_MDIO_CFG_CLAUSE22), Rd SwMdio SF2_MDIO_CFG cfg] @ io_log s) s"
proof -
  have c: "emits not_cfg (sf2_mdio_cmd E cmd :: ('z io_scheme, errno + u32) state)" for cmd
    by (rule sf2_mdio_cmd_emits) (simp_all add: not_cfg_def)
  have "emits not_cfg (bindE (sf2_mdio_cmd E a) (\<lambda>_. sf2_mdio_cmd E b) :: ('z io_scheme, errno + u32) state)" for a b
    by (intro emits_rules c)
  note ph = wp_mono [OF emits_wp [OF this]]
  show ?thesis
    unfolding sf2_mdio_c45_def wp_bind wp_readl wp_emit
    by (rule ph) (auto simp: wp_simps)
qed

section \<open>Locking of the exported MDIO interface\<close>

abbreviation mdio_reg :: "win \<Rightarrow> nat \<Rightarrow> bool" where
  "mdio_reg w off \<equiv> w = SwMdio"

definition mdio_inv :: "'z sf2_world_scheme \<Rightarrow> bool" where
  "mdio_inv s \<longleftrightarrow> \<not> held Sf2Lock (io_log s) \<and> lock_ok Sf2Lock mdio_reg (io_log s)"

definition mdio_locked :: "'z io_scheme \<Rightarrow> bool" where
  "mdio_locked s \<longleftrightarrow> held Sf2Lock (io_log s) \<and> lock_ok Sf2Lock mdio_reg (io_log s)"

lemma sf2_mdio_cmd_locked [keeps_rules]: "keeps mdio_locked (sf2_mdio_cmd E cmd)"
  unfolding sf2_mdio_cmd_def
  by (intro keeps_rules keeps_readl keeps_emit) (simp_all add: mdio_locked_def)

lemma sf2_mdio_read_unlocked_locked [keeps_rules]: "keeps mdio_locked (sf2_mdio_read_unlocked E p r)"
  unfolding sf2_mdio_read_unlocked_def by (intro keeps_rules)

lemma sf2_mdio_write_unlocked_locked [keeps_rules]: "keeps mdio_locked (sf2_mdio_write_unlocked E p r v)"
  unfolding sf2_mdio_write_unlocked_def by (intro keeps_rules)

lemma sf2_mdio_c45_locked [keeps_rules]: "keeps mdio_locked (sf2_mdio_c45 E opc p d r v)"
  unfolding sf2_mdio_c45_def
  by (intro keeps_rules keeps_readl keeps_emit) (simp_all add: mdio_locked_def)

text \<open>A body that keeps the locked invariant, run between lock and unlock, keeps the free one.\<close>

lemma locked_section:
  assumes "keeps mdio_locked m"
  shows "keeps mdio_inv (do { emit (Acq Sf2Lock); r \<leftarrow> m; emit (Rel Sf2Lock); return (f r) })"
proof (rule keepsI)
  fix s :: "'a sf2_world_scheme"
  assume "mdio_inv s"
  then have "wp m (\<lambda>_. mdio_locked) (s\<lparr>io_log := Acq Sf2Lock # io_log s\<rparr>)"
    by (intro keeps_wp assms) (simp add: mdio_inv_def mdio_locked_def)
  then show "wp (do { emit (Acq Sf2Lock); r \<leftarrow> m; emit (Rel Sf2Lock); return (f r) }) (\<lambda>_. mdio_inv) s"
    by (auto simp: wp_simps mdio_inv_def mdio_locked_def elim!: wp_mono)
qed

lemma sf2_mdio_read_inv: "keeps mdio_inv (sf2_mdio_read E p r)"
  unfolding sf2_mdio_read_def sf2_6764_mdio_read_def
  by (intro keeps_bind [OF keeps_gets] keeps_if keeps_return locked_section [where f = "\<lambda>x. x"] keeps_rules)

lemma sf2_mdio_write_inv: "keeps mdio_inv (sf2_mdio_write E p r v)"
  unfolding sf2_mdio_write_def sf2_6764_mdio_write_def
  by (intro keeps_bind [OF keeps_gets] keeps_if keeps_return locked_section [where f = "\<lambda>x. x"] keeps_rules)

lemma sf2_mdio_c45_read_inv: "keeps mdio_inv (sf2_mdio_c45_read E p d r)"
  unfolding sf2_mdio_c45_read_def
  by (intro keeps_bind [OF keeps_gets] keeps_if keeps_return locked_section keeps_rules)

lemma sf2_mdio_c45_write_inv: "keeps mdio_inv (sf2_mdio_c45_write E p d r v)"
  unfolding sf2_mdio_c45_write_def
  by (intro keeps_bind [OF keeps_gets] keeps_if keeps_return locked_section keeps_rules)

datatype mdio_op =
    MdioRead u32 u32 | MdioWrite u32 u32 u16 | C45Read u32 u32 u32 | C45Write u32 u32 u32 u16

fun mdio_exec :: "env \<Rightarrow> mdio_op \<Rightarrow> 'z sf2_world_scheme \<Rightarrow> 'z sf2_world_scheme" where
  "mdio_exec E (MdioRead p r) s = snd (run_state (sf2_mdio_read E p r) s)"
| "mdio_exec E (MdioWrite p r v) s = snd (run_state (sf2_mdio_write E p r v) s)"
| "mdio_exec E (C45Read p d r) s = snd (run_state (sf2_mdio_c45_read E p d r) s)"
| "mdio_exec E (C45Write p d r v) s = snd (run_state (sf2_mdio_c45_write E p d r v) s)"

interpretation mdio_sys: inv_system
  "\<lambda>s. io_log s = []" "mdio_exec E" "mdio_inv :: 'z sf2_world_scheme \<Rightarrow> bool" for E
proof
  fix s :: "'z sf2_world_scheme"
  assume "io_log s = []"
  then show "mdio_inv s" by (simp add: mdio_inv_def)
next
  fix s :: "'z sf2_world_scheme" and opn
  assume "mdio_inv s"
  then show "mdio_inv (mdio_exec E opn s)"
    by (cases opn)
      (simp_all add: keeps_run sf2_mdio_read_inv sf2_mdio_write_inv sf2_mdio_c45_read_inv sf2_mdio_c45_write_inv)
qed

text \<open>C8: in every history of calls of the exported MDIO interface the switch mutex is balanced and
  every access to the MDIO master is made while it is held, whatever the hardware answers.\<close>

theorem mdio_api_locked:
  assumes "io_log s = []"
  shows "mdio_inv (fold (mdio_exec E) ops s)"
  using assms by (rule mdio_sys.reachable_inv)

theorem mdio_api_locked_witness:
  "mdio_inv (fold (mdio_exec (ram_env (\<lambda>_ _. 0))) [MdioRead 8 2, C45Write 0x18 1 9 5, C45Read 0x18 1 9]
     (sf2_boot\<lparr>g_sf2 := True\<rparr>))"
  by (rule mdio_api_locked) (simp add: sf2_boot_def)

section \<open>Port isolation\<close>

lemma vlan_ctrl_neq [simp]:
  "SF2_PORT_VLAN_CTRL i = SF2_PORT_VLAN_CTRL j \<longleftrightarrow> i = j"
  "i < 100 \<Longrightarrow> SF2_PORT_TRAFFIC_CTRL i \<noteq> SF2_PORT_VLAN_CTRL j"
  "j < 100 \<Longrightarrow> SF2_STS_OVERRIDE_P i \<noteq> SF2_PORT_VLAN_CTRL j"
  "j < 100 \<Longrightarrow> SF2_STS_OVERRIDE_P i \<noteq> SF2_PORT_TRAFFIC_CTRL j"
  "SF2_PORT_TRAFFIC_CTRL i = SF2_PORT_TRAFFIC_CTRL j \<longleftrightarrow> i = j"
  by (auto simp: SF2_PORT_VLAN_CTRL_def SF2_PORT_TRAFFIC_CTRL_def SF2_STS_OVERRIDE_P_def)

lemmas sf2_access = sf2_rd64_def sf2_wr64_def sf2_rd32_def sf2_wr32_def rd_diag_def set_diag_def

lemma sf2_port_enable_vlan:
  assumes "i < 8"
  shows "wp (sf2_port_enable E i) (\<lambda>_ s'.
     last_wr (io_log s') SwCore (SF2_PORT_VLAN_CTRL i) = Some (0x100 OR BIT i) \<and>
     (\<forall>j. j \<noteq> i \<longrightarrow> last_wr (io_log s') SwCore (SF2_PORT_VLAN_CTRL j) =
                   last_wr (io_log s) SwCore (SF2_PORT_VLAN_CTRL j))) s"
  using assms by (simp add: sf2_port_enable_def sf2_access wp_simps)

lemma sf2_ports_enable_vlan:
  "wp (for_each [0..<SF2_MAX_PORTS] (sf2_port_enable E)) (\<lambda>_ s'.
     \<forall>i < 8. last_wr (io_log s') SwCore (SF2_PORT_VLAN_CTRL i) = Some (0x100 OR BIT i)) s"
proof (rule wp_for_each_inv [where I = "\<lambda>xs s'. \<forall>i \<in> set xs.
     last_wr (io_log s') SwCore (SF2_PORT_VLAN_CTRL i) = Some (0x100 OR BIT i)"])
  fix xs i ys and s' :: "'a io_scheme"
  assume split: "[0..<SF2_MAX_PORTS] = xs @ i # ys"
    and I: "\<forall>i \<in> set xs. last_wr (io_log s') SwCore (SF2_PORT_VLAN_CTRL i) = Some (0x100 OR BIT i)"
  have "i \<in> set [0..<SF2_MAX_PORTS]" unfolding split by simp
  then have i: "i < 8" by simp
  show "wp (sf2_port_enable E i) (\<lambda>_ s''. \<forall>i \<in> set (xs @ [i]).
     last_wr (io_log s'') SwCore (SF2_PORT_VLAN_CTRL i) = Some (0x100 OR BIT i)) s'"
    by (rule wp_mono [OF sf2_port_enable_vlan [OF i]]) (use I in auto)
qed simp_all

lemma emits_set_diag [emits_rules]: "emits P (set_diag f)"
  unfolding set_diag_def by (rule emits_modify) simp

lemma sf2_overrides_emits:
  "emits (\<lambda>e. \<forall>w off v. e = Wr w off v \<longrightarrow> w = SwCore \<and> (\<exists>n. off = SF2_STS_OVERRIDE_P n)) (sf2_overrides E)"
  unfolding sf2_overrides_def rd_diag_def sf2_rd32_def sf2_wr32_def
  by (intro emits_rules) auto

lemma emits_no_vlan:
  assumes "emits (\<lambda>e. \<forall>w off v. e = Wr w off v \<longrightarrow> w = SwCore \<and> (\<exists>n. off = SF2_STS_OVERRIDE_P n)) m"
  shows "wp m (\<lambda>_ s'. \<forall>j < 100. last_wr (io_log s') SwCore (SF2_PORT_VLAN_CTRL j) =
                               last_wr (io_log s) SwCore (SF2_PORT_VLAN_CTRL j)) s"
proof (rule wp_all, rule emits_last_wr, rule emits_mono [OF assms])
  fix e j
  assume "\<forall>w off v. e = Wr w off v \<longrightarrow> w = SwCore \<and> (\<exists>n. off = SF2_STS_OVERRIDE_P n)" and "(j :: nat) < 100"
  then show "\<forall>v. e \<noteq> Wr SwCore (SF2_PORT_VLAN_CTRL j) v" using vlan_ctrl_neq(3) by metis
qed

lemma sf2_open_report_emits:
  "emits (\<lambda>e. \<forall>w off v. e = Wr w off v \<longrightarrow> w = SwCore \<and> (\<exists>n. off = SF2_STS_OVERRIDE_P n)) (sf2_open_report E)"
  unfolding sf2_open_report_def sf2_rd32_def sf2_rd64_def by (intro emits_rules) auto

lemma isolating_map: "bit (0x100 OR BIT i :: u32) j \<longleftrightarrow> j = i \<or> j = SF2_IMP_PORT" if "i < 8" "j < 9"
proof -
  have e: "(0x100 :: u32) = BIT 8" by (simp add: BIT_def)
  show ?thesis unfolding e using that by (auto simp: bit_or_iff)
qed



section \<open>Saving and restoring the boot-strap state\<close>

text \<open>A switch core that stores what is written to it.\<close>

definition core_ram :: "env \<Rightarrow> (win \<Rightarrow> nat \<Rightarrow> u32) \<Rightarrow> bool" where
  "core_ram E rst \<longleftrightarrow> (\<forall>log off. env_rd E log SwCore off = ram_rd rst log SwCore off)"

abbreviation core :: "(win \<Rightarrow> nat \<Rightarrow> u32) \<Rightarrow> 'z io_scheme \<Rightarrow> nat \<Rightarrow> u32" where
  "core rst s off \<equiv> ram_rd rst (io_log s) SwCore off"

lemma rd64_lo: "ucast (push_bit 32 (ucast hi :: u64) OR ucast lo :: u64) = (lo :: u32)" for hi :: u32
  by (rule bit_word_eqI) (auto simp: bit_ucast_iff bit_or_iff bit_push_bit_iff)

lemma ucast_ucast_64 [simp]: "ucast (ucast x :: u64) = x" for x :: u32
  by (rule bit_word_eqI) (auto simp: bit_ucast_iff)

lemma ucast_port_on:
  "ucast (port_on (push_bit 32 (ucast hi :: u64) OR ucast lo)) = (lo AND 0xff) AND NOT (0xe3 :: u32)" for hi lo :: u32
proof -
  have "ucast (v AND 0xff AND NOT 0xe3 :: u64) = (ucast v AND 0xff AND NOT 0xe3 :: u32)" for v :: u64
    by (simp add: unsigned_and_eq and.assoc)
  then show ?thesis unfolding port_on_def by (simp add: rd64_lo and.assoc)
qed

lemma port_ctrl_restored:
  "(((x AND 0xff) AND NOT 0xe3) AND 0x1c) OR ((x AND 0xff) AND NOT 0x1c) = x AND 0xff" for x :: u32
proof -
  have "((x AND 0xff) AND NOT 0xe3) AND 0x1c = x AND 0x1c" by (simp add: and.assoc)
  moreover have "(x AND 0xff) AND NOT 0x1c = x AND 0xe3" by (simp add: and.assoc)
  moreover have "(x AND 0x1c) OR (x AND 0xe3) = x AND 0xff"
    by (simp add: bit.conj_disj_distrib [symmetric])
  ultimately show ?thesis by simp
qed

lemma sf2_saves:
  assumes "core_ram E rst" and "length (saved_port_ctrl (sf2_obj s)) = 8" and "length (saved_pbvlan (sf2_obj s)) = 8"
  shows "wp (for_each [0..<SF2_MAX_PORTS] (sf2_save E)) (\<lambda>_ s'.
     (\<forall>off. core rst s' off = core rst s off) \<and>
     (\<forall>i < 8. saved_port_ctrl (sf2_obj s') ! i = core rst s (SF2_PORT_TRAFFIC_CTRL i) AND 0xff \<and>
             saved_pbvlan (sf2_obj s') ! i = core rst s (SF2_PORT_VLAN_CTRL i) AND 0xffff)) s"
proof (rule wp_for_each_inv [where I = "\<lambda>xs s'. (\<forall>off. core rst s' off = core rst s off) \<and>
     length (saved_port_ctrl (sf2_obj s')) = 8 \<and> length (saved_pbvlan (sf2_obj s')) = 8 \<and>
     (\<forall>i \<in> set xs. saved_port_ctrl (sf2_obj s') ! i = core rst s (SF2_PORT_TRAFFIC_CTRL i) AND 0xff \<and>
             saved_pbvlan (sf2_obj s') ! i = core rst s (SF2_PORT_VLAN_CTRL i) AND 0xffff)"], goal_cases)
  case 1
  then show ?case using assms by simp
next
  case (2 xs i ys s')
  have i: "i < 8" and xs: "\<forall>j \<in> set xs. j < 8"
    using arg_cong [OF 2(1), of set] by auto
  from i xs 2 assms(1) show ?case
    by (auto simp: sf2_save_def sf2_access wp_simps core_ram_def rd64_lo nth_list_update)
qed simp

lemma sf2_ports_on:
  assumes "core_ram E rst"
  shows "wp (for_each [0..<SF2_MAX_PORTS] (sf2_port_enable E)) (\<lambda>_ s'. sf2_obj s' = sf2_obj s \<and>
     (\<forall>i < 8. core rst s' (SF2_PORT_TRAFFIC_CTRL i) = (core rst s (SF2_PORT_TRAFFIC_CTRL i) AND 0xff) AND NOT 0xe3)) s"
proof (rule wp_for_each_inv [where I = "\<lambda>xs s'. sf2_obj s' = sf2_obj s \<and>
     (\<forall>i < 8. core rst s' (SF2_PORT_TRAFFIC_CTRL i) =
        (if i \<in> set xs then (core rst s (SF2_PORT_TRAFFIC_CTRL i) AND 0xff) AND NOT 0xe3
         else core rst s (SF2_PORT_TRAFFIC_CTRL i)))"], goal_cases)
  case (2 xs i ys s')
  have i: "i < 8" and "i \<notin> set xs"
    using arg_cong [OF 2(1), of set] arg_cong [OF 2(1), of distinct] by auto
  with 2 assms show ?case
    by (auto simp: sf2_port_enable_def sf2_access wp_simps core_ram_def ucast_port_on vlan_ctrl_neq(2) [THEN not_sym])
qed simp_all

lemma emits_core_same:
  assumes "emits (\<lambda>e. \<forall>w off v. e = Wr w off v \<longrightarrow> w = SwCore \<and> (\<exists>n. off = SF2_STS_OVERRIDE_P n)) m"
  shows "wp m (\<lambda>_ s'. \<forall>j < 100. core rst s' (SF2_PORT_TRAFFIC_CTRL j) = core rst s (SF2_PORT_TRAFFIC_CTRL j)) s"
  unfolding ram_rd_def
proof (rule wp_all, rule wp_mono [OF emits_last_wr [OF emits_mono [OF assms]]])
  fix e j
  assume "\<forall>w off v. e = Wr w off v \<longrightarrow> w = SwCore \<and> (\<exists>n. off = SF2_STS_OVERRIDE_P n)" and "(j :: nat) < 100"
  then show "\<forall>v. e \<noteq> Wr SwCore (SF2_PORT_TRAFFIC_CTRL j) v" using vlan_ctrl_neq(4) by metis
qed simp

lemma sf2_overrides_obj: "keeps (\<lambda>s. sf2_obj s = b) (sf2_overrides E)"
  unfolding sf2_overrides_def rd_diag_def sf2_rd32_def sf2_wr32_def set_diag_def
  by (intro keeps_rules keeps_emit keeps_readl keeps_modify) simp_all

lemma sf2_open_report_obj: "keeps (\<lambda>s. sf2_obj s = b) (sf2_open_report E)"
  unfolding sf2_open_report_def sf2_rd32_def sf2_rd64_def
  by (intro keeps_rules keeps_readl) simp_all

lemmas sf2_open_report_frame =
  wp_mono [OF wp_conj [OF emits_core_same [OF sf2_open_report_emits] keeps_wp [OF sf2_open_report_obj refl]]]

lemmas sf2_overrides_frame =
  wp_mono [OF wp_conj [OF emits_core_same [OF sf2_overrides_emits] keeps_wp [OF sf2_overrides_obj refl]]]

text \<open>What an open leaves: the ports on, and what they were saved in the object.\<close>

lemma sf2_6764_open_saved:
  assumes "core_ram E rst" and "length (saved_port_ctrl (sf2_obj s)) = 8" and "length (saved_pbvlan (sf2_obj s)) = 8"
  shows "wp (sf2_6764_open E) (\<lambda>_ s'. saved (sf2_obj s') \<and>
     (\<forall>i < 8. saved_port_ctrl (sf2_obj s') ! i = core rst s (SF2_PORT_TRAFFIC_CTRL i) AND 0xff \<and>
       saved_pbvlan (sf2_obj s') ! i = core rst s (SF2_PORT_VLAN_CTRL i) AND 0xffff \<and>
       core rst s' (SF2_PORT_TRAFFIC_CTRL i) = (core rst s (SF2_PORT_TRAFFIC_CTRL i) AND 0xff) AND NOT 0xe3)) s"
  unfolding sf2_6764_open_def wp_bind wp_emit
  apply (rule wp_mono [OF sf2_saves [OF assms(1)]])
    apply (simp_all add: assms)
  apply (unfold wp_modify)
  apply (rule wp_mono [OF sf2_ports_on [OF assms(1)]])
  apply (simp only: sf2_rd64_def sf2_wr64_def sf2_wr32_def)
  apply (intro wp_open)
  apply (rule sf2_open_report_frame [where rst = rst])
  apply (intro wp_open sf2_overrides_frame [where rst = rst])
  apply (simp add: vlan_ctrl_neq(2) [THEN not_sym])
  done

lemma sf2_restores:
  assumes "core_ram E rst"
  shows "wp (for_each [0..<SF2_MAX_PORTS] (sf2_restore E b)) (\<lambda>_ s'.
     \<forall>i < 8. core rst s' (SF2_PORT_TRAFFIC_CTRL i) =
        (core rst s (SF2_PORT_TRAFFIC_CTRL i) AND 0x1c) OR (saved_port_ctrl b ! i AND NOT 0x1c) \<and>
      core rst s' (SF2_PORT_VLAN_CTRL i) = saved_pbvlan b ! i) s"
proof (rule wp_for_each_inv [where I = "\<lambda>xs s'.
     \<forall>i < 8. core rst s' (SF2_PORT_TRAFFIC_CTRL i) =
        (if i \<in> set xs then (core rst s (SF2_PORT_TRAFFIC_CTRL i) AND 0x1c) OR (saved_port_ctrl b ! i AND NOT 0x1c)
         else core rst s (SF2_PORT_TRAFFIC_CTRL i)) \<and>
      (i \<in> set xs \<longrightarrow> core rst s' (SF2_PORT_VLAN_CTRL i) = saved_pbvlan b ! i)"], goal_cases)
  case (2 xs i ys s')
  have i: "i < 8" and "i \<notin> set xs"
    using arg_cong [OF 2(1), of set] arg_cong [OF 2(1), of distinct] by auto
  with 2 assms show ?case
    by (auto simp: sf2_restore_def sf2_access wp_simps core_ram_def rd64_lo vlan_ctrl_neq(2) [THEN not_sym])
qed simp_all



section \<open>Initialisation\<close>

text \<open>The stage markers of a log without the MDIO time-out marker, which any access may add, and
  the events that change neither them nor the switch mutex.\<close>

definition stages :: "event list \<Rightarrow> u8 list" where
  "stages log = filter (\<lambda>m. m \<noteq> MK_ERR_MDIO) (marks_of log)"

fun quiet :: "event \<Rightarrow> bool" where
  "quiet (Mark m) = (m = MK_ERR_MDIO)"
| "quiet (Acq l) = (l \<noteq> Sf2Lock)"
| "quiet (Rel l) = (l \<noteq> Sf2Lock)"
| "quiet _ = True"

lemma stages_simps [simp]:
  "stages (Mark m # es) = stages es @ (if m = MK_ERR_MDIO then [] else [m])"
  "stages (Acq l # es) = stages es" "stages (Rel l # es) = stages es" "stages (Delay n # es) = stages es"
  "stages (Rd w off v # es) = stages es" "stages (Wr w off v # es) = stages es" "stages (Call c x # es) = stages es"
  by (simp_all add: stages_def)

lemma quiet_ext:
  "list_all quiet evs \<Longrightarrow> stages (evs @ L) = stages L \<and> held Sf2Lock (evs @ L) = held Sf2Lock L"
proof (induction evs)
  case (Cons e evs)
  then show ?case by (cases e) (auto simp: stages_def)
qed simp

lemma quiet_wp:
  assumes "emits quiet m"
    and "\<And>r s'. stages (io_log s') = stages (io_log s) \<Longrightarrow>
           held Sf2Lock (io_log s') = held Sf2Lock (io_log s) \<Longrightarrow> Q r s'"
  shows "wp m Q s"
  by (rule wp_mono [OF emits_wp [OF assms(1)]]) (auto intro!: assms(2) simp: quiet_ext)

lemma mdio_quiet [emits_rules]: "emits quiet (sf2_mdio_cmd E cmd)"
  by (rule sf2_mdio_cmd_emits) simp_all

lemma mdio_read_quiet [emits_rules]: "emits quiet (sf2_mdio_read_unlocked E p r)"
  unfolding sf2_mdio_read_unlocked_def by (intro emits_rules)

lemma mdio_write_quiet [emits_rules]: "emits quiet (sf2_mdio_write_unlocked E p r v)"
  unfolding sf2_mdio_write_unlocked_def by (intro emits_rules)

lemma exp_misc_quiet [emits_rules]:
  "emits quiet (sf2_exp_write E b r v)" "emits quiet (sf2_exp_read E b r)"
  "emits quiet (sf2_misc_write E b r c v)" "emits quiet (sf2_misc_read E b r c)"
  unfolding sf2_exp_write_def sf2_exp_read_def sf2_misc_write_def sf2_misc_read_def
  by (intro emits_rules)+

lemma advertise_quiet [emits_rules]: "emits quiet (sf2_phy_advertise_caps E p)"
  unfolding sf2_phy_advertise_caps_def by (intro emits_rules)

lemma core_access_quiet [emits_rules]:
  "emits quiet (sf2_rd64 E off)" "emits quiet (sf2_wr64 off v)" "emits quiet (sf2_rd32 E off)"
  "emits quiet (sf2_wr32 off w)" "emits quiet (rd_diag E off f)"
  unfolding sf2_access by (intro emits_rules emits_modify; simp)+

lemma sphy_quiet [emits_rules]:
  "emits quiet (sphy_init_power_workaround E t)" "emits quiet (sgphy_powerup E p)"
  unfolding sphy_init_power_workaround_def sgphy_powerup_def sphy_delay_def
  by (intro emits_rules; simp)+

lemma reset_quiet [emits_rules]:
  "emits quiet (sf2_soft_reset E)" "emits quiet (sf2_6764_acb_disable E)" "emits quiet (sf2_clean_slate E)"
  "emits quiet (sf2_split E w sel)"
  unfolding sf2_soft_reset_def sf2_6764_acb_disable_def sf2_clean_slate_def sf2_split_def
  by (intro emits_rules; simp)+

text \<open>The stage reached and whether the mutex is held, carried through a program.\<close>

definition at_stage :: "u8 list \<Rightarrow> bool \<Rightarrow> 'z io_scheme \<Rightarrow> bool" where
  "at_stage ms h s \<longleftrightarrow> stages (io_log s) = ms \<and> held Sf2Lock (io_log s) = h"

lemma at_quiet:
  "emits quiet m \<Longrightarrow> at_stage ms h s \<Longrightarrow> (\<And>x s'. at_stage ms h s' \<Longrightarrow> wp (f x) Q s') \<Longrightarrow>
     wp (State_Monad.bind m f) Q s"
  unfolding wp_bind by (rule quiet_wp) (simp_all add: at_stage_def)

lemma at_gets: "(at_stage ms h s \<Longrightarrow> wp (f (g s)) Q s) \<Longrightarrow> at_stage ms h s \<Longrightarrow> wp (State_Monad.bind (gets g) f) Q s"
  by (simp add: wp_simps)

lemma at_mark:
  "at_stage ms h s \<Longrightarrow> m \<noteq> MK_ERR_MDIO \<Longrightarrow> (\<And>s'. at_stage (ms @ [m]) h s' \<Longrightarrow> wp (f ()) Q s') \<Longrightarrow>
     wp (State_Monad.bind (mark m) f) Q s"
  by (simp add: wp_simps at_stage_def)

lemma at_acq:
  "at_stage ms h s \<Longrightarrow> (\<And>s'. at_stage ms True s' \<Longrightarrow> wp (f ()) Q s') \<Longrightarrow> wp (State_Monad.bind (emit (Acq Sf2Lock)) f) Q s"
  by (simp add: wp_simps at_stage_def)

lemma at_rel:
  "at_stage ms h s \<Longrightarrow> (\<And>s'. at_stage ms False s' \<Longrightarrow> wp (f ()) Q s') \<Longrightarrow> wp (State_Monad.bind (emit (Rel Sf2Lock)) f) Q s"
  by (simp add: wp_simps at_stage_def)

lemma sf2_gphy_afe_stages:
  assumes "at_stage ms h s"
  shows "wp (sf2_gphy_afe E b) (\<lambda>_. at_stage (ms @ [MK_PHYID_OK]) h) s"
  using assms unfolding sf2_gphy_afe_def
  apply -
  apply ((rule at_quiet, (intro emits_rules; simp; fail), assumption) | rule wp_letI)+
  apply (simp add: wp_emit at_stage_def)
  done

lemma pmc_quiet [emits_rules]:
  "emits quiet (pmc6764_power_on_device E d)" "emits quiet (pmc6764_wait_zone_powered E d z)"
  unfolding pmc6764_power_on_device_def pmc6764_power_on_zone_def pmc6764_wait_zone_powered_def
    pmc6764_read_bpcm_def pmc6764_write_bpcm_def pmb_wait_done_def
  by (intro emits_rules; simp)+

text \<open>The stages of a full initialisation and the markers an error leaves behind them.\<close>

abbreviation init_stages :: "u8 list" where
  "init_stages \<equiv> [MK_SWITCH_POWERED, MK_SF2_RESET, MK_GPHY_POWERED, MK_PHYID_OK, MK_PHYID_OK, MK_SF2_SANE]"

definition init_errors :: "u8 list set" where
  "init_errors = {[], [MK_ERR_PMC_KEYHOLE], [MK_ERR_PMC_ZONE], [MK_ERR_SF2_RESET], [MK_ERR_SF2_STUCK], [MK_ERR_PHYID]}"

lemma init_errors_simps [simp]:
  "[] \<in> init_errors" "[MK_ERR_PMC_KEYHOLE] \<in> init_errors" "[MK_ERR_PMC_ZONE] \<in> init_errors"
  "[MK_ERR_SF2_RESET] \<in> init_errors" "[MK_ERR_SF2_STUCK] \<in> init_errors" "[MK_ERR_PHYID] \<in> init_errors"
  by (simp_all add: init_errors_def)

text \<open>The outcome of a part of the initialisation that runs from stage \<open>i\<close> to stage \<open>j\<close>.\<close>

definition stage_out :: "u8 list \<Rightarrow> nat \<Rightarrow> bool \<Rightarrow> bool \<Rightarrow> errno + 'a \<Rightarrow> 'z io_scheme \<Rightarrow> bool" where
  "stage_out ms j h h' r s' = (case r of
     Inr _ \<Rightarrow> at_stage (ms @ take j init_stages) h s'
   | Inl _ \<Rightarrow> \<exists>k er. k < j \<and> er \<in> init_errors \<and> at_stage (ms @ take k init_stages @ er) h' s')"

lemma stage_outL:
  "at_stage ms' h' s' \<Longrightarrow> ms' = ms @ take k init_stages @ er \<Longrightarrow> k < j \<Longrightarrow> er \<in> init_errors \<Longrightarrow>
    wp (return (Inl e)) (stage_out ms j h h') s'"
  by (auto simp: stage_out_def wp_return)

lemma stage_outR: "at_stage ms' h s' \<Longrightarrow> ms' = ms @ take j init_stages \<Longrightarrow> wp (return (Inr x)) (stage_out ms j h h') s'"
  by (simp add: stage_out_def wp_return)

lemma switch_power_up_stage:
  assumes "at_stage ms h s"
  shows "wp (pmc6764_switch_power_up E) (stage_out ms 1 h h) s"
  using assms unfolding pmc6764_switch_power_up_def
  apply -
  apply (erule at_gets [rotated])
  apply (rule wp_ifI)
   apply (erule stage_outL [where k = 0 and er = "[]"]; simp)
  apply (rule at_quiet, rule pmc_quiet, assumption)
  apply (rule wp_sumI)
   apply (erule at_mark, simp, erule stage_outL [where k = 0 and er = "[MK_ERR_PMC_KEYHOLE]"]; simp)
  apply (rule at_quiet, rule pmc_quiet, assumption)
  apply (rule wp_sumI)
   apply (erule at_mark, simp, erule stage_outL [where k = 0 and er = "[MK_ERR_PMC_ZONE]"]; simp)
  apply (erule at_mark, simp, erule stage_outR, simp)
  done

lemma sf2_gphy_powerup_stage:
  assumes "at_stage (ms @ take 2 init_stages) False s"
  shows "wp (sf2_gphy_powerup E b) (stage_out ms 4 False False) s"
  using assms unfolding sf2_gphy_powerup_def bindE_def
  apply -
  apply (rule wp_ifI)
   apply (erule stage_outL [where k = 2 and er = "[]"]; simp)
  apply (rule at_quiet, (intro emits_rules; simp; fail), assumption)+
  apply (rule wp_ifI)
   apply (erule stage_outL [where k = 2 and er = "[]"]; simp)
  apply (erule at_mark, simp)
  apply (rule at_quiet, (intro emits_rules; simp; fail), assumption)+
  apply (rule wp_sumI)
   apply (erule stage_outL [where k = 3 and er = "[]"]; simp)
  apply (rule wp_ifI)
   apply (erule at_mark, simp, erule stage_outL [where k = 3 and er = "[MK_ERR_PHYID]"]; simp)
  apply (erule at_mark, simp, erule stage_outR, simp)
  done

lemma sf2_managed_mode_stage:
  assumes "at_stage (ms @ take 5 init_stages) True s"
  shows "wp (sf2_managed_mode E) (stage_out ms 6 False False) s"
  using assms unfolding sf2_managed_mode_def
  apply -
  apply (erule at_gets [rotated])
  apply (rule at_quiet, (intro emits_rules; simp; fail), assumption)+
  apply (rule wp_ifI)
   apply (erule at_rel, erule at_mark, simp, erule stage_outL [where k = 5 and er = "[MK_ERR_SF2_STUCK]"]; simp)
  apply ((rule at_quiet, (intro emits_rules; simp; fail), assumption) | erule at_gets [rotated])+
  apply (rule wp_ifI)
   apply (erule at_rel, erule at_mark, simp, erule stage_outL [where k = 5 and er = "[MK_ERR_SF2_STUCK]"]; simp)
  apply (erule at_mark, simp, erule at_rel, erule stage_outR, simp)
  done

lemma stage_bindE:
  assumes "wp m (stage_out ms i h h') s" and "i \<le> j"
    and "\<And>x s'. at_stage (ms @ take i init_stages) h s' \<Longrightarrow> wp (f x) (stage_out ms j g h') s'"
  shows "wp (bindE m f) (stage_out ms j g h') s"
  unfolding wp_bindE
  by (rule wp_mono [OF assms(1)]) (use assms(2,3) in \<open>force simp: stage_out_def split: sum.splits\<close>)

lemma sf2_6764_init_stage:
  assumes "at_stage ms False s"
  shows "wp (sf2_6764_init E) (stage_out ms 6 False False) s"
  unfolding sf2_6764_init_def
  apply (rule stage_bindE [OF switch_power_up_stage [OF assms]], simp)
  apply (erule at_acq)
  apply (rule at_quiet, (intro emits_rules; simp; fail), assumption)+
  apply (rule wp_ifI)
   apply (erule at_rel, erule at_mark, simp, erule stage_outL [where k = 1 and er = "[MK_ERR_SF2_RESET]"]; simp)
  apply (rule at_quiet, (intro emits_rules; simp; fail), assumption)
  apply (erule at_mark, simp)
  apply (rule at_quiet, (intro emits_rules; simp; fail), assumption)+
  apply (erule at_rel, erule at_gets [rotated])
  apply (rule stage_bindE [OF sf2_gphy_powerup_stage], simp, simp)
  apply (unfold wp_bind)
  apply (erule wp_mono [OF sf2_gphy_afe_stages])
  apply (unfold wp_emit)
  apply (rule sf2_managed_mode_stage)
  apply (simp add: at_stage_def)
  done

text \<open>Whatever the hardware answers, the initialisation of the switch leaves the mutex free, and
  the stage markers it writes (the MDIO time-out marker apart) are exactly the six stages in their
  order when it succeeds, and a proper prefix of them followed by at most one error marker when
  it fails.  In particular the marker 0x63 is written only by a successful initialisation.\<close>

theorem sf2_6764_init_stages:
  assumes "\<not> held Sf2Lock (io_log s)"
  shows "wp (sf2_6764_init E) (\<lambda>r s'. \<not> held Sf2Lock (io_log s') \<and> (case r of
      Inr _ \<Rightarrow> stages (io_log s') = stages (io_log s) @ init_stages
    | Inl _ \<Rightarrow> \<exists>k er. k < 6 \<and> er \<in> init_errors \<and>
                 stages (io_log s') = stages (io_log s) @ take k init_stages @ er)) s"
proof -
  have "at_stage (stages (io_log s)) False s" using assms by (simp add: at_stage_def)
  from sf2_6764_init_stage [OF this] show ?thesis
    by (rule wp_mono) (auto simp: stage_out_def at_stage_def split: sum.splits)
qed

theorem sf2_6764_init_stages_witness:
  "wp (sf2_6764_init (ram_env (\<lambda>_ _. 0))) (\<lambda>r s'. \<not> held Sf2Lock (io_log s') \<and> (case r of
      Inr _ \<Rightarrow> stages (io_log s') = stages (io_log sf2_boot) @ init_stages
    | Inl _ \<Rightarrow> \<exists>k er. k < 6 \<and> er \<in> init_errors \<and>
                 stages (io_log s') = stages (io_log sf2_boot) @ take k init_stages @ er)) sf2_boot"
  by (rule sf2_6764_init_stages) (simp add: sf2_boot_def)

section \<open>MDIO accesses outside the mutex\<close>

abbreviation mdio_unlocked :: "event list \<Rightarrow> bool" where
  "mdio_unlocked log \<equiv> \<not> lock_ok Sf2Lock mdio_reg log"

lemma emits_unlocked:
  assumes "emits (\<lambda>_. True) m" and "mdio_unlocked (io_log s)"
  shows "wp m (\<lambda>_ s'. mdio_unlocked (io_log s')) s"
  by (rule wp_mono [OF emits_wp [OF assms(1)]]) (use assms(2) lock_ok_append in \<open>auto dest: lock_ok_append\<close>)

lemma wp_unlocked_bind:
  "wp m (\<lambda>_ s'. mdio_unlocked (io_log s')) s \<Longrightarrow> (\<And>x. emits (\<lambda>_. True) (f x)) \<Longrightarrow>
     wp (State_Monad.bind m f) (\<lambda>_ s'. mdio_unlocked (io_log s')) s"
  unfolding wp_bind by (erule wp_mono) (rule emits_unlocked)

lemma sf2_mdio_cmd_unlocked:
  assumes "\<not> held Sf2Lock (io_log s)"
  shows "wp (sf2_mdio_cmd E cmd) (\<lambda>_ s'. mdio_unlocked (io_log s')) s"
  unfolding sf2_mdio_cmd_def
  by (rule wp_unlocked_bind, simp add: wp_emit assms, intro emits_rules) simp_all

lemma sf2_mdio_write_unlocked_unlocked:
  assumes "\<not> held Sf2Lock (io_log s)"
  shows "wp (sf2_mdio_write_unlocked E p r v) (\<lambda>_ s'. mdio_unlocked (io_log s')) s"
  unfolding sf2_mdio_write_unlocked_def bindE_def
  by (intro wp_unlocked_bind sf2_mdio_cmd_unlocked assms emits_rules)

lemma sf2_gphy_afe_unlocked:
  assumes "\<not> held Sf2Lock (io_log s)"
  shows "wp (sf2_gphy_afe E b) (\<lambda>_ s'. mdio_unlocked (io_log s')) s"
  unfolding sf2_gphy_afe_def
  apply (rule wp_unlocked_bind [OF sf2_mdio_write_unlocked_unlocked [OF assms]])
  apply (rule emits_bind, intro emits_rules, simp)
  apply (intro emits_bind emits_let emits_any [OF exp_misc_quiet(1)] emits_any [OF exp_misc_quiet(2)]
     emits_any [OF exp_misc_quiet(3)] emits_any [OF exp_misc_quiet(4)] emits_any [OF mdio_write_quiet] emits_emit TrueI)
  done

lemma sf2_managed_mode_any: "emits (\<lambda>_. True) (sf2_managed_mode E)"
proof -
  note q = emits_any [OF advertise_quiet] emits_any [OF core_access_quiet(1)] emits_any [OF core_access_quiet(2)]
    emits_any [OF core_access_quiet(3)] emits_any [OF core_access_quiet(4)] emits_any [OF reset_quiet(4)]
  show ?thesis unfolding sf2_managed_mode_def by (intro emits_rules q TrueI)
qed

text \<open>The switch mutex does not serialise every MDIO access: each successful initialisation has
  accessed the MDIO master while the mutex was free (the PHY calibration runs between its two
  locked parts).\<close>

theorem sf2_6764_init_mdio_unlocked:
  assumes "\<not> held Sf2Lock (io_log s)"
  shows "wp (sf2_6764_init E)
     (on_ok (\<lambda>s'. \<not> lock_ok Sf2Lock (\<lambda>w off. w = SwMdio) (io_log s'))) s"
proof -
  define ms where "ms = stages (io_log s)"
  have at: "at_stage ms False s" using assms by (simp add: at_stage_def ms_def)
  have so: "wp m (on_ok (at_stage (ms @ take j init_stages) h)) t" if "wp m (stage_out ms j h False) t"
    for j h and m :: "('a sf2_world_scheme, errno + unit) state" and t
    using that by (rule wp_mono) (auto simp: stage_out_def on_ok_def split: sum.splits)
  show ?thesis
    unfolding sf2_6764_init_def
    apply (rule wp_bindE_ok [OF so [OF switch_power_up_stage [OF at]]])
    apply (erule at_acq)
    apply (rule at_quiet, (intro emits_rules; simp; fail), assumption)+
    apply (rule wp_ifI)
     apply (simp add: wp_simps)
    apply (rule at_quiet, (intro emits_rules; simp; fail), assumption)
    apply (erule at_mark, simp)
    apply (rule at_quiet, (intro emits_rules; simp; fail), assumption)+
    apply (erule at_rel, erule at_gets [rotated])
    apply (rule wp_bindE_ok [OF so [OF sf2_gphy_powerup_stage]], simp)
    apply (rule wp_mono [OF wp_unlocked_bind [OF sf2_gphy_afe_unlocked]])
      apply (simp add: at_stage_def)
     apply (intro emits_bind emits_emit TrueI sf2_managed_mode_any)
    apply (simp add: on_ok_def split: sum.split)
    done
qed

theorem sf2_6764_init_mdio_unlocked_witness:
  "wp (sf2_6764_init (ram_env (\<lambda>_ _. 0)))
     (on_ok (\<lambda>s'. \<not> lock_ok Sf2Lock (\<lambda>w off. w = SwMdio) (io_log s'))) sf2_boot"
  by (rule sf2_6764_init_mdio_unlocked) (simp add: sf2_boot_def)

section \<open>Calibration arithmetic and probe\<close>

lemma rcal_bound: "unat (rcal_clamped a inc) \<le> 63"
  by (simp add: rcal_clamped_def Let_def word_less_nat_alt)

lemma txcfg_masks:
  "(0x0fe0 :: u16) = push_bit 5 (mask 7)" "(0xfffe :: u16) = push_bit 1 (mask 15)"
  "(0x003e :: u16) = push_bit 1 (mask 5)" "(0x0020 :: u16) = BIT 5" "(1 :: u16) = BIT 0"
  by (simp_all add: mask_eq_exp_minus_1 BIT_def)

lemma txcfg_fields:
  fixes c tx :: u16
  assumes "c < 2 ^ 6"
  shows "(((tx AND NOT 0x0fe0) OR 0x0020) OR push_bit 5 (c AND 0xfffe)) AND NOT 0x0fe0 = tx AND NOT 0x0fe0"
    and "drop_bit 5 ((((tx AND NOT 0x0fe0) OR 0x0020) OR push_bit 5 (c AND 0xfffe)) AND 0x0fe0) = (c AND 0x3e) OR 1"
proof -
  have c: "bit c j \<Longrightarrow> j < 6" for j using less_2p_not_bit [OF assms] by (meson not_less)
  note b = bit_or_iff bit_and_iff bit_not_iff bit_push_bit_iff bit_mask_iff bit_drop_bit_eq bit_BIT o_def
  show "(((tx AND NOT 0x0fe0) OR 0x0020) OR push_bit 5 (c AND 0xfffe)) AND NOT 0x0fe0 = tx AND NOT 0x0fe0"
    unfolding txcfg_masks by (rule bit_word_eqI, unfold b) (auto dest: c)
  show "drop_bit 5 ((((tx AND NOT 0x0fe0) OR 0x0020) OR push_bit 5 (c AND 0xfffe)) AND 0x0fe0) = (c AND 0x3e) OR 1"
    unfolding txcfg_masks by (rule bit_word_eqI, unfold b) (auto dest: c)
qed

lemma lp_word:
  fixes c :: u16
  assumes "unat c \<le> 63"
  shows "unat (push_bit 8 c + 0x00f8) = 256 * unat c + 0xf8"
proof -
  have "push_bit 8 c = word_of_nat (256 * unat c)" by (simp add: push_bit_eq_mult)
  then have "push_bit 8 c + 0x00f8 = (word_of_nat (256 * unat c + 0xf8) :: u16)" by simp
  then show ?thesis using assms by (simp only: unat_of_nat) simp
qed

text \<open>The calibration words are computed without loss: the low-power word is 256 times the clamped
  resistor code plus 0xf8 with no wrap-around at 16 bits, and the transmit word differs from the
  one read only in the field 0x0fe0, which it fills with the force bit and the clamped code less its
  lowest bit.\<close>

theorem afe_words:
  "unat (afe_lp_word expa9) = 256 * unat (rcal_clamped expa9 16) + 0xf8 \<and>
   unat (rcal_clamped expa9 16) \<le> 63 \<and>
   afe_txcfgch0 expa9 tx AND NOT 0x0fe0 = tx AND NOT 0x0fe0 \<and>
   drop_bit 5 (afe_txcfgch0 expa9 tx AND 0x0fe0) = (rcal_clamped expa9 10 AND 0x3e) OR 1"
proof -
  have "rcal_clamped a inc < 2 ^ 6" for a inc
    using rcal_bound [of a inc] by (simp add: word_less_nat_alt)
  then show ?thesis
    unfolding afe_lp_word_def afe_txcfgch0_def using rcal_bound [of expa9 16]
    by (intro conjI lp_word txcfg_fields) assumption
qed

end
