(* ===== verification/Cascade.thy ===== *)
theory Cascade
  imports Sf2
begin

text \<open>
  \<^verbatim>\<open>port66/cascade66/cascade6764.c\<close>: the external 2.5G copper PHY that carries the WAN.  The driver
  reads the PHY out, uploads its firmware when none is running, configures it and then follows the
  copper link from a delayed work.  Every access is a Clause 45 call of the switch driver
  (theory \<open>Sf2\<close>).  The retuning of the SerDes lane, \<^verbatim>\<open>serdes6764_speed_set()\<close> of another module, is
  the argument \<open>speed_set\<close>; the firmware file is the argument \<open>fw\<close>.  Messages and the progress count
  that only feeds them are left out.
\<close>

section \<open>Constants\<close>

abbreviation (input) LR_DEVID :: u32 where "LR_DEVID \<equiv> 0x01"
abbreviation (input) LR_CTRL :: u32 where "LR_CTRL \<equiv> 0xa817"
abbreviation (input) LR_ADDR_LOW :: u32 where "LR_ADDR_LOW \<equiv> 0xa819"
abbreviation (input) LR_ADDR_HIGH :: u32 where "LR_ADDR_HIGH \<equiv> 0xa81a"
abbreviation (input) LR_DATA_LOW :: u32 where "LR_DATA_LOW \<equiv> 0xa81b"
abbreviation (input) LR_DATA_HIGH :: u32 where "LR_DATA_HIGH \<equiv> 0xa81c"
abbreviation (input) LR_RAM_ADDR :: u32 where "LR_RAM_ADDR \<equiv> 0x00000000"
abbreviation (input) PROC_RUNNING :: int where "PROC_RUNNING \<equiv> 0x2040"
abbreviation (input) FW_CRC_MASK :: u32 where "FW_CRC_MASK \<equiv> 0xc000"
abbreviation (input) FW_CRC_GOOD :: u32 where "FW_CRC_GOOD \<equiv> 0x4000"
abbreviation (input) CMD_STATUS :: u32 where "CMD_STATUS \<equiv> 0x4037"
abbreviation (input) CMD_CODE :: u32 where "CMD_CODE \<equiv> 0x4005"
definition CMD_DATA :: "nat \<Rightarrow> u32" where "CMD_DATA n = 0x4038 + of_nat n"
abbreviation (input) CMD_IN_PROGRESS :: int where "CMD_IN_PROGRESS \<equiv> 0x0002"
abbreviation (input) CMD_COMPLETE_PASS :: int where "CMD_COMPLETE_PASS \<equiv> 0x0004"
abbreviation (input) CMD_SYSTEM_BUSY :: int where "CMD_SYSTEM_BUSY \<equiv> 0xbbbb"
abbreviation (input) CMD_SET_PAIR_SWAP :: u16 where "CMD_SET_PAIR_SWAP \<equiv> 0x8001"
abbreviation (input) CMD_SET_XFI_2P5G_5G_MODE :: u16 where "CMD_SET_XFI_2P5G_5G_MODE \<equiv> 0x8017"

section \<open>State\<close>

text \<open>The module parameters, the exported read-only state and the link tracker.  \<open>poll_inited\<close> says
  whether \<^verbatim>\<open>INIT_DELAYED_WORK\<close> has run on \<^verbatim>\<open>poll_work\<close>, \<open>poll_pending\<close> whether it is queued.\<close>

record cascade_world = sf2_world +
  phy_addr :: u32
  sf2_port :: int
  serdes_core :: int
  load_fw :: int
  force_fw :: int
  configure :: int
  swap_pair :: int
  ref_clk_mhz :: int
  poll_ms :: int
  track_speed :: int
  st_id1 :: int
  st_id2 :: int
  st_proc :: int
  st_400d :: int
  st_link :: int
  st_speed :: int
  st_fw_uploaded :: int
  st_fw_ret :: int
  st_cfg_ret :: int
  last_link :: int
  last_speed :: int
  poll_inited :: bool
  poll_pending :: bool

text \<open>The values at module load, over a given state of the switch driver.\<close>

definition cascade_boot :: "sf2_world \<Rightarrow> cascade_world" where
  "cascade_boot s = sf2_world.extend s (cascade_world.fields
     24 6 1 1 0 0 1 80 2000 1  0 0 0 0 0 0 0 (-1) (-1)  (-1) (-1) False False)"

section \<open>MDIO\<close>

text \<open>The C value of a fallible call: a negative errno, or the value.\<close>

definition cint :: "errno + u16 \<Rightarrow> int" where
  "cint r = (case r of Inl e \<Rightarrow> errno_val e | Inr v \<Rightarrow> uint v)"

definition rd :: "env \<Rightarrow> u32 \<Rightarrow> u32 \<Rightarrow> ('z cascade_world_scheme, int) state" where
  "rd E dev reg = do {
     a \<leftarrow> gets phy_addr;
     v \<leftarrow> sf2_mdio_c45_read E a dev reg;
     return (cint v) }"

definition wr :: "env \<Rightarrow> u32 \<Rightarrow> u32 \<Rightarrow> u16 \<Rightarrow> ('z cascade_world_scheme, errno + unit) state" where
  "wr E dev reg val = do {
     a \<leftarrow> gets phy_addr;
     sf2_mdio_c45_write E a dev reg val }"

section \<open>Firmware download\<close>

definition fw_running :: "env \<Rightarrow> ('z cascade_world_scheme, bool) state" where
  "fw_running E = do {
     proc \<leftarrow> rd E 0x01 0x0000;
     st \<leftarrow> rd E 0x1e 0x400d;
     modify (st_proc_update (\<lambda>_. proc));
     modify (st_400d_update (\<lambda>_. st));
     return (proc = PROC_RUNNING \<and> (word_of_int st :: u32) AND FW_CRC_MASK = FW_CRC_GOOD) }"

definition halt_processors :: "env \<Rightarrow> ('z cascade_world_scheme, unit) state" where
  "halt_processors E = do {
     wr E 0x1e 0x4110 0x0001;
     wr E 0x1e 0x418c 0x0000;
     wr E 0x1e 0x4188 0x48f0;
     wr E 0x01 LR_ADDR_HIGH 0xf000;
     wr E 0x01 LR_ADDR_LOW 0x3000;
     wr E 0x01 LR_DATA_HIGH 0x0000;
     wr E 0x01 LR_DATA_LOW 0x0121;
     wr E 0x01 LR_CTRL 0x0009;
     wr E 0x1e 0x80a6 0x0000;
     wr E 0x01 0xa010 0x0000;
     wr E 0x01 0x0000 0x8000;
     delay_us 1000;
     wr E 0x1e 0x4110 0x0001;
     delay_us 1000 }"

definition release_processors :: "env \<Rightarrow> ('z cascade_world_scheme, unit) state" where
  "release_processors E = do {
     wr E 0x01 LR_ADDR_HIGH 0xf000;
     wr E 0x01 LR_ADDR_LOW 0x3000;
     wr E 0x01 LR_DATA_HIGH 0x0000;
     wr E 0x01 LR_DATA_LOW 0x0020;
     wr E 0x01 LR_CTRL 0x0009;
     delay_us 2000 }"

definition set_shared_ref_clk :: "env \<Rightarrow> ('z cascade_world_scheme, unit) state" where
  "set_shared_ref_clk E = do {
     mhz \<leftarrow> gets ref_clk_mhz;
     if mhz \<noteq> 80 then return ()
     else do {
       v \<leftarrow> rd E 0x1e 0x80a8;
       if v < 0 then return ()
       else do { wr E 0x1e 0x80a8 (word_of_int v OR 1); return () } } }"

definition get_unaligned_le32 :: "u8 list \<Rightarrow> nat \<Rightarrow> u32" where
  "get_unaligned_le32 p i =
     ucast (p ! i) OR push_bit 8 (ucast (p ! (i + 1))) OR
     push_bit 16 (ucast (p ! (i + 2))) OR push_bit 24 (ucast (p ! (i + 3)))"

text \<open>One pass of the upload loop: the high half, then the low half; on an error the window is closed.\<close>

definition upload_word :: "env \<Rightarrow> u8 list \<Rightarrow> nat \<Rightarrow> ('z cascade_world_scheme, errno + unit) state" where
  "upload_word E fw i =
     (let word = get_unaligned_le32 fw i in do {
        ret \<leftarrow> wr E LR_DEVID LR_DATA_HIGH (ucast (drop_bit 16 word));
        ret \<leftarrow> (case ret of Inl e \<Rightarrow> return (Inl e)
                | Inr _ \<Rightarrow> wr E LR_DEVID LR_DATA_LOW (ucast (word AND 0xffff)));
        case ret of
          Inl e \<Rightarrow> do { wr E LR_DEVID LR_CTRL 0x0000; return (Inl e) }
        | Inr _ \<Rightarrow> return (Inr ()) })"

definition upload_firmware :: "env \<Rightarrow> u8 list \<Rightarrow> ('z cascade_world_scheme, errno + unit) state" where
  "upload_firmware E fw =
     (if length fw mod 4 \<noteq> 0 then return (Inl EINVAL)
      else do {
        wr E LR_DEVID LR_ADDR_LOW (ucast (LR_RAM_ADDR AND 0xffff));
        wr E LR_DEVID LR_ADDR_HIGH (ucast (drop_bit 16 LR_RAM_ADDR));
        wr E LR_DEVID LR_CTRL 0x0038;
        bindE (for_eachE (map (\<lambda>k. 4 * k) [0..<length fw div 4]) (upload_word E fw)) (\<lambda>_. do {
          wr E LR_DEVID LR_CTRL 0x0000;
          return (Inr ()) }) })"

definition wait_firmware_alive :: "env \<Rightarrow> ('z cascade_world_scheme, errno + unit) state" where
  "wait_firmware_alive E = do {
     r \<leftarrow> poll_loop 1000 (do {
       delay_us 2000;
       v \<leftarrow> rd E 0x01 0x0000;
       return (if v = PROC_RUNNING then Some () else None) });
     case r of
       None \<Rightarrow> do { rd E 0x01 0x0000; return (Inl ETIMEDOUT) }
     | Some _ \<Rightarrow> do {
         r \<leftarrow> poll_loop 1000 (do {
           delay_us 2000;
           v \<leftarrow> rd E 0x1e 0x400d;
           return (if (word_of_int v :: u32) AND FW_CRC_MASK = FW_CRC_GOOD then Some () else None) });
         case r of
           None \<Rightarrow> do { rd E 0x1e 0x400d; return (Inl EIO) }
         | Some _ \<Rightarrow> return (Inr ()) } }"

definition download_firmware :: "env \<Rightarrow> u8 list \<Rightarrow> ('z cascade_world_scheme, errno + unit) state" where
  "download_firmware E fw = do {
     dev \<leftarrow> kcall E RootDeviceRegister;
     if dev < 0 then return (Inl (Kerr dev))
     else do {
       ret \<leftarrow> kcall E RequestFirmware;
       if ret \<noteq> 0 then do {
         emit (KNote ''root_device_unregister'' 0);
         return (Inl (Kerr ret)) }
       else do {
         halt_processors E;
         ret \<leftarrow> upload_firmware E fw;
         emit (KNote ''release_firmware'' 0);
         emit (KNote ''root_device_unregister'' 0);
         case ret of
           Inl e \<Rightarrow> return (Inl e)
         | Inr _ \<Rightarrow> do {
             set_shared_ref_clk E;
             release_processors E;
             wait_firmware_alive E } } } }"

section \<open>Firmware commands and configuration\<close>

text \<open>One pass of the two status loops: the status once it is final.\<close>

definition cmd_poll :: "env \<Rightarrow> ('z cascade_world_scheme, int option) state" where
  "cmd_poll E = do {
     v \<leftarrow> rd E 0x1e CMD_STATUS;
     if v \<noteq> CMD_IN_PROGRESS \<and> v \<noteq> CMD_SYSTEM_BUSY then return (Some v)
     else do { delay_us 2000; return None } }"

definition phy_cmd_set :: "env \<Rightarrow> u16 \<Rightarrow> int list \<Rightarrow> ('z cascade_world_scheme, errno + unit) state" where
  "phy_cmd_set E code data = do {
     v \<leftarrow> poll_loop 1000 (cmd_poll E);
     case v of
       None \<Rightarrow> return (Inl EBUSY)
     | Some _ \<Rightarrow> do {
         for_each [0..<length data] (\<lambda>i.
           if data ! i \<ge> 0 then do { wr E 0x1e (CMD_DATA i) (word_of_int (data ! i)); return () }
           else return ());
         wr E 0x1e CMD_CODE code;
         v \<leftarrow> poll_loop 1000 (cmd_poll E);
         return (if v \<noteq> Some CMD_COMPLETE_PASS then Inl EIO else Inr ()) } }"

text \<open>\<open>rmw\<close> is \<^verbatim>\<open>v = rd(d, r); if (v >= 0) { v &= ~clr; v |= st; wr(d, r, (u16)v); }\<close>.\<close>

definition rmw :: "env \<Rightarrow> u32 \<Rightarrow> u32 \<Rightarrow> u16 \<Rightarrow> u16 \<Rightarrow> ('z cascade_world_scheme, unit) state" where
  "rmw E dev reg clr st = do {
     v \<leftarrow> rd E dev reg;
     if v \<ge> 0 then do { wr E dev reg ((word_of_int v AND NOT clr) OR st); return () }
     else return () }"

definition post_config :: "env \<Rightarrow> ('z cascade_world_scheme, errno + unit) state" where
  "post_config E = do {
     sp \<leftarrow> gets swap_pair;
     wr E 0x1e 0x4110 0x0001;
     wr E 0x1e 0x4111 0x0001;
     wr E 0x1e 0x4113 0x1002;
     bindE (phy_cmd_set E CMD_SET_XFI_2P5G_5G_MODE [1, 1]) (\<lambda>_. do {
       rmw E 0x07 0x902f 0 (BIT 9 OR BIT 4);
       bindE (phy_cmd_set E CMD_SET_PAIR_SWAP [-1, if sp \<noteq> 0 then 0x1b else 0xe4]) (\<lambda>_. do {
         rmw E 0x07 0xffe4 (BIT 5 OR BIT 6 OR BIT 7 OR BIT 8 OR BIT 10 OR BIT 11)
           (BIT 5 OR BIT 6 OR BIT 7 OR BIT 8 OR BIT 10 OR BIT 11);
         rmw E 0x07 0xffe9 (BIT 8 OR BIT 9 OR BIT 10) (BIT 8 OR BIT 9 OR BIT 10);
         rmw E 0x07 0x0020 (BIT 7 OR BIT 8 OR BIT 12 OR BIT 13) (BIT 7 OR BIT 13);
         v \<leftarrow> rd E 0x07 0xffe0;
         (if v \<ge> 0 then
            (let w = (word_of_int v AND NOT (BIT 6 OR BIT 8 OR BIT 12 OR BIT 13)) OR
                     (BIT 6 OR BIT 8 OR BIT 12) in do {
               wr E 0x07 0xffe0 w;
               wr E 0x07 0xffe0 (w OR BIT 9);
               return () })
          else return ());
         return (Inr ()) }) }) }"

section \<open>Link poll\<close>

definition speed_of :: "int \<Rightarrow> int" where
  "speed_of mode = (if mode = 7 then 10 else if mode = 2 then 100 else if mode = 4 then 1000
     else if mode = 1 then 2500 else if mode = 3 then 5000 else if mode = 6 then 10000 else 0)"

definition link_changed ::
    "(int \<Rightarrow> int \<Rightarrow> ('z cascade_world_scheme, int) state) \<Rightarrow> int \<Rightarrow> int \<Rightarrow>
     ('z cascade_world_scheme, unit) state" where
  "link_changed speed_set link mbps = do {
     port \<leftarrow> gets sf2_port;
     if link = 0 then
       (if port \<ge> 0 then do { sf2_6764_force_port_state port 0 False; return () } else return ())
     else do {
       track \<leftarrow> gets track_speed;
       core \<leftarrow> gets serdes_core;
       (if track \<noteq> 0 \<and> core \<ge> 0 then do {
          speed_set core (if mbps > 1000 then 2500 else 1000); return () }
        else return ());
       (if port \<ge> 0 then do { sf2_6764_force_port_state port mbps True; return () } else return ()) } }"

text \<open>\<open>schedule_poll\<close> is \<^verbatim>\<open>schedule_delayed_work(&poll_work, msecs_to_jiffies(ms))\<close>.\<close>

definition schedule_poll :: "nat \<Rightarrow> ('z cascade_world_scheme, unit) state" where
  "schedule_poll ms = do {
     emit (KNote ''schedule_delayed_work'' ms);
     modify (poll_pending_update (\<lambda>_. True)) }"

definition link_of :: "int \<Rightarrow> int" where
  "link_of v = drop_bit 5 v AND 1"

definition mbps_of :: "int \<Rightarrow> int" where
  "mbps_of v = (if link_of v \<noteq> 0 then speed_of (drop_bit 2 v AND 7) else 0)"

text \<open>The block of \<^verbatim>\<open>poll_fn\<close> under \<^verbatim>\<open>if (v >= 0)\<close>.\<close>

definition poll_update ::
    "(int \<Rightarrow> int \<Rightarrow> ('z cascade_world_scheme, int) state) \<Rightarrow> int \<Rightarrow> ('z cascade_world_scheme, unit) state" where
  "poll_update speed_set v = do {
     modify (st_400d_update (\<lambda>_. v));
     modify (st_link_update (\<lambda>_. link_of v));
     modify (st_speed_update (\<lambda>_. mbps_of v));
     l \<leftarrow> gets last_link;
     sp \<leftarrow> gets last_speed;
     (if link_of v \<noteq> l \<or> mbps_of v \<noteq> sp then do {
        modify (last_link_update (\<lambda>_. link_of v));
        modify (last_speed_update (\<lambda>_. mbps_of v));
        link_changed speed_set (link_of v) (mbps_of v) }
      else return ()) }"

text \<open>The workqueue clears the pending mark of the work before it calls its function.\<close>

definition poll_fn ::
    "env \<Rightarrow> (int \<Rightarrow> int \<Rightarrow> ('z cascade_world_scheme, int) state) \<Rightarrow> ('z cascade_world_scheme, unit) state" where
  "poll_fn E speed_set = do {
     modify (poll_pending_update (\<lambda>_. False));
     v \<leftarrow> rd E 0x1e 0x400d;
     (if v \<ge> 0 then poll_update speed_set v
      else return ());
     ms \<leftarrow> gets poll_ms;
     (if ms > 0 then schedule_poll (nat ms) else return ()) }"

section \<open>Module entry points\<close>

text \<open>The part of \<^verbatim>\<open>cascade6764_init\<close> after the PHY has answered.\<close>

definition cascade6764_bringup :: "env \<Rightarrow> u8 list \<Rightarrow> ('z cascade_world_scheme, unit) state" where
  "cascade6764_bringup E fw = do {
     running \<leftarrow> fw_running E;
     load \<leftarrow> gets load_fw;
     force \<leftarrow> gets force_fw;
     running \<leftarrow> (if (\<not> running \<and> load \<noteq> 0) \<or> force \<noteq> 0 then do {
         ret \<leftarrow> download_firmware E fw;
         modify (st_fw_ret_update (\<lambda>_. cret ret));
         if cret ret = 0 then do {
           modify (st_fw_uploaded_update (\<lambda>_. 1));
           return True }
         else return running }
       else return running);
     cfg \<leftarrow> gets configure;
     up \<leftarrow> gets st_fw_uploaded;
     (if running \<and> cfg \<ge> 0 \<and> (cfg > 0 \<or> up \<noteq> 0) then do {
        ret \<leftarrow> post_config E;
        modify (st_cfg_ret_update (\<lambda>_. cret ret)) }
      else return ());
     if \<not> running then return ()
     else do {
       modify (poll_inited_update (\<lambda>_. True));
       schedule_poll 0 } }"

definition cascade6764_init :: "env \<Rightarrow> u8 list \<Rightarrow> ('z cascade_world_scheme, unit) state" where
  "cascade6764_init E fw = do {
     id1 \<leftarrow> rd E 0x01 0x0002;
     modify (st_id1_update (\<lambda>_. id1));
     id2 \<leftarrow> rd E 0x01 0x0003;
     modify (st_id2_update (\<lambda>_. id2));
     if id1 < 0 \<or> (word_of_int id1 :: u32) AND 0xffff = 0xffff then return ()
     else cascade6764_bringup E fw }"

text \<open>\<^verbatim>\<open>cancel_delayed_work_sync()\<close>; the note records whether the work had been initialised.\<close>

definition cascade6764_exit :: "('z cascade_world_scheme, unit) state" where
  "cascade6764_exit = do {
     i \<leftarrow> gets poll_inited;
     emit (KNote ''cancel_delayed_work_sync'' (if i then 1 else 0));
     modify (poll_pending_update (\<lambda>_. False)) }"

end
