(* ===== verification/Mdio_Frames.thy ===== *)
theory Mdio_Frames
  imports Sf2_Props
begin

text \<open>
  The Clause 45 frames on the MDIO bus, read off the log of the MDIO master: which data words the
  drivers above the switch driver (\<^verbatim>\<open>cascade6764.c\<close>) have written to which register of which PHY.
\<close>

section \<open>Frames of a log\<close>

definition f_op :: "u32 \<Rightarrow> u32" where "f_op cmd = drop_bit 26 cmd AND 3"
definition f_phy :: "u32 \<Rightarrow> u32" where "f_phy cmd = drop_bit 21 cmd AND 0x1f"
definition f_dev :: "u32 \<Rightarrow> u32" where "f_dev cmd = drop_bit 16 cmd AND 0x1f"
definition f_data :: "u32 \<Rightarrow> u32" where "f_data cmd = cmd AND 0xffff"

text \<open>The register latched by the last address frame, and the data frames written in Clause 45 mode,
  oldest first, each with PHY, device, register and data.\<close>

definition in_c45 :: "event list \<Rightarrow> bool" where
  "in_c45 es = (case last_wr es SwMdio SF2_MDIO_CFG of Some c \<Rightarrow> \<not> bit c 0 | None \<Rightarrow> False)"

fun c45_addr :: "event list \<Rightarrow> u32" where
  "c45_addr [] = 0"
| "c45_addr (Wr w off cmd # es) =
     (if w = SwMdio \<and> off = SF2_MDIO_CMD \<and> in_c45 es \<and> f_op cmd = 0 then f_data cmd else c45_addr es)"
| "c45_addr (_ # es) = c45_addr es"

fun c45_writes :: "event list \<Rightarrow> (u32 \<times> u32 \<times> u32 \<times> u32) list" where
  "c45_writes [] = []"
| "c45_writes (Wr w off cmd # es) = c45_writes es @
     (if w = SwMdio \<and> off = SF2_MDIO_CMD \<and> in_c45 es \<and> f_op cmd = 1
      then [(f_phy cmd, f_dev cmd, c45_addr es, f_data cmd)] else [])"
| "c45_writes (_ # es) = c45_writes es"

lemma frame_busy [simp]:
  "f_op (cmd OR BIT 29) = f_op cmd" "f_phy (cmd OR BIT 29) = f_phy cmd"
  "f_dev (cmd OR BIT 29) = f_dev cmd" "f_data (cmd OR BIT 29) = f_data cmd"
proof -
  note b = bit_or_iff bit_and_iff bit_ffff_iff bit_31_iff bit_3_iff bit_drop_bit_eq bit_BIT
  show "f_op (cmd OR BIT 29) = f_op cmd" unfolding f_op_def by (rule bit_word_eqI, unfold b, auto)
  show "f_phy (cmd OR BIT 29) = f_phy cmd" unfolding f_phy_def by (rule bit_word_eqI, unfold b, auto)
  show "f_dev (cmd OR BIT 29) = f_dev cmd" unfolding f_dev_def by (rule bit_word_eqI, unfold b, auto)
  show "f_data (cmd OR BIT 29) = f_data cmd" unfolding f_data_def by (rule bit_word_eqI, unfold b, auto)
qed

lemma frame_fields:
  assumes "opc < 4"
  shows "f_op (mdio_hdr p d opc OR (x AND ETHSW_MDIO_PHY_DATA_MASK)) = opc"
    "f_phy (mdio_hdr p d opc OR (x AND ETHSW_MDIO_PHY_DATA_MASK)) = p AND 0x1f"
    "f_dev (mdio_hdr p d opc OR (x AND ETHSW_MDIO_PHY_DATA_MASK)) = d AND 0x1f"
    "f_data (mdio_hdr p d opc OR (x AND ETHSW_MDIO_PHY_DATA_MASK)) = x AND 0xffff"
  using mdio_cmd_decode [OF assms] by (simp_all add: f_op_def f_phy_def f_dev_def f_data_def)

text \<open>Everything but a write to the MDIO master leaves the frames as they are.\<close>

definition no_mdio_wr :: "event \<Rightarrow> bool" where
  "no_mdio_wr e \<longleftrightarrow> (\<forall>off v. e \<noteq> Wr SwMdio off v)"

lemma no_mdio_wr_simps [simp]:
  "no_mdio_wr (Rd w off v)" "no_mdio_wr (Mark m)" "no_mdio_wr (Delay n)" "no_mdio_wr (Acq l)"
  "no_mdio_wr (Rel l)" "no_mdio_wr (Call c r)" "no_mdio_wr (Deliver i bs)" "no_mdio_wr (KNote nm i)"
  "no_mdio_wr (Wr w off v) = (w \<noteq> SwMdio)"
  by (simp_all add: no_mdio_wr_def)

lemma frames_append:
  "list_all no_mdio_wr evs \<Longrightarrow> c45_writes (evs @ L) = c45_writes L \<and> c45_addr (evs @ L) = c45_addr L \<and>
     in_c45 (evs @ L) = in_c45 L"
proof (induction evs)
  case (Cons e evs)
  then show ?case by (cases e) (simp_all add: in_c45_def)
qed simp

section \<open>What a Clause 45 write puts on the bus\<close>

text \<open>The busy poll of a command adds no frame of its own.\<close>

lemma sf2_mdio_cmd_frames:
  "wp (sf2_mdio_cmd E cmd) (\<lambda>r s'. \<exists>evs. list_all no_mdio_wr evs \<and>
     s' = s\<lparr>io_log := evs @ Wr SwMdio SF2_MDIO_CMD (cmd OR ETHSW_MDIO_BUSY) # io_log s\<rparr>) s"
proof -
  let ?L = "Wr SwMdio SF2_MDIO_CMD (cmd OR ETHSW_MDIO_BUSY) # io_log s"
  let ?I = "\<lambda>t. \<exists>evs. list_all no_mdio_wr evs \<and> t = s\<lparr>io_log := evs @ ?L\<rparr>"
  have step: "?I (t\<lparr>io_log := e # io_log t\<rparr>)" if "no_mdio_wr e" "?I t" for e and t :: "'a io_scheme"
    using that by (elim exE conjE, rule_tac x = "e # evs" in exI) simp
  show ?thesis
    unfolding sf2_mdio_cmd_def wp_bind wp_emit
  proof (rule wp_poll_loop [where I = ?I], goal_cases)
    case 1 show ?case by (rule exI [of _ "[]"]) simp
  next
    case (2 t)
    have "?I (t\<lparr>io_log := Rd SwMdio SF2_MDIO_CMD v # Delay 1 # io_log t\<rparr>)" for v
      using step [OF _ step [OF _ 2, of "Delay 1"], of "Rd SwMdio SF2_MDIO_CMD v"] by simp
    then show ?case unfolding wp_readl by (auto simp: wp_simps)
  next
    case (3 t)
    from step [OF _ 3, of "Mark MK_ERR_MDIO"] show ?case by (simp add: wp_simps)
  qed
qed

text \<open>The errors of the bus.\<close>

definition bus_err :: "errno + 'a \<Rightarrow> bool" where
  "bus_err r \<longleftrightarrow> (case r of Inl e \<Rightarrow> e = ETIMEDOUT \<or> e = ENODEV | Inr _ \<Rightarrow> True)"

lemma sf2_mdio_cmd_bus_err: "wp (sf2_mdio_cmd E c) (\<lambda>r _. bus_err r) s"
proof -
  have "rets bus_err (sf2_mdio_cmd E c)"
    unfolding sf2_mdio_cmd_def by (intro rets_rules) (simp_all add: bus_err_def)
  then show ?thesis by (intro wpI) (rule retsD)
qed

lemma sf2_mdio_c45_bus_err: "wp (sf2_mdio_c45 E opc a d r v) (\<lambda>r _. bus_err r) s"
  unfolding sf2_mdio_c45_def wp_bind wp_readl wp_emit wp_bindE
  by (rule wp_mono [OF sf2_mdio_cmd_bus_err])
    (auto simp: wp_simps bus_err_def split: sum.splits
      intro!: wp_mono [OF sf2_mdio_cmd_bus_err, unfolded bus_err_def])

text \<open>One write frame, and a call that has put it on the bus or failed before.\<close>

definition c45_frame :: "u32 \<Rightarrow> u32 \<Rightarrow> u32 \<Rightarrow> u16 \<Rightarrow> u32 \<times> u32 \<times> u32 \<times> u32" where
  "c45_frame a dev reg val = (a AND 0x1f, dev AND 0x1f, reg AND 0xffff, ucast val)"

definition wrote :: "u32 \<times> u32 \<times> u32 \<times> u32 \<Rightarrow> 'z io_scheme \<Rightarrow> errno + 'b \<Rightarrow> 'z io_scheme \<Rightarrow> bool" where
  "wrote fr s r s' \<longleftrightarrow> same s s' \<and>
     (case r of Inr _ \<Rightarrow> c45_writes (io_log s') = c45_writes (io_log s) @ [fr]
      | Inl e \<Rightarrow> (e = ETIMEDOUT \<or> e = ENODEV) \<and>
          (c45_writes (io_log s') = c45_writes (io_log s) \<or> c45_writes (io_log s') = c45_writes (io_log s) @ [fr]))"

lemma and_ffff_ucast: "ucast (v :: u16) AND 0xffff = (ucast v :: u32)"
  by (rule bit_word_eqI, unfold bit_and_iff bit_ffff_iff bit_ucast_iff) (auto dest: bit_imp_le_length)

lemma in_c45_cleared [simp]: "in_c45 (Wr SwMdio SF2_MDIO_CFG (cfg AND NOT ETHSW_MDIO_CFG_CLAUSE22) # es)"
  by (simp add: in_c45_def bit_simps)

lemma in_c45_cmd [simp]: "in_c45 (Wr SwMdio SF2_MDIO_CMD v # es) = in_c45 es"
  by (simp add: in_c45_def)

lemma c45_write_frames:
  "wp (sf2_mdio_c45 E ETHSW_MDIO_CMD_C45_WRITE a dev reg val) (wrote (c45_frame a dev reg val) s) s"
proof -
  let ?cfg = "env_rd E (io_log s) SwMdio SF2_MDIO_CFG"
  let ?ad = "mdio_hdr a dev ETHSW_MDIO_CMD_C45_ADDRESS OR (reg AND ETHSW_MDIO_PHY_DATA_MASK)"
  let ?da = "mdio_hdr a dev ETHSW_MDIO_CMD_C45_WRITE OR (ucast val AND ETHSW_MDIO_PHY_DATA_MASK)"
  let ?L = "Wr SwMdio SF2_MDIO_CFG (?cfg AND NOT ETHSW_MDIO_CFG_CLAUSE22) # Rd SwMdio SF2_MDIO_CFG ?cfg # io_log s"
  define A where "A = (\<lambda>t. same s t \<and> c45_writes (io_log t) = c45_writes (io_log s) \<and>
      c45_addr (io_log t) = reg AND 0xffff \<and> in_c45 (io_log t))"
  define B where "B = (\<lambda>t. same s t \<and>
      c45_writes (io_log t) = c45_writes (io_log s) @ [c45_frame a dev reg val])"
  have ad: "wp (sf2_mdio_cmd E ?ad) (\<lambda>_. A) (s\<lparr>io_log := ?L\<rparr>)"
    by (rule wp_mono [OF sf2_mdio_cmd_frames])
      (auto simp: A_def frames_append frame_fields)
  note fd = frame_fields [of 1 a dev "ucast val", unfolded and_ffff_ucast, simplified]
  have da: "wp (sf2_mdio_cmd E ?da) (\<lambda>_. B) t" if "A t" for t
    by (rule wp_mono [OF sf2_mdio_cmd_frames])
      (use that fd in \<open>auto simp: A_def B_def frames_append c45_frame_def and_ffff_ucast\<close>)
  have body: "wp (bindE (sf2_mdio_cmd E ?ad) (\<lambda>_. sf2_mdio_cmd E ?da))
      (\<lambda>r t. bus_err r \<and> (case r of Inl _ \<Rightarrow> A t \<or> B t | Inr _ \<Rightarrow> B t)) (s\<lparr>io_log := ?L\<rparr>)"
    unfolding wp_bindE
    by (rule wp_mono [OF wp_conj [OF sf2_mdio_cmd_bus_err ad]])
      (auto simp: bus_err_def [of "Inl _"] split: sum.splits elim!: wp_mono [OF wp_conj [OF sf2_mdio_cmd_bus_err da]])
  show ?thesis
    unfolding sf2_mdio_c45_def wp_bind wp_readl wp_emit
    by (simp, rule wp_mono [OF body]) (auto simp: wp_simps wrote_def bus_err_def A_def B_def split: sum.splits)
qed

lemma same_g_sf2: "same s s' \<Longrightarrow> g_sf2 s' = g_sf2 s" for s s' :: "'z sf2_world_scheme"
  unfolding same_def by (drule arg_cong [of _ _ g_sf2]) simp

lemma sf2_mdio_c45_write_frames:
  "wp (sf2_mdio_c45_write E a dev reg val) (wrote (c45_frame a dev reg val) s) s"
proof (cases "g_sf2 s")
  case True
  let ?s = "s\<lparr>io_log := Acq Sf2Lock # io_log s\<rparr>"
  show ?thesis
    unfolding sf2_mdio_c45_write_def wp_bind wp_gets wp_emit
    using True
    by (simp add: wp_simps, intro wp_mono [OF c45_write_frames [of E a dev reg val ?s]])
      (auto simp: wrote_def wp_simps same_def split: sum.splits)
next
  case False
  then show ?thesis by (simp add: sf2_mdio_c45_write_def wp_simps wrote_def)
qed

section \<open>A bus that answers\<close>

text \<open>Every command completes: the BUSY bit is clear whenever it is polled.\<close>

definition mdio_answers :: "env \<Rightarrow> bool" where
  "mdio_answers E \<longleftrightarrow> (\<forall>L. \<not> bit (env_rd E L SwMdio SF2_MDIO_CMD) 29)"

lemma sf2_mdio_cmd_answered:
  assumes "mdio_answers E"
  shows "wp (sf2_mdio_cmd E cmd) (\<lambda>r _. \<not> isl r) s"
  unfolding sf2_mdio_cmd_def wp_bind wp_emit
  by (rule wp_poll_first) (use assms in \<open>simp_all add: wp_simps mdio_answers_def and_BIT_eq_0_iff\<close>)

lemma sf2_mdio_c45_answered:
  assumes "mdio_answers E"
  shows "wp (sf2_mdio_c45 E opc a dev reg val) (\<lambda>r _. \<not> isl r) s"
  unfolding sf2_mdio_c45_def wp_bind wp_readl wp_emit wp_bindE
  by (rule wp_mono [OF sf2_mdio_cmd_answered [OF assms]])
    (auto simp: wp_simps split: sum.splits intro!: wp_mono [OF sf2_mdio_cmd_answered [OF assms]])

lemma sf2_mdio_c45_write_answered:
  assumes "mdio_answers E" and "g_sf2 s"
  shows "wp (sf2_mdio_c45_write E a dev reg val) (\<lambda>r _. r = Inr ()) s"
  using assms(2) unfolding sf2_mdio_c45_write_def
  by (simp add: wp_simps)
    (rule wp_mono [OF sf2_mdio_c45_answered [OF assms(1)]], auto simp: wp_simps split: sum.splits)

end
