(* ===== verification/Cascade_Props.thy ===== *)
theory Cascade_Props
  imports Cascade Mdio_Frames "HOL-Library.Sublist"
begin

text \<open>
  Properties of the cascade PHY driver: which bytes an upload delivers to the PHY, that the switch
  port follows the copper link, and when the link poll is started.
\<close>

section \<open>The firmware image on the bus\<close>

text \<open>The words written to the data registers of the RAM window, in order, and how the PHY puts an
  image together from them: little-endian words, high half first.\<close>

definition fw_stream :: "event list \<Rightarrow> (u32 \<times> u32) list" where
  "fw_stream L = map (\<lambda>(p, d, r, v). (r, v))
     (filter (\<lambda>(p, d, r, v). d = LR_DEVID \<and> (r = LR_DATA_HIGH \<or> r = LR_DATA_LOW)) (c45_writes L))"

definition pair16 :: "u8 \<Rightarrow> u8 \<Rightarrow> u32" where
  "pair16 lo hi = ucast lo OR push_bit 8 (ucast hi)"

fun halves :: "u8 list \<Rightarrow> (u32 \<times> u32) list" where
  "halves (a # b # c # d # bs) = (LR_DATA_HIGH, pair16 c d) # (LR_DATA_LOW, pair16 a b) # halves bs"
| "halves _ = []"

fun image_of :: "(u32 \<times> u32) list \<Rightarrow> u8 list" where
  "image_of ((_, h) # (_, l) # ws) =
     ucast l # ucast (drop_bit 8 l) # ucast h # ucast (drop_bit 8 h) # image_of ws"
| "image_of _ = []"

lemma pair16_lo [simp]: "ucast (pair16 a b) = a"
  by (rule bit_word_eqI) (auto simp: pair16_def bit_simps)

lemma pair16_hi [simp]: "ucast (drop_bit 8 (pair16 a b)) = b"
  by (rule bit_word_eqI) (auto simp: pair16_def bit_simps dest: bit_imp_le_length)

lemma image_of_halves: "length fw mod 4 = 0 \<Longrightarrow> image_of (halves fw) = fw"
  by (induction fw rule: halves.induct) simp_all

text \<open>The two halves the driver computes at offset \<open>i\<close>.\<close>

definition halves_at :: "u8 list \<Rightarrow> nat \<Rightarrow> (u32 \<times> u32) list" where
  "halves_at fw i = [(LR_DATA_HIGH, ucast (ucast (drop_bit 16 (get_unaligned_le32 fw i)) :: u16)),
     (LR_DATA_LOW, ucast (ucast (get_unaligned_le32 fw i AND 0xffff) :: u16))]"

lemma halves_at_bytes:
  "halves_at fw i = [(LR_DATA_HIGH, pair16 (fw ! (i + 2)) (fw ! (i + 3))), (LR_DATA_LOW, pair16 (fw ! i) (fw ! (i + 1)))]"
proof -
  note b = bit_or_iff bit_and_iff bit_ffff_iff bit_push_bit_iff bit_drop_bit_eq bit_ucast_iff
  have l: "bit x j \<Longrightarrow> j < 8" for x :: u8 and j using bit_imp_le_length [of x j] by simp
  have "ucast (ucast (drop_bit 16 (get_unaligned_le32 fw i)) :: u16) = pair16 (fw ! (i + 2)) (fw ! (i + 3))"
    unfolding get_unaligned_le32_def pair16_def by (rule bit_word_eqI, unfold b) (auto dest: l)
  moreover have "ucast (ucast (get_unaligned_le32 fw i AND 0xffff) :: u16) = pair16 (fw ! i) (fw ! (i + 1))"
    unfolding get_unaligned_le32_def pair16_def by (rule bit_word_eqI, unfold b) (auto dest: l)
  ultimately show ?thesis by (simp add: halves_at_def)
qed

lemma halves_concat:
  "concat (map (halves_at fw) (map (\<lambda>k. 4 * k) [0..<length fw div 4])) = halves fw"
proof (induction fw rule: halves.induct)
  case (1 a b c d bs)
  let ?fw = "a # b # c # d # bs"
  have "map (\<lambda>k. 4 * k) [0..<Suc n] = 0 # map (\<lambda>i. i + 4) (map (\<lambda>k. 4 * k) [0..<n])" for n :: nat
    by (simp add: upt_conv_Cons map_Suc_upt [symmetric] del: upt_Suc map_Suc_upt)
  moreover have "length ?fw div 4 = Suc (length bs div 4)" by simp
  ultimately have offs: "map (\<lambda>k. 4 * k) [0..<length ?fw div 4] =
      0 # map (\<lambda>i. i + 4) (map (\<lambda>k. 4 * k) [0..<length bs div 4])" by metis
  have shift: "halves_at ?fw (i + 4) = halves_at bs i" for i
    unfolding halves_at_bytes by (simp add: numeral_eq_Suc)
  have step: "concat (map (halves_at ?fw) (map (\<lambda>k. 4 * k) [0..<length ?fw div 4])) =
      halves_at ?fw 0 @ concat (map (halves_at bs) (map (\<lambda>k. 4 * k) [0..<length bs div 4]))"
    unfolding offs by (simp only: list.map concat.simps map_map comp_def shift)
  show ?case unfolding step 1 by (simp add: halves_at_bytes)
qed (simp_all add: div_eq_0_iff)

section \<open>The upload\<close>

text \<open>The state \<open>t\<close> is \<open>s\<close> with the words \<open>ws\<close> sent to the data registers.\<close>

definition streamed :: "'z cascade_world_scheme \<Rightarrow> (u32 \<times> u32) list \<Rightarrow> 'z cascade_world_scheme \<Rightarrow> bool" where
  "streamed s ws t \<longleftrightarrow> same s t \<and> fw_stream (io_log t) = fw_stream (io_log s) @ ws"

lemma wr_frames: "wp (wr E dev reg val) (wrote (c45_frame (phy_addr s) dev reg val) s) s"
  unfolding wr_def wp_bind wp_gets by (rule sf2_mdio_c45_write_frames)

lemma wr_ctl:
  assumes "streamed s ws t" and "reg AND 0xffff \<noteq> LR_DATA_HIGH" and "reg AND 0xffff \<noteq> LR_DATA_LOW"
  shows "wp (wr E LR_DEVID reg val) (\<lambda>_. streamed s ws) t"
  by (rule wp_mono [OF wr_frames])
    (use assms in \<open>auto simp: wrote_def streamed_def fw_stream_def c45_frame_def elim: same_trans split: sum.splits\<close>)

definition stream_step :: "'z cascade_world_scheme \<Rightarrow> (u32 \<times> u32) list \<Rightarrow> (u32 \<times> u32) list \<Rightarrow>
    errno + unit \<Rightarrow> 'z cascade_world_scheme \<Rightarrow> bool" where
  "stream_step s ws xs r t = (case r of
     Inr _ \<Rightarrow> streamed s (ws @ xs) t
   | Inl e \<Rightarrow> (e = ETIMEDOUT \<or> e = ENODEV) \<and> (\<exists>p. prefix p xs \<and> streamed s (ws @ p) t))"

lemma wr_data:
  assumes "streamed s ws t" and "reg = LR_DATA_HIGH \<or> reg = LR_DATA_LOW"
  shows "wp (wr E LR_DEVID reg val) (stream_step s ws [(reg, ucast val)]) t"
  by (rule wp_mono [OF wr_frames])
    (use assms in \<open>auto simp: wrote_def stream_step_def streamed_def fw_stream_def c45_frame_def
       elim: same_trans split: sum.splits\<close>)

lemma stream_step_Cons: "stream_step s (ws @ [x]) xs r t \<Longrightarrow> stream_step s ws (x # xs) r t"
  by (auto simp: stream_step_def prefix_Cons split: sum.splits)

lemma stream_step_weaken: "stream_step s ws xs (Inl e) t \<Longrightarrow> stream_step s ws (xs @ ys) (Inl e) t"
  unfolding stream_step_def sum.case using prefix_prefix by blast

lemma stream_step_embed: "stream_step s ws xs (Inl e) t \<Longrightarrow> stream_step s [] (ws @ xs @ ys) (Inl e) t"
  unfolding stream_step_def sum.case append_Nil using prefix_prefix same_prefix_prefix by blast

lemma upload_close:
  assumes "stream_step s ws xs r t"
  shows "wp (case r of Inl e \<Rightarrow> do { wr E LR_DEVID LR_CTRL 0x0000; return (Inl e) } | Inr _ \<Rightarrow> return (Inr ()))
     (stream_step s ws xs) t"
  using assms
  by (auto simp: stream_step_def wp_simps split: sum.splits intro!: wp_mono [OF wr_ctl])

lemma upload_word_step:
  assumes "streamed s ws t"
  shows "wp (upload_word E fw i) (stream_step s ws (halves_at fw i)) t"
proof -
  let ?w = "get_unaligned_le32 fw i"
  let ?h = "(LR_DATA_HIGH, ucast (ucast (drop_bit 16 ?w) :: u16) :: u32)"
  let ?l = "(LR_DATA_LOW, ucast (ucast (?w AND 0xffff) :: u16) :: u32)"
  have lo: "wp (case r of Inl e \<Rightarrow> return (Inl e) | Inr _ \<Rightarrow> wr E LR_DEVID LR_DATA_LOW (ucast (?w AND 0xffff)))
      (stream_step s ws [?h, ?l]) u" if "stream_step s ws [?h] r u" for r u
  proof (cases r)
    case (Inl e)
    with that stream_step_weaken [of s ws "[?h]" e u "[?l]"] show ?thesis by (simp add: wp_simps)
  next
    case (Inr x)
    with that have "streamed s (ws @ [?h]) u" by (simp add: stream_step_def)
    then have "wp (wr E LR_DEVID LR_DATA_LOW (ucast (?w AND 0xffff))) (stream_step s (ws @ [?h]) [?l]) u"
      by (rule wr_data) simp
    then show ?thesis unfolding Inr sum.case by (rule wp_mono) (rule stream_step_Cons)
  qed
  show ?thesis
    unfolding upload_word_def Let_def halves_at_def
    by (rule wp_seq [OF wr_data [OF assms] wp_seq [OF lo upload_close]]) simp_all
qed

lemma upload_firmware_step:
  assumes "length fw mod 4 = 0"
  shows "wp (upload_firmware E fw) (stream_step s [] (halves fw)) s"
proof -
  let ?is = "map (\<lambda>k. 4 * k) [0..<length fw div 4]"
  let ?ws = "\<lambda>is. concat (map (halves_at fw) is)"
  have loop: "wp (for_eachE ?is (upload_word E fw)) (stream_step s [] (halves fw)) t" if "streamed s [] t" for t
  proof (rule wp_for_eachE_inv [where I = "\<lambda>is. streamed s (?ws is)"], goal_cases)
    case (2 xs i ys t)
    from 2(1) halves_concat [of fw] have h: "halves fw = ?ws xs @ halves_at fw i @ ?ws ys" by simp
    show ?case
      by (rule wp_mono [OF upload_word_step [OF 2(2)]], unfold h)
        (auto dest: stream_step_embed simp: stream_step_def [of _ _ _ "Inr _"] split: sum.splits)
  qed (use that halves_concat [of fw] in \<open>simp_all add: stream_step_def\<close>)
  have fin: "wp (case r of Inl e \<Rightarrow> return (Inl e) | Inr _ \<Rightarrow> do { wr E LR_DEVID LR_CTRL 0; return (Inr ()) })
     (stream_step s [] (halves fw)) t" if "stream_step s [] (halves fw) r t" for r t
    using that by (auto simp: stream_step_def wp_simps split: sum.splits intro!: wp_mono [OF wr_ctl])
  have "streamed s [] s" by (simp add: streamed_def)
  then show ?thesis
    unfolding upload_firmware_def bindE_def using assms
    by (simp, intro wp_seq [OF wr_ctl wp_seq [OF wr_ctl wp_seq [OF wr_ctl wp_seq [OF loop fin]]]]) simp_all
qed

text \<open>On a bus that answers, every call puts its frame on the bus.\<close>

definition framed :: "'z cascade_world_scheme \<Rightarrow> (u32 \<times> u32 \<times> u32 \<times> u32) list \<Rightarrow>
    'z cascade_world_scheme \<Rightarrow> bool" where
  "framed s fs t \<longleftrightarrow> same s t \<and> c45_writes (io_log t) = c45_writes (io_log s) @ fs"

definition bus_up :: "env \<Rightarrow> 'z sf2_world_scheme \<Rightarrow> bool" where
  "bus_up E s \<longleftrightarrow> mdio_answers E \<and> g_sf2 s"

lemma same_phy_addr: "same s s' \<Longrightarrow> phy_addr s' = phy_addr s" for s s' :: "'z cascade_world_scheme"
  unfolding same_def by (drule arg_cong [of _ _ phy_addr]) simp

lemma wr_answered:
  assumes "bus_up E s" and "framed s fs t"
  shows "wp (wr E dev reg val) (\<lambda>r t. r = Inr () \<and> framed s (fs @ [c45_frame (phy_addr s) dev reg val]) t) t"
proof -
  from assms have m: "mdio_answers E" and s: "same s t" by (simp_all add: bus_up_def framed_def)
  with assms have g: "g_sf2 t" by (simp add: bus_up_def same_g_sf2)
  have "wp (wr E dev reg val) (\<lambda>r _. r = Inr ()) t"
    unfolding wr_def wp_bind wp_gets by (rule sf2_mdio_c45_write_answered [OF m g])
  from wp_conj [OF this wr_frames] show ?thesis
    by (rule wp_mono)
      (use assms(2) in \<open>auto simp: wrote_def framed_def same_phy_addr [OF s] elim: same_trans\<close>)
qed

definition upload_frames :: "u32 \<Rightarrow> u8 list \<Rightarrow> (u32 \<times> u32 \<times> u32 \<times> u32) list" where
  "upload_frames a fw = (let fr = \<lambda>(r, v). (a AND 0x1f, LR_DEVID, r, v) in
     map fr [(LR_ADDR_LOW, 0), (LR_ADDR_HIGH, 0), (LR_CTRL, 0x38)] @ map fr (halves fw) @ [fr (LR_CTRL, 0)])"

lemma upload_word_answered:
  assumes "bus_up E s" and "framed s fs t"
  shows "wp (upload_word E fw i) (\<lambda>r t. r = Inr () \<and>
     framed s (fs @ map (\<lambda>(r, v). (phy_addr s AND 0x1f, LR_DEVID, r, v)) (halves_at fw i)) t) t"
  unfolding upload_word_def Let_def wp_bind
  by (rule wp_mono [OF wr_answered [OF assms]])
    (auto simp: halves_at_def c45_frame_def wp_simps intro!: wp_mono [OF wr_answered [OF assms(1)]])

lemma upload_firmware_answered:
  assumes "bus_up E s" and "length fw mod 4 = 0"
  shows "wp (upload_firmware E fw) (\<lambda>r t. r = Inr () \<and> framed s (upload_frames (phy_addr s) fw) t) s"
proof -
  let ?fr = "\<lambda>(r, v). (phy_addr s AND 0x1f, LR_DEVID, r, v)"
  let ?hd = "map ?fr [(LR_ADDR_LOW, 0), (LR_ADDR_HIGH, 0), (LR_CTRL, 0x38)]"
  let ?is = "map (\<lambda>k. 4 * k) [0..<length fw div 4]"
  let ?ws = "\<lambda>is. concat (map (halves_at fw) is)"
  note wr = wr_answered [OF assms(1)]
  have loop: "wp (for_eachE ?is (upload_word E fw)) (\<lambda>r t. r = Inr () \<and> framed s (?hd @ map ?fr (halves fw)) t) t"
    if "framed s ?hd t" for t
    by (rule wp_for_eachE_inv [where I = "\<lambda>is. framed s (?hd @ map ?fr (?ws is))"])
      (use that halves_concat [of fw] in \<open>auto intro!: wp_mono [OF upload_word_answered [OF assms(1)]]\<close>)
  let ?F = "\<lambda>fs r t. r = Inr () \<and> framed s (map ?fr fs) t"
  have ctl: "wp (wr E LR_DEVID reg val) (?F (fs @ [(reg AND 0xffff, ucast val)])) t"
    if "framed s (map ?fr fs) t" for reg val fs t
    using wr [OF that, of LR_DEVID reg val] by (simp add: c45_frame_def)
  have 0: "framed s (map ?fr []) s" by (simp add: framed_def)
  have 1: "wp (wr E LR_DEVID LR_ADDR_LOW 0) (?F [(LR_ADDR_LOW, 0)]) s"
    using ctl [OF 0, of LR_ADDR_LOW 0] by simp
  have 2: "wp (wr E LR_DEVID LR_ADDR_HIGH 0) (?F [(LR_ADDR_LOW, 0), (LR_ADDR_HIGH, 0)]) t"
    if "?F [(LR_ADDR_LOW, 0)] r t" for t and r :: "errno + unit"
    using ctl [OF conjunct2 [OF that], of LR_ADDR_HIGH 0] by simp
  have 3: "wp (wr E LR_DEVID LR_CTRL 0x38) (\<lambda>_. framed s ?hd) t"
    if "?F [(LR_ADDR_LOW, 0), (LR_ADDR_HIGH, 0)] r t" for t and r :: "errno + unit"
    by (rule wp_mono [OF ctl [OF conjunct2 [OF that]]]) simp
  have 4: "wp (wr E LR_DEVID LR_CTRL 0) (\<lambda>_. framed s (upload_frames (phy_addr s) fw)) t"
    if "framed s (?hd @ map ?fr (halves fw)) t" for t
    by (rule wp_mono [OF wr [OF that]]) (simp add: upload_frames_def c45_frame_def)
  have 5: "wp (case r of Inl e \<Rightarrow> return (Inl e) | Inr _ \<Rightarrow> do { wr E LR_DEVID LR_CTRL 0; return (Inr ()) })
      (\<lambda>r t. r = Inr () \<and> framed s (upload_frames (phy_addr s) fw) t) t"
    if "r = Inr () \<and> framed s (?hd @ map ?fr (halves fw)) t" for r t
    using that by (auto simp: wp_simps intro!: wp_mono [OF 4])
  show ?thesis
    unfolding upload_firmware_def bindE_def using assms(2)
    by (simp, intro wp_seq [OF 1 wp_seq [OF 2 wp_seq [OF 3 wp_seq [OF loop 5]]]]) simp_all
qed

text \<open>C37: the firmware upload.  An image whose size is not a multiple of four is refused before
  anything is sent, and nothing else is refused with \<^verbatim>\<open>EINVAL\<close>; the other failures are those of the bus.  When the upload reports success, the
  words sent to the data registers of the RAM window are exactly the halves of the image in order, from
  which the PHY recovers every byte of it; when it fails, they are a prefix of them.  On a bus that
  answers, the upload succeeds, and the frames on the bus are: window address 0, window open, the image,
  window closed.\<close>

theorem upload_firmware_image:
  assumes "run_state (upload_firmware E fw) s = (r, s')"
  shows "(r = Inl EINVAL \<longleftrightarrow> length fw mod 4 \<noteq> 0) \<and> (r = Inl EINVAL \<longrightarrow> s' = s) \<and>
    (\<forall>e. r = Inl e \<longrightarrow> e = EINVAL \<or> e = ETIMEDOUT \<or> e = ENODEV) \<and>
    (r = Inr () \<longrightarrow> fw_stream (io_log s') = fw_stream (io_log s) @ halves fw \<and> image_of (halves fw) = fw) \<and>
    (\<exists>ws. prefix ws (halves fw) \<and> fw_stream (io_log s') = fw_stream (io_log s) @ ws) \<and>
    (mdio_answers E \<and> g_sf2 s \<and> length fw mod 4 = 0 \<longrightarrow> r = Inr () \<and>
       c45_writes (io_log s') = c45_writes (io_log s) @ upload_frames (phy_addr s) fw)"
proof (cases "length fw mod 4 = 0")
  case False
  with assms show ?thesis by (auto simp: upload_firmware_def)
next
  case True
  have "stream_step s [] (halves fw) r s'"
    by (rule wpD [OF upload_firmware_step [OF True] assms])
  moreover have "mdio_answers E \<and> g_sf2 s \<longrightarrow> r = Inr () \<and> framed s (upload_frames (phy_addr s) fw) s'"
    using wpD [OF upload_firmware_answered [OF _ True] assms] by (simp add: bus_up_def)
  ultimately show ?thesis
    using True image_of_halves [OF True]
    by (cases r) (auto simp: stream_step_def streamed_def framed_def)
qed

text \<open>A board with the switch driver bound, and a bus on which every command completes at once.\<close>

definition casc_s0 :: cascade_world where
  "casc_s0 = cascade_boot (sf2_boot\<lparr>g_sf2 := True\<rparr>)"

definition zero_env :: env where
  "zero_env = \<lparr>env_rd = (\<lambda>_ _ _. 0), env_call = (\<lambda>_ _. 0)\<rparr>"

lemma casc_s0_simps: "io_log casc_s0 = []" "g_sf2 casc_s0" "phy_addr casc_s0 = 24" "mdio_answers zero_env"
  by (simp_all add: casc_s0_def cascade_boot_def sf2_world.defs cascade_world.defs sf2_boot_def mdio_answers_def zero_env_def)

theorem upload_firmware_image_witness:
  "image_of (fw_stream (io_log (snd (run_state (upload_firmware zero_env [1, 2, 3, 4, 5, 6, 7, 8]) casc_s0)))) =
     [1, 2, 3, 4, 5, 6, 7, 8]"
  using upload_firmware_image [of zero_env "[1, 2, 3, 4, 5, 6, 7, 8]" casc_s0, OF prod.collapse [symmetric]]
  by (simp add: casc_s0_simps fw_stream_def [of "[]"])

section \<open>The switch port follows the copper link\<close>

text \<open>The word that forces a port into a state, for the states the SF2 override register has.\<close>

definition port_word :: "int \<Rightarrow> int \<Rightarrow> u32 option" where
  "port_word link mbps = (if link = 0 then Some 0x40
     else if mbps = 2500 then Some 0x4f else if mbps = 1000 then Some 0x4b
     else if mbps = 100 then Some 0x47 else if mbps = 10 then Some 0x43 else None)"

text \<open>The abstract tracker: link, speed and the override register of the port; one observation of the
  status register sets all three, but a speed the register cannot express leaves it as it is.\<close>

type_synonym tracker = "int \<times> int \<times> u32 option"

definition track :: "int \<Rightarrow> tracker \<Rightarrow> tracker" where
  "track v = (\<lambda>(l, sp, w). (link_of v, mbps_of v,
     case port_word (link_of v) (mbps_of v) of Some w' \<Rightarrow> Some w' | None \<Rightarrow> w))"

definition ovr :: "int \<Rightarrow> 'z io_scheme \<Rightarrow> u32 option" where
  "ovr port s = last_wr (io_log s) SwCore (SF2_STS_OVERRIDE_P (nat port))"

definition tracker_of :: "'z cascade_world_scheme \<Rightarrow> tracker" where
  "tracker_of s = (last_link s, last_speed s, ovr (sf2_port s) s)"

text \<open>The calls of a loaded driver: the delayed work, and the writes of the two parameters that may be
  changed at run time.\<close>

datatype casc_op = Poll | SetPollMs int | SetTrackSpeed int

fun casc_exec :: "env \<Rightarrow> (int \<Rightarrow> int \<Rightarrow> ('z cascade_world_scheme, int) state) \<Rightarrow> casc_op \<Rightarrow>
    'z cascade_world_scheme \<Rightarrow> 'z cascade_world_scheme" where
  "casc_exec E speed_set Poll s = snd (run_state (poll_fn E speed_set) s)"
| "casc_exec E speed_set (SetPollMs ms) s = s\<lparr>poll_ms := ms\<rparr>"
| "casc_exec E speed_set (SetTrackSpeed b) s = s\<lparr>track_speed := b\<rparr>"

text \<open>What the status register answered to the polls of a history, failed reads left out.\<close>

definition poll_answer :: "env \<Rightarrow> 'z cascade_world_scheme \<Rightarrow> int list" where
  "poll_answer E s = (let v = fst (run_state (rd E 0x1e 0x400d) (s\<lparr>poll_pending := False\<rparr>))
     in if v \<ge> 0 then [v] else [])"

fun answers :: "env \<Rightarrow> (int \<Rightarrow> int \<Rightarrow> ('z cascade_world_scheme, int) state) \<Rightarrow> casc_op list \<Rightarrow>
    'z cascade_world_scheme \<Rightarrow> int list" where
  "answers E speed_set [] s = []"
| "answers E speed_set (opn # ops) s =
     (if opn = Poll then poll_answer E s else []) @ answers E speed_set ops (casc_exec E speed_set opn s)"

text \<open>What the driver relies on in \<^verbatim>\<open>serdes6764_speed_set()\<close>: it changes neither this driver's state nor
  the override register of the port.\<close>

definition casc_view :: "'z cascade_world_scheme \<Rightarrow> cascade_world" where
  "casc_view s = (cascade_world.truncate s)\<lparr>io_log := []\<rparr>"

definition retune_ok :: "int \<Rightarrow> (int \<Rightarrow> int \<Rightarrow> ('z cascade_world_scheme, int) state) \<Rightarrow> bool" where
  "retune_ok port speed_set \<longleftrightarrow> (\<forall>c m s. let s' = snd (run_state (speed_set c m) s) in
     casc_view s' = casc_view s \<and> ovr port s' = ovr port s)"

definition track_inv :: "int \<Rightarrow> 'z cascade_world_scheme \<Rightarrow> bool" where
  "track_inv port s \<longleftrightarrow> g_sf2 s \<and> sf2_port s = port \<and> 0 \<le> port \<and> port \<le> 7 \<and>
     (\<forall>w. port_word (last_link s) (last_speed s) = Some w \<longrightarrow> ovr port s = Some w)"

lemma sf2_mdio_c45_read_same: "keeps (same s) (sf2_mdio_c45_read E a d r)"
  unfolding sf2_mdio_c45_read_def sf2_mdio_c45_def sf2_mdio_cmd_def
  by (intro keeps_rules keeps_emit keeps_readl) simp_all

lemma sf2_mdio_c45_read_core: "emits (\<lambda>e. \<forall>v. e \<noteq> Wr SwCore off v) (sf2_mdio_c45_read E a d r)"
  unfolding sf2_mdio_c45_read_def sf2_mdio_c45_def sf2_mdio_cmd_def
  by (intro emits_rules) simp_all

lemma rd_ovr: "wp (rd E dev reg) (\<lambda>v t. same s t \<and> ovr port t = ovr port s) s"
  unfolding rd_def wp_bind wp_gets wp_return ovr_def
  by (intro wp_conj keeps_wp [OF sf2_mdio_c45_read_same] emits_last_wr [OF sf2_mdio_c45_read_core]) simp

lemma same_casc_view: "same s s' \<Longrightarrow> casc_view s' = casc_view s" for s s' :: "'z cascade_world_scheme"
  unfolding same_def casc_view_def by (drule arg_cong [of _ _ cascade_world.truncate]) (simp add: cascade_world.defs)

lemma casc_viewD:
  assumes "casc_view s' = casc_view s"
  shows "g_sf2 s' = g_sf2 s" "sf2_port s' = sf2_port s" "last_link s' = last_link s" "last_speed s' = last_speed s"
    "serdes_core s' = serdes_core s" "track_speed s' = track_speed s" "poll_ms s' = poll_ms s" "poll_inited s' = poll_inited s"
  using assms by (simp_all add: casc_view_def cascade_world.defs)

lemma ovr_simps [simp]:
  "ovr port (s\<lparr>io_log := Wr SwCore (SF2_STS_OVERRIDE_P (nat port)) v # L\<rparr>) = Some v"
  "ovr port (s\<lparr>io_log := KNote n i # io_log s\<rparr>) = ovr port s"
  by (simp_all add: ovr_def)

lemma force_port_state_spec:
  assumes "g_sf2 s" "0 \<le> port" "port \<le> 7"
  shows "wp (sf2_6764_force_port_state port mbps link) (\<lambda>_ t. casc_view t = casc_view s \<and>
     ovr port t = (case port_word (if link then 1 else 0) mbps of Some w \<Rightarrow> Some w | None \<Rightarrow> ovr port s)) s"
  using assms unfolding sf2_6764_force_port_state_def port_word_def sf2_wr32_def
  by (auto simp: wp_simps casc_view_def cascade_world.defs)

lemma link_changed_spec:
  assumes "retune_ok port speed_set" and "g_sf2 s" "sf2_port s = port" "0 \<le> port" "port \<le> 7"
  shows "wp (link_changed speed_set link mbps) (\<lambda>_ t. casc_view t = casc_view s \<and>
     ovr port t = (case port_word link mbps of Some w \<Rightarrow> Some w | None \<Rightarrow> ovr port s)) s"
proof -
  let ?P = "\<lambda>w t. casc_view t = casc_view s \<and> ovr port t = w"
  have retune: "wp (speed_set c m) (\<lambda>_. ?P (ovr port s)) s" for c m
    using assms(1) by (simp add: retune_ok_def wp_def case_prod_beta Let_def)
  let ?Q = "\<lambda>link mbps (_ :: unit). ?P (case port_word link mbps of Some w \<Rightarrow> Some w | None \<Rightarrow> ovr port s)"
  have force: "wp (do { sf2_6764_force_port_state port mbps lk; return () }) (?Q (if lk then 1 else 0) mbps) t"
    if "?P (ovr port s) t" for t mbps lk
    unfolding wp_bind wp_return
    by (rule wp_mono [OF force_port_state_spec])
      (use that assms(2-5) casc_viewD(1) [of t s] in \<open>auto split: option.splits\<close>)
  have down: "?Q link mbps = ?Q 0 0" if "link = 0" using that by (simp add: port_word_def)
  have up: "?Q link mbps = ?Q 1 mbps" if "link \<noteq> 0" using that by (simp add: port_word_def)
  have tune: "wp (if b then do { speed_set c m; return () } else return ()) (\<lambda>_. ?P (ovr port s)) s" for b c m
    unfolding wp_if wp_bind wp_return using retune by simp
  show ?thesis
  proof (cases "link = 0")
    case True
    then show ?thesis
      unfolding link_changed_def wp_bind [of "gets _"] wp_gets assms(3) down [OF True]
      using assms(4) force [of s 0 False] by simp
  next
    case False
    from assms(4) False show ?thesis
      unfolding link_changed_def wp_bind [of "gets _"] wp_gets assms(3) up [OF False]
      by (simp add: wp_bind [of "gets _"] wp_gets split del: if_split)
        (rule wp_seq [OF tune], rule force [of _ mbps True, simplified])
  qed
qed

lemma casc_view_updates [simp]:
  "casc_view (s\<lparr>io_log := L\<rparr>) = casc_view s"
  by (simp add: casc_view_def cascade_world.defs)

lemma ovr_fields [simp]:
  "ovr port (poll_pending_update f s) = ovr port s" "ovr port (st_400d_update g s) = ovr port s"
  "ovr port (st_link_update g s) = ovr port s" "ovr port (st_speed_update g s) = ovr port s"
  "ovr port (last_link_update g s) = ovr port s" "ovr port (last_speed_update g s) = ovr port s"
  "ovr port (poll_ms_update g s) = ovr port s" "ovr port (track_speed_update g s) = ovr port s"
  by (simp_all add: ovr_def)

lemma poll_update_spec:
  assumes "retune_ok port speed_set" and "track_inv port s"
  shows "wp (poll_update speed_set v)
     (\<lambda>_ t. track_inv port t \<and> tracker_of t = track v (tracker_of s)) s"
proof -
  from assms(2) have i: "g_sf2 s" "sf2_port s = port" "0 \<le> port" "port \<le> 7"
    "\<And>w. port_word (last_link s) (last_speed s) = Some w \<Longrightarrow> ovr port s = Some w"
    by (simp_all add: track_inv_def)
  let ?u = "s\<lparr>st_400d := v, st_link := link_of v, st_speed := mbps_of v\<rparr>"
  show ?thesis
  proof (cases "link_of v \<noteq> last_link s \<or> mbps_of v \<noteq> last_speed s")
    case True
    let ?t = "?u\<lparr>last_link := link_of v, last_speed := mbps_of v\<rparr>"
    have "wp (link_changed speed_set (link_of v) (mbps_of v)) (\<lambda>_ t. casc_view t = casc_view ?t \<and>
       ovr port t = (case port_word (link_of v) (mbps_of v) of Some w \<Rightarrow> Some w | None \<Rightarrow> ovr port ?t)) ?t"
      by (rule link_changed_spec [OF assms(1)]) (simp_all add: i)
    then have "wp (link_changed speed_set (link_of v) (mbps_of v))
        (\<lambda>_ t. track_inv port t \<and> tracker_of t = track v (tracker_of s)) ?t"
    proof (rule wp_mono)
      fix t
      assume "casc_view t = casc_view ?t \<and>
        ovr port t = (case port_word (link_of v) (mbps_of v) of Some w \<Rightarrow> Some w | None \<Rightarrow> ovr port ?t)"
      then show "track_inv port t \<and> tracker_of t = track v (tracker_of s)"
        using casc_viewD [of t ?t] i
        by (auto simp: track_inv_def tracker_of_def track_def split: option.splits)
    qed
    with True show ?thesis by (simp add: wp_simps poll_update_def)
  next
    case False
    with i show ?thesis
      by (auto simp: wp_simps poll_update_def track_inv_def tracker_of_def track_def split: option.splits)
  qed
qed

lemma schedule_poll_track:
  "keeps (\<lambda>t. track_inv port t \<and> tracker_of t = x)
     (do { ms \<leftarrow> gets poll_ms; (if ms > 0 then schedule_poll (nat ms) else return ()) })"
  by (rule keepsI) (auto simp: wp_simps schedule_poll_def track_inv_def tracker_of_def ovr_def)

lemma poll_fn_track:
  assumes "retune_ok port speed_set" and "track_inv port s"
  shows "track_inv port (casc_exec E speed_set Poll s) \<and>
    tracker_of (casc_exec E speed_set Poll s) = fold track (poll_answer E s) (tracker_of s)"
proof -
  let ?s = "s\<lparr>poll_pending := False\<rparr>"
  obtain v t where rd: "run_state (rd E 0x1e 0x400d) ?s = (v, t)" by fastforce
  have st: "same ?s t" and o: "ovr port t = ovr port s"
    using wpD [OF rd_ovr rd, of port] by simp_all
  from casc_viewD [OF same_casc_view [OF st]] assms(2) o
  have t: "track_inv port t" "tracker_of t = tracker_of s" by (auto simp: track_inv_def tracker_of_def)
  let ?G = "\<lambda>_ u. track_inv port u \<and> tracker_of u = fold track (if v \<ge> 0 then [v] else []) (tracker_of s)"
  have "wp (poll_fn E speed_set) ?G s"
    unfolding poll_fn_def wp_bind [of "modify _"] wp_modify wp_bind [of "rd _ _ _"]
    unfolding wp_def [of "rd _ _ _"] rd prod.case
  proof (rule wp_seq [where P = ?G])
    show "wp (if v \<ge> 0 then poll_update speed_set v else return ()) ?G t"
      using poll_update_spec [OF assms(1) t(1), of v] t by (auto simp: wp_return)
  qed (rule keeps_wp [OF schedule_poll_track])
  then show ?thesis by (simp add: wp_def case_prod_beta poll_answer_def rd Let_def)
qed

lemma casc_exec_track:
  assumes "retune_ok port speed_set" and "track_inv port s"
  shows "track_inv port (casc_exec E speed_set opn s)"
    "tracker_of (casc_exec E speed_set opn s) = fold track (if opn = Poll then poll_answer E s else []) (tracker_of s)"
  using poll_fn_track [OF assms] assms(2)
  by (cases opn; simp add: track_inv_def tracker_of_def)+

text \<open>C38: the switch port follows the copper link.  In every history of polls and parameter writes,
  whatever the hardware answers, the driver's link, speed and the SF2 override register of the port are
  those of the abstract tracker that sees every answer of the status register: although the driver writes
  only on a change and drops failed reads, the register always holds the word for the last link and speed
  seen.  A link up at a speed the register cannot express (5000, 10000 or unknown) leaves the port in the
  state of the last one that it can.\<close>

theorem cascade_tracks_link:
  assumes "retune_ok port speed_set"
    and "g_sf2 s" "sf2_port s = port" "0 \<le> port" "port \<le> 7" "last_link s = -1" "last_speed s = -1"
  shows "tracker_of (fold (casc_exec E speed_set) ops s) =
    fold track (answers E speed_set ops s) (-1, -1, ovr port s)"
proof -
  have "tracker_of (fold (casc_exec E speed_set) ops t) = fold track (answers E speed_set ops t) (tracker_of t)"
    if "track_inv port t" for t
    using that
    by (induction ops arbitrary: t) (simp_all add: casc_exec_track [OF assms(1)])
  from this [of s] show ?thesis using assms(2-) by (simp add: track_inv_def tracker_of_def port_word_def)
qed

text \<open>A PHY that reports a link at 2500, and then one at 5000 Mbps.\<close>

definition phy_env :: "u32 \<Rightarrow> env" where
  "phy_env v = \<lparr>env_rd = (\<lambda>_ _ _. v), env_call = (\<lambda>_ _. 0)\<rparr>"

definition no_retune :: "int \<Rightarrow> int \<Rightarrow> (cascade_world, int) state" where
  "no_retune c m = return 0"

theorem cascade_tracks_link_witness:
  "tracker_of (fold (casc_exec (phy_env 0x24) no_retune) [Poll, SetPollMs 500, Poll] casc_s0) =
     fold track (answers (phy_env 0x24) no_retune [Poll, SetPollMs 500, Poll] casc_s0)
       (-1, -1, ovr 6 casc_s0)"
  by (rule cascade_tracks_link)
    (simp_all add: casc_s0_simps retune_ok_def no_retune_def
       casc_s0_def cascade_boot_def sf2_world.defs cascade_world.defs sf2_boot_def)

end
