(* ===== verification/Cascade_Init.thy ===== *)
theory Cascade_Init
  imports Cascade_Props
begin

text \<open>
  Loading the cascade PHY driver: when the firmware is uploaded and when the link poll is started.
\<close>

section \<open>When the link poll is started\<close>

definition crc_good :: "int \<Rightarrow> bool" where
  "crc_good v \<longleftrightarrow> (word_of_int v :: u32) AND FW_CRC_MASK = FW_CRC_GOOD"

text \<open>Clause 45 calls change nothing of the driver's state.\<close>

lemma sf2_mdio_c45_write_same: "keeps (same s) (sf2_mdio_c45_write E a d r v)"
  unfolding sf2_mdio_c45_write_def sf2_mdio_c45_def sf2_mdio_cmd_def
  by (intro keeps_rules keeps_emit keeps_readl) simp_all

lemma view_same:
  assumes "\<And>s. keeps (same s) m"
  shows "keeps (\<lambda>t. casc_view t = x) m"
  using assms by (metis keeps_def same_casc_view same_simps(1))

lemma view_rd [keeps_rules]: "keeps (\<lambda>t. casc_view t = x) (rd E d r)"
  unfolding rd_def by (intro keeps_rules view_same sf2_mdio_c45_read_same)

lemma view_wr [keeps_rules]: "keeps (\<lambda>t. casc_view t = x) (wr E d r v)"
  unfolding wr_def by (intro keeps_rules view_same sf2_mdio_c45_write_same)

lemma view_emit [keeps_rules]: "keeps (\<lambda>t. casc_view t = x) (emit e)"
  "keeps (\<lambda>t. casc_view t = x) (kcall E c)"
  by (rule keeps_emit keeps_kcall; simp)+

lemma view_upload [keeps_rules]: "keeps (\<lambda>t. casc_view t = x) (upload_firmware E fw)"
  unfolding upload_firmware_def upload_word_def by (intro keeps_rules)

lemma view_download [keeps_rules]: "keeps (\<lambda>t. casc_view t = x) (download_firmware E fw)"
  unfolding download_firmware_def halt_processors_def set_shared_ref_clk_def release_processors_def
    wait_firmware_alive_def
  by (intro keeps_rules)

lemma view_post_config [keeps_rules]: "keeps (\<lambda>t. casc_view t = x) (post_config E)"
  unfolding post_config_def phy_cmd_set_def cmd_poll_def rmw_def by (intro keeps_rules)

text \<open>The frames on the bus only grow.\<close>

lemma c45_writes_mono: "prefix (c45_writes L) (c45_writes (evs @ L))"
proof (induction evs)
  case (Cons e evs)
  then show ?case by (cases e) auto
qed simp

lemma fw_stream_mono: "prefix (fw_stream L) (fw_stream (evs @ L))"
  using c45_writes_mono [of L evs] by (auto simp: fw_stream_def prefix_def)

lemma emits_fw_stream:
  assumes "emits (\<lambda>_. True) m"
  shows "keeps (\<lambda>s. sublist ws (fw_stream (io_log s))) m"
proof (rule keepsI)
  fix s :: "'a io_scheme"
  assume "sublist ws (fw_stream (io_log s))"
  then show "wp m (\<lambda>_ s. sublist ws (fw_stream (io_log s))) s"
    by (intro wp_mono [OF emits_wp [OF assms]])
      (metis fw_stream_mono prefix_imp_sublist sublist_order.order_trans)
qed

lemma keeps_const: "keeps I m \<Longrightarrow> keeps (\<lambda>s. b \<and> I s) m"
  by (simp add: keeps_def)

lemma any_rd [emits_rules]: "emits (\<lambda>_. True) (rd E d r)" "emits (\<lambda>_. True) (wr E d r v)"
  unfolding rd_def wr_def sf2_mdio_c45_read_def sf2_mdio_c45_write_def sf2_mdio_c45_def sf2_mdio_cmd_def
  by (intro emits_rules TrueI)+

lemma download_firmware_image:
  "wp (download_firmware E fw) (\<lambda>r t. cret r = 0 \<longrightarrow>
     length fw mod 4 = 0 \<and> sublist (halves fw) (fw_stream (io_log t))) s"
proof -
  let ?P = "\<lambda>t. length fw mod 4 = 0 \<and> sublist (halves fw) (fw_stream (io_log t))"
  have up: "wp (upload_firmware E fw) (\<lambda>r t. cret r = 0 \<longrightarrow> r = Inr () \<and> ?P t) t" for t
  proof (cases "length fw mod 4 = 0")
    case True
    show ?thesis
      by (rule wp_mono [OF upload_firmware_step [OF True]])
        (auto simp: True stream_step_def streamed_def cret_def split: sum.splits)
  next
    case False
    then show ?thesis by (simp add: upload_firmware_def wp_simps cret_def)
  qed
  have rest: "keeps ?P (do { set_shared_ref_clk E; release_processors E; wait_firmware_alive E })"
    unfolding set_shared_ref_clk_def release_processors_def wait_firmware_alive_def
    by (intro keeps_const emits_fw_stream emits_rules TrueI)
  have fin: "wp (case r of Inl e \<Rightarrow> return (Inl e)
        | Inr _ \<Rightarrow> do { set_shared_ref_clk E; release_processors E; wait_firmware_alive E })
      (\<lambda>r t. cret r = 0 \<longrightarrow> ?P t) t"
    if "cret r = 0 \<longrightarrow> r = Inr () \<and> ?P t" for t and r :: "errno + unit"
  proof (cases r)
    case (Inl e) with that show ?thesis by (simp add: wp_return)
  next
    case (Inr x)
    with that have "?P t" by (simp add: cret_def)
    from keeps_wp [OF rest this] show ?thesis unfolding Inr sum.case by (rule wp_mono) simp
  qed
  have main: "wp (do { halt_processors E; ret \<leftarrow> upload_firmware E fw;
       emit (KNote ''release_firmware'' 0); emit (KNote ''root_device_unregister'' 0);
       case ret of Inl e \<Rightarrow> return (Inl e)
       | Inr _ \<Rightarrow> do { set_shared_ref_clk E; release_processors E; wait_firmware_alive E } })
      (\<lambda>r t. cret r = 0 \<longrightarrow> ?P t) t" for t
    by (intro wp_seq [OF wp_True wp_seq [OF up]], unfold wp_bind wp_emit)
      (rule fin, auto simp: fw_stream_def)
  show ?thesis
    unfolding download_firmware_def wp_bind [of "kcall _ _"] wp_kcall
    by (rule wp_ifI, simp add: wp_simps cret_def, unfold wp_bind [of "kcall _ _"] wp_kcall, intro wp_ifI main)
      (simp add: wp_simps cret_def)
qed

text \<open>A failed read is never taken for a running processor or a good checksum.\<close>

lemma rd_value: "wp (rd E d r) (\<lambda>v _. 0 \<le> v \<or> v = -19 \<or> v = -110) s"
  unfolding rd_def sf2_mdio_c45_read_def
  by (auto simp: wp_simps cint_def intro!: wp_mono [OF sf2_mdio_c45_bus_err])
    (auto simp: wp_simps bus_err_def split: sum.splits)

lemma rd_good:
  "wp (rd E d r) (\<lambda>v t. casc_view t = casc_view s \<and> (crc_good v \<longrightarrow> 0 \<le> v)) s"
  by (rule wp_mono [OF wp_conj [OF keeps_wp [OF view_rd refl] rd_value]]) (auto simp: crc_good_def)

lemma casc_view_fields [simp]:
  "casc_view (st_id1_update f s) = st_id1_update f (casc_view s)"
  "casc_view (st_id2_update f s) = st_id2_update f (casc_view s)"
  "casc_view (st_proc_update f s) = st_proc_update f (casc_view s)"
  "casc_view (st_400d_update f s) = st_400d_update f (casc_view s)"
  "casc_view (st_fw_ret_update f s) = st_fw_ret_update f (casc_view s)"
  "casc_view (st_fw_uploaded_update f s) = st_fw_uploaded_update f (casc_view s)"
  "casc_view (st_cfg_ret_update f s) = st_cfg_ret_update f (casc_view s)"
  "casc_view (poll_inited_update g s) = poll_inited_update g (casc_view s)"
  "casc_view (poll_pending_update g s) = poll_pending_update g (casc_view s)"
  by (simp_all add: casc_view_def cascade_world.defs)

lemma casc_viewD_st:
  assumes "casc_view s' = casc_view s"
  shows "st_id1 s' = st_id1 s" "st_proc s' = st_proc s" "st_400d s' = st_400d s" "st_fw_ret s' = st_fw_ret s"
    "st_fw_uploaded s' = st_fw_uploaded s" "poll_inited s' = poll_inited s" "poll_pending s' = poll_pending s"
    "load_fw s' = load_fw s" "force_fw s' = force_fw s" "configure s' = configure s"
  using assms by (simp_all add: casc_view_def cascade_world.defs)

lemma fw_running_spec:
  "wp (fw_running E) (\<lambda>r t. \<exists>p v. casc_view t = casc_view (s\<lparr>st_proc := p, st_400d := v\<rparr>) \<and>
     r = (p = PROC_RUNNING \<and> 0 \<le> v \<and> crc_good v)) s"
  unfolding fw_running_def
  by (rule wp_seq [OF keeps_wp [OF view_rd refl] wp_seq [OF rd_good]])
    (auto simp: wp_simps crc_good_def)

text \<open>What the driver knows when \<^verbatim>\<open>init\<close> has come to the decision whether to poll: \<open>running\<close> is the
  local variable, \<open>i\<close> the identifier read.\<close>

definition decided :: "int \<Rightarrow> u8 list \<Rightarrow> bool \<Rightarrow> 'z cascade_world_scheme \<Rightarrow> bool" where
  "decided i fw running t \<longleftrightarrow>
     (running \<longleftrightarrow> (st_proc t = PROC_RUNNING \<and> 0 \<le> st_400d t \<and> crc_good (st_400d t)) \<or> st_fw_ret t = 0) \<and>
     (st_fw_uploaded t = 1 \<longleftrightarrow> st_fw_ret t = 0) \<and>
     (st_fw_ret t = 0 \<longrightarrow> length fw mod 4 = 0 \<and> sublist (halves fw) (fw_stream (io_log t))) \<and>
     st_id1 t = i \<and> \<not> poll_inited t \<and> \<not> poll_pending t"

lemma keeps_decided:
  assumes "\<And>x. keeps (\<lambda>t. casc_view t = x) m" and "emits (\<lambda>_. True) m"
  shows "keeps (decided i fw running) m"
proof (rule keepsI)
  fix t :: "'a cascade_world_scheme"
  assume d: "decided i fw running t"
  have "keeps (\<lambda>s. st_fw_ret t = 0 \<longrightarrow> sublist (halves fw) (fw_stream (io_log s))) m"
    using emits_fw_stream [OF assms(2), of "halves fw"] by (cases "st_fw_ret t = 0") (simp_all add: keeps_def)
  then have "wp m (\<lambda>_ t'. casc_view t' = casc_view t \<and>
      (st_fw_ret t = 0 \<longrightarrow> sublist (halves fw) (fw_stream (io_log t')))) t"
    using d by (intro wp_conj keeps_wp [OF assms(1)] keeps_wp) (auto simp: decided_def)
  then show "wp m (\<lambda>_. decided i fw running) t"
  proof (rule wp_mono)
    fix t'
    assume "casc_view t' = casc_view t \<and> (st_fw_ret t = 0 \<longrightarrow> sublist (halves fw) (fw_stream (io_log t')))"
    with casc_viewD_st [of t' t] d show "decided i fw running t'" by (auto simp: decided_def)
  qed
qed

definition id_bad :: "int \<Rightarrow> bool" where
  "id_bad v \<longleftrightarrow> v < 0 \<or> (word_of_int v :: u32) AND 0xffff = 0xffff"

text \<open>The firmware is known to run: it was seen running, or the upload has succeeded.\<close>

definition fw_seen :: "'z cascade_world_scheme \<Rightarrow> bool" where
  "fw_seen t \<longleftrightarrow> st_proc t = PROC_RUNNING \<and> 0 \<le> st_400d t \<and> crc_good (st_400d t)"

definition known :: "int \<Rightarrow> 'z cascade_world_scheme \<Rightarrow> bool" where
  "known i t \<longleftrightarrow> st_id1 t = i \<and> st_fw_ret t = -1 \<and> st_fw_uploaded t = 0 \<and> \<not> poll_inited t \<and> \<not> poll_pending t"

lemma known_view: "known i t \<Longrightarrow> casc_view t' = casc_view t \<Longrightarrow> known i t'"
  using casc_viewD_st [of t' t] by (simp add: known_def)

lemma download_decided:
  assumes "running = fw_seen t" and "known i t"
  shows "wp (if b then do {
           ret \<leftarrow> download_firmware E fw;
           modify (st_fw_ret_update (\<lambda>_. cret ret));
           if cret ret = 0 then do {
             modify (st_fw_uploaded_update (\<lambda>_. 1));
             return True }
           else return running }
         else return running) (\<lambda>running. decided i fw running) t"
proof -
  have "wp (download_firmware E fw) (\<lambda>ret u. casc_view u = casc_view t \<and>
      (cret ret = 0 \<longrightarrow> length fw mod 4 = 0 \<and> sublist (halves fw) (fw_stream (io_log u)))) t"
    by (intro wp_conj download_firmware_image keeps_wp [OF view_download] refl)
  then have "wp (download_firmware E fw) (\<lambda>ret u. 
      (if cret ret = 0 then decided i fw True (u\<lparr>st_fw_ret := 0, st_fw_uploaded := 1\<rparr>)
       else decided i fw running (u\<lparr>st_fw_ret := cret ret\<rparr>))) t"
  proof (rule wp_mono)
    fix ret u
    assume "casc_view u = casc_view t \<and>
      (cret ret = 0 \<longrightarrow> length fw mod 4 = 0 \<and> sublist (halves fw) (fw_stream (io_log u)))"
    with casc_viewD_st [of u t] assms
    show "if cret ret = 0 then decided i fw True (u\<lparr>st_fw_ret := 0, st_fw_uploaded := 1\<rparr>)
       else decided i fw running (u\<lparr>st_fw_ret := cret ret\<rparr>)"
      by (auto simp: decided_def known_def fw_seen_def)
  qed
  moreover have "decided i fw running t"
    using assms by (auto simp: decided_def known_def fw_seen_def)
  ultimately show ?thesis by (auto simp: wp_simps elim!: wp_mono)
qed

lemma post_config_decided:
  "keeps (decided i fw running) (if c then do { ret \<leftarrow> post_config E; modify (st_cfg_ret_update (\<lambda>_. cret ret)) } else return ())"
proof -
  have "emits (\<lambda>_. True) (post_config E)"
    unfolding post_config_def phy_cmd_set_def cmd_poll_def rmw_def by (intro emits_rules TrueI)
  then have "keeps (decided i fw running) (post_config E)" by (intro keeps_decided view_post_config)
  then show ?thesis by (intro keeps_rules keeps_modify) (auto simp: decided_def)
qed

definition polls_right :: "u8 list \<Rightarrow> 'z cascade_world_scheme \<Rightarrow> bool" where
  "polls_right fw t \<longleftrightarrow> (poll_inited t \<longleftrightarrow> \<not> id_bad (st_id1 t) \<and> (fw_seen t \<or> st_fw_ret t = 0)) \<and>
    (poll_pending t \<longleftrightarrow> poll_inited t) \<and> (st_fw_uploaded t = 1 \<longleftrightarrow> st_fw_ret t = 0) \<and>
    (st_fw_ret t = 0 \<longrightarrow> length fw mod 4 = 0 \<and> sublist (halves fw) (fw_stream (io_log t)))"

lemma bringup_polls:
  assumes "known i t" and "\<not> id_bad i"
  shows "wp (cascade6764_bringup E fw) (\<lambda>_. polls_right fw) t"
proof -
  have fin: "wp (if \<not> running then return () else do { modify (poll_inited_update (\<lambda>_. True)); schedule_poll 0 })
      (\<lambda>_. polls_right fw) u" if "decided i fw running u" for running u
    using that assms(2) by (auto simp: wp_simps schedule_poll_def decided_def polls_right_def fw_seen_def fw_stream_def)
  show ?thesis
    unfolding cascade6764_bringup_def
  proof (rule wp_seq [OF fw_running_spec], elim exE conjE, unfold wp_bind [of "gets _"] wp_gets, goal_cases)
    case (1 running u p v)
    then have u: "casc_view u = casc_view (t\<lparr>st_proc := p, st_400d := v\<rparr>)" by simp
    from known_view [OF _ this, of i] assms(1) have k: "known i u" by (simp add: known_def)
    from 1 casc_viewD_st [OF u] have r: "running = fw_seen u" by (simp add: fw_seen_def)
    show ?case
      by (rule wp_seq [OF download_decided [OF r k]], unfold wp_bind [of "gets _"] wp_gets,
          rule wp_seq [OF keeps_wp [OF post_config_decided]], assumption, rule fin)
  qed
qed

text \<open>C39: when the module is loaded, the link poll is set up and queued exactly if the PHY answered
  with an identifier and its firmware either was seen running (both status reads answered, the checksum
  good) or has been uploaded with success; a failed read is never taken for one.  The flag
  \<^verbatim>\<open>st_fw_uploaded\<close> is set exactly if the download returned 0, and then the whole image has been put on the
  bus.  A download that was forced on a running PHY and failed is no obstacle to polling.\<close>

theorem cascade6764_init_polls:
  assumes "run_state (cascade6764_init E fw) s = (u, t)"
    and "st_fw_ret s = -1" "st_fw_uploaded s = 0" "\<not> poll_inited s" "\<not> poll_pending s"
  shows "(poll_inited t \<longleftrightarrow> \<not> id_bad (st_id1 t) \<and> (fw_seen t \<or> st_fw_ret t = 0)) \<and>
    (poll_pending t \<longleftrightarrow> poll_inited t) \<and> (st_fw_uploaded t = 1 \<longleftrightarrow> st_fw_ret t = 0) \<and>
    (st_fw_ret t = 0 \<longrightarrow> length fw mod 4 = 0 \<and> sublist (halves fw) (fw_stream (io_log t)))"
proof -
  from assms have 0: "known (st_id1 s) s" by (simp add: known_def)
  have rd: "wp (rd E 0x01 r) (\<lambda>_. known i) t" if "known i t" for r i and t :: "'a cascade_world_scheme"
    by (rule wp_mono [OF keeps_wp [OF view_rd refl]]) (rule known_view [OF that])
  have tail: "wp (do { id2 \<leftarrow> rd E 0x01 0x0003; modify (st_id2_update (\<lambda>_. id2));
      if i < 0 \<or> (word_of_int i :: u32) AND 0xffff = 0xffff then return () else cascade6764_bringup E fw })
      (\<lambda>_. polls_right fw) t" if "known i t" for i and t :: "'a cascade_world_scheme"
  proof (rule wp_seq [OF rd [OF that]])
    fix id2 and u :: "'a cascade_world_scheme"
    assume "known i u"
    then have k: "known i (u\<lparr>st_id2 := id2\<rparr>)" by (simp add: known_def)
    show "wp (do { modify (st_id2_update (\<lambda>_. id2));
        if i < 0 \<or> (word_of_int i :: u32) AND 0xffff = 0xffff then return () else cascade6764_bringup E fw })
        (\<lambda>_. polls_right fw) u"
      unfolding wp_bind wp_modify id_bad_def [symmetric]
      using k bringup_polls [OF k] by (auto simp: wp_simps polls_right_def known_def)
  qed
  have "wp (cascade6764_init E fw) (\<lambda>_. polls_right fw) s"
    unfolding cascade6764_init_def
    by (rule wp_seq [OF rd [OF 0]], unfold wp_bind [of "modify _"] wp_modify, rule tail) (simp add: known_def)
  from wpD [OF this assms(1)] show ?thesis unfolding polls_right_def .
qed

theorem cascade6764_init_polls_witness:
  "let t = snd (run_state (cascade6764_init zero_env [1, 2, 3, 4]) casc_s0) in
     (poll_inited t \<longleftrightarrow> \<not> id_bad (st_id1 t) \<and> (fw_seen t \<or> st_fw_ret t = 0))"
  using cascade6764_init_polls [of zero_env "[1, 2, 3, 4]" casc_s0, OF prod.collapse [symmetric]]
  by (simp add: Let_def casc_s0_def cascade_boot_def sf2_world.defs cascade_world.defs)

end
