(* ===== verification/Extsw.thy ===== *)
theory Extsw
  imports Sf2
begin

text \<open>
  \<^verbatim>\<open>port66/enet66b/extsw6764.c\<close>: the external LAN switch.  Its registers are reached through a
  pseudo PHY at MDIO address 0x1e, over the exported Clause 22 calls of the switch driver (theory
  \<open>Sf2\<close>); its reset line is a GPIO.  A 32-bit register value handed back through a pointer is the
  value of the result.  The only loop without a bound in the source, the wait for links in
  \<^verbatim>\<open>extsw_report_links()\<close>, takes the number of passes it may run as an argument \<open>n\<close>, and the outcome
  \<open>None\<close> says that they did not suffice.
\<close>

section \<open>Constants (extsw6764.c, enet66b.h, linux/mii.h)\<close>

abbreviation (input) GPIO_BANK_SIZE :: nat where "GPIO_BANK_SIZE \<equiv> 0x20"
abbreviation (input) PSEUDO_PHY_ADDR :: u32 where "PSEUDO_PHY_ADDR \<equiv> 0x1e"
abbreviation (input) REG_PSEUDO_MII_16 :: u32 where "REG_PSEUDO_MII_16 \<equiv> 0x10"
abbreviation (input) REG_PSEUDO_MII_17 :: u32 where "REG_PSEUDO_MII_17 \<equiv> 0x11"
abbreviation (input) REG_PSEUDO_MII_24 :: u32 where "REG_PSEUDO_MII_24 \<equiv> 0x18"
abbreviation (input) REG_PSEUDO_MII_25 :: u32 where "REG_PSEUDO_MII_25 \<equiv> 0x19"
abbreviation (input) PPM16_PAGE_SHIFT :: nat where "PPM16_PAGE_SHIFT \<equiv> 8"
abbreviation (input) PPM16_MDIO_ENABLE :: u32 where "PPM16_MDIO_ENABLE \<equiv> 0x01"
abbreviation (input) PPM17_REG_SHIFT :: nat where "PPM17_REG_SHIFT \<equiv> 8"
abbreviation (input) PPM17_OP_DONE :: u16 where "PPM17_OP_DONE \<equiv> 0x00"
abbreviation (input) PPM17_OP_WRITE :: u32 where "PPM17_OP_WRITE \<equiv> 0x01"
abbreviation (input) PPM17_OP_READ :: u32 where "PPM17_OP_READ \<equiv> 0x02"
abbreviation (input) PPM17_OP_MASK :: u16 where "PPM17_OP_MASK \<equiv> 0x03"
abbreviation (input) PAGE_CONTROL :: u32 where "PAGE_CONTROL \<equiv> 0x00"
abbreviation (input) PORT_CTRL_PORT :: u32 where "PORT_CTRL_PORT \<equiv> 0x00"
abbreviation (input) PORT_CTRL_RX_DISABLE :: u32 where "PORT_CTRL_RX_DISABLE \<equiv> 0x01"
abbreviation (input) PORT_CTRL_RXTX_DISABLE :: u32 where "PORT_CTRL_RXTX_DISABLE \<equiv> 0x03"
abbreviation (input) PORT_CTRL_STATUS_MASK :: u32 where "PORT_CTRL_STATUS_MASK \<equiv> 0xe0"
abbreviation (input) PORT_CTRL_NO_STP :: u32 where "PORT_CTRL_NO_STP \<equiv> 0"
abbreviation (input) REG_SWITCH_MODE :: u32 where "REG_SWITCH_MODE \<equiv> 0x0b"
abbreviation (input) SWITCH_MODE_FRAME_MANAGE :: u32 where "SWITCH_MODE_FRAME_MANAGE \<equiv> 0x01"
abbreviation (input) SWITCH_MODE_SW_FWDG_EN :: u32 where "SWITCH_MODE_SW_FWDG_EN \<equiv> 0x02"
abbreviation (input) SWITCH_MODE_RETRY_LIMIT_DIS :: u32 where "SWITCH_MODE_RETRY_LIMIT_DIS \<equiv> 0x04"
abbreviation (input) REG_MII1_PORT_STATE_OVERRIDE :: u32 where "REG_MII1_PORT_STATE_OVERRIDE \<equiv> 0x0e"
abbreviation (input) MPSO_MII_SW_OVERRIDE :: u32 where "MPSO_MII_SW_OVERRIDE \<equiv> 0x80"
abbreviation (input) MPSO_FLOW_CONTROL :: u32 where "MPSO_FLOW_CONTROL \<equiv> 0x30"
abbreviation (input) MPSO_SPEED1000 :: u32 where "MPSO_SPEED1000 \<equiv> 0x08"
abbreviation (input) MPSO_FDX :: u32 where "MPSO_FDX \<equiv> 0x02"
abbreviation (input) MPSO_LINKPASS :: u32 where "MPSO_LINKPASS \<equiv> 0x01"
abbreviation (input) REG_SWITCH_CONTROL :: u32 where "REG_SWITCH_CONTROL \<equiv> 0x22"
abbreviation (input) SWITCH_CONTROL_MII_DUMP_FWD :: u32 where "SWITCH_CONTROL_MII_DUMP_FWD \<equiv> 0x40"
abbreviation (input) REG_PORT5_STATE_OVERRIDE :: u32 where "REG_PORT5_STATE_OVERRIDE \<equiv> 0x5d"
abbreviation (input) SOFTWARE_RESET_CTRL :: u32 where "SOFTWARE_RESET_CTRL \<equiv> 0x79"
abbreviation (input) SOFTWARE_RESET :: u32 where "SOFTWARE_RESET \<equiv> 0x80"
abbreviation (input) PAGE_STATUS :: u32 where "PAGE_STATUS \<equiv> 0x01"
abbreviation (input) REG_LNKSTS :: u32 where "REG_LNKSTS \<equiv> 0x00"
abbreviation (input) REG_SPDSTS :: u32 where "REG_SPDSTS \<equiv> 0x04"
abbreviation (input) REG_STRAP_VAL :: u32 where "REG_STRAP_VAL \<equiv> 0x70"
abbreviation (input) STRAP_P8_SEL_SGMII :: u32 where "STRAP_P8_SEL_SGMII \<equiv> BIT 9"
abbreviation (input) PAGE_MANAGEMENT :: u32 where "PAGE_MANAGEMENT \<equiv> 0x02"
abbreviation (input) REG_BRCM_HDR_CTRL :: u32 where "REG_BRCM_HDR_CTRL \<equiv> 0x03"
abbreviation (input) REG_DEVICE_ID :: u32 where "REG_DEVICE_ID \<equiv> 0x30"
abbreviation (input) PAGE_PORT_BASED_VLAN :: u32 where "PAGE_PORT_BASED_VLAN \<equiv> 0x31"
abbreviation (input) REG_VLAN_CTRL_P0 :: u32 where "REG_VLAN_CTRL_P0 \<equiv> 0x00"
abbreviation (input) PAGE_SW_SERDES :: u32 where "PAGE_SW_SERDES \<equiv> 0x14"
abbreviation (input) PAGE_SW_SERDES_EN :: u32 where "PAGE_SW_SERDES_EN \<equiv> 0xe6"
abbreviation (input) BP_MAX_SWITCH_PORTS :: nat where "BP_MAX_SWITCH_PORTS \<equiv> 8"
abbreviation (input) EXTSW_IMP_PORT :: nat where "EXTSW_IMP_PORT \<equiv> 8"
abbreviation (input) EXTSW_LAN_PORTS :: nat where "EXTSW_LAN_PORTS \<equiv> 4"
definition EXTSW_PAGE_MIB :: "nat \<Rightarrow> u32" where "EXTSW_PAGE_MIB p = 0x20 + of_nat p"
abbreviation (input) EXTSW_MIB_TXOCTETS :: u32 where "EXTSW_MIB_TXOCTETS \<equiv> 0x00"
abbreviation (input) EXTSW_MIB_RXOCTETS_A :: u32 where "EXTSW_MIB_RXOCTETS_A \<equiv> 0x44"
abbreviation (input) EXTSW_MIB_RXOCTETS_B :: u32 where "EXTSW_MIB_RXOCTETS_B \<equiv> 0x50"
abbreviation (input) ADVERTISE_REPEATER_DTE :: u16 where "ADVERTISE_REPEATER_DTE \<equiv> BIT 10"

abbreviation (input) MII_BMCR :: u32 where "MII_BMCR \<equiv> 0x00"
abbreviation (input) MII_ADVERTISE :: u32 where "MII_ADVERTISE \<equiv> 0x04"
abbreviation (input) MII_CTRL1000 :: u32 where "MII_CTRL1000 \<equiv> 0x09"
abbreviation (input) BMCR_RESET :: u16 where "BMCR_RESET \<equiv> 0x8000"
abbreviation (input) BMCR_ANENABLE :: u16 where "BMCR_ANENABLE \<equiv> 0x1000"
abbreviation (input) BMCR_PDOWN :: u16 where "BMCR_PDOWN \<equiv> 0x0800"
abbreviation (input) BMCR_ANRESTART :: u16 where "BMCR_ANRESTART \<equiv> 0x0200"
abbreviation (input) ADVERTISE_ALL :: u16 where "ADVERTISE_ALL \<equiv> 0x01e0"
abbreviation (input) ADVERTISE_PAUSE_CAP :: u16 where "ADVERTISE_PAUSE_CAP \<equiv> 0x0400"
abbreviation (input) ADVERTISE_PAUSE_ASYM :: u16 where "ADVERTISE_PAUSE_ASYM \<equiv> 0x0800"
abbreviation (input) ADVERTISE_1000HALF :: u16 where "ADVERTISE_1000HALF \<equiv> 0x0100"
abbreviation (input) ADVERTISE_1000FULL :: u16 where "ADVERTISE_1000FULL \<equiv> 0x0200"

abbreviation (input) E66B_MK_EXTSW_PROBE :: u8 where "E66B_MK_EXTSW_PROBE \<equiv> 0x85"
abbreviation (input) E66B_MK_EXTSW_RESET_OFF :: u8 where "E66B_MK_EXTSW_RESET_OFF \<equiv> 0x80"
abbreviation (input) E66B_MK_EXTSW_ID :: u8 where "E66B_MK_EXTSW_ID \<equiv> 0x81"
abbreviation (input) E66B_MK_EXTSW_SWRESET :: u8 where "E66B_MK_EXTSW_SWRESET \<equiv> 0x82"
abbreviation (input) E66B_MK_EXTSW_SETUP :: u8 where "E66B_MK_EXTSW_SETUP \<equiv> 0x84"
abbreviation (input) E66B_MK_EXTSW_PORTS :: u8 where "E66B_MK_EXTSW_PORTS \<equiv> 0x83"
abbreviation (input) E66B_MK_EXTSW_P8_LINK :: u8 where "E66B_MK_EXTSW_P8_LINK \<equiv> 0x8F"
abbreviation (input) E66B_MK_EXTSW_GPHY_LINK :: u8 where "E66B_MK_EXTSW_GPHY_LINK \<equiv> 0x90"
abbreviation (input) E66B_MK_ERR_EXTSW_GPIO :: u8 where "E66B_MK_ERR_EXTSW_GPIO \<equiv> 0xC9"
abbreviation (input) E66B_MK_ERR_EXTSW_ID :: u8 where "E66B_MK_ERR_EXTSW_ID \<equiv> 0xCA"
abbreviation (input) E66B_MK_ERR_EXTSW_SWRESET :: u8 where "E66B_MK_ERR_EXTSW_SWRESET \<equiv> 0xCB"
abbreviation (input) E66B_MK_ERR_EXTSW_PSEUDO :: u8 where "E66B_MK_ERR_EXTSW_PSEUDO \<equiv> 0xCC"
abbreviation (input) E66B_MK_ERR_EXTSW_HWREADY :: u8 where "E66B_MK_ERR_EXTSW_HWREADY \<equiv> 0xCD"
abbreviation (input) E66B_MK_ERR_EXTSW_STRAP :: u8 where "E66B_MK_ERR_EXTSW_STRAP \<equiv> 0xCE"
abbreviation (input) E66B_MK_ERR_EXTSW_LINK :: u8 where "E66B_MK_ERR_EXTSW_LINK \<equiv> 0xCF"

section \<open>State\<close>

text \<open>\<open>gpio_dir\<close> and \<open>gpio_data\<close> say whether the bank is mapped.\<close>

record extsw_probe =
  probe_p8_rx_a :: u32
  probe_p8_rx_b :: u32
  probe_p8_tx :: u32
  probe_lan_tx :: u32
  probe_lnk :: u32
  probe_p8_ctl :: u32
  probe_pbv8 :: u32
  probe_p8_err_a :: u32
  probe_p8_err_b :: u32

record extsw_world = sf2_world +
  reset_gpio :: nat
  reset_active_low :: int
  ext_sw_sgmii :: int
  autoinit :: int
  link_wait_ms :: int
  pll_afe :: int
  afe13_pre :: u32
  afe16_pre :: u32
  afe17_pre :: u32
  gpio_dir :: bool
  gpio_data :: bool
  gpio_mapped_from_dt :: bool
  ext_sw_id :: u32
  probe_regs :: extsw_probe

definition extsw_boot :: "sf2_world \<Rightarrow> extsw_world" where
  "extsw_boot s = sf2_world.extend s (extsw_world.fields
     24 1 6 1 4000 1  0 0 0  False False False 0
     \<lparr>probe_p8_rx_a = 0, probe_p8_rx_b = 0, probe_p8_tx = 0, probe_lan_tx = 0, probe_lnk = 0,
      probe_p8_ctl = 0, probe_pbv8 = 0, probe_p8_err_a = 0, probe_p8_err_b = 0\<rparr>)"

section \<open>Pseudo-PHY register access\<close>

definition sw_wait_op :: "env \<Rightarrow> ('z extsw_world_scheme, errno + unit) state" where
  "sw_wait_op E = do {
     r \<leftarrow> poll_loop 20 (do {
       v \<leftarrow> sf2_mdio_read E PSEUDO_PHY_ADDR REG_PSEUDO_MII_17;
       case v of
         Inl e \<Rightarrow> return (Some (Inl e))
       | Inr v \<Rightarrow>
           if v AND PPM17_OP_MASK = PPM17_OP_DONE then return (Some (Inr ()))
           else do { delay_us 10; return None } });
     case r of
       Some ret \<Rightarrow> return ret
     | None \<Rightarrow> do { mark E66B_MK_ERR_EXTSW_PSEUDO; return (Inl ETIMEDOUT) } }"

text \<open>The two words that select a page and start an operation.\<close>

definition ppm16 :: "u32 \<Rightarrow> u16" where
  "ppm16 page = ucast (push_bit PPM16_PAGE_SHIFT page OR PPM16_MDIO_ENABLE)"

definition ppm17 :: "u32 \<Rightarrow> u32 \<Rightarrow> u16" where
  "ppm17 reg opc = ucast (push_bit PPM17_REG_SHIFT reg OR opc)"

definition sw_rreg :: "env \<Rightarrow> u32 \<Rightarrow> u32 \<Rightarrow> nat \<Rightarrow> ('z extsw_world_scheme, errno + u32) state" where
  "sw_rreg E page reg len =
     bindE (sf2_mdio_write E PSEUDO_PHY_ADDR REG_PSEUDO_MII_16 (ppm16 page)) (\<lambda>_.
     bindE (sf2_mdio_write E PSEUDO_PHY_ADDR REG_PSEUDO_MII_17 (ppm17 reg PPM17_OP_READ)) (\<lambda>_.
     bindE (sw_wait_op E) (\<lambda>_.
     bindE (sf2_mdio_read E PSEUDO_PHY_ADDR REG_PSEUDO_MII_24) (\<lambda>v.
       if len = 1 then return (Inr (ucast v AND 0xff))
       else if len = 2 then return (Inr (ucast v))
       else if len = 4 then
         bindE (sf2_mdio_read E PSEUDO_PHY_ADDR REG_PSEUDO_MII_25) (\<lambda>h.
           return (Inr (ucast v OR push_bit 16 (ucast h))))
       else return (Inl EINVAL)))))"

definition sw_wreg :: "env \<Rightarrow> u32 \<Rightarrow> u32 \<Rightarrow> u32 \<Rightarrow> nat \<Rightarrow> ('z extsw_world_scheme, errno + unit) state" where
  "sw_wreg E page reg data len =
     bindE (sf2_mdio_write E PSEUDO_PHY_ADDR REG_PSEUDO_MII_16 (ppm16 page)) (\<lambda>_.
     bindE (if len = 1 then sf2_mdio_write E PSEUDO_PHY_ADDR REG_PSEUDO_MII_24 (ucast data AND 0xff)
            else if len = 2 then sf2_mdio_write E PSEUDO_PHY_ADDR REG_PSEUDO_MII_24 (ucast data)
            else if len = 4 then
              bindE (sf2_mdio_write E PSEUDO_PHY_ADDR REG_PSEUDO_MII_24 (ucast data)) (\<lambda>_.
                sf2_mdio_write E PSEUDO_PHY_ADDR REG_PSEUDO_MII_25 (ucast (drop_bit 16 data)))
            else return (Inl EINVAL)) (\<lambda>_.
     bindE (sf2_mdio_write E PSEUDO_PHY_ADDR REG_PSEUDO_MII_17 (ppm17 reg PPM17_OP_WRITE)) (\<lambda>_.
       sw_wait_op E)))"

text \<open>A run of writes, each given by page, register, data and width, that stops at the first error.\<close>

definition sw_wregs :: "env \<Rightarrow> (u32 \<times> u32 \<times> u32 \<times> nat) list \<Rightarrow> ('z extsw_world_scheme, errno + unit) state" where
  "sw_wregs E ws = for_eachE ws (\<lambda>(page, reg, data, len). sw_wreg E page reg data len)"

section \<open>GPIO\<close>

definition GPIO_TO_IDX :: "nat \<Rightarrow> nat" where "GPIO_TO_IDX g = drop_bit 5 g"
definition GPIO_TO_MASK :: "nat \<Rightarrow> u32" where "GPIO_TO_MASK g = push_bit (g AND 0x1f) 1"

text \<open>\<open>gpio_set d v\<close> stores the two bank pointers; \<open>gpio_drop\<close> is the clean-up of a failed mapping.\<close>

definition gpio_set :: "bool \<Rightarrow> bool \<Rightarrow> ('z extsw_world_scheme, unit) state" where
  "gpio_set d v = modify (\<lambda>s. s\<lparr>gpio_dir := d, gpio_data := v\<rparr>)"

definition gpio_drop :: "('z extsw_world_scheme, unit) state" where
  "gpio_drop = do {
     d \<leftarrow> gets gpio_dir;
     v \<leftarrow> gets gpio_data;
     (if d then emit (KNote ''iounmap'' 0) else return ());
     (if v then emit (KNote ''iounmap'' 1) else return ());
     gpio_set False False }"

definition extsw_gpio_map :: "env \<Rightarrow> ('z extsw_world_scheme, errno + unit) state" where
  "extsw_gpio_map E = do {
     np \<leftarrow> kcall E (OfFindCompatible ''brcm,bca-gpio'');
     if np \<noteq> 0 then do {
       dir_idx \<leftarrow> kcall E (OfMatchString ''gpio-dir'');
       data_idx \<leftarrow> kcall E (OfMatchString ''gpio-data'');
       d \<leftarrow> kcall E (OfIomap (if dir_idx < 0 then 0 else nat dir_idx));
       v \<leftarrow> kcall E (OfIomap (if data_idx < 0 then 1 else nat data_idx));
       gpio_set (d \<noteq> 0) (v \<noteq> 0);
       emit (KNote ''of_node_put'' 0);
       if d \<noteq> 0 \<and> v \<noteq> 0 then do {
         modify (gpio_mapped_from_dt_update (\<lambda>_. True));
         return (Inr ()) }
       else do { gpio_drop; return (Inl ENOMEM) } }
     else do {
       d \<leftarrow> kcall E (IoRemap GpioDir);
       v \<leftarrow> kcall E (IoRemap GpioData);
       gpio_set (d \<noteq> 0) (v \<noteq> 0);
       if d = 0 \<or> v = 0 then do { gpio_drop; return (Inl ENOMEM) }
       else return (Inr ()) } }"

definition extsw_gpio_unmap :: "('z extsw_world_scheme, unit) state" where
  "extsw_gpio_unmap = do {
     gpio_drop;
     modify (gpio_mapped_from_dt_update (\<lambda>_. False)) }"

definition extsw_gpio_out :: "env \<Rightarrow> nat \<Rightarrow> bool \<Rightarrow> ('z extsw_world_scheme, unit) state" where
  "extsw_gpio_out E gpio phys_value =
     (let off = GPIO_TO_IDX gpio * 4; mask = GPIO_TO_MASK gpio in do {
        reg \<leftarrow> readl E GpioDir off;
        writel GpioDir off (reg OR mask);
        reg \<leftarrow> readl E GpioData off;
        writel GpioData off (if phys_value then reg OR mask else reg AND NOT mask) })"

definition extsw_reset_set :: "env \<Rightarrow> bool \<Rightarrow> ('z extsw_world_scheme, unit) state" where
  "extsw_reset_set E assert_reset = do {
     low \<leftarrow> gets reset_active_low;
     g \<leftarrow> gets reset_gpio;
     extsw_gpio_out E g (if low \<noteq> 0 then \<not> assert_reset else assert_reset) }"

section \<open>Switch setup\<close>

text \<open>The two bounded waits of the driver: read a register until a bit is clear.\<close>

definition sw_wait_clear :: "env \<Rightarrow> u32 \<Rightarrow> u32 \<Rightarrow> u32 \<Rightarrow> ('z extsw_world_scheme, (errno + unit) option) state" where
  "sw_wait_clear E page reg msk = poll_loop 10000 (do {
     r \<leftarrow> sw_rreg E page reg 1;
     case r of
       Inl e \<Rightarrow> return (Some (Inl e))
     | Inr val \<Rightarrow>
         if val AND msk = 0 then return (Some (Inr ()))
         else do { delay_us 100; return None } })"

definition sw_reset :: "env \<Rightarrow> ('z extsw_world_scheme, errno + unit) state" where
  "sw_reset E =
     bindE (sw_rreg E PAGE_MANAGEMENT REG_DEVICE_ID 4) (\<lambda>devid. do {
       modify (ext_sw_id_update (\<lambda>_. devid));
       if devid = 0 \<or> devid = 0xffffffff then do {
         mark E66B_MK_ERR_EXTSW_ID;
         return (Inl ENODEV) }
       else do {
         mark E66B_MK_EXTSW_ID;
         bindE (sw_wreg E PAGE_CONTROL SOFTWARE_RESET_CTRL 0x83 1) (\<lambda>_. do {
           r \<leftarrow> sw_wait_clear E PAGE_CONTROL SOFTWARE_RESET_CTRL SOFTWARE_RESET;
           case r of
             Some (Inl e) \<Rightarrow> return (Inl e)
           | None \<Rightarrow> do { mark E66B_MK_ERR_EXTSW_SWRESET; return (Inl ETIMEDOUT) }
           | Some (Inr _) \<Rightarrow> do { delay_us 1000; return (Inr ()) } }) } })"

definition sw_hw_ready :: "env \<Rightarrow> ('z extsw_world_scheme, errno + unit) state" where
  "sw_hw_ready E = for_eachE [0..<BP_MAX_SWITCH_PORTS] (\<lambda>port. do {
     r \<leftarrow> sw_wait_clear E PAGE_CONTROL (PORT_CTRL_PORT + of_nat port) PORT_CTRL_RX_DISABLE;
     case r of
       Some ret \<Rightarrow> return ret
     | None \<Rightarrow> do { mark E66B_MK_ERR_EXTSW_HWREADY; return (Inl ETIMEDOUT) } })"

text \<open>\<open>sw_rmw\<close> is a read of a register followed by a write of what \<open>f\<close> makes of the value.\<close>

definition sw_rmw :: "env \<Rightarrow> u32 \<Rightarrow> u32 \<Rightarrow> nat \<Rightarrow> (u32 \<Rightarrow> u32) \<Rightarrow> ('z extsw_world_scheme, errno + unit) state" where
  "sw_rmw E page reg len f = bindE (sw_rreg E page reg len) (\<lambda>val. sw_wreg E page reg (f val) len)"

definition sw_check_strap :: "u32 \<Rightarrow> ('z extsw_world_scheme, unit) state" where
  "sw_check_strap val = do {
     sgmii \<leftarrow> gets ext_sw_sgmii;
     if val AND STRAP_P8_SEL_SGMII \<noteq> 0 then
       (if sgmii = 0 then mark E66B_MK_ERR_EXTSW_STRAP else return ())
     else if sgmii \<noteq> 0 then mark E66B_MK_ERR_EXTSW_STRAP else return () }"

text \<open>The writes that put the SerDes of the switch into 2.5G fiber mode.\<close>

definition serdes_fiber :: "(u32 \<times> u32 \<times> u32 \<times> nat) list" where
  "serdes_fiber =
     [(PAGE_SW_SERDES_EN, 0x00, 0x0001, 1), (PAGE_SW_SERDES, 0x3e, 0x8000, 2),
      (PAGE_SW_SERDES, 0x20, 0x0c2f, 2), (PAGE_SW_SERDES, 0x3e, 0x8300, 2),
      (PAGE_SW_SERDES, 0x20, 0x010d, 2), (PAGE_SW_SERDES, 0x30, 0xc010, 2),
      (PAGE_SW_SERDES, 0x3e, 0x8340, 2), (PAGE_SW_SERDES, 0x34, 0x0001, 2),
      (PAGE_SW_SERDES, 0x3e, 0x8000, 2), (PAGE_SW_SERDES, 0x00, 0x0140, 2),
      (PAGE_SW_SERDES, 0x3e, 0x8050, 2)]"

definition afe :: "u32 list" where
  "afe = [0x5740, 0x01d0, 0x19f0, 0xaab0, 0x8821, 0x0044, 0x8000, 0x0872, 0x0000]"

definition serdes_afe :: "(u32 \<times> u32 \<times> u32 \<times> nat) list" where
  "serdes_afe =
     [(PAGE_SW_SERDES, 0x3e, 0x8300, 2), (PAGE_SW_SERDES, 0x30, 0xc010, 2), (PAGE_SW_SERDES, 0x3e, 0x8050, 2)] @
     map (\<lambda>k. (PAGE_SW_SERDES, 0x20 + of_nat k * 2, afe ! k, 2)) [0..<9]"

definition serdes_on :: "(u32 \<times> u32 \<times> u32 \<times> nat) list" where
  "serdes_on =
     [(PAGE_SW_SERDES, 0x3e, 0x8000, 2), (PAGE_SW_SERDES, 0x20, 0x2c2f, 2),
      (PAGE_CONTROL, REG_PORT5_STATE_OVERRIDE, 0x004a, 1), (PAGE_CONTROL, REG_MII1_PORT_STATE_OVERRIDE, 0x008b, 1)]"

text \<open>A read into a diagnosis variable whose error is ignored.\<close>

definition sw_peek :: "env \<Rightarrow> u32 \<Rightarrow> u32 \<Rightarrow> nat \<Rightarrow> (u32 \<Rightarrow> 'z extsw_world_scheme \<Rightarrow> 'z extsw_world_scheme) \<Rightarrow>
    ('z extsw_world_scheme, unit) state" where
  "sw_peek E page reg len f = do {
     r \<leftarrow> sw_rreg E page reg len;
     case r of Inl _ \<Rightarrow> return () | Inr v \<Rightarrow> modify (f v) }"

definition sw_serdes :: "env \<Rightarrow> ('z extsw_world_scheme, errno + unit) state" where
  "sw_serdes E =
     bindE (sw_wregs E serdes_fiber) (\<lambda>_. do {
       sw_peek E PAGE_SW_SERDES 0x26 2 (\<lambda>v. afe13_pre_update (\<lambda>_. v));
       sw_peek E PAGE_SW_SERDES 0x2c 2 (\<lambda>v. afe16_pre_update (\<lambda>_. v));
       sw_peek E PAGE_SW_SERDES 0x2e 2 (\<lambda>v. afe17_pre_update (\<lambda>_. v));
       pa \<leftarrow> gets pll_afe;
       bindE (if pa \<noteq> 0 then sw_wregs E serdes_afe else return (Inr ())) (\<lambda>_.
         sw_wregs E serdes_on) })"

definition sw_setup :: "env \<Rightarrow> ('z extsw_world_scheme, errno + unit) state" where
  "sw_setup E =
     bindE (sw_rreg E PAGE_STATUS REG_STRAP_VAL 4) (\<lambda>val. do {
       sw_check_strap val;
       bindE (for_eachE [0..<BP_MAX_SWITCH_PORTS] (\<lambda>i.
         sw_rmw E PAGE_CONTROL (PORT_CTRL_PORT + of_nat i) 1 (\<lambda>val. val OR PORT_CTRL_RXTX_DISABLE))) (\<lambda>_.
       bindE (sw_rmw E PAGE_CONTROL REG_SWITCH_MODE 1 (\<lambda>val.
         (val OR (SWITCH_MODE_SW_FWDG_EN OR SWITCH_MODE_RETRY_LIMIT_DIS)) AND NOT SWITCH_MODE_FRAME_MANAGE)) (\<lambda>_.
       bindE (sw_wreg E PAGE_MANAGEMENT REG_BRCM_HDR_CTRL 0 1) (\<lambda>_.
       bindE (sw_rmw E PAGE_CONTROL REG_SWITCH_CONTROL 2 (\<lambda>val. val OR SWITCH_CONTROL_MII_DUMP_FWD)) (\<lambda>_.
       bindE (sw_wreg E PAGE_CONTROL REG_MII1_PORT_STATE_OVERRIDE
         (MPSO_MII_SW_OVERRIDE OR MPSO_FLOW_CONTROL OR MPSO_SPEED1000 OR MPSO_FDX OR MPSO_LINKPASS) 1) (\<lambda>_. do {
         sgmii \<leftarrow> gets ext_sw_sgmii;
         if sgmii = 0 then return (Inr ()) else sw_serdes E }))))) })"

text \<open>Snapshot of the counters, on a write to the parameter \<^verbatim>\<open>probe\<close>.\<close>

definition set_probe :: "(extsw_probe \<Rightarrow> extsw_probe) \<Rightarrow> ('z extsw_world_scheme, unit) state" where
  "set_probe f = modify (probe_regs_update f)"

definition peek_probe :: "env \<Rightarrow> u32 \<Rightarrow> u32 \<Rightarrow> nat \<Rightarrow> (u32 \<Rightarrow> extsw_probe \<Rightarrow> extsw_probe) \<Rightarrow>
    ('z extsw_world_scheme, unit) state" where
  "peek_probe E page reg len f = sw_peek E page reg len (\<lambda>v. probe_regs_update (f v))"

definition offs_a :: "u32 list" where "offs_a = [0x4c, 0x6c, 0x70, 0x74, 0x78]"

definition probe_set :: "env \<Rightarrow> ('z extsw_world_scheme, unit) state" where
  "probe_set E = do {
     peek_probe E (EXTSW_PAGE_MIB 8) EXTSW_MIB_RXOCTETS_A 4 (\<lambda>v. probe_p8_rx_a_update (\<lambda>_. v));
     peek_probe E (EXTSW_PAGE_MIB 8) EXTSW_MIB_RXOCTETS_B 4 (\<lambda>v. probe_p8_rx_b_update (\<lambda>_. v));
     peek_probe E (EXTSW_PAGE_MIB 8) EXTSW_MIB_TXOCTETS 4 (\<lambda>v. probe_p8_tx_update (\<lambda>_. v));
     set_probe (probe_lan_tx_update (\<lambda>_. 0));
     for_each [0..<4] (\<lambda>i.
       peek_probe E (EXTSW_PAGE_MIB i) EXTSW_MIB_TXOCTETS 4 (\<lambda>v. probe_lan_tx_update (\<lambda>x. x OR v)));
     set_probe (probe_p8_err_a_update (\<lambda>_. 0));
     set_probe (probe_p8_err_b_update (\<lambda>_. 0));
     for_each [0..<5] (\<lambda>i. do {
       peek_probe E (EXTSW_PAGE_MIB 8) (offs_a ! i) 4
         (\<lambda>v. probe_p8_err_a_update (\<lambda>x. x OR (if v \<noteq> 0 then BIT i else 0)));
       peek_probe E (EXTSW_PAGE_MIB 8) (offs_a ! i + 0x0c) 4
         (\<lambda>v. probe_p8_err_b_update (\<lambda>x. x OR (if v \<noteq> 0 then BIT i else 0))) });
     peek_probe E PAGE_STATUS 0x00 2 (\<lambda>v. probe_lnk_update (\<lambda>_. v));
     peek_probe E PAGE_CONTROL (PORT_CTRL_PORT + 8) 1 (\<lambda>v. probe_p8_ctl_update (\<lambda>_. v));
     peek_probe E PAGE_PORT_BASED_VLAN (REG_VLAN_CTRL_P0 + 8 * 2) 2 (\<lambda>v. probe_pbv8_update (\<lambda>_. v)) }"

definition sw_open_port :: "env \<Rightarrow> nat \<Rightarrow> ('z extsw_world_scheme, errno + unit) state" where
  "sw_open_port E i =
     bindE (sw_wreg E PAGE_PORT_BASED_VLAN (REG_VLAN_CTRL_P0 + of_nat i * 2) 0x1ff 2) (\<lambda>_.
       sw_rmw E PAGE_CONTROL (PORT_CTRL_PORT + of_nat i) 1
         (\<lambda>val. (val AND NOT (PORT_CTRL_RXTX_DISABLE OR PORT_CTRL_STATUS_MASK)) OR PORT_CTRL_NO_STP))"

definition sw_open :: "env \<Rightarrow> ('z extsw_world_scheme, errno + unit) state" where
  "sw_open E =
     bindE (for_eachE [0..<BP_MAX_SWITCH_PORTS] (sw_open_port E)) (\<lambda>_.
     bindE (sw_rmw E PAGE_CONTROL (PORT_CTRL_PORT + 8) 1
       (\<lambda>val. (val AND NOT (PORT_CTRL_RXTX_DISABLE OR PORT_CTRL_STATUS_MASK)) OR 0x1c)) (\<lambda>_.
     bindE (sw_rmw E PAGE_CONTROL 0x21 1 (\<lambda>val. val AND NOT 0xc1)) (\<lambda>_.
       sw_wregs E [(PAGE_CONTROL, 0x32, 0x1ff, 2), (PAGE_CONTROL, 0x34, 0x1ff, 2), (PAGE_CONTROL, 0x36, 0x1ff, 2),
         (PAGE_PORT_BASED_VLAN, REG_VLAN_CTRL_P0 + 8 * 2, 0x1ff, 2)])))"

section \<open>LAN side GPHYs\<close>

definition extsw_gphy_up :: "env \<Rightarrow> nat \<Rightarrow> ('z extsw_world_scheme, errno + unit) state" where
  "extsw_gphy_up E addr =
     bindE (sf2_mdio_write E (of_nat addr) MII_BMCR BMCR_RESET) (\<lambda>_. do {
       r \<leftarrow> poll_loop 1000 (do {
         delay_us 10;
         v \<leftarrow> sf2_mdio_read E (of_nat addr) MII_BMCR;
         return (case v of
           Inl e \<Rightarrow> Some (Inl e)
         | Inr v \<Rightarrow> if v AND BMCR_RESET = 0 then Some (Inr ()) else None) });
       case r of
         None \<Rightarrow> return (Inl ETIMEDOUT)
       | Some (Inl e) \<Rightarrow> return (Inl e)
       | Some (Inr _) \<Rightarrow>
           bindE (sf2_mdio_read E (of_nat addr) MII_ADVERTISE) (\<lambda>v.
           bindE (sf2_mdio_write E (of_nat addr) MII_ADVERTISE
             (v OR ADVERTISE_ALL OR ADVERTISE_PAUSE_CAP OR ADVERTISE_PAUSE_ASYM)) (\<lambda>_.
           bindE (sf2_mdio_read E (of_nat addr) MII_CTRL1000) (\<lambda>v.
           bindE (sf2_mdio_write E (of_nat addr) MII_CTRL1000
             (v OR ADVERTISE_1000FULL OR ADVERTISE_1000HALF OR ADVERTISE_REPEATER_DTE)) (\<lambda>_.
           bindE (sf2_mdio_read E (of_nat addr) MII_BMCR) (\<lambda>v.
             sf2_mdio_write E (of_nat addr) MII_BMCR
               ((v AND NOT BMCR_PDOWN) OR (BMCR_ANENABLE OR BMCR_ANRESTART))))))) })"

text \<open>\<open>gphys_ok\<close> counts the PHYs that came up.\<close>

primrec gphys_ok :: "env \<Rightarrow> nat list \<Rightarrow> ('z extsw_world_scheme, nat) state" where
  "gphys_ok E [] = return 0"
| "gphys_ok E (i # is) = do {
     ret \<leftarrow> extsw_gphy_up E i;
     n \<leftarrow> gphys_ok E is;
     return (case ret of Inl _ \<Rightarrow> n | Inr _ \<Rightarrow> Suc n) }"

definition extsw_gphys_up :: "env \<Rightarrow> ('z extsw_world_scheme, errno + unit) state" where
  "extsw_gphys_up E = do {
     ok \<leftarrow> gphys_ok E [0..<EXTSW_LAN_PORTS];
     return (if ok \<noteq> 0 then Inr () else Inl EIO) }"

section \<open>Link report\<close>

text \<open>\<^verbatim>\<open>time_before(a, b)\<close> on 32-bit jiffies.\<close>

definition time_before :: "u32 \<Rightarrow> u32 \<Rightarrow> bool" where
  "time_before a b \<longleftrightarrow> sint (a - b) < 0"

definition GENMASK :: "nat \<Rightarrow> nat \<Rightarrow> u32" where
  "GENMASK h l = mask (h + 1) AND NOT (mask l)"

text \<open>A marker that is left the first time a condition is seen.\<close>

definition first_seen :: "bool \<Rightarrow> bool \<Rightarrow> u8 \<Rightarrow> ('z io_scheme, bool) state" where
  "first_seen seen now mk = (if \<not> seen \<and> now then do { mark mk; return True } else return seen)"

primrec link_loop :: "env \<Rightarrow> nat \<Rightarrow> u32 \<Rightarrow> bool \<Rightarrow> bool \<Rightarrow>
    ('z extsw_world_scheme, (errno + bool \<times> bool) option) state" where
  "link_loop E 0 deadline p8 lan = return None"
| "link_loop E (Suc n) deadline p8 lan = do {
     r \<leftarrow> sw_rreg E PAGE_STATUS REG_LNKSTS 2;
     case r of
       Inl e \<Rightarrow> return (Some (Inl e))
     | Inr lnk \<Rightarrow> do {
         p8 \<leftarrow> first_seen p8 (lnk AND BIT EXTSW_IMP_PORT \<noteq> 0) E66B_MK_EXTSW_P8_LINK;
         lan \<leftarrow> first_seen lan (lnk AND GENMASK (EXTSW_LAN_PORTS - 1) 0 \<noteq> 0) E66B_MK_EXTSW_GPHY_LINK;
         if p8 \<and> lan then return (Some (Inr (p8, lan)))
         else do {
           delay_us 100000;
           j \<leftarrow> kcall E Jiffies;
           if time_before (word_of_int j) deadline then link_loop E n deadline p8 lan
           else return (Some (Inr (p8, lan))) } } }"

definition extsw_report_links :: "env \<Rightarrow> nat \<Rightarrow> ('z extsw_world_scheme, (errno + unit) option) state" where
  "extsw_report_links E n = do {
     wait \<leftarrow> gets link_wait_ms;
     j \<leftarrow> kcall E Jiffies;
     d \<leftarrow> kcall E (MsecsToJiffies wait);
     r \<leftarrow> link_loop E n (word_of_int (j + d)) False False;
     case r of
       None \<Rightarrow> return None
     | Some (Inl e) \<Rightarrow> return (Some (Inl e))
     | Some (Inr (p8, lan)) \<Rightarrow> do {
         sw_rreg E PAGE_STATUS REG_SPDSTS 4;
         (if \<not> p8 then mark E66B_MK_ERR_EXTSW_LINK else return ());
         return (Some (if p8 \<or> lan then Inr () else Inl ENOLINK)) } }"

section \<open>Initialisation and module entry points\<close>

definition extsw_stages :: "env \<Rightarrow> ('z extsw_world_scheme, errno + unit) state" where
  "extsw_stages E =
     bindE (sw_reset E) (\<lambda>_. do {
     mark E66B_MK_EXTSW_SWRESET;
     bindE (sw_hw_ready E) (\<lambda>_.
     bindE (sw_setup E) (\<lambda>_. do {
     mark E66B_MK_EXTSW_SETUP;
     bindE (sw_open E) (\<lambda>_. do {
     mark E66B_MK_EXTSW_PORTS;
     extsw_gphys_up E }) })) })"

definition extsw6764_init :: "env \<Rightarrow> nat \<Rightarrow> ('z extsw_world_scheme, (errno + unit) option) state" where
  "extsw6764_init E n = do {
     d \<leftarrow> gets gpio_dir;
     v \<leftarrow> gets gpio_data;
     if \<not> d \<or> \<not> v then do {
       mark E66B_MK_ERR_EXTSW_GPIO;
       return (Some (Inl ENODEV)) }
     else do {
       emit (Acq ExtswLock);
       extsw_reset_set E True;
       delay_us 100000;
       extsw_reset_set E False;
       delay_us 100000;
       mark E66B_MK_EXTSW_RESET_OFF;
       r \<leftarrow> extsw_stages E;
       r \<leftarrow> (case r of Inl e \<Rightarrow> return (Some (Inl e)) | Inr _ \<Rightarrow> extsw_report_links E n);
       case r of
         None \<Rightarrow> return None
       | Some ret \<Rightarrow> do { emit (Rel ExtswLock); return (Some ret) } } }"

definition extsw6764_module_init :: "env \<Rightarrow> nat \<Rightarrow> ('z extsw_world_scheme, (errno + unit) option) state" where
  "extsw6764_module_init E n = do {
     ret \<leftarrow> extsw_gpio_map E;
     case ret of
       Inl e \<Rightarrow> do { mark E66B_MK_ERR_EXTSW_GPIO; return (Some (Inl e)) }
     | Inr _ \<Rightarrow> do {
         mark E66B_MK_EXTSW_PROBE;
         a \<leftarrow> gets autoinit;
         if a = 0 then return (Some (Inr ()))
         else do {
           r \<leftarrow> extsw6764_init E n;
           return (case r of None \<Rightarrow> None | Some _ \<Rightarrow> Some (Inr ())) } } }"

definition extsw6764_module_exit :: "('z extsw_world_scheme, unit) state" where
  "extsw6764_module_exit = extsw_gpio_unmap"

end
