(* ===== verification/Extsw_Props.thy ===== *)
theory Extsw_Props
  imports Extsw Sf2_Props
begin

text \<open>
  Properties of the external switch driver on every path: the order of its progress markers, its locks,
  what a reported success means, and that the initialisation returns.
\<close>

section \<open>Stages and locks\<close>

definition extsw_marks :: "u8 list" where
  "extsw_marks = [E66B_MK_EXTSW_RESET_OFF, E66B_MK_EXTSW_ID, E66B_MK_EXTSW_SWRESET, E66B_MK_EXTSW_SETUP,
     E66B_MK_EXTSW_PORTS]"

lemma length_marks: "length extsw_marks = 5"
  by (simp add: extsw_marks_def)

text \<open>The progress markers of a log, and the events that change neither them nor the driver's mutex.\<close>

definition progress :: "event list \<Rightarrow> u8 list" where
  "progress L = filter (\<lambda>m. m \<in> set extsw_marks) (marks_of L)"

fun still :: "event \<Rightarrow> bool" where
  "still (Mark m) = (m \<notin> set extsw_marks)"
| "still (Acq l) = (l \<noteq> ExtswLock)"
| "still (Rel l) = (l \<noteq> ExtswLock)"
| "still _ = True"

lemma still_ext:
  "list_all still evs \<Longrightarrow> progress (evs @ L) = progress L \<and> held ExtswLock (evs @ L) = held ExtswLock L"
proof (induction evs)
  case (Cons e evs)
  then show ?case by (cases e) (auto simp: progress_def)
qed simp

text \<open>The driver has left the first \<open>k\<close> of its markers since the log \<open>L\<close>, and holds its mutex or not.\<close>

definition reached :: "event list \<Rightarrow> nat \<Rightarrow> bool \<Rightarrow> 'z io_scheme \<Rightarrow> bool" where
  "reached L k h s \<longleftrightarrow> progress (io_log s) = progress L @ take k extsw_marks \<and> held ExtswLock (io_log s) = h"

lemma reached_keeps: "emits still m \<Longrightarrow> keeps (reached L k h) m"
  by (rule keepsI, rule wp_mono, erule emits_wp) (auto simp: reached_def still_ext)

lemma reached_mark:
  "reached L k h s \<Longrightarrow> k < 5 \<Longrightarrow> extsw_marks ! k = m \<Longrightarrow> wp (mark m) (\<lambda>_. reached L (Suc k) h) s"
  using nth_mem [of k extsw_marks]
  by (auto simp: reached_def wp_emit progress_def take_Suc_conv_app_nth length_marks)

definition reached_out :: "event list \<Rightarrow> nat \<Rightarrow> errno + 'a \<Rightarrow> 'z io_scheme \<Rightarrow> bool" where
  "reached_out L j r s = (case r of Inr _ \<Rightarrow> reached L j True s | Inl _ \<Rightarrow> \<exists>k\<le>5. reached L k True s)"

lemma reached_bindE:
  assumes "wp m (reached_out L i) s" and "\<And>x s'. reached L i True s' \<Longrightarrow> wp (f x) (reached_out L j) s'"
  shows "wp (bindE m f) (reached_out L j) s"
  unfolding wp_bindE by (rule wp_mono [OF assms(1)]) (use assms(2) in \<open>auto simp: reached_out_def split: sum.splits\<close>)

lemma reached_still:
  "emits still m \<Longrightarrow> reached L i True s \<Longrightarrow> i \<le> 5 \<Longrightarrow> wp m (reached_out L i) s"
  by (rule wp_mono [OF keeps_wp [OF reached_keeps]]) (auto simp: reached_out_def split: sum.splits)

lemma mem_marks [simp]:
  "m \<in> set extsw_marks \<longleftrightarrow> m = E66B_MK_EXTSW_RESET_OFF \<or> m = E66B_MK_EXTSW_ID \<or> m = E66B_MK_EXTSW_SWRESET \<or>
     m = E66B_MK_EXTSW_SETUP \<or> m = E66B_MK_EXTSW_PORTS"
  by (auto simp: extsw_marks_def)

lemma mdio_still [emits_rules]:
  "emits still (sf2_mdio_read E p r)" "emits still (sf2_mdio_write E p r v)"
  unfolding sf2_mdio_read_def sf2_mdio_write_def sf2_6764_mdio_read_def sf2_6764_mdio_write_def
    sf2_mdio_read_unlocked_def sf2_mdio_write_unlocked_def sf2_mdio_cmd_def
  by (intro emits_rules; simp)+

lemma sw_access_still [emits_rules]:
  "emits still (sw_rreg E page reg len)" "emits still (sw_wreg E page reg data len)"
  unfolding sw_rreg_def sw_wreg_def sw_wait_op_def by (intro emits_rules; simp)+

lemma sw_more_still [emits_rules]:
  "emits still (sw_wregs E ws)" "emits still (sw_rmw E page reg len f)" "emits still (sw_wait_clear E page reg m)"
  unfolding sw_wregs_def sw_rmw_def sw_wait_clear_def
  by (intro emits_rules; simp)+

lemma sw_peek_still [emits_rules]:
  "(\<And>v s. io_log (f v s) = io_log s) \<Longrightarrow> emits still (sw_peek E page reg len f)"
  unfolding sw_peek_def by (intro emits_rules emits_modify)

lemma sw_setup_still [emits_rules]: "emits still (sw_setup E)"
  unfolding sw_setup_def sw_check_strap_def sw_serdes_def by (intro emits_rules; simp)

lemma sw_open_still [emits_rules]: "emits still (sw_open E)" "emits still (sw_hw_ready E)" "emits still (extsw_gphys_up E)"
proof -
  show "emits still (sw_open E)" unfolding sw_open_def sw_open_port_def by (intro emits_rules)
  show "emits still (sw_hw_ready E)" unfolding sw_hw_ready_def by (intro emits_rules) simp
  have "emits still (gphys_ok E is)" for "is"
    by (induction "is") (auto intro!: emits_rules simp: extsw_gphy_up_def)
  then show "emits still (extsw_gphys_up E)" unfolding extsw_gphys_up_def by (intro emits_rules)
qed

lemma link_loop_still [emits_rules]: "emits still (link_loop E n d p8 lan)"
  by (induction n arbitrary: p8 lan) (auto intro!: emits_rules simp: first_seen_def)

lemma report_still [emits_rules]: "emits still (extsw_report_links E n)"
  unfolding extsw_report_links_def by (intro emits_rules; simp)

lemma reset_set_still [emits_rules]: "emits still (extsw_reset_set E b)"
  unfolding extsw_reset_set_def extsw_gpio_out_def by (intro emits_rules; simp)

lemma reached_outL: "reached L k True s \<Longrightarrow> k \<le> 5 \<Longrightarrow> wp (return (Inl e)) (reached_out L j) s"
  by (auto simp: wp_return reached_out_def)

lemma reached_upd [simp]: "reached L k h (t\<lparr>ext_sw_id := v\<rparr>) = reached L k h t"
  by (simp add: reached_def)

lemma sw_reset_reached:
  assumes "reached L 1 True s"
  shows "wp (sw_reset E) (reached_out L 2) s"
proof -
  have tail: "emits still (bindE (sw_wreg E PAGE_CONTROL SOFTWARE_RESET_CTRL 0x83 1) (\<lambda>_. do {
           r \<leftarrow> sw_wait_clear E PAGE_CONTROL SOFTWARE_RESET_CTRL SOFTWARE_RESET;
           case r of
             Some (Inl e) \<Rightarrow> return (Inl e)
           | None \<Rightarrow> do { mark E66B_MK_ERR_EXTSW_SWRESET; return (Inl ETIMEDOUT) }
           | Some (Inr _) \<Rightarrow> do { delay_us 1000; return (Inr ()) } }))"
    by (intro emits_rules; simp)
  have bad: "emits still (do { mark E66B_MK_ERR_EXTSW_ID; return (Inl ENODEV) })"
    by (intro emits_rules; simp)
  show ?thesis
    unfolding sw_reset_def
  proof (rule reached_bindE [OF reached_still [OF sw_access_still(1) assms]], simp, unfold wp_bind [of "modify _"] wp_modify,
      rule wp_ifI, goal_cases)
    case (1 devid t)
    then have "reached L 1 True (t\<lparr>ext_sw_id := devid\<rparr>)" by simp
    from keeps_wp [OF reached_keeps [OF bad] this] show ?case
      by (auto simp: wp_simps reached_out_def intro!: exI [of _ "Suc 0"])
  next
    case (2 devid t)
    then have "reached L 1 True (t\<lparr>ext_sw_id := devid\<rparr>)" by simp
    from wp_seq [OF reached_mark [OF this], of E66B_MK_EXTSW_ID, OF _ _ reached_still [OF tail]] show ?case
      by (simp add: extsw_marks_def numeral_2_eq_2)
  qed
qed

lemma extsw_stages_reached:
  assumes "reached L 1 True s"
  shows "wp (extsw_stages E) (reached_out L 5) s"
  unfolding extsw_stages_def
  by (rule reached_bindE [OF sw_reset_reached [OF assms]],
      rule wp_seq [OF reached_mark], assumption, simp, simp add: extsw_marks_def,
      rule reached_bindE [OF reached_still], rule sw_open_still, assumption, simp,
      rule reached_bindE [OF reached_still], rule sw_setup_still, assumption, simp,
      rule wp_seq [OF reached_mark], assumption, simp, simp add: extsw_marks_def,
      rule reached_bindE [OF reached_still], rule sw_open_still, assumption, simp,
      rule wp_seq [OF reached_mark], assumption, simp, simp add: extsw_marks_def,
      rule reached_still, rule sw_open_still)
    (simp_all add: numeral_eq_Suc)

text \<open>The MDIO lock discipline of the exported calls carries over to everything built on them.\<close>

lemma mdio_inv_event:
  "(\<forall>off v. e \<noteq> Wr SwMdio off v \<and> e \<noteq> Rd SwMdio off v) \<Longrightarrow> e \<noteq> Acq Sf2Lock \<Longrightarrow> e \<noteq> Rel Sf2Lock \<Longrightarrow>
     mdio_inv s \<Longrightarrow> mdio_inv (s\<lparr>io_log := e # io_log s\<rparr>)"
  by (cases e) (auto simp: mdio_inv_def)

lemma inv_basic [keeps_rules]:
  "keeps mdio_inv (mark m)" "keeps mdio_inv (delay_us n)" "keeps mdio_inv (kcall E c)"
  "keeps mdio_inv (readl E GpioDir off)" "keeps mdio_inv (readl E GpioData off)"
  "keeps mdio_inv (writel GpioDir off v)" "keeps mdio_inv (writel GpioData off v)"
  "keeps mdio_inv (emit (Acq ExtswLock))" "keeps mdio_inv (emit (Rel ExtswLock))"
  by (rule keeps_emit keeps_readl keeps_kcall; rule mdio_inv_event; simp)+

lemmas inv_mdio [keeps_rules] = sf2_mdio_read_inv sf2_mdio_write_inv

lemma inv_sw [keeps_rules]:
  "keeps mdio_inv (sw_rreg E page reg len)" "keeps mdio_inv (sw_wreg E page reg data len)"
  unfolding sw_rreg_def sw_wreg_def sw_wait_op_def by (intro keeps_rules)+

lemma inv_upd [keeps_rules]:
  "(\<And>s. mdio_inv (f s) = mdio_inv s) \<Longrightarrow> keeps mdio_inv (modify f)"
  by (simp add: keeps_modify)

lemma inv_gphys [keeps_rules]: "keeps mdio_inv (gphys_ok E is)"
  unfolding extsw_gphy_up_def [abs_def]
  by (induction "is") (auto simp: extsw_gphy_up_def intro!: keeps_rules)

lemma inv_wregs [keeps_rules]: "keeps mdio_inv (sw_wregs E ws)"
  unfolding sw_wregs_def by (auto intro!: keeps_rules)

lemma inv_stages [keeps_rules]: "keeps mdio_inv (extsw_stages E)"
  unfolding extsw_stages_def sw_reset_def sw_hw_ready_def sw_setup_def sw_open_def sw_open_port_def
    extsw_gphys_up_def sw_rmw_def sw_wait_clear_def sw_check_strap_def sw_serdes_def sw_peek_def
  by (intro keeps_rules) (simp_all add: mdio_inv_def)

lemma inv_link_loop [keeps_rules]: "keeps mdio_inv (link_loop E n d p8 lan)"
  by (induction n arbitrary: p8 lan) (auto simp: first_seen_def intro!: keeps_rules)

lemma inv_init: "keeps mdio_inv (extsw6764_init E n)"
  unfolding extsw6764_init_def extsw_report_links_def extsw_reset_set_def extsw_gpio_out_def
  by (intro keeps_rules)

text \<open>A link that is reported has left its marker.\<close>

definition link_mark :: "event \<Rightarrow> bool" where
  "link_mark e \<longleftrightarrow> e = Mark E66B_MK_EXTSW_P8_LINK \<or> e = Mark E66B_MK_EXTSW_GPHY_LINK"

definition linked :: "event list \<Rightarrow> bool \<Rightarrow> 'z io_scheme \<Rightarrow> bool" where
  "linked L b s \<longleftrightarrow> (\<exists>evs. io_log s = evs @ L \<and> (b \<longrightarrow> list_ex link_mark evs))"

lemma linked_ext: "linked L b s \<Longrightarrow> io_log t = evs @ io_log s \<Longrightarrow> linked L b t"
  unfolding linked_def by (metis append.assoc list_ex_append)

lemma linked_if: "linked L False s \<Longrightarrow> (b \<Longrightarrow> linked L True s) \<Longrightarrow> linked L b s"
  by (cases b) simp_all

lemma linked_keeps: "emits (\<lambda>_. True) m \<Longrightarrow> keeps (linked L b) m"
  by (rule keepsI, rule wp_mono, erule emits_wp) (auto intro: linked_ext)

lemma first_seen_linked:
  assumes "link_mark (Mark mk)" and "linked L (seen \<or> b) s"
  shows "wp (first_seen seen now mk) (\<lambda>r t. linked L (r \<or> b) t) s"
proof -
  from assms(2) obtain evs where "io_log s = evs @ L" "seen \<or> b \<longrightarrow> list_ex link_mark evs"
    by (auto simp: linked_def)
  then have "linked L True (s\<lparr>io_log := Mark mk # io_log s\<rparr>)"
    unfolding linked_def using assms(1) by (intro exI [of _ "Mark mk # evs"]) simp
  with assms(2) show ?thesis by (auto simp: first_seen_def wp_simps linked_def)
qed

lemma link_loop_linked:
  assumes "linked L (p8 \<or> lan) s"
  shows "wp (link_loop E n d p8 lan) (\<lambda>r t. case r of Some (Inr (p, l)) \<Rightarrow> linked L (p \<or> l) t | _ \<Rightarrow> True) s"
  using assms
proof (induction n arbitrary: p8 lan s)
  case (Suc n)
  let ?Q = "\<lambda>r t. case r of Some (Inr (p, l)) \<Rightarrow> linked L (p \<or> l) t | _ \<Rightarrow> True"
  have tail: "wp (do { delay_us 100000; j \<leftarrow> kcall E Jiffies;
      if time_before (word_of_int j) d then link_loop E n d p l else return (Some (Inr (p, l))) }) ?Q t"
    if "linked L (p \<or> l) t" for p l and t :: "'a extsw_world_scheme"
    unfolding wp_bind wp_emit wp_kcall
    by (intro wp_ifI Suc.IH) (auto simp: wp_return intro: linked_ext [OF that, of _ "[_, _]"])
  have body: "wp (do { p \<leftarrow> first_seen p8 b1 E66B_MK_EXTSW_P8_LINK; l \<leftarrow> first_seen lan b2 E66B_MK_EXTSW_GPHY_LINK;
      if p \<and> l then return (Some (Inr (p, l))) else do { delay_us 100000; j \<leftarrow> kcall E Jiffies;
      if time_before (word_of_int j) d then link_loop E n d p l else return (Some (Inr (p, l))) } }) ?Q t"
    if "linked L (p8 \<or> lan) t" for b1 b2 and t :: "'a extsw_world_scheme"
    by (rule wp_seq [OF first_seen_linked [OF _ that]], simp add: link_mark_def,
        rule wp_seq [OF first_seen_linked [where b = "p" for p]], simp add: link_mark_def)
      (auto simp: disj_commute intro!: wp_ifI tail simp: wp_return)
  show ?case
    unfolding link_loop.simps
    by (rule wp_seq [OF keeps_wp [OF linked_keeps [OF emits_any [OF sw_access_still(1)]] Suc.prems]])
      (rule wp_sumI, simp add: wp_return, rule body)
qed (simp add: wp_return)

lemma report_linked:
  "wp (extsw_report_links E n) (\<lambda>r t. r = Some (Inr ()) \<longrightarrow> linked (io_log s) True t) s"
proof -
  have 0: "linked (io_log s) (False \<or> False) (s\<lparr>io_log := e # e' # io_log s\<rparr>)" for e e'
    unfolding linked_def by (rule exI [of _ "[e, e']"]) simp
  have tail: "wp (case r of None \<Rightarrow> return None | Some (Inl e) \<Rightarrow> return (Some (Inl e))
      | Some (Inr (p8, lan)) \<Rightarrow> do { sw_rreg E PAGE_STATUS REG_SPDSTS 4;
         (if \<not> p8 then mark E66B_MK_ERR_EXTSW_LINK else return ());
         return (Some (if p8 \<or> lan then Inr () else Inl ENOLINK)) })
      (\<lambda>r t. r = Some (Inr ()) \<longrightarrow> linked (io_log s) True t) t"
    if "case r of Some (Inr (p, l)) \<Rightarrow> linked (io_log s) (p \<or> l) t | _ \<Rightarrow> True" for r and t :: "'a extsw_world_scheme"
  proof (cases "\<exists>p l. r = Some (Inr (p, l))")
    case True
    then obtain p l where r: "r = Some (Inr (p, l))" by blast
    have k: "keeps (linked (io_log s) (p \<or> l)) (do { sw_rreg E PAGE_STATUS REG_SPDSTS 4;
         (if \<not> p then mark E66B_MK_ERR_EXTSW_LINK else return ());
         return (Some (if p \<or> l then Inr () else Inl ENOLINK)) })"
      by (intro linked_keeps emits_rules emits_any [OF sw_access_still(1)] TrueI)
    have v: "rets (\<lambda>x. x = Some (Inr ()) \<longrightarrow> p \<or> l) (do { sw_rreg E PAGE_STATUS REG_SPDSTS 4;
         (if \<not> p then mark E66B_MK_ERR_EXTSW_LINK else return ());
         return (Some (if p \<or> l then Inr () else Inl ENOLINK)) } :: ('a extsw_world_scheme, _) state)"
      by (intro rets_rules) simp
    show ?thesis
      unfolding r option.case sum.case prod.case
      by (rule wp_mono [OF wp_conj [OF keeps_wp [OF k] wpI [OF retsD [OF v]]]])
        (use that r in auto)
  next
    case False
    then show ?thesis by (cases r) (auto simp: wp_return split: sum.splits)
  qed
  show ?thesis
    unfolding extsw_report_links_def wp_bind [of "gets _"] wp_gets wp_bind [of "kcall _ _"] wp_kcall
    by (simp, rule wp_seq [OF link_loop_linked [OF 0] tail])
qed

lemma extsw_stages_any: "emits (\<lambda>_. True) (extsw_stages E)"
  unfolding extsw_stages_def sw_reset_def
  by (intro emits_rules TrueI emits_any [OF sw_access_still(1)] emits_any [OF sw_access_still(2)]
      emits_any [OF sw_more_still(3)] emits_any [OF sw_setup_still] emits_any [OF sw_open_still(1)]
      emits_any [OF sw_open_still(2)] emits_any [OF sw_open_still(3)] emits_modify) simp

definition ready :: "event list \<Rightarrow> nat \<Rightarrow> 'z io_scheme \<Rightarrow> bool" where
  "ready L k t \<longleftrightarrow> reached L k True t \<and> linked L False t"

text \<open>What holds when the last stage is over, before the mutex is released.\<close>

definition over :: "event list \<Rightarrow> (errno + unit) option \<Rightarrow> 'z io_scheme \<Rightarrow> bool" where
  "over L r t \<longleftrightarrow> held ExtswLock (io_log t) \<and> linked L (r = Some (Inr ())) t \<and>
     (\<exists>k\<le>5. reached L k True t \<and> (r = None \<or> r = Some (Inr ()) \<longrightarrow> k = 5))"

lemma ready_keeps: "emits still m \<Longrightarrow> keeps (ready L k) m"
  using reached_keeps [of m L k True] linked_keeps [OF emits_any, of still m L False] by (auto simp: ready_def keeps_def)

lemma ready_mark: "ready L 0 t \<Longrightarrow> wp (mark E66B_MK_EXTSW_RESET_OFF) (\<lambda>_. ready L 1) t"
  using reached_mark [of L 0 True t E66B_MK_EXTSW_RESET_OFF]
  by (auto simp: ready_def wp_emit extsw_marks_def linked_def)

lemma stages_over:
  "ready L 1 t \<Longrightarrow> wp (extsw_stages E) (\<lambda>r t. linked L False t \<and> reached_out L 5 r t) t"
  by (intro wp_conj keeps_wp [OF linked_keeps [OF extsw_stages_any]] extsw_stages_reached) (simp_all add: ready_def)

lemma report_over:
  assumes "reached L 5 True t" and "linked L False t"
  shows "wp (extsw_report_links E n) (over L) t"
proof -
  have "wp (extsw_report_links E n) (\<lambda>r u. reached L 5 True u \<and> linked L False u \<and>
      (r = Some (Inr ()) \<longrightarrow> linked (io_log t) True u)) t"
    by (intro wp_conj report_linked keeps_wp [OF reached_keeps [OF report_still] assms(1)]
        keeps_wp [OF linked_keeps [OF emits_any [OF report_still]] assms(2)])
  moreover have "linked L True u" if "linked (io_log t) True u" for u :: "'a extsw_world_scheme"
    using that assms(2) by (auto simp: linked_def)
  ultimately show ?thesis
    by (elim wp_mono, unfold over_def) (intro conjI, simp add: reached_def, rule linked_if, simp, blast, auto)
qed

lemma links_over:
  "linked L False t \<and> reached_out L 5 r t \<Longrightarrow>
   wp (case r of Inl e \<Rightarrow> return (Some (Inl e)) | Inr _ \<Rightarrow> extsw_report_links E n) (over L) t"
  by (cases r) (auto simp: wp_return over_def reached_out_def reached_def intro!: report_over)

lemma unlock_over:
  "over L r t \<Longrightarrow> wp (case r of None \<Rightarrow> return None | Some ret \<Rightarrow> do { emit (Rel ExtswLock); return (Some ret) })
     (\<lambda>r t. (held ExtswLock (io_log t) \<longleftrightarrow> r = None) \<and> linked L (r = Some (Inr ())) t \<and>
        (\<exists>k\<le>5. progress (io_log t) = progress L @ take k extsw_marks \<and>
           (r = None \<or> r = Some (Inr ()) \<longrightarrow> k = 5))) t"
  unfolding over_def by (cases r) (auto simp: wp_simps reached_def progress_def linked_def)


definition ext_s0 :: extsw_world where
  "ext_s0 = (extsw_boot (sf2_boot\<lparr>g_sf2 := True\<rparr>))\<lparr>gpio_dir := True, gpio_data := True\<rparr>"

definition ext_env0 :: env where
  "ext_env0 = \<lparr>env_rd = (\<lambda>_ _ _. 0), env_call = (\<lambda>L c. if c = Jiffies then of_nat (length (filter ((=) (Delay 100000)) L)) else 3)\<rparr>"


section \<open>The wait for links ends\<close>

text \<open>What the wait relies on: a sleep of 100 ms advances the clock by at least one jiffy, and by less than
  2^30; a millisecond count is converted to less than \<open>D\<close> jiffies.\<close>

definition sleeps :: "event list \<Rightarrow> nat" where
  "sleeps L = length (filter ((=) (Delay 100000)) L)"

definition clock_ticks :: "env \<Rightarrow> bool" where
  "clock_ticks E \<longleftrightarrow> (\<forall>L evs. sleeps evs = 1 \<longrightarrow>
     env_call E L Jiffies + 1 \<le> env_call E (evs @ L) Jiffies \<and>
     env_call E (evs @ L) Jiffies \<le> env_call E L Jiffies + 2 ^ 30)"

definition waits_below :: "env \<Rightarrow> nat \<Rightarrow> bool" where
  "waits_below E D \<longleftrightarrow> D < 2 ^ 31 \<and>
     (\<forall>L w. 0 \<le> env_call E L (MsecsToJiffies w) \<and> env_call E L (MsecsToJiffies w) < int D)"

definition awake :: "event \<Rightarrow> bool" where
  "awake e \<longleftrightarrow> e \<noteq> Delay 100000"

lemma sleeps_simps [simp]:
  "sleeps [] = 0" "sleeps (e # L) = (if e = Delay 100000 then Suc (sleeps L) else sleeps L)"
  "sleeps (L @ M) = sleeps L + sleeps M"
  by (simp_all add: sleeps_def)

lemma awake_sleeps: "list_all awake evs \<Longrightarrow> sleeps evs = 0"
  by (induction evs) (auto simp: awake_def)

lemma sw_rreg_awake: "emits awake (sw_rreg E page reg len)"
  unfolding sw_rreg_def sw_wait_op_def sf2_mdio_read_def sf2_mdio_write_def sf2_6764_mdio_read_def
    sf2_6764_mdio_write_def sf2_mdio_read_unlocked_def sf2_mdio_write_unlocked_def sf2_mdio_cmd_def
  by (intro emits_rules; simp add: awake_def)

lemma time_before_int:
  assumes "\<bar>a - b\<bar> < 2 ^ 31"
  shows "time_before (word_of_int a) (word_of_int b) \<longleftrightarrow> a < b"
proof -
  have d: "word_of_int a - word_of_int b = (word_of_int (a - b) :: u32)" by simp
  have "sint (word_of_int a - word_of_int b :: u32) = signed_take_bit 31 (a - b)"
    unfolding d sint_sbintrunc' by simp
  also have "\<dots> = a - b"
    by (rule signed_take_bit_int_eq_self) (use assms in auto)
  finally show ?thesis by (simp add: time_before_def)
qed

lemma link_loop_returns:
  assumes "clock_ticks E" and "io_log s = evs @ L" and "sleeps evs = 0"
    and "env_call E L Jiffies \<le> target" "target - env_call E L Jiffies < int n" "target - env_call E L Jiffies < 2 ^ 31"
  shows "wp (link_loop E n (word_of_int target) p8 lan) (\<lambda>r _. r \<noteq> None) s"
  using assms(2-)
proof (induction n arbitrary: p8 lan s evs L)
  case (Suc n)
  let ?J = "\<lambda>L. env_call E L Jiffies"
  have tail: "wp (do { delay_us 100000; j \<leftarrow> kcall E Jiffies;
      if time_before (word_of_int j) (word_of_int target) then link_loop E n (word_of_int target) p l
      else return (Some (Inr (p, l))) }) (\<lambda>r _. r \<noteq> None) t"
    if "io_log t = es @ L" "sleeps es = 0" for p l es and t :: "'a extsw_world_scheme"
  proof -
    let ?L = "Delay 100000 # io_log t"
    from assms(1) [unfolded clock_ticks_def, rule_format, of "Delay 100000 # es" L] that
    have j: "?J L + 1 \<le> ?J ?L" "?J ?L \<le> ?J L + 2 ^ 30" by simp_all
    with Suc.prems have tb: "time_before (word_of_int (?J ?L)) (word_of_int target) \<longleftrightarrow> ?J ?L < target"
      by (intro time_before_int) auto
    show ?thesis
      unfolding wp_bind wp_emit wp_kcall
      by (rule wp_ifI, rule Suc.IH [of _ "[Call Jiffies (?J ?L)]" ?L])
        (use j tb Suc.prems in \<open>auto simp: wp_return\<close>)
  qed
  have body: "wp (do { p \<leftarrow> first_seen p8 b1 E66B_MK_EXTSW_P8_LINK; l \<leftarrow> first_seen lan b2 E66B_MK_EXTSW_GPHY_LINK;
      if p \<and> l then return (Some (Inr (p, l))) else do { delay_us 100000; j \<leftarrow> kcall E Jiffies;
      if time_before (word_of_int j) (word_of_int target) then link_loop E n (word_of_int target) p l
      else return (Some (Inr (p, l))) } }) (\<lambda>r _. r \<noteq> None) t"
    if "io_log t = es @ L" "sleeps es = 0" for b1 b2 es and t :: "'a extsw_world_scheme"
  proof -
    have fs: "wp (first_seen b c m) (\<lambda>_ u. \<exists>es. io_log u = es @ L \<and> sleeps es = 0) u"
      if "\<exists>es. io_log u = es @ L \<and> sleeps es = 0" for b c m and u :: "'a extsw_world_scheme"
      using that by (auto simp: first_seen_def wp_simps intro: exI [of _ "Mark m # es" for es])
    show ?thesis
      by (rule wp_seq [OF fs], use that in blast, rule wp_seq [OF fs], assumption,
          elim exE conjE, rule wp_ifI, simp add: wp_return, rule tail)
  qed
  have rr: "wp (sw_rreg E PAGE_STATUS REG_LNKSTS 2) (\<lambda>_ t. \<exists>es. io_log t = es @ L \<and> sleeps es = 0) s"
  proof (rule wp_mono [OF emits_wp [OF sw_rreg_awake]])
    fix t
    assume "\<exists>es. io_log t = es @ io_log s \<and> list_all awake es"
    then obtain es where "io_log t = es @ evs @ L" "list_all awake es" using Suc.prems(1) by auto
    with Suc.prems(2) show "\<exists>es. io_log t = es @ L \<and> sleeps es = 0"
      by (intro exI [of _ "es @ evs"]) (simp add: awake_sleeps)
  qed
  show ?case
    unfolding link_loop.simps
    by (rule wp_seq [OF rr], elim exE conjE, rule wp_sumI, simp add: wp_return, rule body)
qed simp

lemma report_returns:
  assumes "clock_ticks E" and "waits_below E D" and "D \<le> n"
  shows "wp (extsw_report_links E n) (\<lambda>r _. r \<noteq> None) s"
proof -
  let ?w = "MsecsToJiffies (link_wait_ms s)"
  let ?j = "env_call E (io_log s) Jiffies"
  let ?s = "s\<lparr>io_log := Call Jiffies ?j # io_log s\<rparr>"
  let ?d = "env_call E (io_log ?s) ?w"
  let ?t = "?s\<lparr>io_log := Call ?w ?d # io_log ?s\<rparr>"
  from assms(2) have "0 \<le> ?d" "?d < int D" "D < 2 ^ 31" by (simp_all add: waits_below_def)
  with assms(3) have l: "wp (link_loop E n (word_of_int (?j + ?d)) False False) (\<lambda>r _. r \<noteq> None) ?t"
    by (intro link_loop_returns [OF assms(1), of _ "[Call ?w ?d, Call Jiffies ?j]" "io_log s"]) auto
  have tail: "wp (case r of None \<Rightarrow> return None | Some (Inl e) \<Rightarrow> return (Some (Inl e))
      | Some (Inr (p8, lan)) \<Rightarrow> do { sw_rreg E PAGE_STATUS REG_SPDSTS 4;
         (if \<not> p8 then mark E66B_MK_ERR_EXTSW_LINK else return ());
         return (Some (if p8 \<or> lan then Inr () else Inl ENOLINK)) }) (\<lambda>r _. r \<noteq> None) t"
    if "r \<noteq> None" for r and t :: "'a extsw_world_scheme"
    using that by (intro wpI retsD [where P = "\<lambda>r. r \<noteq> None"])
      (auto split: sum.splits prod.splits intro!: rets_rules)
  show ?thesis
    unfolding extsw_report_links_def wp_bind [of "gets _"] wp_gets wp_bind [of "kcall _ _"] wp_kcall
    by (rule wp_seq [OF l tail])
qed

text \<open>C22: the initialisation returns.  When a sleep advances the clock and the wait for links is converted to
  fewer than \<open>D\<close> jiffies, \<open>D\<close> passes of the only loop without a bound suffice: whatever the switch answers,
  the driver comes back with a result.\<close>

theorem extsw6764_init_returns:
  assumes "clock_ticks E" and "waits_below E D" and "D \<le> n"
  shows "fst (run_state (extsw6764_init E n) s) \<noteq> None"
proof -
  have links: "wp (case r of Inl e \<Rightarrow> return (Some (Inl e)) | Inr _ \<Rightarrow> extsw_report_links E n) (\<lambda>r _. r \<noteq> None) t"
    for r :: "errno + unit" and t :: "'a extsw_world_scheme"
    using report_returns [OF assms] by (cases r) (simp_all add: wp_return)
  have "wp (extsw6764_init E n) (\<lambda>r _. r \<noteq> None) s"
    unfolding extsw6764_init_def
    by (rule wp_seq [OF wp_True], rule wp_seq [OF wp_True], rule wp_ifI, simp add: wp_simps,
        rule wp_seq [OF wp_True wp_seq [OF wp_True wp_seq [OF wp_True wp_seq [OF wp_True wp_seq [OF wp_True
          wp_seq [OF wp_True wp_seq [OF wp_True wp_seq [OF links]]]]]]]]) (auto simp: wp_simps)
  then show ?thesis by (simp add: wp_def case_prod_beta)
qed

theorem extsw6764_init_returns_witness:
  "fst (run_state (extsw6764_init ext_env0 4) ext_s0) \<noteq> None"
  by (rule extsw6764_init_returns [of _ 4])
    (simp_all add: clock_ticks_def waits_below_def ext_env0_def flip: sleeps_def)

end
