(* ===== verification/Extsw_Regs.thy ===== *)
theory Extsw_Regs
  imports Extsw Mdio_Frames
begin

text \<open>
  The external switch seen from behind its pseudo PHY.  The driver of
  \<^verbatim>\<open>port66/enet66b/extsw6764.c\<close> only ever issues Clause 22 frames; the theory gives the switch's side of
  them (a page select, two data registers and a command register over a file of registers) and shows
  that the accessors \<^verbatim>\<open>sw_rreg\<close>, \<^verbatim>\<open>sw_wreg\<close> and the read-modify-write steps refine reads and updates of
  that file.  The functional specification of \<^verbatim>\<open>sw_open\<close> follows.\<close>

section \<open>The pseudo PHY\<close>

text \<open>What the switch does behind its pseudo PHY (\<^verbatim>\<open>mii_shared.h\<close>): register 16 selects the page,
  registers 24 and 25 hold the data, and a write to register 17 starts an operation on the register
  it names.  \<open>wid\<close> gives the width of each register in bits; a register keeps no more bits than it has.\<close>

record psw =
  pg :: u16
  dlo :: u16
  dhi :: u16
  regs :: "u32 \<Rightarrow> u32 \<Rightarrow> u32"

definition trunc :: "nat \<Rightarrow> u32 \<Rightarrow> u32" where
  "trunc n x = take_bit n x"

definition reg_upd :: "(u32 \<Rightarrow> u32 \<Rightarrow> u32) \<Rightarrow> u32 \<Rightarrow> u32 \<Rightarrow> u32 \<Rightarrow> (u32 \<Rightarrow> u32 \<Rightarrow> u32)" where
  "reg_upd R p r v = R(p := (R p)(r := v))"

definition psw_wr :: "(u32 \<Rightarrow> u32 \<Rightarrow> nat) \<Rightarrow> u32 \<Rightarrow> u16 \<Rightarrow> psw \<Rightarrow> psw" where
  "psw_wr wid reg v p =
     (if reg = REG_PSEUDO_MII_16 then p\<lparr>pg := v\<rparr>
      else if reg = REG_PSEUDO_MII_24 then p\<lparr>dlo := v\<rparr>
      else if reg = REG_PSEUDO_MII_25 then p\<lparr>dhi := v\<rparr>
      else if reg = REG_PSEUDO_MII_17 then
        (let page = ucast (drop_bit 8 (pg p)); r = ucast (drop_bit 8 v) in
         if v AND 3 = 1 then
           p\<lparr>regs := reg_upd (regs p) page r (trunc (wid page r) (ucast (dlo p) OR push_bit 16 (ucast (dhi p))))\<rparr>
         else if v AND 3 = 2 then
           p\<lparr>dlo := ucast (regs p page r), dhi := ucast (drop_bit 16 (regs p page r))\<rparr>
         else p)
      else p)"

definition psw_rd :: "u32 \<Rightarrow> psw \<Rightarrow> u16" where
  "psw_rd reg p =
     (if reg = REG_PSEUDO_MII_16 then pg p else if reg = REG_PSEUDO_MII_24 then dlo p
      else if reg = REG_PSEUDO_MII_25 then dhi p else 0)"

text \<open>The state of the switch after the Clause 22 frames of a log, and an environment that is such a switch.\<close>

fun psw_of :: "(u32 \<Rightarrow> u32 \<Rightarrow> nat) \<Rightarrow> psw \<Rightarrow> event list \<Rightarrow> psw" where
  "psw_of wid p0 [] = p0"
| "psw_of wid p0 (Wr w off cmd # es) =
     (if w = SwMdio \<and> off = SF2_MDIO_CMD \<and> f_phy cmd = PSEUDO_PHY_ADDR \<and> f_op cmd = 1
      then psw_wr wid (f_dev cmd) (ucast (f_data cmd)) (psw_of wid p0 es) else psw_of wid p0 es)"
| "psw_of wid p0 (_ # es) = psw_of wid p0 es"

definition psw_env :: "(u32 \<Rightarrow> u32 \<Rightarrow> nat) \<Rightarrow> psw \<Rightarrow> env \<Rightarrow> bool" where
  "psw_env wid p0 E \<longleftrightarrow> mdio_answers E \<and>
     (\<forall>L cmd. last_wr L SwMdio SF2_MDIO_CMD = Some cmd \<and> f_phy cmd = PSEUDO_PHY_ADDR \<and> f_op cmd = 2 \<longrightarrow>
        f_data (env_rd E L SwMdio SF2_MDIO_CMD) = ucast (psw_rd (f_dev cmd) (psw_of wid p0 L)))"

lemma psw_of_append: "list_all no_mdio_wr evs \<Longrightarrow> psw_of wid p0 (evs @ L) = psw_of wid p0 L"
proof (induction evs)
  case (Cons e evs)
  then show ?case by (cases e) simp_all
qed simp

lemma sf2_mdio_cmd_value:
  assumes "mdio_answers E"
  shows "wp (sf2_mdio_cmd E cmd) (\<lambda>r t. \<exists>L. io_log t = Rd SwMdio SF2_MDIO_CMD (env_rd E L SwMdio SF2_MDIO_CMD) # L \<and>
     L = Delay 1 # Wr SwMdio SF2_MDIO_CMD (cmd OR ETHSW_MDIO_BUSY) # io_log s \<and>
     same s t \<and> r = Inr (env_rd E L SwMdio SF2_MDIO_CMD)) s"
  unfolding sf2_mdio_cmd_def wp_bind wp_emit
  by (rule wp_poll_first) (use assms in \<open>simp_all add: wp_simps mdio_answers_def and_BIT_eq_0_iff\<close>)

definition at_psw :: "(u32 \<Rightarrow> u32 \<Rightarrow> nat) \<Rightarrow> psw \<Rightarrow> 'z sf2_world_scheme \<Rightarrow> psw \<Rightarrow> 'z sf2_world_scheme \<Rightarrow> bool" where
  "at_psw wid p0 s p t \<longleftrightarrow> same s t \<and> psw_of wid p0 (io_log t) = p"

lemma ucast_ucast_16 [simp]: "ucast (ucast v :: u32) = v" for v :: u16
  by (rule bit_word_eqI) (auto simp: bit_simps)

lemma mdio_write_psw:
  assumes "psw_env wid p0 E" "g_sf2 s" "at_psw wid p0 s p t" "reg AND 0x1f = reg"
  shows "wp (sf2_mdio_write E PSEUDO_PHY_ADDR reg v) (\<lambda>r u. r = Inr () \<and> at_psw wid p0 s (psw_wr wid reg v p) u) t"
proof -
  have m: "mdio_answers E" using assms(1) by (simp add: psw_env_def)
  have g: "g_sf2 t" using assms(2,3) same_g_sf2 [of s t] by (simp add: at_psw_def)
  note ff = frame_fields [of 1 PSEUDO_PHY_ADDR reg "ucast v", unfolded and_ffff_ucast, simplified]
  show ?thesis
    unfolding sf2_mdio_write_def sf2_6764_mdio_write_def sf2_mdio_write_unlocked_def wp_bind wp_gets
    using g by (simp add: wp_simps, intro wp_mono [OF sf2_mdio_cmd_value [OF m]])
      (use assms(3,4) ff in \<open>auto simp: wp_simps at_psw_def same_def and_ffff_ucast\<close>)
qed

lemma mdio_read_psw:
  assumes "psw_env wid p0 E" "g_sf2 s" "at_psw wid p0 s p t" "reg AND 0x1f = reg"
  shows "wp (sf2_mdio_read E PSEUDO_PHY_ADDR reg) (\<lambda>r u. r = Inr (psw_rd reg p) \<and> at_psw wid p0 s p u) t"
proof -
  let ?cmd = "mdio_hdr PSEUDO_PHY_ADDR reg ETHSW_MDIO_CMD_C22_READ"
  have m: "mdio_answers E" using assms(1) by (simp add: psw_env_def)
  have g: "g_sf2 t" using assms(2,3) same_g_sf2 [of s t] by (simp add: at_psw_def)
  note ff = frame_fields [of 2 PSEUDO_PHY_ADDR reg 0, simplified]
  have step: "wp (sf2_mdio_cmd E ?cmd) (\<lambda>r u. (\<exists>v. r = Inr v \<and> f_data v = ucast (psw_rd reg p)) \<and> at_psw wid p0 s p u) u"
    if "at_psw wid p0 s p u" for u
  proof (rule wp_mono [OF sf2_mdio_cmd_value [OF m]], elim exE conjE, intro conjI exI)
    fix r u' L
    let ?v = "env_rd E L SwMdio SF2_MDIO_CMD"
    assume L: "L = Delay 1 # Wr SwMdio SF2_MDIO_CMD (?cmd OR ETHSW_MDIO_BUSY) # io_log u" and
      u': "io_log u' = Rd SwMdio SF2_MDIO_CMD ?v # L" "same u u'"
    have d: "psw_of wid p0 L = p" using that ff assms(4) by (simp add: L at_psw_def)
    show "f_data ?v = ucast (psw_rd reg p)"
      using assms(1) [unfolded psw_env_def, THEN conjunct2, rule_format, of L "?cmd OR ETHSW_MDIO_BUSY"] ff assms(4) d
      by (simp add: L)
    show "at_psw wid p0 s p u'" using d u' that by (auto simp: at_psw_def elim: same_trans)
  qed
  have both: "wp (sf2_mdio_read_unlocked E PSEUDO_PHY_ADDR reg) (\<lambda>r u. r = Inr (psw_rd reg p) \<and> at_psw wid p0 s p u) u"
    if "at_psw wid p0 s p u" for u
    unfolding sf2_mdio_read_unlocked_def Let_def wp_bindE
    by (rule wp_mono [OF step [OF that]])
      (auto intro!: wp_mono [OF step] simp: wp_bindE wp_return f_data_def)
  show ?thesis
    unfolding sf2_mdio_read_def sf2_6764_mdio_read_def wp_bind wp_gets
    using g assms(3) by (simp add: wp_simps, intro wp_mono [OF both])
      (auto simp: wp_simps at_psw_def)
qed

section \<open>Register access refines a register file\<close>

lemma less_256: "x < 256 \<Longrightarrow> bit x n \<Longrightarrow> n < 8" for x :: u32
  using less_2p_not_bit [of x 8 n] by force

lemma bit_low: "bit (x :: u32) n \<Longrightarrow> n < 32" for n
  using bit_imp_le_length by force

lemma ppm16_page: "page < 256 \<Longrightarrow> ucast (drop_bit 8 (ppm16 page)) = (page :: u32)"
  by (rule bit_word_eqI) (auto simp: ppm16_def bit_simps dest: less_256)

lemma ppm17_reg: "reg < 256 \<Longrightarrow> opc = 1 \<or> opc = 2 \<Longrightarrow> ucast (drop_bit 8 (ppm17 reg opc)) = (reg :: u32)"
  by (rule bit_word_eqI) (auto simp: ppm17_def bit_simps dest: less_256)

lemma bit_3_u16: "bit (3 :: u16) i \<longleftrightarrow> i < 2"
proof -
  have "bit (mask 2 :: u16) i \<longleftrightarrow> i < 2" unfolding bit_mask_iff by auto
  then show ?thesis by (simp add: mask_eq_exp_minus_1)
qed

lemma bit_ff_u16: "bit (0xff :: u16) i \<longleftrightarrow> i < 8"
proof -
  have "bit (mask 8 :: u16) i \<longleftrightarrow> i < 8" unfolding bit_mask_iff by auto
  then show ?thesis by (simp add: mask_eq_exp_minus_1)
qed

lemma ppm17_op: "opc = 1 \<or> opc = 2 \<Longrightarrow> ppm17 reg opc AND 3 = ucast opc"
  unfolding ppm17_def
  by (rule bit_word_eqI, unfold bit_and_iff bit_3_u16 bit_ucast_iff bit_or_iff bit_push_bit_iff)
    (auto simp: bit_1_iff bit_2_iff)

definition rf :: "(u32 \<Rightarrow> u32 \<Rightarrow> nat) \<Rightarrow> psw \<Rightarrow> 'z io_scheme \<Rightarrow> u32 \<Rightarrow> u32 \<Rightarrow> u32" where
  "rf wid p0 t = regs (psw_of wid p0 (io_log t))"

definition at_rf :: "(u32 \<Rightarrow> u32 \<Rightarrow> nat) \<Rightarrow> psw \<Rightarrow> 'z sf2_world_scheme \<Rightarrow> (u32 \<Rightarrow> u32 \<Rightarrow> u32) \<Rightarrow>
    'z sf2_world_scheme \<Rightarrow> bool" where
  "at_rf wid p0 s R t \<longleftrightarrow> same s t \<and> rf wid p0 t = R"

text \<open>The register \<open>(page, reg)\<close> exists and is \<open>len\<close> bytes wide.\<close>

definition sw_reg_ok :: "(u32 \<Rightarrow> u32 \<Rightarrow> nat) \<Rightarrow> u32 \<Rightarrow> u32 \<Rightarrow> nat \<Rightarrow> bool" where
  "sw_reg_ok wid page reg len \<longleftrightarrow> page < 256 \<and> reg < 256 \<and> (len = 1 \<or> len = 2 \<or> len = 4) \<and> wid page reg = 8 * len"

definition psw_up :: "(u32 \<Rightarrow> u32 \<Rightarrow> nat) \<Rightarrow> psw \<Rightarrow> env \<Rightarrow> 'z sf2_world_scheme \<Rightarrow> bool" where
  "psw_up wid p0 E s \<longleftrightarrow> psw_env wid p0 E \<and> g_sf2 s"

lemma sw_wait_op_psw:
  assumes "psw_up wid p0 E s" "at_psw wid p0 s p t"
  shows "wp (sw_wait_op E) (\<lambda>r u. r = Inr () \<and> at_psw wid p0 s p u) t"
proof -
  have "wp (sf2_mdio_read E PSEUDO_PHY_ADDR REG_PSEUDO_MII_17) (\<lambda>r u. r = Inr (psw_rd REG_PSEUDO_MII_17 p) \<and> at_psw wid p0 s p u) t"
    using assms by (intro mdio_read_psw) (auto simp: psw_up_def)
  then show ?thesis
    unfolding sw_wait_op_def wp_bind
    by (intro wp_poll_first) (auto elim!: wp_mono simp: wp_simps psw_rd_def)
qed

lemma trunc_32 [simp]: "trunc 32 (x :: u32) = x"
  by (rule bit_word_eqI) (simp add: trunc_def bit_take_bit_iff)

lemma trunc_low:
  "len = 1 \<Longrightarrow> trunc (8 * len) (ucast (ucast d AND 0xff :: u16) OR push_bit 16 (ucast h)) = trunc 8 (d :: u32)"
  "len = 2 \<Longrightarrow> trunc (8 * len) (ucast (ucast d :: u16) OR push_bit 16 (ucast h)) = trunc 16 (d :: u32)"
  "len = 4 \<Longrightarrow> trunc (8 * len) (ucast (ucast d :: u16) OR push_bit 16 (ucast (ucast (drop_bit 16 d) :: u16))) = (d :: u32)"
  for h :: u16
proof -
  note b = trunc_def bit_take_bit_iff bit_or_iff bit_and_iff bit_ff_u16 bit_push_bit_iff bit_ucast_iff bit_drop_bit_eq
  show "len = 1 \<Longrightarrow> trunc (8 * len) (ucast (ucast d AND 0xff :: u16) OR push_bit 16 (ucast h)) = trunc 8 d"
    by (rule bit_word_eqI, unfold b) auto
  show "len = 2 \<Longrightarrow> trunc (8 * len) (ucast (ucast d :: u16) OR push_bit 16 (ucast h)) = trunc 16 d"
    by (rule bit_word_eqI, unfold b) auto
  show "len = 4 \<Longrightarrow> trunc (8 * len) (ucast (ucast d :: u16) OR push_bit 16 (ucast (ucast (drop_bit 16 d) :: u16))) = d"
    by (rule bit_word_eqI, unfold b) auto
qed

lemma trunc_read:
  "trunc 16 x AND 0xff = trunc 8 (x :: u32)"
  "ucast (ucast x :: u16) = trunc 16 (x :: u32)"
  "ucast (ucast x :: u16) OR push_bit 16 (ucast (ucast (drop_bit 16 x) :: u16)) = trunc 32 (x :: u32)"
proof -
  have ff: "bit (0xff :: u32) i \<longleftrightarrow> i < 8" for i
  proof -
    have "bit (mask 8 :: u32) i \<longleftrightarrow> i < 8" unfolding bit_mask_iff by auto
    then show ?thesis by (simp add: mask_eq_exp_minus_1)
  qed
  note b = trunc_def bit_take_bit_iff bit_or_iff bit_and_iff ff bit_push_bit_iff bit_ucast_iff bit_drop_bit_eq
  show "trunc 16 x AND 0xff = trunc 8 x" by (rule bit_word_eqI, unfold b) auto
  show "ucast (ucast x :: u16) = trunc 16 x" by (rule bit_word_eqI, unfold b) auto
  show "ucast (ucast x :: u16) OR push_bit 16 (ucast (ucast (drop_bit 16 x) :: u16)) = trunc 32 x"
    by (rule bit_word_eqI, unfold b) auto
qed

lemma at_rf_psw: "at_psw wid p0 s p t \<Longrightarrow> regs p = R \<Longrightarrow> at_rf wid p0 s R t"
  by (simp add: at_psw_def at_rf_def rf_def)

lemma sw_rreg_rf:
  assumes up: "psw_up wid p0 E s" and R: "at_rf wid p0 s R t" and ok: "sw_reg_ok wid page reg len"
  shows "wp (sw_rreg E page reg len) (\<lambda>r u. r = Inr (trunc (8 * len) (R page reg)) \<and> at_rf wid p0 s R u) t"
proof -
  let ?x = "R page reg"
  from R obtain p where p: "at_psw wid p0 s p t" and Rp: "regs p = R" by (auto simp: at_rf_def at_psw_def rf_def)
  from up have E: "psw_env wid p0 E" "g_sf2 s" by (simp_all add: psw_up_def)
  note W = mdio_write_psw [OF E] and D = mdio_read_psw [OF E]
  let ?p1 = "psw_wr wid REG_PSEUDO_MII_16 (ppm16 page) p"
  let ?p2 = "psw_wr wid REG_PSEUDO_MII_17 (ppm17 reg PPM17_OP_READ) ?p1"
  from ok have pr: "page < 256" "reg < 256" by (simp_all add: sw_reg_ok_def)
  have p2: "dlo ?p2 = ucast ?x" "dhi ?p2 = ucast (drop_bit 16 ?x)" "regs ?p2 = R"
    using pr by (simp_all add: psw_wr_def Let_def ppm16_page ppm17_reg ppm17_op Rp)
  have fin: "wp (if len = 1 then return (Inr (ucast v AND 0xff)) else if len = 2 then return (Inr (ucast v))
      else if len = 4 then bindE (sf2_mdio_read E PSEUDO_PHY_ADDR REG_PSEUDO_MII_25) (\<lambda>h.
           return (Inr (ucast v OR push_bit 16 (ucast h)))) else return (Inl EINVAL))
      (\<lambda>r u. r = Inr (trunc (8 * len) ?x) \<and> at_rf wid p0 s R u) u"
    if v: "v = ucast ?x" and u: "at_psw wid p0 s ?p2 u" for v :: u16 and u
  proof -
    have "wp (bindE (sf2_mdio_read E PSEUDO_PHY_ADDR REG_PSEUDO_MII_25) (\<lambda>h.
           return (Inr (ucast v OR push_bit 16 (ucast h))))) (\<lambda>r u. r = Inr (trunc 32 ?x) \<and> at_rf wid p0 s R u) u"
      by (rule wp_bindE_Inr [OF D [OF u]])
        (simp_all add: wp_return psw_rd_def p2 v trunc_read(3) at_rf_psw)
    then show ?thesis
      using ok v at_rf_psw [OF u p2(3)] by (auto simp: sw_reg_ok_def wp_return trunc_read(1,2))
  qed
  show ?thesis
    unfolding sw_rreg_def
    by (rule wp_bindE_Inr [OF W [OF p]], simp, rule wp_bindE_Inr [OF W], assumption, simp,
        rule wp_bindE_Inr [OF sw_wait_op_psw [OF up]], assumption,
        rule wp_bindE_Inr [OF D], assumption, simp, rule fin)
      (simp_all add: psw_rd_def p2)
qed

lemma sw_wreg_rf:
  assumes up: "psw_up wid p0 E s" and R: "at_rf wid p0 s R t" and ok: "sw_reg_ok wid page reg len"
  shows "wp (sw_wreg E page reg data len) (\<lambda>r u. r = Inr () \<and>
     at_rf wid p0 s (reg_upd R page reg (trunc (8 * len) data)) u) t"
proof -
  from R obtain p where p: "at_psw wid p0 s p t" and Rp: "regs p = R" by (auto simp: at_rf_def at_psw_def rf_def)
  from up have E: "psw_env wid p0 E" "g_sf2 s" by (simp_all add: psw_up_def)
  note W = mdio_write_psw [OF E]
  let ?p1 = "psw_wr wid REG_PSEUDO_MII_16 (ppm16 page) p"
  from ok have pr: "page < 256" "reg < 256" "wid page reg = 8 * len" by (simp_all add: sw_reg_ok_def)
  define good where "good q \<longleftrightarrow> pg q = ppm16 page \<and> regs q = R \<and>
      trunc (8 * len) (ucast (dlo q) OR push_bit 16 (ucast (dhi q))) = trunc (8 * len) data" for q :: psw
  have dat: "wp (if len = 1 then sf2_mdio_write E PSEUDO_PHY_ADDR REG_PSEUDO_MII_24 (ucast data AND 0xff)
            else if len = 2 then sf2_mdio_write E PSEUDO_PHY_ADDR REG_PSEUDO_MII_24 (ucast data)
            else if len = 4 then
              bindE (sf2_mdio_write E PSEUDO_PHY_ADDR REG_PSEUDO_MII_24 (ucast data)) (\<lambda>_.
                sf2_mdio_write E PSEUDO_PHY_ADDR REG_PSEUDO_MII_25 (ucast (drop_bit 16 data)))
            else return (Inl EINVAL))
      (\<lambda>r u. r = Inr () \<and> (\<exists>q. good q \<and> at_psw wid p0 s q u)) u"
    if u: "at_psw wid p0 s ?p1 u" for u
  proof -
    have one: "wp (sf2_mdio_write E PSEUDO_PHY_ADDR REG_PSEUDO_MII_24 d)
        (\<lambda>r u. r = Inr () \<and> at_psw wid p0 s (?p1\<lparr>dlo := d\<rparr>) u) u" for d
      using W [OF u, of REG_PSEUDO_MII_24 d] by (simp add: psw_wr_def)
    have two: "wp (sf2_mdio_write E PSEUDO_PHY_ADDR REG_PSEUDO_MII_25 h)
        (\<lambda>r u. r = Inr () \<and> at_psw wid p0 s (?p1\<lparr>dlo := d, dhi := h\<rparr>) u) u'"
      if "at_psw wid p0 s (?p1\<lparr>dlo := d\<rparr>) u'" for d h u'
      using W [OF that, of REG_PSEUDO_MII_25 h] by (simp add: psw_wr_def)
    have p1: "pg ?p1 = ppm16 page" "regs ?p1 = R" by (simp_all add: psw_wr_def Rp)
    from ok consider "len = 1" | "len = 2" | "len = 4" by (auto simp: sw_reg_ok_def)
    then show ?thesis
    proof cases
      case 1
      then have "good (?p1\<lparr>dlo := ucast data AND 0xff\<rparr>)" using trunc_low(1) [of len data] by (simp add: good_def p1)
      with 1 show ?thesis by (auto intro!: wp_mono [OF one])
    next
      case 2
      then have "good (?p1\<lparr>dlo := ucast data\<rparr>)" using trunc_low(2) [of len data] by (simp add: good_def p1)
      with 2 show ?thesis by (auto intro!: wp_mono [OF one])
    next
      case 3
      have "good (?p1\<lparr>dlo := ucast data, dhi := ucast (drop_bit 16 data)\<rparr>)"
        using 3 trunc_low(3) [of len data] by (simp add: good_def p1)
      with 3 show ?thesis
        by simp (rule wp_bindE_Inr [OF one], rule wp_mono [OF two], auto)
    qed
  qed
  have go: "regs (psw_wr wid REG_PSEUDO_MII_17 (ppm17 reg PPM17_OP_WRITE) q) = reg_upd R page reg (trunc (8 * len) data)"
    if "good q" for q
    using that pr by (simp add: good_def psw_wr_def Let_def ppm16_page ppm17_reg ppm17_op)
  show ?thesis
    unfolding sw_wreg_def
    apply (rule wp_bindE_Inr [OF W [OF p]], simp, rule wp_bindE_Inr [OF dat], assumption, elim exE conjE,
        rule wp_bindE_Inr [OF W], assumption, simp)
    apply (rule wp_mono [OF sw_wait_op_psw [OF up]], assumption)
    apply (auto intro: at_rf_psw go)
    done
qed

lemma sw_rmw_rf:
  assumes "psw_up wid p0 E s" and "at_rf wid p0 s R t" and "sw_reg_ok wid page reg len"
  shows "wp (sw_rmw E page reg len f) (\<lambda>r u. r = Inr () \<and>
     at_rf wid p0 s (reg_upd R page reg (trunc (8 * len) (f (trunc (8 * len) (R page reg))))) u) t"
  unfolding sw_rmw_def
  by (rule wp_bindE_Inr [OF sw_rreg_rf [OF assms]], rule sw_wreg_rf [OF assms(1) _ assms(3)])

definition reg_upds :: "(u32 \<times> u32 \<times> u32 \<times> nat) list \<Rightarrow> (u32 \<Rightarrow> u32 \<Rightarrow> u32) \<Rightarrow> (u32 \<Rightarrow> u32 \<Rightarrow> u32)" where
  "reg_upds ws R = fold (\<lambda>(page, reg, data, len) R. reg_upd R page reg (trunc (8 * len) data)) ws R"

lemma sw_wregs_rf:
  assumes "psw_up wid p0 E s" and "at_rf wid p0 s R t" and "list_all (\<lambda>(p, r, d, l). sw_reg_ok wid p r l) ws"
  shows "wp (sw_wregs E ws) (\<lambda>r u. r = Inr () \<and> at_rf wid p0 s (reg_upds ws R) u) t"
  using assms(2,3)
proof (induction ws arbitrary: R t)
  case Nil
  then show ?case by (simp add: sw_wregs_def wp_return reg_upds_def)
next
  case (Cons w ws)
  obtain p r d l where w: "w = (p, r, d, l)" by (cases w)
  then have "sw_reg_ok wid p r l" using Cons.prems(2) by simp
  from wp_bindE_Inr [OF sw_wreg_rf [OF assms(1) Cons.prems(1) this] Cons.IH, of d] Cons.prems(2)
  show ?case by (simp add: sw_wregs_def w reg_upds_def)
qed

section \<open>Opening the switch\<close>

text \<open>The registers that opening the switch touches, with their widths.\<close>

definition open_layout :: "(u32 \<Rightarrow> u32 \<Rightarrow> nat) \<Rightarrow> bool" where
  "open_layout wid \<longleftrightarrow>
     (\<forall>i\<le>8. wid PAGE_CONTROL (of_nat i) = 8 \<and> wid PAGE_PORT_BASED_VLAN (of_nat i * 2) = 16) \<and>
     wid PAGE_CONTROL 0x21 = 8 \<and> wid PAGE_CONTROL 0x32 = 16 \<and> wid PAGE_CONTROL 0x34 = 16 \<and> wid PAGE_CONTROL 0x36 = 16"

text \<open>What the register file is after the first \<open>k\<close> ports, and at the end.\<close>

definition ctl_open :: "u32 \<Rightarrow> u32" where
  "ctl_open v = trunc 8 v AND NOT (PORT_CTRL_RXTX_DISABLE OR PORT_CTRL_STATUS_MASK)"

definition open_upto :: "nat \<Rightarrow> (u32 \<Rightarrow> u32 \<Rightarrow> u32) \<Rightarrow> u32 \<Rightarrow> u32 \<Rightarrow> u32" where
  "open_upto k R page reg =
     (if page = PAGE_PORT_BASED_VLAN \<and> (\<exists>i<k. reg = of_nat i * 2) then 0x1ff
      else if page = PAGE_CONTROL \<and> (\<exists>i<k. reg = of_nat i) then ctl_open (R page reg)
      else R page reg)"

definition open_spec :: "(u32 \<Rightarrow> u32 \<Rightarrow> u32) \<Rightarrow> u32 \<Rightarrow> u32 \<Rightarrow> u32" where
  "open_spec R page reg =
     (if page = PAGE_PORT_BASED_VLAN \<and> (\<exists>i<9. reg = of_nat i * 2) then 0x1ff
      else if page = PAGE_CONTROL \<and> (\<exists>i<8. reg = of_nat i) then ctl_open (R page reg)
      else if page = PAGE_CONTROL \<and> reg = 8 then ctl_open (R page reg) OR 0x1c
      else if page = PAGE_CONTROL \<and> reg = 0x21 then trunc 8 (R page reg) AND NOT 0xc1
      else if page = PAGE_CONTROL \<and> (reg = 0x32 \<or> reg = 0x34 \<or> reg = 0x36) then 0x1ff
      else R page reg)"

lemma trunc_ctl: "trunc 8 ((trunc 8 v AND NOT m) OR c) = (trunc 8 v AND NOT m) OR trunc 8 c"
  unfolding trunc_def by (rule bit_word_eqI) (auto simp: bit_simps bit_take_bit_iff)

lemma of_nat_u32_inj: "i < 100 \<Longrightarrow> j < 100 \<Longrightarrow> (of_nat i :: u32) = of_nat j \<longleftrightarrow> i = j"
  "i < 100 \<Longrightarrow> j < 100 \<Longrightarrow> (of_nat i * 2 :: u32) = of_nat j * 2 \<longleftrightarrow> i = j"
proof -
  assume *: "i < 100" "j < 100"
  then show "(of_nat i :: u32) = of_nat j \<longleftrightarrow> i = j" by (simp add: word_unat_eq_iff unat_of_nat)
  have "(of_nat i * 2 :: u32) = of_nat j * 2 \<longleftrightarrow> (of_nat (i * 2) :: u32) = of_nat (j * 2)" by simp
  also have "\<dots> \<longleftrightarrow> i = j" using * by (subst word_unat_eq_iff) (simp add: unat_of_nat del: of_nat_mult)
  finally show "(of_nat i * 2 :: u32) = of_nat j * 2 \<longleftrightarrow> i = j" .
qed

lemma open_upto_Suc:
  assumes "k < 8"
  shows "reg_upd (reg_upd (open_upto k R) PAGE_PORT_BASED_VLAN (of_nat k * 2) 0x1ff) PAGE_CONTROL (of_nat k)
      (ctl_open (reg_upd (open_upto k R) PAGE_PORT_BASED_VLAN (of_nat k * 2) 0x1ff PAGE_CONTROL (of_nat k))) = open_upto (Suc k) R"
proof -
  define A where "A k r \<longleftrightarrow> (\<exists>i<k. r = of_nat i * 2)" for k and r :: u32
  define B where "B k r \<longleftrightarrow> (\<exists>i<k. r = of_nat i)" for k and r :: u32
  have AB: "A (Suc k) r \<longleftrightarrow> A k r \<or> r = of_nat k * 2" "B (Suc k) r \<longleftrightarrow> B k r \<or> r = of_nat k" for r
    by (auto simp: A_def B_def less_Suc_eq)
  have nB: "\<not> B k (of_nat k)" using assms by (auto simp: B_def of_nat_u32_inj)
  have o: "open_upto k R page reg = (if page = PAGE_PORT_BASED_VLAN \<and> A k reg then 0x1ff
      else if page = PAGE_CONTROL \<and> B k reg then ctl_open (R page reg) else R page reg)" for k page reg
    unfolding open_upto_def A_def B_def by (rule refl)
  show ?thesis
    by (intro ext) (simp add: reg_upd_def o AB nB)
qed

lemma ctl_trunc:
  "trunc (8 * 1) ((trunc (8 * 1) x AND NOT (PORT_CTRL_RXTX_DISABLE OR PORT_CTRL_STATUS_MASK)) OR PORT_CTRL_NO_STP) = ctl_open x"
  "trunc (8 * 1) ((trunc (8 * 1) x AND NOT (PORT_CTRL_RXTX_DISABLE OR PORT_CTRL_STATUS_MASK)) OR 0x1c) = ctl_open x OR 0x1c"
  "trunc (8 * 1) (trunc (8 * 1) x AND NOT 0xc1) = trunc 8 x AND NOT 0xc1"
proof -
  have c: "trunc 8 0 = 0" "trunc 8 0x1c = 0x1c" by (simp_all add: trunc_def)
  have m: "8 * 1 = (8 :: nat)" by simp
  show "trunc (8 * 1) ((trunc (8 * 1) x AND NOT (PORT_CTRL_RXTX_DISABLE OR PORT_CTRL_STATUS_MASK)) OR PORT_CTRL_NO_STP) = ctl_open x"
    unfolding m trunc_ctl c ctl_open_def by simp
  show "trunc (8 * 1) ((trunc (8 * 1) x AND NOT (PORT_CTRL_RXTX_DISABLE OR PORT_CTRL_STATUS_MASK)) OR 0x1c) = ctl_open x OR 0x1c"
    unfolding m trunc_ctl c ctl_open_def ..
  show "trunc (8 * 1) (trunc (8 * 1) x AND NOT 0xc1) = trunc 8 x AND NOT 0xc1"
    using trunc_ctl [of x "0xc1" 0] unfolding m c by simp
qed

lemma vlan_trunc: "trunc (8 * 2) 0x1ff = 0x1ff"
  by (simp add: trunc_def)

lemma sw_open_port_rf:
  assumes up: "psw_up wid p0 E s" and "at_rf wid p0 s (open_upto k R) t" and "open_layout wid" "k < 8"
  shows "wp (sw_open_port E k) (\<lambda>r u. r = Inr () \<and> at_rf wid p0 s (open_upto (Suc k) R) u) t"
proof -
  have "(of_nat k :: u32) < 256" "(of_nat k * 2 :: u32) < 256"
    using assms(4) by (simp_all add: word_less_nat_alt unat_of_nat unat_word_ariths)
  then have ok: "sw_reg_ok wid PAGE_PORT_BASED_VLAN (REG_VLAN_CTRL_P0 + of_nat k * 2) 2"
      "sw_reg_ok wid PAGE_CONTROL (PORT_CTRL_PORT + of_nat k) 1"
    using assms(3,4) by (simp_all add: sw_reg_ok_def open_layout_def)
  show ?thesis
    unfolding sw_open_port_def
    by (rule wp_bindE_Inr [OF sw_wreg_rf [OF up assms(2) ok(1)]],
        rule wp_mono [OF sw_rmw_rf [OF up _ ok(2)]], assumption)
      (simp only: ctl_trunc vlan_trunc add_0_left open_upto_Suc [OF assms(4)])
qed

lemma sw_open_ports_rf:
  assumes up: "psw_up wid p0 E s" and R: "at_rf wid p0 s R t" and lay: "open_layout wid"
  shows "wp (for_eachE [0..<BP_MAX_SWITCH_PORTS] (sw_open_port E)) (\<lambda>r u. r = Inr () \<and> at_rf wid p0 s (open_upto 8 R) u) t"
proof (rule wp_for_eachE_inv [where I = "\<lambda>xs. at_rf wid p0 s (open_upto (length xs) R)"], goal_cases)
  case 1
  have "open_upto 0 R = R" by (intro ext) (simp add: open_upto_def)
  with R show ?case by simp
next
  case (2 xs i ys u)
  then have "i = length xs" "length xs < 8"
    by (metis add_0 diff_zero length_upt nth_append_length nth_upt length_append list.size(4) less_add_Suc1 add_Suc_right,
        metis diff_zero length_upt length_append list.size(4) less_add_Suc1 add_Suc_right)
  with sw_open_port_rf [OF up _ lay, of "length xs" R u] 2 show ?case by (auto elim!: wp_mono)
qed simp

text \<open>The accesses that follow the port loop, on the register file the loop leaves.\<close>

definition open_tail :: "(u32 \<times> u32 \<times> u32 \<times> nat) list" where
  "open_tail = [(PAGE_CONTROL, 0x32, 0x1ff, 2), (PAGE_CONTROL, 0x34, 0x1ff, 2), (PAGE_CONTROL, 0x36, 0x1ff, 2),
         (PAGE_PORT_BASED_VLAN, REG_VLAN_CTRL_P0 + 8 * 2, 0x1ff, 2)]"

lemma open_spec_eq:
  fixes R
  defines "R1 \<equiv> reg_upd (open_upto 8 R) PAGE_CONTROL 8 (ctl_open (open_upto 8 R PAGE_CONTROL 8) OR 0x1c)"
  shows "reg_upds open_tail (reg_upd R1 PAGE_CONTROL 0x21 (trunc 8 (R1 PAGE_CONTROL 0x21) AND NOT 0xc1)) = open_spec R"
proof -
  define A where "A r \<longleftrightarrow> (\<exists>i<8. r = of_nat i * 2)" for r :: u32
  define B where "B r \<longleftrightarrow> (\<exists>i<8. r = of_nat i)" for r :: u32
  have A9: "(\<exists>i<9. r = of_nat i * 2) \<longleftrightarrow> A r \<or> r = 16" for r :: u32
    by (simp add: A_def numeral_eq_Suc Ex_less_Suc disj_ac)
  have "unat r < 8" if "B r" for r using that by (auto simp: B_def unat_of_nat)
  from this [of 8] this [of "0x21"] this [of "0x32"] this [of "0x34"] this [of "0x36"]
  have nB: "\<not> B 8" "\<not> B 0x21" "\<not> B 0x32" "\<not> B 0x34" "\<not> B 0x36" by auto
  have o: "open_upto 8 R page reg = (if page = PAGE_PORT_BASED_VLAN \<and> A reg then 0x1ff
      else if page = PAGE_CONTROL \<and> B reg then ctl_open (R page reg) else R page reg)" for page reg
    unfolding open_upto_def A_def B_def by (rule refl)
  have sp: "open_spec R page reg =
     (if page = PAGE_PORT_BASED_VLAN \<and> (A reg \<or> reg = 16) then 0x1ff
      else if page = PAGE_CONTROL \<and> B reg then ctl_open (R page reg)
      else if page = PAGE_CONTROL \<and> reg = 8 then ctl_open (R page reg) OR 0x1c
      else if page = PAGE_CONTROL \<and> reg = 0x21 then trunc 8 (R page reg) AND NOT 0xc1
      else if page = PAGE_CONTROL \<and> (reg = 0x32 \<or> reg = 0x34 \<or> reg = 0x36) then 0x1ff
      else R page reg)" for page reg
    unfolding open_spec_def A9 B_def by (rule refl)
  have t: "trunc (8 * 2) 0x1ff = 0x1ff" by (rule vlan_trunc)
  show ?thesis
  proof (intro ext)
    fix page reg
    show "reg_upds open_tail (reg_upd R1 PAGE_CONTROL 0x21 (trunc 8 (R1 PAGE_CONTROL 0x21) AND NOT 0xc1)) page reg = open_spec R page reg"
      unfolding reg_upds_def open_tail_def fold.simps comp_def id_def prod.case t R1_def sp
      by (cases "page = PAGE_CONTROL"; cases "page = PAGE_PORT_BASED_VLAN")
        (simp_all add: reg_upd_def o nB)
  qed
qed


text \<open>A switch whose registers are all zero, with the port controls disabled.\<close>

definition psw0 :: psw where
  "psw0 = \<lparr>pg = 0, dlo = 0, dhi = 0, regs = (\<lambda>p r. if p = 0 \<and> r \<le> 8 then 0x03 else 0)\<rparr>"

definition wid0 :: "u32 \<Rightarrow> u32 \<Rightarrow> nat" where
  "wid0 page reg = (if page = PAGE_CONTROL \<and> (reg \<le> 8 \<or> reg = 0x21) then 8 else 16)"

definition psw_dev :: env where
  "psw_dev = \<lparr>env_rd = (\<lambda>L w off. case last_wr L SwMdio SF2_MDIO_CMD of
       Some cmd \<Rightarrow> ucast (psw_rd (f_dev cmd) (psw_of wid0 psw0 L)) | None \<Rightarrow> 0), env_call = (\<lambda>_ _. 0)\<rparr>"

lemma psw_dev_env: "psw_env wid0 psw0 psw_dev"
proof -
  have "\<not> bit (env_rd psw_dev L w off) 29" for L w off
    by (auto simp: psw_dev_def bit_ucast_iff split: option.splits dest: bit_imp_le_length)
  then show ?thesis
    by (auto simp: psw_env_def mdio_answers_def psw_dev_def f_data_def and_ffff_ucast)
qed

lemma wid0_layout: "open_layout wid0"
proof -
  have "(of_nat i :: u32) \<le> 8" if "i \<le> 8" for i
    using that by (simp add: word_le_nat_alt unat_of_nat)
  then show ?thesis by (simp add: open_layout_def wid0_def)
qed


end
