(* ===== verification/Serdes.thy ===== *)
theory Serdes
  imports Kio
begin

text \<open>
  \<^verbatim>\<open>port66/enet66b/serdes6764.c\<close>, first part: the SerDes block, its indirect register access, the tables of
  register programs with the save and restore of the registers they write, and the power-up of the block.
  A 16-bit register value handed back through a pointer, or as a non-negative \<^verbatim>\<open>int\<close>, is the value of the
  result.  \<^verbatim>\<open>msleep(n)\<close> and \<^verbatim>\<open>udelay(n)\<close> are delays in microseconds.
\<close>

section \<open>Constants (serdes6764.c, enet66b.h)\<close>

abbreviation (input) SD_INDIR_ACC_ADDR :: nat where "SD_INDIR_ACC_ADDR \<equiv> 0x0004"
abbreviation (input) SD_INDIR_ACC_MASK :: nat where "SD_INDIR_ACC_MASK \<equiv> 0x0008"
abbreviation (input) SD_CONTROL :: nat where "SD_CONTROL \<equiv> 0x000c"
abbreviation (input) SD_STATUS :: nat where "SD_STATUS \<equiv> 0x0010"
abbreviation (input) SD_AN_STATUS :: nat where "SD_AN_STATUS \<equiv> 0x0020"
abbreviation (input) SD_STATUS_1 :: nat where "SD_STATUS_1 \<equiv> 0x0024"
abbreviation (input) SD_INDIR_ACC_CNTRL :: nat where "SD_INDIR_ACC_CNTRL \<equiv> 0x0800"
abbreviation (input) SD_CORE_STRIDE :: nat where "SD_CORE_STRIDE \<equiv> 0x1000"
abbreviation (input) SD_MAX_CORES :: int where "SD_MAX_CORES \<equiv> 2"
abbreviation (input) SD_LANE :: u32 where "SD_LANE \<equiv> 0"
abbreviation (input) SD_DEV_TYPE_SHIFT :: nat where "SD_DEV_TYPE_SHIFT \<equiv> 27"
abbreviation (input) SD_LANE_ADDR_SHIFT :: nat where "SD_LANE_ADDR_SHIFT \<equiv> 16"
abbreviation (input) SD_ACC_DATA_MASK :: u32 where "SD_ACC_DATA_MASK \<equiv> 0xffff"
abbreviation (input) SD_ACC_RW :: u32 where "SD_ACC_RW \<equiv> BIT 16"
abbreviation (input) SD_ACC_START_BUSY :: u32 where "SD_ACC_START_BUSY \<equiv> BIT 17"
abbreviation (input) SD_ACC_DELAYED_ACK :: u32 where "SD_ACC_DELAYED_ACK \<equiv> BIT 18"
abbreviation (input) SD_CTL_IDDQ :: u32 where "SD_CTL_IDDQ \<equiv> BIT 0"
abbreviation (input) SD_CTL_REFCLK_RESET :: u32 where "SD_CTL_REFCLK_RESET \<equiv> BIT 1"
abbreviation (input) SD_CTL_SERDES_RESET :: u32 where "SD_CTL_SERDES_RESET \<equiv> BIT 2"
abbreviation (input) SD_CTL_PRTAD_MASK :: u32 where "SD_CTL_PRTAD_MASK \<equiv> 0x7c0"
abbreviation (input) SD_CTL_TEST_EN :: u32 where "SD_CTL_TEST_EN \<equiv> BIT 20"
abbreviation (input) SD_CTL_COMCLK_ENABLE :: u32 where "SD_CTL_COMCLK_ENABLE \<equiv> BIT 28"
abbreviation (input) SD_ST_PLL_LOCK :: u32 where "SD_ST_PLL_LOCK \<equiv> BIT 3"
abbreviation (input) SD_CTL_PRTAD_SHIFT :: nat where "SD_CTL_PRTAD_SHIFT \<equiv> 6"
abbreviation (input) SD_S1_SPEED_10M :: nat where "SD_S1_SPEED_10M \<equiv> 0"
abbreviation (input) SD_S1_SPEED_100M :: nat where "SD_S1_SPEED_100M \<equiv> 4"
abbreviation (input) SD_S1_SPEED_1G :: nat where "SD_S1_SPEED_1G \<equiv> 8"
abbreviation (input) SD_S1_SPEED_2P5G :: nat where "SD_S1_SPEED_2P5G \<equiv> 12"
abbreviation (input) SD_S1_SPEED_5G :: nat where "SD_S1_SPEED_5G \<equiv> 16"
abbreviation (input) SD_S1_SPEED_10G :: nat where "SD_S1_SPEED_10G \<equiv> 20"
abbreviation (input) ETHTOP_R2PMI_LP_BCAST_MODE_CNTRL :: nat where "ETHTOP_R2PMI_LP_BCAST_MODE_CNTRL \<equiv> 0x01b0"

abbreviation (input) PMD_DEV :: u16 where "PMD_DEV \<equiv> 0x1"
abbreviation (input) REG_MICRO_CLK_CTRL :: u16 where "REG_MICRO_CLK_CTRL \<equiv> 0xd200"
abbreviation (input) MICRO_MASTER_CLK_EN :: u16 where "MICRO_MASTER_CLK_EN \<equiv> BIT 0"
abbreviation (input) MICRO_CORE_CLK_EN :: u16 where "MICRO_CORE_CLK_EN \<equiv> BIT 1"
abbreviation (input) REG_MICRO_RST_CTRL :: u16 where "REG_MICRO_RST_CTRL \<equiv> 0xd201"
abbreviation (input) MICRO_MASTER_RSTB :: u16 where "MICRO_MASTER_RSTB \<equiv> BIT 0"
abbreviation (input) MICRO_CORE_RSTB :: u16 where "MICRO_CORE_RSTB \<equiv> BIT 1"
abbreviation (input) REG_MICRO_RAM_CTRL :: u16 where "REG_MICRO_RAM_CTRL \<equiv> 0xd202"
abbreviation (input) MICRO_WRDATASIZE_MASK :: u16 where "MICRO_WRDATASIZE_MASK \<equiv> 0x0003"
abbreviation (input) MICRO_RDDATASIZE_MASK :: u16 where "MICRO_RDDATASIZE_MASK \<equiv> 0x0030"
abbreviation (input) MICRO_RA_INIT_MASK :: u16 where "MICRO_RA_INIT_MASK \<equiv> 0x0300"
abbreviation (input) MICRO_AUTOINC_WR :: u16 where "MICRO_AUTOINC_WR \<equiv> 0x1000"
abbreviation (input) MICRO_AUTOINC_RD :: u16 where "MICRO_AUTOINC_RD \<equiv> 0x2000"
abbreviation (input) REG_MICRO_RAM_STATUS :: u16 where "REG_MICRO_RAM_STATUS \<equiv> 0xd203"
abbreviation (input) MICRO_RA_INITDONE :: u16 where "MICRO_RA_INITDONE \<equiv> BIT 0"
abbreviation (input) REG_MICRO_WRADDR_LSW :: u16 where "REG_MICRO_WRADDR_LSW \<equiv> 0xd204"
abbreviation (input) REG_MICRO_WRADDR_MSW :: u16 where "REG_MICRO_WRADDR_MSW \<equiv> 0xd205"
abbreviation (input) REG_MICRO_WRDATA_LSW :: u16 where "REG_MICRO_WRDATA_LSW \<equiv> 0xd206"
abbreviation (input) REG_MICRO_RDADDR_LSW :: u16 where "REG_MICRO_RDADDR_LSW \<equiv> 0xd208"
abbreviation (input) REG_MICRO_RDADDR_MSW :: u16 where "REG_MICRO_RDADDR_MSW \<equiv> 0xd209"
abbreviation (input) REG_MICRO_RDDATA_LSW :: u16 where "REG_MICRO_RDDATA_LSW \<equiv> 0xd20a"
abbreviation (input) REG_MICRO_D225 :: u16 where "REG_MICRO_D225 \<equiv> 0xd225"
abbreviation (input) REG_MICRO_PMI_FAST_RD :: u16 where "REG_MICRO_PMI_FAST_RD \<equiv> 0xd228"
abbreviation (input) REG_DSC_UC_CTRL :: u16 where "REG_DSC_UC_CTRL \<equiv> 0xd00d"
abbreviation (input) DSC_READY_FOR_CMD :: u16 where "DSC_READY_FOR_CMD \<equiv> BIT 7"
abbreviation (input) DSC_ERROR_FOUND :: u16 where "DSC_ERROR_FOUND \<equiv> BIT 6"
abbreviation (input) REG_DSC_UC_DATA :: u16 where "REG_DSC_UC_DATA \<equiv> 0xd00e"
abbreviation (input) CMD_CALC_CRC :: u16 where "CMD_CALC_CRC \<equiv> 20"
abbreviation (input) REG_UC_ACTIVE :: u16 where "REG_UC_ACTIVE \<equiv> 0xd0f4"
abbreviation (input) UC_ACTIVE :: u16 where "UC_ACTIVE \<equiv> BIT 15"
abbreviation (input) REG_CORE_RESET :: u16 where "REG_CORE_RESET \<equiv> 0xd0f1"
abbreviation (input) REG_LANE_DP_RSTB :: u16 where "REG_LANE_DP_RSTB \<equiv> 0xd081"
abbreviation (input) REG_MDIO_BRCST_ADDR :: u16 where "REG_MDIO_BRCST_ADDR \<equiv> 0xffdc"
abbreviation (input) REG_MDIO_MULTI_PRTS :: u16 where "REG_MDIO_MULTI_PRTS \<equiv> 0xffdd"
abbreviation (input) REG_XFI_TX_POLARITY :: u16 where "REG_XFI_TX_POLARITY \<equiv> 0xd0e3"
abbreviation (input) REG_XFI_RX_POLARITY :: u16 where "REG_XFI_RX_POLARITY \<equiv> 0xd0d3"
abbreviation (input) MICRO_RDDATASIZE_SHIFT :: nat where "MICRO_RDDATASIZE_SHIFT \<equiv> 4"
abbreviation (input) MICRO_RA_INIT_SHIFT :: nat where "MICRO_RA_INIT_SHIFT \<equiv> 8"
abbreviation (input) UCODE_MAX_SIZE :: nat where "UCODE_MAX_SIZE \<equiv> 84 * 1024"
abbreviation (input) SAVE_MAX :: nat where "SAVE_MAX \<equiv> 128"
abbreviation (input) UC_RAM_WINDOW :: u32 where "UC_RAM_WINDOW \<equiv> 0x20000000"
abbreviation (input) CORE_VAR_RAM_OFFSET :: u32 where "CORE_VAR_RAM_OFFSET \<equiv> 0x200"
abbreviation (input) LANE_VAR_RAM_OFFSET :: u32 where "LANE_VAR_RAM_OFFSET \<equiv> 0x300"
abbreviation (input) INFO_TABLE_SIGNATURE :: u32 where "INFO_TABLE_SIGNATURE \<equiv> 0x666e49"
abbreviation (input) INFO_TABLE_RAM_BASE :: u16 where "INFO_TABLE_RAM_BASE \<equiv> 0x100"
abbreviation (input) MERLIN16_UCODE_CRC :: u16 where "MERLIN16_UCODE_CRC \<equiv> 0x4949"

abbreviation (input) E66B_MK_SD_PROBE :: u8 where "E66B_MK_SD_PROBE \<equiv> 0x92"
abbreviation (input) E66B_MK_SD_CORE_RESET :: u8 where "E66B_MK_SD_CORE_RESET \<equiv> 0x88"
abbreviation (input) E66B_MK_SD_UCODE_LOADED :: u8 where "E66B_MK_SD_UCODE_LOADED \<equiv> 0x89"
abbreviation (input) E66B_MK_SD_UCODE_VERIFIED :: u8 where "E66B_MK_SD_UCODE_VERIFIED \<equiv> 0x8A"
abbreviation (input) E66B_MK_SD_UC_ACTIVE :: u8 where "E66B_MK_SD_UC_ACTIVE \<equiv> 0x8B"
abbreviation (input) E66B_MK_SD_UCODE_CRC :: u8 where "E66B_MK_SD_UCODE_CRC \<equiv> 0x93"
abbreviation (input) E66B_MK_SD_CORE_CFG :: u8 where "E66B_MK_SD_CORE_CFG \<equiv> 0x8C"
abbreviation (input) E66B_MK_SD_LANE_CFG :: u8 where "E66B_MK_SD_LANE_CFG \<equiv> 0x8D"
abbreviation (input) E66B_MK_SD_2P5G :: u8 where "E66B_MK_SD_2P5G \<equiv> 0x91"
abbreviation (input) E66B_MK_SD_LINK :: u8 where "E66B_MK_SD_LINK \<equiv> 0x8E"
abbreviation (input) E66B_MK_ERR_SD_MAP :: u8 where "E66B_MK_ERR_SD_MAP \<equiv> 0xC0"
abbreviation (input) E66B_MK_ERR_SD_ACC :: u8 where "E66B_MK_ERR_SD_ACC \<equiv> 0xC1"
abbreviation (input) E66B_MK_ERR_SD_UCODE_LOAD :: u8 where "E66B_MK_ERR_SD_UCODE_LOAD \<equiv> 0xC2"
abbreviation (input) E66B_MK_ERR_SD_UCODE_VERIFY :: u8 where "E66B_MK_ERR_SD_UCODE_VERIFY \<equiv> 0xC3"
abbreviation (input) E66B_MK_ERR_SD_UC_ACTIVE :: u8 where "E66B_MK_ERR_SD_UC_ACTIVE \<equiv> 0xC4"
abbreviation (input) E66B_MK_ERR_SD_DSC :: u8 where "E66B_MK_ERR_SD_DSC \<equiv> 0xC5"
abbreviation (input) E66B_MK_ERR_SD_CRC :: u8 where "E66B_MK_ERR_SD_CRC \<equiv> 0xC6"
abbreviation (input) E66B_MK_ERR_SD_PLL :: u8 where "E66B_MK_ERR_SD_PLL \<equiv> 0xC7"
abbreviation (input) E66B_MK_ERR_SD_LINK :: u8 where "E66B_MK_ERR_SD_LINK \<equiv> 0xC8"

section \<open>State\<close>

text \<open>The module parameters and globals.  \<open>sd_base\<close> and \<open>ethtop_base\<close> say whether the block is mapped;
  the array \<^verbatim>\<open>saved_regs\<close> with its counter is the list of the entries in use.\<close>

record serdes_world = io +
  sd_core :: int
  sd_prtad :: int
  cores :: u32
  serdes_base_phys :: u32
  ethtop_base_phys :: u32
  prtad_override :: int
  acc_delay_us :: int
  strict_busy :: int
  tx_polarity_inverse :: int
  rx_polarity_inverse :: int
  p2_vco12p5 :: int
  autoinit :: int
  double_init :: int
  mdio_prts :: int
  pol_reapply :: int
  poll_busy :: int
  hw_mask :: int
  init_ret :: int
  selftest_d225 :: int
  selftest_d202 :: int
  pol_tx_end :: int
  pol_rx_end :: int
  d128_after_lock :: int
  d128_end :: int
  st_end :: u32
  ctrl_end :: u32
  sd_last_mark :: u8
  sd_base :: bool
  ethtop_base :: bool
  sd_inited_mask :: u32
  saved_regs :: "(u16 \<times> u16 \<times> u16) list"
  register_dont_save :: bool

type_synonym ('z, 'a) sd = "('z serdes_world_scheme, 'a) state"

definition core_prtad :: "int \<Rightarrow> 'z serdes_world_scheme \<Rightarrow> int" where
  "core_prtad core s = (if prtad_override s \<noteq> 0 then prtad_override s else 6 + core)"

definition sd_mark :: "u8 \<Rightarrow> ('z, unit) sd" where
  "sd_mark m = do { modify (sd_last_mark_update (\<lambda>_. m)); mark m }"

section \<open>Indirect access\<close>

definition merlin_delay_us :: "nat \<Rightarrow> ('z, unit) sd" where
  "merlin_delay_us us = (if us > 2000 then delay_us (us div 1000 * 1000) else delay_us us)"

definition sd_reg :: "nat \<Rightarrow> 'z serdes_world_scheme \<Rightarrow> nat" where
  "sd_reg off s = nat (sd_core s) * SD_CORE_STRIDE + off"

definition sd_readl :: "env \<Rightarrow> nat \<Rightarrow> ('z, u32) sd" where
  "sd_readl E off = do { a \<leftarrow> gets (sd_reg off); readl E Serdes1 a }"

definition sd_writel :: "nat \<Rightarrow> u32 \<Rightarrow> ('z, unit) sd" where
  "sd_writel off v = do { a \<leftarrow> gets (sd_reg off); writel Serdes1 a v }"

definition sd_acc_wait :: "env \<Rightarrow> ('z, errno + unit) sd" where
  "sd_acc_wait E = do {
     delay_us 10;
     pb \<leftarrow> gets poll_busy;
     if pb = 0 then return (Inr ())
     else do {
       r \<leftarrow> poll_loop 200 (do {
         v \<leftarrow> sd_readl E SD_INDIR_ACC_CNTRL;
         if v AND SD_ACC_START_BUSY = 0 then return (Some ())
         else do { delay_us 5; return None } });
       case r of
         Some _ \<Rightarrow> return (Inr ())
       | None \<Rightarrow> do {
           sd_mark E66B_MK_ERR_SD_ACC;
           strict \<leftarrow> gets strict_busy;
           return (if strict \<noteq> 0 then Inl ETIMEDOUT else Inr ()) } } }"

definition sd_acc_addr :: "u16 \<Rightarrow> u16 \<Rightarrow> u32" where
  "sd_acc_addr dev reg =
     push_bit SD_DEV_TYPE_SHIFT (ucast dev) OR push_bit SD_LANE_ADDR_SHIFT SD_LANE OR ucast reg"

text \<open>\<^verbatim>\<open>if (acc_delay_us > 0) udelay(acc_delay_us);\<close>\<close>

definition acc_delay :: "('z, unit) sd" where
  "acc_delay = do { d \<leftarrow> gets acc_delay_us; if d > 0 then delay_us (nat d) else return () }"

definition sd_pmi_wr :: "env \<Rightarrow> u16 \<Rightarrow> u16 \<Rightarrow> u16 \<Rightarrow> u16 \<Rightarrow> ('z, errno + unit) sd" where
  "sd_pmi_wr E dev reg data preserve = do {
     sd_writel SD_INDIR_ACC_ADDR (sd_acc_addr dev reg);
     sd_writel SD_INDIR_ACC_MASK (0xffff0000 OR ucast preserve);
     sd_writel SD_INDIR_ACC_CNTRL (SD_ACC_DELAYED_ACK OR SD_ACC_START_BUSY OR ucast data);
     acc_delay;
     sd_acc_wait E }"

definition sd_wr :: "env \<Rightarrow> u16 \<Rightarrow> u16 \<Rightarrow> u16 \<Rightarrow> ('z, errno + unit) sd" where
  "sd_wr E dev reg val = sd_pmi_wr E dev reg val 0"

definition sd_rd :: "env \<Rightarrow> u16 \<Rightarrow> u16 \<Rightarrow> ('z, errno + u16) sd" where
  "sd_rd E dev reg = do {
     sd_writel SD_INDIR_ACC_ADDR (sd_acc_addr dev reg);
     sd_writel SD_INDIR_ACC_CNTRL (SD_ACC_DELAYED_ACK OR SD_ACC_START_BUSY OR SD_ACC_RW);
     acc_delay;
     bindE (sd_acc_wait E) (\<lambda>_. do {
       v \<leftarrow> sd_readl E SD_INDIR_ACC_CNTRL;
       return (Inr (ucast (v AND SD_ACC_DATA_MASK))) }) }"

definition sd_wr_field :: "env \<Rightarrow> u16 \<Rightarrow> u16 \<Rightarrow> u16 \<Rightarrow> nat \<Rightarrow> u16 \<Rightarrow> ('z, errno + unit) sd" where
  "sd_wr_field E dev reg msk shift val = do {
     hw \<leftarrow> gets hw_mask;
     if hw \<noteq> 0 then sd_pmi_wr E dev reg (push_bit shift val) (NOT msk)
     else bindE (sd_rd E dev reg) (\<lambda>cur.
       sd_pmi_wr E dev reg ((cur AND NOT msk) OR (push_bit shift val AND msk)) 0) }"

definition sd_rdc :: "env \<Rightarrow> u16 \<Rightarrow> ('z, errno + u16) sd" where
  "sd_rdc E reg = sd_rd E PMD_DEV reg"

text \<open>The \<^verbatim>\<open>int\<close> that \<^verbatim>\<open>sd_rdc\<close> returns.\<close>

definition rdc_int :: "errno + u16 \<Rightarrow> int" where
  "rdc_int r = (case r of Inl e \<Rightarrow> errno_val e | Inr v \<Rightarrow> uint v)"

section \<open>Register program tables\<close>

text \<open>An entry of type \<open>SEQ_REG\<close> has the device, the register, the bits it writes and their values.  The
  end of a list stands for \<^verbatim>\<open>ENDTBL\<close>.\<close>

datatype prog_ent =
    SEQ_REG u16 u16 u16 u16
  | SEQ_NEST "prog_ent list"
  | SEQ_PLL_LOCK

definition datapath_reset_lane :: "prog_ent list" where
  "datapath_reset_lane =
    [SEQ_REG 0x1 0xd081 0x0001 0x0001]"

definition datapath_reset_core :: "prog_ent list" where
  "datapath_reset_core =
    [SEQ_REG 0x1 0xd0f4 0x2000 0x2000]"

definition lpi_enable :: "prog_ent list" where
  "lpi_enable =
    [SEQ_REG 0x3 0xc450 0x0004 0x0004]"

definition initialize_12p5_vco :: "prog_ent list" where
  "initialize_12p5_vco =
    [SEQ_REG 0x3 0x9201 0xffff 0x4888,
     SEQ_REG 0x3 0x9202 0xffff 0x9940,
     SEQ_REG 0x3 0x926a 0x3fff 0x0019,
     SEQ_REG 0x3 0x926b 0x1fff 0x0006,
     SEQ_REG 0x3 0x926c 0x00ff 0x0000,
     SEQ_REG 0x3 0x926c 0xff00 0x0100,
     SEQ_REG 0x3 0x926d 0x1fff 0x0000,
     SEQ_REG 0x3 0x9232 0x01ff 0x0005,
     SEQ_REG 0x3 0x9265 0x3fff 0x007d,
     SEQ_REG 0x3 0x9268 0x1fff 0x001f,
     SEQ_REG 0x3 0x9266 0x00ff 0x0000,
     SEQ_REG 0x3 0x9266 0xff00 0x0100,
     SEQ_REG 0x3 0x9269 0xe000 0x0000,
     SEQ_REG 0x3 0x9268 0xe000 0x0000,
     SEQ_REG 0x3 0x9267 0x3fff 0x0032,
     SEQ_REG 0x3 0x9269 0x1fff 0x0031,
     SEQ_REG 0x3 0x9231 0x01ff 0x001f,
     SEQ_REG 0x3 0x9260 0x3fff 0x0271,
     SEQ_REG 0x3 0x9263 0x1fff 0x0138,
     SEQ_REG 0x3 0x9261 0x00ff 0x0000,
     SEQ_REG 0x3 0x9261 0xff00 0x0100,
     SEQ_REG 0x3 0x9264 0xe000 0x0000,
     SEQ_REG 0x3 0x9263 0xe000 0x0000,
     SEQ_REG 0x3 0x9262 0x3fff 0x0032,
     SEQ_REG 0x3 0x9264 0x1fff 0x0031,
     SEQ_REG 0x3 0x9230 0x01ff 0x0138]"

definition pmd_setup_80_10p3125_vco :: "prog_ent list" where
  "pmd_setup_80_10p3125_vco =
    [SEQ_REG 0x3 0x9100 0xf000 0x6000,
     SEQ_REG 0x1 0xd0f4 0x2000 0x0000,
     SEQ_REG 0x1 0xd0b8 0x03ff 0x0080,
     SEQ_REG 0x1 0xd0b8 0x8000 0x0000,
     SEQ_REG 0x1 0xd0b6 0x0c00 0x0800,
     SEQ_REG 0x1 0xd0b6 0xf000 0x0000,
     SEQ_REG 0x1 0xd0b7 0x3fff 0x3a00,
     SEQ_REG 0x1 0xd0b9 0x0078 0x0078,
     SEQ_REG 0x1 0xd0b1 0x000f 0x0003,
     SEQ_REG 0x1 0xd0b0 0x0e00 0x0200,
     SEQ_REG 0x1 0xd0b0 0xc000 0xc000,
     SEQ_REG 0x1 0xd0b9 0x0001 0x0000,
     SEQ_REG 0x1 0xd0b9 0x0001 0x0001]"

definition pmd_setup_80_12p5_vco :: "prog_ent list" where
  "pmd_setup_80_12p5_vco =
    [SEQ_REG 0x3 0x9100 0xf000 0x6000,
     SEQ_REG 0x1 0xd0f4 0x2000 0x0000,
     SEQ_REG 0x1 0xd0b8 0x03ff 0x009c,
     SEQ_REG 0x1 0xd0b8 0x8000 0x0000,
     SEQ_REG 0x1 0xd0b6 0x0c00 0x0800,
     SEQ_REG 0x1 0xd0b6 0xf000 0x0000,
     SEQ_REG 0x1 0xd0b7 0x3fff 0x1000,
     SEQ_REG 0x1 0xd0b9 0x0078 0x0078,
     SEQ_REG 0x1 0xd0b1 0x000f 0x0003,
     SEQ_REG 0x1 0xd0b0 0x0e00 0x0200,
     SEQ_REG 0x1 0xd0b0 0xc000 0xc000,
     SEQ_REG 0x1 0xd0b9 0x0001 0x0000,
     SEQ_REG 0x1 0xd0b9 0x0001 0x0001]"

definition force_speed_1g :: "prog_ent list" where
  "force_speed_1g =
    [SEQ_REG 0x3 0xc30b 0x087f 0x0042,
     SEQ_NEST datapath_reset_lane,
     SEQ_PLL_LOCK,
     SEQ_REG 0x3 0xc457 0x0001 0x0001,
     SEQ_REG 0x3 0xc30b 0x0080 0x0080,
     SEQ_REG 0x3 0xc433 0x0003 0x0003]"

definition force_speed_2p5g :: "prog_ent list" where
  "force_speed_2p5g =
    [SEQ_REG 0x3 0xc30b 0x087f 0x0043,
     SEQ_NEST datapath_reset_lane,
     SEQ_PLL_LOCK,
     SEQ_REG 0x3 0xc457 0x0001 0x0001,
     SEQ_REG 0x3 0xc456 0x0010 0x0010,
     SEQ_REG 0x3 0xc30b 0x0080 0x0080,
     SEQ_REG 0x3 0xc433 0x0003 0x0003]"

section \<open>Saving, restoring and programming registers\<close>

definition save_reg :: "env \<Rightarrow> u16 \<Rightarrow> u16 \<Rightarrow> ('z, unit) sd" where
  "save_reg E dev reg = do {
     dont \<leftarrow> gets register_dont_save;
     saved \<leftarrow> gets saved_regs;
     if dont then return ()
     else if list_ex (\<lambda>(d, r, v). d = dev \<and> r = reg) saved then return ()
     else if length saved \<ge> SAVE_MAX then return ()
     else do {
       ret \<leftarrow> sd_rd E dev reg;
       case ret of
         Inl _ \<Rightarrow> return ()
       | Inr v \<Rightarrow> modify (saved_regs_update (\<lambda>rs. rs @ [(dev, reg, v)])) } }"

definition restore_regs :: "env \<Rightarrow> ('z, errno + unit) sd" where
  "restore_regs E =
     bindE (sd_rdc E REG_LANE_DP_RSTB) (\<lambda>core.
       let core_active = core AND 1 in
       bindE (if core_active \<noteq> 0 then sd_pmi_wr E PMD_DEV REG_LANE_DP_RSTB 0 0xfffe else return (Inr ())) (\<lambda>_. do {
         saved \<leftarrow> gets saved_regs;
         bindE (for_eachE saved (\<lambda>(dev, reg, val). sd_wr E dev reg val)) (\<lambda>_.
         bindE (if core_active \<noteq> 0 then sd_pmi_wr E PMD_DEV REG_LANE_DP_RSTB 1 0xfffe else return (Inr ())) (\<lambda>_. do {
           modify (saved_regs_update (\<lambda>_. []));
           return (Inr ()) })) }))"

definition merlin_chk_pll_lock :: "env \<Rightarrow> ('z, errno + unit) sd" where
  "merlin_chk_pll_lock E = do {
     r \<leftarrow> poll_loop 100 (do {
       delay_us 10000;
       st \<leftarrow> sd_readl E SD_STATUS;
       return (if st AND SD_ST_PLL_LOCK \<noteq> 0 then Some () else None) });
     case r of
       Some _ \<Rightarrow> return (Inr ())
     | None \<Rightarrow> do { sd_mark E66B_MK_ERR_SD_PLL; return (Inl ETIMEDOUT) } }"

fun merlin_reg_prog :: "env \<Rightarrow> prog_ent list \<Rightarrow> ('z, errno + unit) sd" where
  "merlin_reg_prog E [] = return (Inr ())"
| "merlin_reg_prog E (SEQ_NEST nest # tbl) =
     bindE (merlin_reg_prog E nest) (\<lambda>_. merlin_reg_prog E tbl)"
| "merlin_reg_prog E (SEQ_PLL_LOCK # tbl) =
     bindE (merlin_chk_pll_lock E) (\<lambda>_. merlin_reg_prog E tbl)"
| "merlin_reg_prog E (SEQ_REG dev reg data_bit_en data # tbl) = do {
     save_reg E dev reg;
     bindE (sd_pmi_wr E dev reg data (NOT data_bit_en)) (\<lambda>_. merlin_reg_prog E tbl) }"

section \<open>Power-up of the block\<close>

definition prtad_latch :: "int \<Rightarrow> u32 \<Rightarrow> u32" where
  "prtad_latch prtad v = (v AND NOT SD_CTL_PRTAD_MASK) OR push_bit SD_CTL_PRTAD_SHIFT (word_of_int prtad)"

definition serdes_access_config :: "bool \<Rightarrow> ('z, unit) sd" where
  "serdes_access_config enable = do {
     let v = SD_CTL_IDDQ OR SD_CTL_REFCLK_RESET OR SD_CTL_SERDES_RESET OR SD_CTL_COMCLK_ENABLE;
     sd_writel SD_CONTROL v;
     delay_us 10000;
     let v = (if \<not> enable then v OR SD_CTL_IDDQ else v AND NOT SD_CTL_IDDQ);
     sd_writel SD_CONTROL v;
     delay_us 10000;
     let v = (if \<not> enable then v OR (SD_CTL_REFCLK_RESET OR SD_CTL_SERDES_RESET)
              else v AND NOT (SD_CTL_REFCLK_RESET OR SD_CTL_SERDES_RESET));
     prtad \<leftarrow> gets sd_prtad;
     sd_writel SD_CONTROL (if prtad > 0x1f then v OR SD_CTL_TEST_EN else prtad_latch prtad v);
     delay_us 10000 }"

end
