(* ===== verification/Serdes_Boot.thy ===== *)
theory Serdes_Boot
  imports Serdes
begin

text \<open>
  \<^verbatim>\<open>port66/enet66b/serdes6764.c\<close>, second part: the microcontroller with its program image, the speed
  passes, the exported calls and the module.  The image, generated data of
  \<^verbatim>\<open>merlin16_shortfin_ucode.h\<close>, is the argument \<open>img\<close>; its size is the length of the list.
  \<^verbatim>\<open>cond_resched()\<close> has no effect that the model shows.
\<close>

section \<open>Microcontroller\<close>

definition zero_regs :: "u16 list" where
  "zero_regs = [0xd200, 0xd201, 0xd202, 0xd204, 0xd205, 0xd206, 0xd207,
     0xd208, 0xd209, 0xd20a, 0xd20b, 0xd20c, 0xd20d, 0xd20e,
     0xd211, 0xd212, 0xd213, 0xd214, 0xd215]"

text \<open>The writes that follow those of \<open>zero_regs\<close>, in order.\<close>

definition uc_reset_regs :: "(u16 \<times> u16) list" where
  "uc_reset_regs = [(0xd216, 0x0007), (0xd217, 0), (0xd218, 0), (0xd219, 0), (0xd21a, 0), (0xd21b, 0),
     (0xd220, 0), (0xd221, 0), (0xd224, 0), (REG_MICRO_D225, 0x8201), (0xd226, 0),
     (REG_MICRO_PMI_FAST_RD, 0x0101), (0xd229, 0), (0xd22a, 0)]"

definition merlin_uc_reset :: "env \<Rightarrow> bool \<Rightarrow> ('z, errno + unit) sd" where
  "merlin_uc_reset E assert_reset =
     (if assert_reset then
        bindE (sd_wr_field E PMD_DEV REG_MICRO_CLK_CTRL MICRO_CORE_CLK_EN 1 0) (\<lambda>_.
        bindE (sd_wr_field E PMD_DEV REG_MICRO_CLK_CTRL MICRO_MASTER_CLK_EN 0 0) (\<lambda>_.
        bindE (for_eachE zero_regs (\<lambda>reg. sd_wr E PMD_DEV reg 0)) (\<lambda>_.
        for_eachE uc_reset_regs (\<lambda>(reg, val). sd_wr E PMD_DEV reg val))))
      else
        bindE (sd_wr_field E PMD_DEV REG_MICRO_CLK_CTRL MICRO_MASTER_CLK_EN 0 1) (\<lambda>_.
        bindE (sd_wr_field E PMD_DEV REG_MICRO_RST_CTRL MICRO_MASTER_RSTB 0 1) (\<lambda>_.
        bindE (sd_wr_field E PMD_DEV REG_MICRO_CLK_CTRL MICRO_CORE_CLK_EN 1 1) (\<lambda>_.
        bindE (sd_wr_field E PMD_DEV REG_MICRO_PMI_FAST_RD 0x0001 0 0) (\<lambda>_.
        sd_wr_field E PMD_DEV REG_MICRO_RST_CTRL MICRO_CORE_RSTB 1 1)))))"

definition poll_micro_ra_initdone :: "env \<Rightarrow> ('z, errno + unit) sd" where
  "poll_micro_ra_initdone E = do {
     r \<leftarrow> poll_loop 101 (do {
       v \<leftarrow> sd_rdc E REG_MICRO_RAM_STATUS;
       case v of
         Inl e \<Rightarrow> return (Some (Inl e))
       | Inr v \<Rightarrow>
           if v AND MICRO_RA_INITDONE \<noteq> 0 then return (Some (Inr ()))
           else do { merlin_delay_us 2500; return None } });
     case r of
       Some ret \<Rightarrow> return ret
     | None \<Rightarrow> do { sd_mark E66B_MK_ERR_SD_UCODE_LOAD; return (Inl ETIMEDOUT) } }"

text \<open>The byte at an offset of the image, zero beyond its end, and the word of the \<open>i\<close>-th pass of the
  two copy loops; the loops run at least once and stop at the padded length.\<close>

definition img_byte :: "u8 list \<Rightarrow> nat \<Rightarrow> u8" where
  "img_byte img n = (if n < length img then img ! n else 0)"

definition img_word :: "u8 list \<Rightarrow> nat \<Rightarrow> u16" where
  "img_word img i = push_bit 8 (ucast (img_byte img (2 * i + 1))) OR ucast (img_byte img (2 * i))"

definition padded :: "u8 list \<Rightarrow> nat" where
  "padded img = (length img + 3) div 4 * 4"

definition img_passes :: "u8 list \<Rightarrow> nat list" where
  "img_passes img = [0..<max 1 (padded img div 2)]"

definition merlin_ucode_load :: "env \<Rightarrow> u8 list \<Rightarrow> ('z, errno + unit) sd" where
  "merlin_ucode_load E img =
     (if length img > UCODE_MAX_SIZE then return (Inl EINVAL)
      else
        bindE (sd_wr_field E PMD_DEV REG_MICRO_CLK_CTRL MICRO_MASTER_CLK_EN 0 1) (\<lambda>_.
        bindE (sd_wr_field E PMD_DEV REG_MICRO_RST_CTRL MICRO_MASTER_RSTB 0 1) (\<lambda>_.
        bindE (sd_wr_field E PMD_DEV REG_MICRO_RST_CTRL MICRO_MASTER_RSTB 0 0) (\<lambda>_.
        bindE (sd_wr_field E PMD_DEV REG_MICRO_RST_CTRL MICRO_MASTER_RSTB 0 1) (\<lambda>_.
        bindE (sd_wr_field E PMD_DEV REG_MICRO_RAM_CTRL MICRO_RA_INIT_MASK MICRO_RA_INIT_SHIFT 1) (\<lambda>_. do {
          st \<leftarrow> sd_rdc E REG_MICRO_RAM_CTRL;
          modify (selftest_d202_update (\<lambda>_. rdc_int st));
          bindE (poll_micro_ra_initdone E) (\<lambda>_.
          bindE (sd_wr_field E PMD_DEV REG_MICRO_RAM_CTRL MICRO_RA_INIT_MASK MICRO_RA_INIT_SHIFT 2) (\<lambda>_.
          bindE (poll_micro_ra_initdone E) (\<lambda>_.
          bindE (sd_wr_field E PMD_DEV REG_MICRO_RAM_CTRL MICRO_RA_INIT_MASK MICRO_RA_INIT_SHIFT 0) (\<lambda>_.
          bindE (sd_wr_field E PMD_DEV REG_MICRO_RAM_CTRL MICRO_AUTOINC_WR 12 1) (\<lambda>_.
          bindE (sd_wr_field E PMD_DEV REG_MICRO_RAM_CTRL MICRO_WRDATASIZE_MASK 0 1) (\<lambda>_.
          bindE (sd_wr E PMD_DEV REG_MICRO_WRADDR_MSW 0) (\<lambda>_.
          bindE (sd_wr E PMD_DEV REG_MICRO_WRADDR_LSW 0) (\<lambda>_.
          bindE (for_eachE (img_passes img) (\<lambda>i. sd_wr E PMD_DEV REG_MICRO_WRDATA_LSW (img_word img i))) (\<lambda>_.
          bindE (sd_wr_field E PMD_DEV REG_MICRO_RAM_CTRL MICRO_WRDATASIZE_MASK 0 2) (\<lambda>_.
          sd_wr_field E PMD_DEV REG_MICRO_CLK_CTRL MICRO_CORE_CLK_EN 1 1)))))))))) }))))))"

text \<open>One pass of the comparison.\<close>

definition verify_word :: "env \<Rightarrow> u8 list \<Rightarrow> nat \<Rightarrow> ('z, errno + unit) sd" where
  "verify_word E img i =
     bindE (sd_rdc E REG_MICRO_RDDATA_LSW) (\<lambda>got.
       if got \<noteq> img_word img i then do { sd_mark E66B_MK_ERR_SD_UCODE_VERIFY; return (Inl EIO) }
       else return (Inr ()))"

definition merlin_ucode_verify :: "env \<Rightarrow> u8 list \<Rightarrow> ('z, errno + unit) sd" where
  "merlin_ucode_verify E img =
     (if padded img > UCODE_MAX_SIZE then return (Inl EINVAL)
      else
        bindE (sd_wr_field E PMD_DEV REG_MICRO_RAM_CTRL MICRO_AUTOINC_RD 13 1) (\<lambda>_.
        bindE (sd_wr_field E PMD_DEV REG_MICRO_RAM_CTRL MICRO_RDDATASIZE_MASK MICRO_RDDATASIZE_SHIFT 1) (\<lambda>_.
        bindE (sd_wr E PMD_DEV REG_MICRO_RDADDR_MSW 0) (\<lambda>_.
        bindE (sd_wr E PMD_DEV REG_MICRO_RDADDR_LSW 0) (\<lambda>_.
        bindE (for_eachE (img_passes img) (verify_word E img)) (\<lambda>_.
        sd_wr_field E PMD_DEV REG_MICRO_RAM_CTRL MICRO_RDDATASIZE_MASK MICRO_RDDATASIZE_SHIFT 2))))))"

definition merlin_lib_wait_uc_active :: "env \<Rightarrow> ('z, errno + unit) sd" where
  "merlin_lib_wait_uc_active E = do {
     r \<leftarrow> poll_each [0..<10000] (\<lambda>i. do {
       v \<leftarrow> sd_rdc E REG_UC_ACTIVE;
       case v of
         Inl e \<Rightarrow> return (Some (Inl e))
       | Inr v \<Rightarrow>
           if v AND UC_ACTIVE \<noteq> 0 then return (Some (Inr ()))
           else if i > 10 then do { delay_us 1; return None }
           else return None });
     case r of
       Some ret \<Rightarrow> return ret
     | None \<Rightarrow> do { sd_mark E66B_MK_ERR_SD_UC_ACTIVE; return (Inl ETIMEDOUT) } }"

definition merlin_wait_uc_active :: "env \<Rightarrow> ('z, errno + unit) sd" where
  "merlin_wait_uc_active E = do {
     delay_us 12;
     bindE (sd_rdc E REG_UC_ACTIVE) (\<lambda>v.
       if v AND UC_ACTIVE = 0 then do { sd_mark E66B_MK_ERR_SD_UC_ACTIVE; return (Inl EIO) }
       else do {
         delay_us 20;
         delay_us 100000;
         bindE (sd_rdc E REG_DSC_UC_CTRL) (\<lambda>v.
           if v AND DSC_READY_FOR_CMD = 0 then do { sd_mark E66B_MK_ERR_SD_DSC; return (Inl EIO) }
           else if v AND DSC_ERROR_FOUND \<noteq> 0 then do { sd_mark E66B_MK_ERR_SD_DSC; return (Inl EIO) }
           else return (Inr ())) }) }"

definition poll_dsc_ready :: "env \<Rightarrow> nat \<Rightarrow> ('z, errno + unit) sd" where
  "poll_dsc_ready E timeout_ms = do {
     r \<leftarrow> poll_each [0..<100] (\<lambda>i. do {
       v \<leftarrow> sd_rdc E REG_DSC_UC_CTRL;
       case v of
         Inl e \<Rightarrow> return (Some (Inl e))
       | Inr v \<Rightarrow>
           if v AND DSC_READY_FOR_CMD \<noteq> 0 then
             (if v AND DSC_ERROR_FOUND \<noteq> 0 then do { sd_mark E66B_MK_ERR_SD_DSC; return (Some (Inl EIO)) }
              else return (Some (Inr ())))
           else if i > 10 then do { merlin_delay_us (10 * timeout_ms); return None }
           else return None });
     case r of
       Some ret \<Rightarrow> return ret
     | None \<Rightarrow> do { sd_mark E66B_MK_ERR_SD_DSC; return (Inl ETIMEDOUT) } }"

definition merlin_ucode_crc_verify :: "env \<Rightarrow> u16 \<Rightarrow> u16 \<Rightarrow> ('z, errno + unit) sd" where
  "merlin_ucode_crc_verify E len expect =
     bindE (poll_dsc_ready E 1) (\<lambda>_.
     bindE (sd_wr E PMD_DEV REG_DSC_UC_DATA len) (\<lambda>_.
     bindE (sd_wr E PMD_DEV REG_DSC_UC_CTRL CMD_CALC_CRC) (\<lambda>_.
     bindE (poll_dsc_ready E 200) (\<lambda>_.
     bindE (sd_rdc E REG_DSC_UC_DATA) (\<lambda>v.
       if v \<noteq> expect then do { sd_mark E66B_MK_ERR_SD_CRC; return (Inl EIO) }
       else return (Inr ()))))))"

text \<open>The test on the first word of the table: the letters \<^verbatim>\<open>Inf\<close> and a version digit or letter.\<close>

definition info_table_ok :: "u32 \<Rightarrow> bool" where
  "info_table_ok sig =
     (let ver = ucast (drop_bit 24 sig) :: u8 in
      sig AND 0x00ffffff = INFO_TABLE_SIGNATURE \<and>
      ((ver \<ge> 0x32 \<and> ver \<le> 0x39) \<or> (ver \<ge> 0x41 \<and> ver \<le> 0x5a)))"

definition merlin_check_info_table :: "env \<Rightarrow> ('z, errno + unit) sd" where
  "merlin_check_info_table E =
     bindE (sd_wr_field E PMD_DEV REG_MICRO_RAM_CTRL MICRO_AUTOINC_RD 13 1) (\<lambda>_.
     bindE (sd_wr_field E PMD_DEV REG_MICRO_RAM_CTRL MICRO_RDDATASIZE_MASK MICRO_RDDATASIZE_SHIFT 1) (\<lambda>_.
     bindE (sd_wr E PMD_DEV REG_MICRO_RDADDR_MSW 0) (\<lambda>_.
     bindE (sd_wr E PMD_DEV REG_MICRO_RDADDR_LSW INFO_TABLE_RAM_BASE) (\<lambda>_.
     bindE (sd_rd E PMD_DEV REG_MICRO_RDDATA_LSW) (\<lambda>w0.
     bindE (sd_rd E PMD_DEV REG_MICRO_RDDATA_LSW) (\<lambda>w1.
     bindE (sd_wr_field E PMD_DEV REG_MICRO_RAM_CTRL MICRO_RDDATASIZE_MASK MICRO_RDDATASIZE_SHIFT 2) (\<lambda>_.
       if \<not> info_table_ok (push_bit 16 (ucast w1) OR ucast w0)
       then do { sd_mark E66B_MK_ERR_SD_CRC; return (Inl EIO) }
       else return (Inr ()))))))))"

section \<open>Variables in the RAM of the microcontroller, polarity\<close>

definition ram_var :: "env \<Rightarrow> u32 \<Rightarrow> u16 \<Rightarrow> ('z, errno + unit) sd" where
  "ram_var E base word =
     bindE (sd_wr E PMD_DEV REG_MICRO_WRADDR_MSW (ucast (drop_bit 16 base))) (\<lambda>_.
     bindE (sd_wr E PMD_DEV REG_MICRO_WRADDR_LSW (ucast (base AND 0xffff))) (\<lambda>_.
     sd_wr E PMD_DEV REG_MICRO_WRDATA_LSW word))"

definition merlin_cfg_core_ram_var :: "env \<Rightarrow> u16 \<Rightarrow> ('z, errno + unit) sd" where
  "merlin_cfg_core_ram_var E vco_rate = ram_var E (UC_RAM_WINDOW + CORE_VAR_RAM_OFFSET) (push_bit 1 vco_rate)"

definition merlin_cfg_lane_ram_var :: "env \<Rightarrow> ('z, errno + unit) sd" where
  "merlin_cfg_lane_ram_var E = ram_var E (UC_RAM_WINDOW + LANE_VAR_RAM_OFFSET) 0"

definition merlin_xfi_polarity :: "env \<Rightarrow> bool \<Rightarrow> bool \<Rightarrow> ('z, errno + unit) sd" where
  "merlin_xfi_polarity E tx inversed =
     (let reg = (if tx then REG_XFI_TX_POLARITY else REG_XFI_RX_POLARITY) in
      bindE (sd_rdc E reg) (\<lambda>v. sd_wr E PMD_DEV reg ((v AND NOT 1) OR (if inversed then 1 else 0))))"

definition merlin_polarity_config :: "env \<Rightarrow> ('z, errno + unit) sd" where
  "merlin_polarity_config E = do {
     tx \<leftarrow> gets tx_polarity_inverse;
     rx \<leftarrow> gets rx_polarity_inverse;
     bindE (if tx \<noteq> 0 then merlin_xfi_polarity E True True else return (Inr ())) (\<lambda>_.
       if rx \<noteq> 0 then merlin_xfi_polarity E False True else return (Inr ())) }"

section \<open>Core initialisation and speed passes\<close>

definition merlin_core_reset :: "env \<Rightarrow> ('z, errno + unit) sd" where
  "merlin_core_reset E =
     bindE (sd_wr E PMD_DEV REG_CORE_RESET 0) (\<lambda>_. do {
       delay_us 1000;
       bindE (sd_wr E PMD_DEV REG_CORE_RESET 1) (\<lambda>_. do {
         delay_us 1000;
         return (Inr ()) }) })"

definition merlin_core_init :: "env \<Rightarrow> ('z, errno + unit) sd" where
  "merlin_core_init E = do {
     writel EthTop ETHTOP_R2PMI_LP_BCAST_MODE_CNTRL 0;
     merlin_core_reset E }"

definition merlin_load_firmware :: "env \<Rightarrow> u8 list \<Rightarrow> ('z, errno + unit) sd" where
  "merlin_load_firmware E img = do {
     prts \<leftarrow> gets mdio_prts;
     prtad \<leftarrow> gets sd_prtad;
     bindE (if prts \<noteq> 0 then
         bindE (sd_wr_field E PMD_DEV REG_MDIO_MULTI_PRTS 0x8000 15 0) (\<lambda>_.
         sd_wr_field E PMD_DEV REG_MDIO_BRCST_ADDR 0x001f 0 (word_of_int prtad))
       else return (Inr ())) (\<lambda>_.
     bindE (merlin_uc_reset E True) (\<lambda>_. do {
       st \<leftarrow> sd_rdc E REG_MICRO_D225;
       modify (selftest_d225_update (\<lambda>_. rdc_int st));
       bindE (merlin_ucode_load E img) (\<lambda>_. do {
         sd_mark E66B_MK_SD_UCODE_LOADED;
         bindE (merlin_ucode_verify E img) (\<lambda>_. do {
           sd_mark E66B_MK_SD_UCODE_VERIFIED;
           bindE (merlin_uc_reset E False) (\<lambda>_.
           bindE (merlin_lib_wait_uc_active E) (\<lambda>_. do {
             sd_mark E66B_MK_SD_UC_ACTIVE;
             bindE (merlin_ucode_crc_verify E (of_nat (length img)) MERLIN16_UCODE_CRC) (\<lambda>_.
             bindE (merlin_check_info_table E) (\<lambda>_. do {
               sd_mark E66B_MK_SD_UCODE_CRC;
               return (Inr ()) })) })) }) }) })) }"

definition merline_speed_set_core :: "env \<Rightarrow> bool \<Rightarrow> prog_ent list \<Rightarrow> ('z, errno + unit) sd" where
  "merline_speed_set_core E vco_12p5g speed_tbl =
     bindE (restore_regs E) (\<lambda>_.
     bindE (if vco_12p5g then
         bindE (merlin_reg_prog E initialize_12p5_vco) (\<lambda>_. merlin_reg_prog E pmd_setup_80_12p5_vco)
       else merlin_reg_prog E pmd_setup_80_10p3125_vco) (\<lambda>_.
     bindE (merlin_wait_uc_active E) (\<lambda>_.
     bindE (merlin_cfg_core_ram_var E (if vco_12p5g then 28 else 19)) (\<lambda>_.
     bindE (merlin_reg_prog E datapath_reset_core) (\<lambda>_. do {
       sd_mark E66B_MK_SD_CORE_CFG;
       bindE (sd_pmi_wr E PMD_DEV 0xd0a2 0 0xfff0) (\<lambda>_.
       bindE (merlin_cfg_lane_ram_var E) (\<lambda>_.
       bindE (merlin_reg_prog E speed_tbl) (\<lambda>_.
       bindE (merlin_chk_pll_lock E) (\<lambda>_. do {
         sd_mark E66B_MK_SD_LANE_CFG;
         d \<leftarrow> sd_rdc E 0xd128;
         modify (d128_after_lock_update (\<lambda>_. rdc_int d));
         return (Inr ()) })))) })))))"

definition merlin16_serdes_init :: "env \<Rightarrow> u8 list \<Rightarrow> ('z, errno + unit) sd" where
  "merlin16_serdes_init E img = do {
     v \<leftarrow> sd_readl E SD_CONTROL;
     prtad \<leftarrow> gets sd_prtad;
     sd_writel SD_CONTROL (prtad_latch prtad v);
     serdes_access_config True;
     serdes_access_config False;
     serdes_access_config True;
     bindE (merlin_polarity_config E) (\<lambda>_. do {
       modify (saved_regs_update (\<lambda>_. []));
       modify (register_dont_save_update (\<lambda>_. False));
       bindE (merlin_core_init E) (\<lambda>_. do {
         sd_mark E66B_MK_SD_CORE_RESET;
         delay_us 1;
         bindE (merlin_load_firmware E img) (\<lambda>_.
         bindE (merline_speed_set_core E False force_speed_1g) (\<lambda>_.
         merlin_reg_prog E lpi_enable)) }) }) }"

section \<open>Exported calls\<close>

text \<open>The full initialisation, once per core.\<close>

definition serdes_full_init :: "env \<Rightarrow> u8 list \<Rightarrow> ('z, errno + unit) sd" where
  "serdes_full_init E img =
     bindE (merlin16_serdes_init E img) (\<lambda>_.
     bindE (merlin_polarity_config E) (\<lambda>_. do {
       twice \<leftarrow> gets double_init;
       bindE (if twice \<noteq> 0 then merlin16_serdes_init E img else return (Inr ())) (\<lambda>_. do {
         modify (\<lambda>s. s\<lparr>sd_inited_mask := sd_inited_mask s OR BIT (nat (sd_core s))\<rparr>);
         return (Inr ()) }) }))"

text \<open>The part of \<^verbatim>\<open>serdes6764_init_2p5g\<close> between taking the lock and the label \<^verbatim>\<open>out\<close>.\<close>

definition serdes_bringup :: "env \<Rightarrow> u8 list \<Rightarrow> ('z, errno + unit) sd" where
  "serdes_bringup E img = do {
     inited \<leftarrow> gets (\<lambda>s. sd_inited_mask s AND BIT (nat (sd_core s)) \<noteq> 0);
     bindE (if \<not> inited then serdes_full_init E img else return (Inr ())) (\<lambda>_. do {
       vco \<leftarrow> gets p2_vco12p5;
       bindE (merline_speed_set_core E (vco \<noteq> 0) force_speed_2p5g) (\<lambda>_. do {
         tx \<leftarrow> sd_rdc E REG_XFI_TX_POLARITY;
         modify (pol_tx_end_update (\<lambda>_. rdc_int tx));
         rx \<leftarrow> sd_rdc E REG_XFI_RX_POLARITY;
         modify (pol_rx_end_update (\<lambda>_. rdc_int rx));
         again \<leftarrow> gets pol_reapply;
         bindE (if again \<noteq> 0 then merlin_polarity_config E else return (Inr ())) (\<lambda>_. do {
           sd_mark E66B_MK_SD_2P5G;
           d \<leftarrow> sd_rdc E 0xd128;
           modify (d128_end_update (\<lambda>_. rdc_int d));
           st \<leftarrow> sd_readl E SD_STATUS;
           modify (st_end_update (\<lambda>_. st));
           ctrl \<leftarrow> sd_readl E SD_CONTROL;
           modify (ctrl_end_update (\<lambda>_. ctrl));
           return (Inr ()) }) }) }) }"

definition serdes6764_init_2p5g :: "env \<Rightarrow> u8 list \<Rightarrow> ('z, errno + unit) sd" where
  "serdes6764_init_2p5g E img = do {
     mapped \<leftarrow> gets (\<lambda>s. sd_base s \<and> ethtop_base s);
     if \<not> mapped then do { sd_mark E66B_MK_ERR_SD_MAP; return (Inl ENODEV) }
     else do {
       emit (Acq SdLock);
       ret \<leftarrow> serdes_bringup E img;
       modify (init_ret_update (\<lambda>_. cret ret));
       (case ret of
          Inl _ \<Rightarrow> do { st \<leftarrow> sd_readl E SD_STATUS; modify (st_end_update (\<lambda>_. st)) }
        | Inr _ \<Rightarrow> return ());
       emit (Rel SdLock);
       return ret } }"

definition serdes6764_speed_set :: "env \<Rightarrow> int \<Rightarrow> int \<Rightarrow> ('z, errno + unit) sd" where
  "serdes6764_speed_set E core mbps = do {
     mapped \<leftarrow> gets sd_base;
     if core < 0 \<or> core \<ge> SD_MAX_CORES \<or> \<not> mapped then return (Inl EINVAL)
     else do {
       emit (Acq SdLock);
       inited \<leftarrow> gets sd_inited_mask;
       if inited AND BIT (nat core) = 0 then do { emit (Rel SdLock); return (Inl ENODEV) }
       else do {
         save_core \<leftarrow> gets sd_core;
         save_prtad \<leftarrow> gets sd_prtad;
         modify (\<lambda>s. s\<lparr>sd_core := core, sd_prtad := core_prtad core s\<rparr>);
         vco \<leftarrow> gets p2_vco12p5;
         ret \<leftarrow> (if mbps = 2500 then merline_speed_set_core E (vco \<noteq> 0) force_speed_2p5g
                else if mbps = 1000 then merline_speed_set_core E False force_speed_1g
                else return (Inl EINVAL));
         modify (\<lambda>s. s\<lparr>sd_core := save_core, sd_prtad := save_prtad\<rparr>);
         emit (Rel SdLock);
         return ret } } }"

text \<open>The results 1 and 0 of \<^verbatim>\<open>serdes6764_link_up\<close> are \<open>True\<close> and \<open>False\<close>.\<close>

definition serdes6764_link_up :: "env \<Rightarrow> ('z, errno + bool) sd" where
  "serdes6764_link_up E = do {
     mapped \<leftarrow> gets sd_base;
     if \<not> mapped then return (Inl ENODEV)
     else do {
       down \<leftarrow> poll_loop 10 (do {
         an \<leftarrow> sd_readl E SD_AN_STATUS;
         if an AND 1 = 0 then return (Some ())
         else do { delay_us 1000; return None } });
       case down of
         Some _ \<Rightarrow> return (Inr False)
       | None \<Rightarrow> do {
           sp \<leftarrow> poll_loop 10 (do {
             st1 \<leftarrow> sd_readl E SD_STATUS_1;
             if st1 AND 0xffffff \<noteq> 0 then return (Some ())
             else do { delay_us 1000; return None } });
           return (Inr (sp \<noteq> None)) } } }"

definition serdes6764_speed :: "env \<Rightarrow> ('z, int) sd" where
  "serdes6764_speed E = do {
     mapped \<leftarrow> gets sd_base;
     if \<not> mapped then return 0
     else do {
       st1 \<leftarrow> sd_readl E SD_STATUS_1;
       return
         (if st1 AND BIT (SD_S1_SPEED_10G + unat SD_LANE) \<noteq> 0 then 10000
          else if st1 AND BIT (SD_S1_SPEED_5G + unat SD_LANE) \<noteq> 0 then 5000
          else if st1 AND BIT (SD_S1_SPEED_2P5G + unat SD_LANE) \<noteq> 0 then 2500
          else if st1 AND BIT (SD_S1_SPEED_1G + unat SD_LANE) \<noteq> 0 then 1000
          else if st1 AND BIT (SD_S1_SPEED_100M + unat SD_LANE) \<noteq> 0 then 100
          else if st1 AND BIT (SD_S1_SPEED_10M + unat SD_LANE) \<noteq> 0 then 10
          else 0) } }"

section \<open>Module\<close>

definition map_block :: "env \<Rightarrow> string \<Rightarrow> u32 \<Rightarrow> win \<Rightarrow> ('z, bool) sd" where
  "map_block E cstr fallback w = do {
     np \<leftarrow> kcall E (OfFindCompatible cstr);
     if np \<noteq> 0 then do {
       p \<leftarrow> kcall E (OfIomap 0);
       emit (KNote ''of_node_put'' 0);
       return (p \<noteq> 0) }
     else if fallback = 0 then return False
     else do { p \<leftarrow> kcall E (IoRemap w); return (p \<noteq> 0) } }"

text \<open>\<^verbatim>\<open>__ffs\<close>: the number of the lowest bit that is set.\<close>

definition ffs32 :: "u32 \<Rightarrow> nat" where
  "ffs32 w = length (takeWhile (\<lambda>i. \<not> bit w i) [0..<32])"

text \<open>One pass of the loop over the cores; the speed is read for a message.\<close>

definition serdes_core_up :: "env \<Rightarrow> u8 list \<Rightarrow> int \<Rightarrow> int \<Rightarrow> ('z, unit) sd" where
  "serdes_core_up E img primary c = do {
     want \<leftarrow> gets (\<lambda>s. cores s AND BIT (nat c) \<noteq> 0);
     if \<not> want then return ()
     else do {
       modify (\<lambda>s. s\<lparr>sd_core := c, sd_prtad := core_prtad c s\<rparr>);
       ret \<leftarrow> serdes6764_init_2p5g E img;
       case ret of
         Inl _ \<Rightarrow> return ()
       | Inr _ \<Rightarrow> do {
           up \<leftarrow> serdes6764_link_up E;
           if up = Inr True then do {
             (if c = primary then sd_mark E66B_MK_SD_LINK else return ());
             serdes6764_speed E;
             return () }
           else if c = primary then sd_mark E66B_MK_ERR_SD_LINK
           else return () } } }"

definition serdes6764_module_init :: "env \<Rightarrow> u8 list \<Rightarrow> ('z, errno + unit) sd" where
  "serdes6764_module_init E img = do {
     modify (cores_update (\<lambda>c. if c = 0 then 1 else c));
     primary \<leftarrow> gets (\<lambda>s. int (ffs32 (cores s)));
     modify (\<lambda>s. s\<lparr>sd_core := primary, sd_prtad := core_prtad primary s\<rparr>);
     fb \<leftarrow> gets serdes_base_phys;
     b \<leftarrow> map_block E ''brcm,serdes1'' fb Serdes1;
     modify (sd_base_update (\<lambda>_. b));
     if \<not> b then do { sd_mark E66B_MK_ERR_SD_MAP; return (Inl ENODEV) }
     else do {
       fb \<leftarrow> gets ethtop_base_phys;
       t \<leftarrow> map_block E ''brcm,eth-phy-top'' fb EthTop;
       modify (ethtop_base_update (\<lambda>_. t));
       if \<not> t then do {
         sd_mark E66B_MK_ERR_SD_MAP;
         emit (KNote ''iounmap'' 0);
         modify (sd_base_update (\<lambda>_. False));
         return (Inl ENODEV) }
       else do {
         sd_mark E66B_MK_SD_PROBE;
         auto_up \<leftarrow> gets autoinit;
         if auto_up = 0 then return (Inr ())
         else do {
           for_each [0, 1] (serdes_core_up E img primary);
           modify (\<lambda>s. s\<lparr>sd_core := primary, sd_prtad := core_prtad primary s\<rparr>);
           return (Inr ()) } } } }"

definition serdes6764_module_exit :: "('z, unit) sd" where
  "serdes6764_module_exit = do {
     t \<leftarrow> gets ethtop_base;
     (if t then emit (KNote ''iounmap'' 1) else return ());
     b \<leftarrow> gets sd_base;
     (if b then emit (KNote ''iounmap'' 0) else return ());
     modify (\<lambda>s. s\<lparr>ethtop_base := False, sd_base := False\<rparr>) }"

end
