(* ===== verification/Serdes_Regs.thy ===== *)
theory Serdes_Regs
  imports Serdes_Boot
begin

text \<open>
  The SerDes core seen from behind its indirect access window, as a file of 16-bit registers, and the
  refinement of the accessors, the register programs and the speed passes to functions on that file.
\<close>

section \<open>The register file behind the window\<close>

type_synonym pmi = "u16 \<Rightarrow> u16 \<Rightarrow> u16"

definition pmi_upd :: "u16 \<Rightarrow> u16 \<Rightarrow> u16 \<Rightarrow> pmi \<Rightarrow> pmi" where
  "pmi_upd dev reg v R = R(dev := (R dev)(reg := v))"

lemma pmi_upd_apply [simp]: "pmi_upd dev reg v R d r = (if d = dev \<and> r = reg then v else R d r)"
  by (simp add: pmi_upd_def)

definition pmi_masked :: "u16 \<Rightarrow> u16 \<Rightarrow> u16 \<Rightarrow> u16 \<Rightarrow> pmi \<Rightarrow> pmi" where
  "pmi_masked dev reg data keep R = pmi_upd dev reg ((R dev reg AND keep) OR (data AND NOT keep)) R"

text \<open>What the three registers of the window mean: the address word carries the device in its top five
  bits and the register in its low half, the mask word the bits to preserve, and a control word with the
  start bit starts a read or a write.\<close>

definition a_dev :: "u32 \<Rightarrow> u16" where "a_dev a = ucast (drop_bit 27 a)"
definition a_reg :: "u32 \<Rightarrow> u16" where "a_reg a = ucast a"

definition wr_or0 :: "event list \<Rightarrow> nat \<Rightarrow> u32" where
  "wr_or0 L off = (case last_wr L Serdes1 off of Some v \<Rightarrow> v | None \<Rightarrow> 0)"

fun pmi_of :: "nat \<Rightarrow> pmi \<Rightarrow> event list \<Rightarrow> pmi" where
  "pmi_of b R0 [] = R0"
| "pmi_of b R0 (Wr w off v # es) =
     (if w = Serdes1 \<and> off = b + SD_INDIR_ACC_CNTRL \<and> bit v 17 \<and> \<not> bit v 16 then
        pmi_masked (a_dev (wr_or0 es (b + SD_INDIR_ACC_ADDR))) (a_reg (wr_or0 es (b + SD_INDIR_ACC_ADDR)))
          (ucast v) (ucast (wr_or0 es (b + SD_INDIR_ACC_MASK))) (pmi_of b R0 es)
      else pmi_of b R0 es)"
| "pmi_of b R0 (_ # es) = pmi_of b R0 es"

definition no_sd_wr :: "event \<Rightarrow> bool" where
  "no_sd_wr e \<longleftrightarrow> (\<forall>off v. e \<noteq> Wr Serdes1 off v)"

lemma no_sd_wr_simps [simp]:
  "no_sd_wr (Rd w off v)" "no_sd_wr (Mark m)" "no_sd_wr (Delay n)" "no_sd_wr (Acq l)"
  "no_sd_wr (Rel l)" "no_sd_wr (Call c r)" "no_sd_wr (Deliver i bs)" "no_sd_wr (KNote nm i)"
  "no_sd_wr (Wr w off v) = (w \<noteq> Serdes1)"
  by (simp_all add: no_sd_wr_def)

lemma no_sd_wr_append:
  "list_all no_sd_wr evs \<Longrightarrow> pmi_of b R0 (evs @ L) = pmi_of b R0 L \<and> last_wr (evs @ L) Serdes1 off = last_wr L Serdes1 off"
proof (induction evs)
  case (Cons e evs)
  then show ?case by (cases e) auto
qed simp

section \<open>Register programs on the file\<close>

fun apply_tbl :: "prog_ent list \<Rightarrow> pmi \<Rightarrow> pmi" where
  "apply_tbl [] R = R"
| "apply_tbl (SEQ_NEST nest # tbl) R = apply_tbl tbl (apply_tbl nest R)"
| "apply_tbl (SEQ_PLL_LOCK # tbl) R = apply_tbl tbl R"
| "apply_tbl (SEQ_REG dev reg en data # tbl) R = apply_tbl tbl (pmi_masked dev reg data (NOT en) R)"

fun tbl_regs :: "prog_ent list \<Rightarrow> (u16 \<times> u16) list" where
  "tbl_regs [] = []"
| "tbl_regs (SEQ_NEST nest # tbl) = tbl_regs nest @ tbl_regs tbl"
| "tbl_regs (SEQ_PLL_LOCK # tbl) = tbl_regs tbl"
| "tbl_regs (SEQ_REG dev reg en data # tbl) = (dev, reg) # tbl_regs tbl"

lemma apply_tbl_other: "(d, r) \<notin> set (tbl_regs tbl) \<Longrightarrow> apply_tbl tbl R d r = R d r"
  by (induction tbl R rule: apply_tbl.induct) (auto simp: pmi_masked_def)

text \<open>The registers the programs of the driver touch.\<close>

definition prog_regs :: "(u16 \<times> u16) list" where
  "prog_regs = remdups (concat (map tbl_regs [initialize_12p5_vco, pmd_setup_80_12p5_vco, pmd_setup_80_10p3125_vco,
     datapath_reset_core, lpi_enable, force_speed_1g, force_speed_2p5g]))"

lemmas tables = initialize_12p5_vco_def pmd_setup_80_12p5_vco_def pmd_setup_80_10p3125_vco_def
  datapath_reset_core_def datapath_reset_lane_def lpi_enable_def force_speed_1g_def force_speed_2p5g_def

lemma prog_regs_sets:
  "set (tbl_regs initialize_12p5_vco) \<subseteq> set prog_regs" "set (tbl_regs pmd_setup_80_12p5_vco) \<subseteq> set prog_regs"
  "set (tbl_regs pmd_setup_80_10p3125_vco) \<subseteq> set prog_regs" "set (tbl_regs datapath_reset_core) \<subseteq> set prog_regs"
  "set (tbl_regs lpi_enable) \<subseteq> set prog_regs" "set (tbl_regs force_speed_1g) \<subseteq> set prog_regs"
  "set (tbl_regs force_speed_2p5g) \<subseteq> set prog_regs"
  by (auto simp: prog_regs_def)

lemma prog_regs_length: "length prog_regs < SAVE_MAX"
  unfolding prog_regs_def tables by code_simp

lemma prog_regs_dev: "(d, r) \<in> set prog_regs \<Longrightarrow> d < 32"
proof -
  have "list_all (\<lambda>(d, r). d < 32) prog_regs" unfolding prog_regs_def tables by code_simp
  then show "(d, r) \<in> set prog_regs \<Longrightarrow> d < 32" by (auto simp: list_all_iff)
qed

section \<open>A core that works\<close>

definition readable :: "u16 \<Rightarrow> u16 \<Rightarrow> bool" where
  "readable d r \<longleftrightarrow> (d, r) \<in> set prog_regs \<or> d = PMD_DEV \<and> r = REG_DSC_UC_CTRL"

text \<open>\<open>sd_works c R0 E\<close>: the window of core \<open>c\<close> is never busy when it is read, the PLL is locked, and a read of a
  register of the programs or of the command interface returns what the file holds.\<close>

definition sd_works :: "int \<Rightarrow> pmi \<Rightarrow> env \<Rightarrow> bool" where
  "sd_works c R0 E \<longleftrightarrow> (let b = nat c * SD_CORE_STRIDE in
     (\<forall>L. \<not> bit (env_rd E L Serdes1 (b + SD_INDIR_ACC_CNTRL)) 17 \<and> bit (env_rd E L Serdes1 (b + SD_STATUS)) 3) \<and>
     (\<forall>L d r v. last_wr L Serdes1 (b + SD_INDIR_ACC_ADDR) = Some (sd_acc_addr d r) \<and>
        last_wr L Serdes1 (b + SD_INDIR_ACC_CNTRL) = Some v \<and> bit v 16 \<and>
        readable d r \<longrightarrow>
        ucast (env_rd E L Serdes1 (b + SD_INDIR_ACC_CNTRL)) = pmi_of b R0 L d r))"

text \<open>The fields of the state that a speed pass does not change.\<close>

definition sd_same :: "'z serdes_world_scheme \<Rightarrow> 'z serdes_world_scheme \<Rightarrow> bool" where
  "sd_same s t \<longleftrightarrow> t\<lparr>io_log := [], saved_regs := [], sd_last_mark := 0, d128_after_lock := 0\<rparr> =
     s\<lparr>io_log := [], saved_regs := [], sd_last_mark := 0, d128_after_lock := 0\<rparr>"

lemma sd_same_refl [simp]: "sd_same s s"
  by (simp add: sd_same_def)

lemma sd_same_upd [simp]:
  "sd_same s (io_log_update f t) = sd_same s t" "sd_same s (saved_regs_update g t) = sd_same s t"
  "sd_same s (sd_last_mark_update h t) = sd_same s t" "sd_same s (d128_after_lock_update k t) = sd_same s t"
  "sd_same (io_log_update f s) t = sd_same s t"
  by (simp_all add: sd_same_def)

lemma sd_same_fields:
  assumes "sd_same s t"
  shows "sd_core t = sd_core s" "hw_mask t = hw_mask s" "poll_busy t = poll_busy s" "acc_delay_us t = acc_delay_us s"
    "register_dont_save t = register_dont_save s" "sd_prtad t = sd_prtad s" "p2_vco12p5 t = p2_vco12p5 s"
    "sd_inited_mask t = sd_inited_mask s" "sd_base t = sd_base s" "prtad_override t = prtad_override s"
proof -
  note A = assms [unfolded sd_same_def]
  show "sd_core t = sd_core s" using arg_cong [OF A, of sd_core] by simp
  show "hw_mask t = hw_mask s" using arg_cong [OF A, of hw_mask] by simp
  show "poll_busy t = poll_busy s" using arg_cong [OF A, of poll_busy] by simp
  show "acc_delay_us t = acc_delay_us s" using arg_cong [OF A, of acc_delay_us] by simp
  show "register_dont_save t = register_dont_save s" using arg_cong [OF A, of register_dont_save] by simp
  show "sd_prtad t = sd_prtad s" using arg_cong [OF A, of sd_prtad] by simp
  show "p2_vco12p5 t = p2_vco12p5 s" using arg_cong [OF A, of p2_vco12p5] by simp
  show "sd_inited_mask t = sd_inited_mask s" using arg_cong [OF A, of sd_inited_mask] by simp
  show "sd_base t = sd_base s" using arg_cong [OF A, of sd_base] by simp
  show "prtad_override t = prtad_override s" using arg_cong [OF A, of prtad_override] by simp
qed

text \<open>In state \<open>t\<close> the file of the addressed core is \<open>R\<close>, and \<open>sv\<close> is saved.\<close>

definition at_pmi :: "pmi \<Rightarrow> 'z serdes_world_scheme \<Rightarrow> pmi \<Rightarrow> (u16 \<times> u16 \<times> u16) list \<Rightarrow> 'z serdes_world_scheme \<Rightarrow> bool" where
  "at_pmi R0 s R sv t \<longleftrightarrow> sd_same s t \<and> saved_regs t = sv \<and> pmi_of (sd_reg 0 s) R0 (io_log t) = R"

lemma at_pmi_D:
  assumes "at_pmi R0 s R sv t"
  shows "sd_same s t" "saved_regs t = sv" "pmi_of (sd_reg 0 t) R0 (io_log t) = R" "sd_reg off t = sd_reg off s"
proof -
  from assms show *: "sd_same s t" "saved_regs t = sv" by (simp_all add: at_pmi_def)
  show r: "sd_reg off t = sd_reg off s" for off using sd_same_fields(1) [OF *(1)] by (simp add: sd_reg_def)
  show "pmi_of (sd_reg 0 t) R0 (io_log t) = R" using assms r [of 0] by (simp add: at_pmi_def)
qed

text \<open>Waiting for the window, the delay and the lock of the PLL neither write to the window nor fail.\<close>

lemma at_pmi_grows:
  assumes "grows no_sd_wr t u" and "at_pmi R0 s R sv t"
  shows "at_pmi R0 s R sv u"
  using assms no_sd_wr_append [of _ _ R0] by (auto simp: grows_def at_pmi_def)

lemma sd_works_D:
  assumes "sd_works (sd_core s) R0 E"
  shows "\<not> bit (env_rd E L Serdes1 (sd_reg SD_INDIR_ACC_CNTRL s)) 17" "bit (env_rd E L Serdes1 (sd_reg SD_STATUS s)) 3"
    "last_wr L Serdes1 (sd_reg SD_INDIR_ACC_ADDR s) = Some (sd_acc_addr d r) \<Longrightarrow>
       last_wr L Serdes1 (sd_reg SD_INDIR_ACC_CNTRL s) = Some v \<Longrightarrow> bit v 16 \<Longrightarrow>
       readable d r \<Longrightarrow>
       ucast (env_rd E L Serdes1 (sd_reg SD_INDIR_ACC_CNTRL s)) = pmi_of (sd_reg 0 s) R0 L d r"
  using assms unfolding sd_works_def Let_def sd_reg_def by auto

lemma sd_acc_wait_works:
  assumes "sd_works (sd_core s) R0 E"
  shows "wp (sd_acc_wait E) (\<lambda>r t. r = Inr () \<and> grows no_sd_wr s t) s"
proof (cases "poll_busy s = 0")
  case True
  then show ?thesis by (simp add: sd_acc_wait_def wp_simps)
next
  case False
  have "\<not> bit (env_rd E L Serdes1 (sd_reg SD_INDIR_ACC_CNTRL s)) 17" for L using sd_works_D(1) [OF assms] .
  then show ?thesis
    using False unfolding sd_acc_wait_def wp_bind wp_emit wp_gets
    by (simp add: wp_bind, intro wp_poll_first)
      (simp_all add: wp_simps sd_readl_def and_BIT_eq_0_iff sd_reg_def)
qed

lemma acc_delay_grows: "wp acc_delay (\<lambda>_ t. grows no_sd_wr s t) s"
  by (simp add: acc_delay_def wp_simps)

lemma acc_addr_reg: "a_reg (sd_acc_addr d r) = r"
  unfolding a_reg_def sd_acc_addr_def by (rule bit_word_eqI) (auto simp: bit_simps)

lemma acc_addr_dev:
  assumes "d < 32"
  shows "a_dev (sd_acc_addr d r) = d"
proof -
  have d: "i < 5" if "bit d i" for i using less_2p_not_bit [of d 5 i] assms that by (cases "i < 5") auto
  have r: "\<not> bit r i" if "i \<ge> 16" for i using bit_imp_le_length [of r i] that by auto
  show ?thesis
    unfolding a_dev_def sd_acc_addr_def
    by (rule bit_word_eqI) (use r in \<open>auto simp: bit_simps dest: d\<close>)
qed

lemma bit_hi_half: "bit (0xffff0000 :: u32) i \<longleftrightarrow> 16 \<le> i \<and> i < 32"
proof -
  have "bit (push_bit 16 (mask 16) :: u32) i \<longleftrightarrow> 16 \<le> i \<and> i < 32" unfolding bit_push_bit_iff bit_mask_iff by auto
  then show ?thesis by (simp add: mask_eq_exp_minus_1 push_bit_eq_mult)
qed

lemma cntrl_word:
  "ucast (BIT 18 OR (BIT 17 OR ucast data) :: u32) = (data :: u16)"
  "bit (BIT 18 OR (BIT 17 OR ucast data) :: u32) 17" "\<not> bit (BIT 18 OR (BIT 17 OR ucast data) :: u32) 16"
  "ucast (0xffff0000 OR ucast keep :: u32) = (keep :: u16)"
proof -
  show "ucast (BIT 18 OR (BIT 17 OR ucast data) :: u32) = data"
    by (rule bit_word_eqI) (auto simp: bit_simps)
  show "bit (BIT 18 OR (BIT 17 OR ucast data) :: u32) 17" by (simp add: bit_simps)
  show "\<not> bit (BIT 18 OR (BIT 17 OR ucast data) :: u32) 16"
    using bit_imp_le_length [of data 16] by (auto simp: bit_simps)
  show "ucast (0xffff0000 OR ucast keep :: u32) = keep"
    by (rule bit_word_eqI, unfold bit_ucast_iff bit_or_iff bit_hi_half) auto
qed

lemma access_done:
  assumes E: "sd_works (sd_core s) R0 E" and t: "at_pmi R0 s R sv t"
  shows "wp (do { acc_delay; sd_acc_wait E }) (\<lambda>x u. x = Inr () \<and> at_pmi R0 s R sv u \<and> grows no_sd_wr t u) t"
  unfolding wp_bind
proof (rule wp_mono [OF acc_delay_grows])
  fix x :: unit and u
  assume u: "grows no_sd_wr t u"
  note a = at_pmi_grows [OF u t]
  have w: "sd_works (sd_core u) R0 E" using E sd_same_fields(1) [OF at_pmi_D(1) [OF a]] by simp
  show "wp (sd_acc_wait E) (\<lambda>x v. x = Inr () \<and> at_pmi R0 s R sv v \<and> grows no_sd_wr t v) u"
    by (rule wp_mono [OF sd_acc_wait_works [OF w]]) (use u a in \<open>auto intro: at_pmi_grows grows_trans\<close>)
qed

lemma sd_pmi_wr_pmi:
  assumes E: "sd_works (sd_core s) R0 E" and t: "at_pmi R0 s R sv t" and d: "d < 32"
  shows "wp (sd_pmi_wr E d r data keep) (\<lambda>x u. x = Inr () \<and> at_pmi R0 s (pmi_masked d r data keep R) sv u) t"
proof -
  note T = at_pmi_D [OF t]
  let ?u = "t\<lparr>io_log := Wr Serdes1 (sd_reg SD_INDIR_ACC_CNTRL t) (SD_ACC_DELAYED_ACK OR SD_ACC_START_BUSY OR ucast data) #
     Wr Serdes1 (sd_reg SD_INDIR_ACC_MASK t) (0xffff0000 OR ucast keep) # Wr Serdes1 (sd_reg SD_INDIR_ACC_ADDR t) (sd_acc_addr d r) # io_log t\<rparr>"
  have u: "at_pmi R0 s (pmi_masked d r data keep R) sv ?u"
    using T by (simp add: at_pmi_def cntrl_word sd_reg_def wr_or0_def acc_addr_dev [OF d] acc_addr_reg or.assoc)
  have "wp (do { acc_delay; sd_acc_wait E }) (\<lambda>x u. x = Inr () \<and> at_pmi R0 s (pmi_masked d r data keep R) sv u) ?u"
    by (rule wp_mono [OF access_done [OF E u]]) simp
  then show ?thesis by (simp add: sd_pmi_wr_def sd_writel_def wp_simps sd_reg_def)
qed

lemma sd_rd_any:
  assumes E: "sd_works (sd_core s) R0 E" and t: "at_pmi R0 s R sv t"
  shows "wp (sd_rd E d r) (\<lambda>x u. (\<exists>v. x = Inr v \<and>
     (readable d r \<longrightarrow> v = R d r)) \<and> at_pmi R0 s R sv u) t"
proof -
  note T = at_pmi_D [OF t]
  let ?cmd = "SD_ACC_DELAYED_ACK OR SD_ACC_START_BUSY OR SD_ACC_RW"
  let ?u = "t\<lparr>io_log := Wr Serdes1 (sd_reg SD_INDIR_ACC_CNTRL t) ?cmd # Wr Serdes1 (sd_reg SD_INDIR_ACC_ADDR t) (sd_acc_addr d r) # io_log t\<rparr>"
  have c: "bit ?cmd 16" by (simp add: bit_simps)
  have u: "at_pmi R0 s R sv ?u" using T c by (simp add: at_pmi_def sd_reg_def)
  have fin: "at_pmi R0 s R sv (w\<lparr>io_log := Rd Serdes1 off x # io_log w\<rparr>) \<and>
      (readable d r \<longrightarrow>
        ucast (env_rd E (io_log w) Serdes1 (sd_reg SD_INDIR_ACC_CNTRL w) AND 0xffff) = R d r)"
    if w: "at_pmi R0 s R sv w" "grows no_sd_wr ?u w" for w off x
  proof -
    note W = at_pmi_D [OF w(1)]
    from w(2) obtain evs where evs: "list_all no_sd_wr evs" "io_log w = evs @ io_log ?u" by (auto simp: grows_def)
    note L = no_sd_wr_append [OF evs(1), of _ R0 "io_log ?u", THEN conjunct2]
    have l: "last_wr (io_log w) Serdes1 (sd_reg SD_INDIR_ACC_ADDR s) = Some (sd_acc_addr d r)"
      "last_wr (io_log w) Serdes1 (sd_reg SD_INDIR_ACC_CNTRL s) = Some ?cmd"
      using L T(4) by (simp_all add: evs(2) sd_reg_def)
    have "R = pmi_of (sd_reg 0 s) R0 (io_log w)" using w(1) by (simp add: at_pmi_def)
    moreover have "ucast (x AND 0xffff) = (ucast x :: u16)" for x :: u32
      by (rule bit_word_eqI, unfold bit_ucast_iff bit_and_iff bit_ffff_iff) auto
    ultimately show ?thesis using w(1) sd_works_D(3) [OF E l c] W(4) by (auto simp: at_pmi_def)
  qed
  have "wp (do { acc_delay; bindE (sd_acc_wait E) (\<lambda>_. do {
       v \<leftarrow> sd_readl E SD_INDIR_ACC_CNTRL;
       return (Inr (ucast (v AND SD_ACC_DATA_MASK))) }) }) (\<lambda>x u. (\<exists>v. x = Inr v \<and>
     (readable d r \<longrightarrow> v = R d r)) \<and> at_pmi R0 s R sv u) ?u"
    using access_done [OF E u, unfolded wp_bind] unfolding wp_bind wp_bindE
    by (elim wp_mono) (use fin in \<open>simp add: wp_simps sd_readl_def\<close>)
  then show ?thesis by (simp add: sd_rd_def sd_writel_def wp_simps sd_reg_def)
qed

lemma sd_rd_pmi:
  assumes "sd_works (sd_core s) R0 E" and "at_pmi R0 s R sv t" and "readable d r"
  shows "wp (sd_rd E d r) (\<lambda>x u. x = Inr (R d r) \<and> at_pmi R0 s R sv u) t"
  by (rule wp_mono [OF sd_rd_any [OF assms(1,2)]]) (use assms(3) in auto)

lemma pll_lock_pmi:
  assumes E: "sd_works (sd_core s) R0 E" and t: "at_pmi R0 s R sv t"
  shows "wp (merlin_chk_pll_lock E) (\<lambda>x u. x = Inr () \<and> at_pmi R0 s R sv u) t"
proof -
  have "bit (env_rd E L Serdes1 (sd_reg SD_STATUS t)) 3" for L using sd_works_D(2) [OF E] at_pmi_D(4) [OF t] by simp
  then show ?thesis
    using t unfolding merlin_chk_pll_lock_def wp_bind
    by (intro wp_poll_first) (simp_all add: wp_simps sd_readl_def and_BIT_eq_0_iff sd_reg_def at_pmi_def)
qed

section \<open>Saving and restoring\<close>

text \<open>The file \<open>R\<close> with the saved values put back.\<close>

definition put_back :: "(u16 \<times> u16 \<times> u16) list \<Rightarrow> pmi \<Rightarrow> pmi" where
  "put_back sv R = fold (\<lambda>(d, r, v). pmi_upd d r v) sv R"

definition keys :: "(u16 \<times> u16 \<times> u16) list \<Rightarrow> (u16 \<times> u16) list" where
  "keys sv = map (\<lambda>(d, r, v). (d, r)) sv"

definition saved_ok :: "(u16 \<times> u16 \<times> u16) list \<Rightarrow> bool" where
  "saved_ok sv \<longleftrightarrow> distinct (keys sv) \<and> set (keys sv) \<subseteq> set prog_regs"

lemma keys_simps [simp]: "keys [] = []" "keys ((d, r, v) # sv) = (d, r) # keys sv" "keys (a @ b) = keys a @ keys b"
  by (simp_all add: keys_def)

lemma put_back_simps [simp]:
  "put_back [] R = R" "put_back ((d, r, v) # sv) R = put_back sv (pmi_upd d r v R)" "put_back (a @ b) R = put_back b (put_back a R)"
  by (simp_all add: put_back_def)

lemma put_back_key: "(d, r) \<in> set (keys sv) \<Longrightarrow> put_back sv R d r = put_back sv R' d r"
  by (induction sv arbitrary: R R' rule: rev_induct) auto

lemma put_back_other: "(d, r) \<notin> set (keys sv) \<Longrightarrow> put_back sv R d r = R d r"
  by (induction sv arbitrary: R rule: rev_induct) auto

text \<open>Writing a saved register does not change what is put back; saving a register does not either.\<close>

lemma put_back_upd_key: "(d, r) \<in> set (keys sv) \<Longrightarrow> put_back sv (pmi_upd d r v R) = put_back sv R"
proof (intro ext)
  fix d' r'
  assume "(d, r) \<in> set (keys sv)"
  then show "put_back sv (pmi_upd d r v R) d' r' = put_back sv R d' r'"
    by (cases "(d', r') \<in> set (keys sv)") (auto simp: put_back_other intro: put_back_key)
qed

lemma put_back_save: "(d, r) \<notin> set (keys sv) \<Longrightarrow> put_back (sv @ [(d, r, R d r)]) R = put_back sv R"
  by (intro ext) (auto simp: put_back_other)

lemma put_back_upd_other: "(d, r) \<notin> set (keys sv) \<Longrightarrow> put_back sv (pmi_upd d r v R) = pmi_upd d r v (put_back sv R)"
proof (intro ext)
  fix d' r'
  assume "(d, r) \<notin> set (keys sv)"
  then show "put_back sv (pmi_upd d r v R) d' r' = pmi_upd d r v (put_back sv R) d' r'"
    by (cases "(d', r') \<in> set (keys sv)") (auto simp: put_back_other intro: put_back_key)
qed

lemma saved_room:
  assumes "saved_ok sv" and "(d, r) \<in> set prog_regs" and "(d, r) \<notin> set (keys sv)"
  shows "length sv < SAVE_MAX" and "saved_ok (sv @ [(d, r, v)])"
proof -
  have "length (keys sv) = card (set (keys sv))" using assms(1) by (simp add: saved_ok_def distinct_card)
  also have "\<dots> \<le> card (set prog_regs)" using assms(1) by (intro card_mono) (auto simp: saved_ok_def)
  also have "\<dots> \<le> length prog_regs" by (rule card_length)
  finally show "length sv < SAVE_MAX" using prog_regs_length by (simp add: keys_def)
  show "saved_ok (sv @ [(d, r, v)])" using assms by (auto simp: saved_ok_def)
qed

lemma save_reg_pmi:
  assumes E: "sd_works (sd_core s) R0 E" and t: "at_pmi R0 s R sv t" and k: "(d, r) \<in> set prog_regs"
    and ok: "saved_ok sv" and on: "\<not> register_dont_save s"
  shows "wp (save_reg E d r) (\<lambda>_ u. \<exists>sv'. at_pmi R0 s R sv' u \<and> saved_ok sv' \<and> (d, r) \<in> set (keys sv') \<and> put_back sv' R = put_back sv R) t"
proof -
  note T = at_pmi_D [OF t]
  have ex: "list_ex (\<lambda>(d', r', v). d' = d \<and> r' = r) sv \<longleftrightarrow> (d, r) \<in> set (keys sv)"
    by (force simp: list_ex_iff keys_def)
  show ?thesis
  proof (cases "(d, r) \<in> set (keys sv)")
    case True
    with T on sd_same_fields(5) [OF T(1)] t ok ex show ?thesis by (auto simp: save_reg_def wp_simps)
  next
    case False
    note room = saved_room [OF ok k False]
    have "wp (sd_rd E d r) (\<lambda>x u. x = Inr (R d r) \<and> at_pmi R0 s R sv u) t" by (rule sd_rd_pmi [OF E t]) (simp add: k readable_def)
    then have "wp (do { ret \<leftarrow> sd_rd E d r; case ret of Inl _ \<Rightarrow> return () | Inr v \<Rightarrow> modify (saved_regs_update (\<lambda>rs. rs @ [(d, r, v)])) })
        (\<lambda>_ u. at_pmi R0 s R (sv @ [(d, r, R d r)]) u) t"
      unfolding wp_bind by (elim wp_mono) (auto simp: wp_simps at_pmi_def)
    then show ?thesis
      using False T on sd_same_fields(5) [OF T(1)] ex room(1)
      by (simp add: save_reg_def wp_gets wp_bind, elim wp_mono) (use room put_back_save [OF False, of R] in auto)
  qed
qed

lemma reg_prog_pmi:
  assumes E: "sd_works (sd_core s) R0 E" and on: "\<not> register_dont_save s"
  shows "at_pmi R0 s R sv t \<Longrightarrow> saved_ok sv \<Longrightarrow> set (tbl_regs tbl) \<subseteq> set prog_regs \<Longrightarrow>
    wp (merlin_reg_prog E tbl) (\<lambda>x u. x = Inr () \<and> (\<exists>sv'. at_pmi R0 s (apply_tbl tbl R) sv' u \<and> saved_ok sv' \<and>
       put_back sv' (apply_tbl tbl R) = put_back sv R)) t"
proof (induction tbl arbitrary: R sv t rule: tbl_regs.induct)
  case 1
  then show ?case by (auto simp: wp_return)
next
  case (2 nest tbl)
  show ?case unfolding merlin_reg_prog.simps
    by (rule wp_bindE_Inr [OF 2(1) [OF 2(3,4)]]) (use 2(2,5) in \<open>force+\<close>)
next
  case (3 tbl)
  show ?case unfolding merlin_reg_prog.simps
    by (rule wp_bindE_Inr [OF pll_lock_pmi [OF E 3(2)]]) (use 3 in simp)
next
  case (4 d r en data tbl)
  have k: "(d, r) \<in> set prog_regs" using 4(4) by simp
  let ?R = "pmi_masked d r data (NOT en) R"
  have "wp (bindE (sd_pmi_wr E d r data (NOT en)) (\<lambda>_. merlin_reg_prog E tbl))
      (\<lambda>x u. x = Inr () \<and> (\<exists>sv'. at_pmi R0 s (apply_tbl tbl ?R) sv' u \<and> saved_ok sv' \<and>
       put_back sv' (apply_tbl tbl ?R) = put_back sv R)) u"
    if u: "at_pmi R0 s R sv' u" "saved_ok sv'" "(d, r) \<in> set (keys sv')" "put_back sv' R = put_back sv R" for sv' u
  proof (rule wp_bindE_Inr [OF sd_pmi_wr_pmi [OF E u(1) prog_regs_dev [OF k]]])
    fix w
    assume w: "at_pmi R0 s ?R sv' w"
    have "put_back sv' ?R = put_back sv R" using u(3,4) by (simp add: pmi_masked_def put_back_upd_key)
    with 4(1) [OF w u(2)] 4(4) show "wp (merlin_reg_prog E tbl) (\<lambda>x u. x = Inr () \<and> (\<exists>sv'. at_pmi R0 s (apply_tbl tbl ?R) sv' u \<and> saved_ok sv' \<and>
       put_back sv' (apply_tbl tbl ?R) = put_back sv R)) w" by simp
  qed
  then show ?case unfolding merlin_reg_prog.simps wp_bind
    by (intro wp_mono [OF save_reg_pmi [OF E 4(2) k 4(3) on]]) auto
qed

text \<open>What \<^verbatim>\<open>restore_regs\<close> leaves: everything saved is put back, and the lane reset ends up released if it was
  released before.\<close>

definition restored :: "(u16 \<times> u16 \<times> u16) list \<Rightarrow> pmi \<Rightarrow> pmi" where
  "restored sv R = (let B = put_back sv R in pmi_upd PMD_DEV REG_LANE_DP_RSTB (B PMD_DEV REG_LANE_DP_RSTB OR (R PMD_DEV REG_LANE_DP_RSTB AND 1)) B)"

lemma sd_wr_pmi:
  assumes "sd_works (sd_core s) R0 E" and "at_pmi R0 s R sv t" and "d < 32"
  shows "wp (sd_wr E d r v) (\<lambda>x u. x = Inr () \<and> at_pmi R0 s (pmi_upd d r v R) sv u) t"
  using sd_pmi_wr_pmi [OF assms, of r v 0] by (simp add: sd_wr_def pmi_masked_def)

lemma put_back_loop:
  assumes E: "sd_works (sd_core s) R0 E"
  shows "at_pmi R0 s R sv t \<Longrightarrow> set (keys xs) \<subseteq> set prog_regs \<Longrightarrow>
    wp (for_eachE xs (\<lambda>(d, r, v). sd_wr E d r v)) (\<lambda>x u. x = Inr () \<and> at_pmi R0 s (put_back xs R) sv u) t"
proof (induction xs arbitrary: R t)
  case (Cons x xs)
  obtain d r v where x: "x = (d, r, v)" by (cases x)
  then have "d < 32" using Cons.prems(2) prog_regs_dev [of d r] by simp
  from wp_bindE_Inr [OF sd_wr_pmi [OF E Cons.prems(1) this] Cons.IH] Cons.prems(2)
  show ?case by (simp add: x)
qed (simp add: wp_return)

lemma lane_reg: "(PMD_DEV, REG_LANE_DP_RSTB) \<in> set prog_regs"
  unfolding prog_regs_def tables by simp

lemma at_pmi_clear: "at_pmi R0 s R sv t \<Longrightarrow> at_pmi R0 s R [] (t\<lparr>saved_regs := []\<rparr>)"
  by (simp add: at_pmi_def)

lemma low_bit:
  "(x AND 0xfffe) OR (1 AND NOT 0xfffe) = x OR 1" "x AND 1 \<noteq> 0 \<longleftrightarrow> bit x 0" for x :: u16
proof -
  have b: "bit (0xfffe :: u16) i \<longleftrightarrow> 0 < i \<and> i < 16" for i
  proof -
    have "bit (push_bit 1 (mask 15) :: u16) i \<longleftrightarrow> 0 < i \<and> i < 16" unfolding bit_push_bit_iff bit_mask_iff by auto
    then show ?thesis by (simp add: mask_eq_exp_minus_1 push_bit_eq_mult)
  qed
  show "(x AND 0xfffe) OR (1 AND NOT 0xfffe) = x OR 1"
    by (rule bit_word_eqI, unfold bit_or_iff bit_and_iff bit_not_iff b bit_1_iff) auto
  show "x AND 1 \<noteq> 0 \<longleftrightarrow> bit x 0" using and_BIT_eq_0_iff [of 0 x] by (simp add: BIT_def)
qed

lemma restored_masked:
  assumes "R PMD_DEV REG_LANE_DP_RSTB AND 1 \<noteq> 0"
  shows "restored sv R = pmi_masked PMD_DEV REG_LANE_DP_RSTB 1 0xfffe (put_back sv (pmi_masked PMD_DEV REG_LANE_DP_RSTB 0 0xfffe R))"
proof -
  have one: "R PMD_DEV REG_LANE_DP_RSTB AND 1 = 1"
    using assms low_bit(2) [of "R PMD_DEV REG_LANE_DP_RSTB"] by (intro bit_word_eqI) (auto simp: bit_simps)
  have m: "(x AND 0xfffe) OR 1 = x OR 1" for x :: u16
    using low_bit(1) [of x] low_bit(1) [of "x AND 0xfffe"] by (simp add: and.assoc)
  show ?thesis
  proof (cases "(PMD_DEV, REG_LANE_DP_RSTB) \<in> set (keys sv)")
    case True
    then show ?thesis by (simp add: restored_def Let_def pmi_masked_def put_back_upd_key low_bit(1) m one)
  next
    case False
    then show ?thesis
      by (simp add: restored_def Let_def pmi_masked_def put_back_upd_other put_back_other low_bit(1) m one)
        (simp add: pmi_upd_def)
  qed
qed

lemma restore_regs_pmi:
  assumes E: "sd_works (sd_core s) R0 E" and t: "at_pmi R0 s R sv t" and ok: "saved_ok sv"
  shows "wp (restore_regs E) (\<lambda>x u. x = Inr () \<and> at_pmi R0 s (restored sv R) [] u) t"
proof -
  let ?D = "R PMD_DEV REG_LANE_DP_RSTB"
  have rest: "wp (do { saved \<leftarrow> gets saved_regs;
         bindE (for_eachE saved (\<lambda>(dev, reg, val). sd_wr E dev reg val)) (\<lambda>_.
         bindE (if c then sd_pmi_wr E PMD_DEV REG_LANE_DP_RSTB 1 0xfffe else return (Inr ())) (\<lambda>_. do {
           modify (saved_regs_update (\<lambda>_. []));
           return (Inr ()) })) })
      (\<lambda>x u. x = Inr () \<and> at_pmi R0 s ((if c then pmi_masked PMD_DEV REG_LANE_DP_RSTB 1 0xfffe else id) (put_back sv Q)) [] u) u"
    if u: "at_pmi R0 s Q sv u" for c Q u
  proof -
    have l: "wp (for_eachE sv (\<lambda>(dev, reg, val). sd_wr E dev reg val)) (\<lambda>x u. x = Inr () \<and> at_pmi R0 s (put_back sv Q) sv u) u"
      using put_back_loop [OF E u, of sv] ok by (simp add: saved_ok_def)
    show ?thesis
      unfolding wp_bind wp_gets at_pmi_D(2) [OF u]
      by (rule wp_bindE_Inr [OF l], cases c)
        (simp_all add: wp_bind wp_modify wp_return wp_bindE at_pmi_clear, rule wp_mono [OF sd_pmi_wr_pmi [OF E]],
          auto simp: wp_simps at_pmi_clear)
  qed
  show ?thesis
  proof (cases "?D AND 1 = 0")
    case True
    then have "restored sv R = put_back sv R" by (simp add: restored_def Let_def pmi_upd_def)
    then show ?thesis
      unfolding restore_regs_def sd_rdc_def Let_def
      by (intro wp_bindE_Inr [OF sd_rd_pmi [OF E t]])
        (use True rest [of R _ False] lane_reg in \<open>auto simp: wp_simps readable_def\<close>)
  next
    case False
    let ?Q = "pmi_masked PMD_DEV REG_LANE_DP_RSTB 0 0xfffe R"
    have "restored sv R = pmi_masked PMD_DEV REG_LANE_DP_RSTB 1 0xfffe (put_back sv ?Q)"
      using restored_masked [of R sv] False by simp
    then show ?thesis
      unfolding restore_regs_def sd_rdc_def Let_def
      by (intro wp_bindE_Inr [OF sd_rd_pmi [OF E t]])
        (use False rest [of ?Q _ True] lane_reg in \<open>auto simp: readable_def intro!: wp_bindE_Inr [OF sd_pmi_wr_pmi [OF E]]\<close>)
  qed
qed

section \<open>A speed pass\<close>

text \<open>What a pass makes of the file: \<open>B\<close> is the file with everything that was saved put back.\<close>

definition ram_file :: "u32 \<Rightarrow> u16 \<Rightarrow> pmi \<Rightarrow> pmi" where
  "ram_file base w R = pmi_upd PMD_DEV REG_MICRO_WRDATA_LSW w (pmi_upd PMD_DEV REG_MICRO_WRADDR_LSW (ucast (base AND 0xffff))
     (pmi_upd PMD_DEV REG_MICRO_WRADDR_MSW (ucast (drop_bit 16 base)) R))"

definition vco_file :: "bool \<Rightarrow> pmi \<Rightarrow> pmi" where
  "vco_file vco B = (if vco then apply_tbl pmd_setup_80_12p5_vco (apply_tbl initialize_12p5_vco B)
     else apply_tbl pmd_setup_80_10p3125_vco B)"

definition core_word :: "bool \<Rightarrow> u16" where
  "core_word vco = push_bit 1 (if vco then 28 else 19)"

definition rate_file :: "bool \<Rightarrow> prog_ent list \<Rightarrow> pmi \<Rightarrow> pmi" where
  "rate_file vco tbl B = apply_tbl tbl (ram_file (UC_RAM_WINDOW + LANE_VAR_RAM_OFFSET) 0 (pmi_masked PMD_DEV 0xd0a2 0 0xfff0
     (apply_tbl datapath_reset_core (ram_file (UC_RAM_WINDOW + CORE_VAR_RAM_OFFSET) (core_word vco) (vco_file vco B)))))"

text \<open>The part of a pass that is not saved.\<close>

definition raw_file :: "bool \<Rightarrow> pmi \<Rightarrow> pmi" where
  "raw_file vco B = ram_file (UC_RAM_WINDOW + LANE_VAR_RAM_OFFSET) 0 (pmi_masked PMD_DEV 0xd0a2 0 0xfff0 (ram_file (UC_RAM_WINDOW + CORE_VAR_RAM_OFFSET) (core_word vco) B))"

definition uc_ready :: "pmi \<Rightarrow> bool" where
  "uc_ready R \<longleftrightarrow> bit (R PMD_DEV REG_UC_ACTIVE) 15 \<and> bit (R PMD_DEV REG_DSC_UC_CTRL) 7 \<and> \<not> bit (R PMD_DEV REG_DSC_UC_CTRL) 6"

lemma ram_var_pmi:
  assumes E: "sd_works (sd_core s) R0 E" and t: "at_pmi R0 s R sv t"
  shows "wp (ram_var E base w) (\<lambda>x u. x = Inr () \<and> at_pmi R0 s (ram_file base w R) sv u) t"
  unfolding ram_var_def ram_file_def
  by (rule wp_bindE_Inr [OF sd_wr_pmi [OF E t]], simp, rule wp_bindE_Inr [OF sd_wr_pmi [OF E]], assumption, simp,
      rule sd_wr_pmi [OF E], assumption, simp)

lemma sd_mark_pmi: "at_pmi R0 s R sv t \<Longrightarrow> wp (sd_mark m) (\<lambda>_ u. at_pmi R0 s R sv u) t"
  by (simp add: sd_mark_def wp_simps at_pmi_def)

lemma uc_active_reg: "(PMD_DEV, REG_UC_ACTIVE) \<in> set prog_regs"
  unfolding prog_regs_def tables by simp

lemma wait_uc_pmi:
  assumes E: "sd_works (sd_core s) R0 E" and t: "at_pmi R0 s R sv t" and ok: "uc_ready R"
  shows "wp (merlin_wait_uc_active E) (\<lambda>x u. x = Inr () \<and> at_pmi R0 s R sv u) t"
proof -
  have log: "at_pmi R0 s R sv (u\<lparr>io_log := e # io_log u\<rparr>)" if "at_pmi R0 s R sv u" "no_sd_wr e" for u e
    using that no_sd_wr_append [of "[e]" _ R0 "io_log u"] by (simp add: at_pmi_def)
  have rd: "wp (sd_rdc E r) (\<lambda>x u. x = Inr (R PMD_DEV r) \<and> at_pmi R0 s R sv u) u"
    if "at_pmi R0 s R sv u" "r = REG_UC_ACTIVE \<or> r = REG_DSC_UC_CTRL" for u r
    unfolding sd_rdc_def by (rule sd_rd_pmi [OF E that(1)]) (use that(2) uc_active_reg in \<open>auto simp: readable_def\<close>)
  have bits: "R PMD_DEV REG_UC_ACTIVE AND BIT 15 \<noteq> 0" "R PMD_DEV REG_DSC_UC_CTRL AND BIT 7 \<noteq> 0" "R PMD_DEV REG_DSC_UC_CTRL AND BIT 6 = 0"
    using ok by (simp_all add: uc_ready_def and_BIT_eq_0_iff)
  show ?thesis
    unfolding merlin_wait_uc_active_def wp_bind wp_emit
  proof (rule wp_bindE_Inr [OF rd])
    fix u
    assume u: "at_pmi R0 s R sv u"
    have "wp (bindE (sd_rdc E REG_DSC_UC_CTRL) (\<lambda>v.
           if v AND DSC_READY_FOR_CMD = 0 then do { sd_mark E66B_MK_ERR_SD_DSC; return (Inl EIO) }
           else if v AND DSC_ERROR_FOUND \<noteq> 0 then do { sd_mark E66B_MK_ERR_SD_DSC; return (Inl EIO) }
           else return (Inr ()))) (\<lambda>x u. x = Inr () \<and> at_pmi R0 s R sv u) (u\<lparr>io_log := Delay 100000 # Delay 20 # io_log u\<rparr>)"
      by (rule wp_bindE_Inr [OF rd]) (use log [OF log [OF u, of "Delay 20"], of "Delay 100000"] bits in \<open>simp_all add: wp_return\<close>)
    then show "wp (if R PMD_DEV REG_UC_ACTIVE AND UC_ACTIVE = 0 then do { sd_mark E66B_MK_ERR_SD_UC_ACTIVE; return (Inl EIO) }
       else do { delay_us 20; delay_us 100000; bindE (sd_rdc E REG_DSC_UC_CTRL) (\<lambda>v.
           if v AND DSC_READY_FOR_CMD = 0 then do { sd_mark E66B_MK_ERR_SD_DSC; return (Inl EIO) }
           else if v AND DSC_ERROR_FOUND \<noteq> 0 then do { sd_mark E66B_MK_ERR_SD_DSC; return (Inl EIO) }
           else return (Inr ())) }) (\<lambda>x u. x = Inr () \<and> at_pmi R0 s R sv u) u"
      using bits(1) by (simp add: wp_bind wp_emit)
  qed (use log [OF t, of "Delay 12"] in simp_all)
qed

lemma raw_regs_free:
  "saved_ok sv \<Longrightarrow> (PMD_DEV, REG_MICRO_WRDATA_LSW) \<notin> set (keys sv) \<and> (PMD_DEV, REG_MICRO_WRADDR_LSW) \<notin> set (keys sv) \<and>
     (PMD_DEV, REG_MICRO_WRADDR_MSW) \<notin> set (keys sv) \<and> (PMD_DEV, 0xd0a2) \<notin> set (keys sv)"
proof -
  have "list_all (\<lambda>k. k \<notin> set prog_regs) [(PMD_DEV, REG_MICRO_WRDATA_LSW), (PMD_DEV, REG_MICRO_WRADDR_LSW),
     (PMD_DEV, REG_MICRO_WRADDR_MSW), (PMD_DEV, 0xd0a2)]"
    unfolding prog_regs_def tables by simp
  then show "saved_ok sv \<Longrightarrow> ?thesis" unfolding saved_ok_def by auto
qed

lemma put_back_ram: "saved_ok sv \<Longrightarrow> put_back sv (ram_file base w R) = ram_file base w (put_back sv R)"
  using raw_regs_free [of sv] by (simp add: ram_file_def put_back_upd_other)

lemma put_back_masked: "(d, r) \<notin> set (keys sv) \<Longrightarrow> put_back sv (pmi_masked d r v k R) = pmi_masked d r v k (put_back sv R)"
  by (simp add: pmi_masked_def put_back_upd_other put_back_other)

text \<open>The programs touch neither bit 15 of the status register nor the command interface.\<close>

lemma vco_ready: "uc_ready B \<Longrightarrow> uc_ready (vco_file vco B)"
proof -
  have "vco_file vco B PMD_DEV REG_DSC_UC_CTRL = B PMD_DEV REG_DSC_UC_CTRL"
    by (simp add: vco_file_def tables pmi_masked_def)
  moreover have "vco_file vco B PMD_DEV REG_UC_ACTIVE = B PMD_DEV REG_UC_ACTIVE AND NOT (BIT 13)"
    by (simp add: vco_file_def tables pmi_masked_def BIT_def)
  ultimately show "uc_ready B \<Longrightarrow> ?thesis" by (simp add: uc_ready_def bit_simps)
qed

text \<open>A pass depends on the file it starts from only outside the registers it always sets.\<close>

definition raw_regs :: "(u16 \<times> u16) list" where
  "raw_regs = [(PMD_DEV, REG_MICRO_WRDATA_LSW), (PMD_DEV, REG_MICRO_WRADDR_LSW), (PMD_DEV, REG_MICRO_WRADDR_MSW)]"

definition agree :: "pmi \<Rightarrow> pmi \<Rightarrow> bool" where
  "agree A B \<longleftrightarrow> (\<forall>d r. (d, r) \<notin> set raw_regs \<longrightarrow> (d, r) \<noteq> (PMD_DEV, 0xd0a2) \<longrightarrow> (d, r) \<noteq> (PMD_DEV, REG_LANE_DP_RSTB) \<longrightarrow> A d r = B d r) \<and>
     A PMD_DEV 0xd0a2 AND 0xfff0 = B PMD_DEV 0xd0a2 AND 0xfff0 \<and>
     A PMD_DEV REG_LANE_DP_RSTB AND NOT 1 = B PMD_DEV REG_LANE_DP_RSTB AND NOT 1"

lemma masked_point: "A d r = B d r \<Longrightarrow> pmi_masked a b v k A d r = pmi_masked a b v k B d r"
  by (auto simp: pmi_masked_def)

lemma ram_file_point: "A d r = B d r \<Longrightarrow> ram_file base w A d r = ram_file base w B d r"
  by (simp add: ram_file_def)

lemma apply_tbl_point: "A d r = B d r \<Longrightarrow> apply_tbl tbl A d r = apply_tbl tbl B d r"
proof (induction tbl arbitrary: A B rule: tbl_regs.induct)
  case (4 dev reg en data tbl)
  show ?case using 4(1) [of "pmi_masked dev reg data (NOT en) A" "pmi_masked dev reg data (NOT en) B"] masked_point [of A d r B] 4(2) by simp
next
  case (2 nest tbl)
  show ?case using 2(2) [of "apply_tbl nest A" "apply_tbl nest B"] 2(1) [of A B] 2(3) by simp
next
  case (3 tbl)
  show ?case using 3(1) [of A B] 3(2) by simp
next
  case 1
  then show ?case by simp
qed

lemma rate_file_point: "A d r = B d r \<Longrightarrow> rate_file vco tbl A d r = rate_file vco tbl B d r"
  unfolding rate_file_def vco_file_def
  by (intro apply_tbl_point ram_file_point masked_point) (auto intro!: apply_tbl_point)

lemma raw_not_prog: "(d, r) \<in> set raw_regs \<Longrightarrow> (d, r) \<notin> set prog_regs" "(PMD_DEV, 0xd0a2) \<notin> set prog_regs"
proof -
  have "list_all (\<lambda>k. k \<notin> set prog_regs) ((PMD_DEV, 0xd0a2) # raw_regs)"
    unfolding raw_regs_def prog_regs_def tables by simp
  then show "(d, r) \<in> set raw_regs \<Longrightarrow> (d, r) \<notin> set prog_regs" "(PMD_DEV, 0xd0a2) \<notin> set prog_regs"
    by (auto simp: list_all_iff)
qed

lemma rate_file_agree:
  assumes AB: "agree A B" and tbl: "tbl = force_speed_1g \<or> tbl = force_speed_2p5g"
  shows "rate_file vco tbl A = rate_file vco tbl B"
proof (intro ext)
  fix d r
  have in_prog: "set (tbl_regs tbl) \<subseteq> set prog_regs" using tbl prog_regs_sets by auto
  consider (raw) "(d, r) \<in> set raw_regs" | (nib) "(d, r) = (PMD_DEV, 0xd0a2)" | (lane) "(d, r) = (PMD_DEV, REG_LANE_DP_RSTB)"
    | (other) "(d, r) \<notin> set raw_regs" "(d, r) \<noteq> (PMD_DEV, 0xd0a2)" "(d, r) \<noteq> (PMD_DEV, REG_LANE_DP_RSTB)" by blast
  then show "rate_file vco tbl A d r = rate_file vco tbl B d r"
  proof cases
    case raw
    then show ?thesis unfolding rate_file_def by (intro apply_tbl_point) (auto simp: ram_file_def raw_regs_def)
  next
    case nib
    have "vco_file vco X PMD_DEV 0xd0a2 = X PMD_DEV 0xd0a2" "apply_tbl datapath_reset_core X PMD_DEV 0xd0a2 = X PMD_DEV 0xd0a2" for X
      by (simp_all add: vco_file_def tables pmi_masked_def)
    then show ?thesis using nib AB unfolding rate_file_def
      by (intro apply_tbl_point) (auto simp: ram_file_def pmi_masked_def agree_def)
  next
    case lane
    have l: "apply_tbl tbl X PMD_DEV REG_LANE_DP_RSTB = (X PMD_DEV REG_LANE_DP_RSTB AND NOT 1) OR 1" for X
      using tbl by (auto simp: force_speed_1g_def force_speed_2p5g_def datapath_reset_lane_def pmi_masked_def)
    have "vco_file vco X PMD_DEV REG_LANE_DP_RSTB = X PMD_DEV REG_LANE_DP_RSTB"
      "apply_tbl datapath_reset_core X PMD_DEV REG_LANE_DP_RSTB = X PMD_DEV REG_LANE_DP_RSTB" for X
      by (simp_all add: vco_file_def tables pmi_masked_def)
    then show ?thesis using lane AB unfolding rate_file_def by (simp add: l ram_file_def pmi_masked_def agree_def)
  next
    case other
    then show ?thesis using AB by (intro rate_file_point) (simp add: agree_def)
  qed
qed

lemma agree_restored:
  assumes "put_back sv R = raw_file vco B"
  shows "agree (restored sv R) B"
proof -
  have n: "((x AND 0xfff0) OR (0 AND NOT 0xfff0)) AND 0xfff0 = x AND 0xfff0" for x :: u16 by (simp add: and.assoc)
  have l: "(x OR (y AND 1)) AND NOT 1 = x AND NOT 1" for x y :: u16 by (rule bit_word_eqI) (auto simp: bit_simps)
  show ?thesis unfolding agree_def restored_def Let_def assms
    by (auto simp: raw_regs_def raw_file_def ram_file_def pmi_masked_def n l [simplified])
qed

text \<open>\<open>pass_at R0 s Q B u\<close>: the file is \<open>Q\<close>, and putting back what is saved would make it \<open>B\<close>.\<close>

definition pass_at :: "pmi \<Rightarrow> 'z serdes_world_scheme \<Rightarrow> pmi \<Rightarrow> pmi \<Rightarrow> 'z serdes_world_scheme \<Rightarrow> bool" where
  "pass_at R0 s Q B u \<longleftrightarrow> (\<exists>sv. at_pmi R0 s Q sv u \<and> saved_ok sv \<and> put_back sv Q = B)"

lemma pass_lift:
  assumes "\<And>sv. at_pmi R0 s Q sv u \<Longrightarrow> wp m (\<lambda>x w. x = v \<and> at_pmi R0 s (g Q) sv w) u"
    and "\<And>sv. saved_ok sv \<Longrightarrow> put_back sv (g Q) = g (put_back sv Q)" and "pass_at R0 s Q B u"
  shows "wp m (\<lambda>x w. x = v \<and> pass_at R0 s (g Q) (g B) w) u"
proof -
  from assms(3) obtain sv where sv: "at_pmi R0 s Q sv u" "saved_ok sv" "put_back sv Q = B" by (auto simp: pass_at_def)
  show ?thesis by (rule wp_mono [OF assms(1) [OF sv(1)]]) (use sv assms(2) [OF sv(2)] in \<open>auto simp: pass_at_def\<close>)
qed

lemmas pass_keep = pass_lift [where g = "\<lambda>Q. Q"]

lemma reg_prog_pass:
  assumes E: "sd_works (sd_core s) R0 E" "\<not> register_dont_save s" and "pass_at R0 s Q B u" and "set (tbl_regs tb) \<subseteq> set prog_regs"
  shows "wp (merlin_reg_prog E tb) (\<lambda>x w. x = Inr () \<and> pass_at R0 s (apply_tbl tb Q) B w) u"
proof -
  from assms(3) obtain sv where sv: "at_pmi R0 s Q sv u" "saved_ok sv" "put_back sv Q = B" by (auto simp: pass_at_def)
  show ?thesis by (rule wp_mono [OF reg_prog_pmi [OF E sv(1,2) assms(4)]]) (use sv(3) in \<open>auto simp: pass_at_def\<close>)
qed

lemma d128_pass:
  assumes E: "sd_works (sd_core s) R0 E" and u: "pass_at R0 s Q B u"
  shows "wp (do { d \<leftarrow> sd_rdc E 0xd128; modify (d128_after_lock_update (\<lambda>_. rdc_int d)); return (Inr ()) })
    (\<lambda>x w. x = Inr () \<and> pass_at R0 s Q B w) u"
proof -
  from u obtain sv where sv: "at_pmi R0 s Q sv u" "saved_ok sv" "put_back sv Q = B" by (auto simp: pass_at_def)
  have "at_pmi R0 s Q sv (w\<lparr>d128_after_lock := k\<rparr>)" if "at_pmi R0 s Q sv w" for w k
    using that by (simp add: at_pmi_def)
  then show ?thesis unfolding sd_rdc_def wp_bind
    by (intro wp_mono [OF sd_rd_any [OF E sv(1)]]) (use sv(2,3) in \<open>auto simp: wp_simps pass_at_def\<close>)
qed

lemma vco_pass:
  assumes E: "sd_works (sd_core s) R0 E" "\<not> register_dont_save s" and "pass_at R0 s Q B u"
  shows "wp (if vco then bindE (merlin_reg_prog E initialize_12p5_vco) (\<lambda>_. merlin_reg_prog E pmd_setup_80_12p5_vco)
       else merlin_reg_prog E pmd_setup_80_10p3125_vco) (\<lambda>x w. x = Inr () \<and> pass_at R0 s (vco_file vco Q) B w) u"
  unfolding vco_file_def using assms(3)
  by (auto intro!: wp_bindE_Inr [OF reg_prog_pass [OF E]] reg_prog_pass [OF E] prog_regs_sets)

lemma speed_pass_pmi:
  assumes E: "sd_works (sd_core s) R0 E" and on: "\<not> register_dont_save s" and t: "at_pmi R0 s R sv t" and ok: "saved_ok sv"
    and tbl: "set (tbl_regs tbl) \<subseteq> set prog_regs" and uc: "uc_ready (restored sv R)"
  shows "wp (merline_speed_set_core E vco tbl) (\<lambda>x u. x = Inr () \<and>
     pass_at R0 s (rate_file vco tbl (restored sv R)) (raw_file vco (restored sv R)) u) t"
proof -
  let ?B = "restored sv R"
  note prog = reg_prog_pass [OF E on]
  have start: "wp (restore_regs E) (\<lambda>x u. x = Inr () \<and> pass_at R0 s ?B ?B u) t"
    by (rule wp_mono [OF restore_regs_pmi [OF E t ok]]) (auto simp: pass_at_def saved_ok_def)
  have uc': "wp (merlin_wait_uc_active E) (\<lambda>x u. x = Inr () \<and> pass_at R0 s (vco_file vco ?B) B u) u"
    if "pass_at R0 s (vco_file vco ?B) B u" for B u
    by (rule pass_keep [OF wait_uc_pmi [OF E _ vco_ready [OF uc]] _ that]) simp_all
  have mk: "wp (sd_mark m) (\<lambda>x u. x = () \<and> pass_at R0 s Q B u) u" if "pass_at R0 s Q B u" for Q B u m
    by (rule pass_keep [OF _ _ that]) (simp_all add: sd_mark_pmi)
  have ram: "wp (ram_var E base w) (\<lambda>x u. x = Inr () \<and> pass_at R0 s (ram_file base w Q) (ram_file base w B) u) u"
    if "pass_at R0 s Q B u" for Q B u base w
    by (rule pass_lift [OF ram_var_pmi [OF E] put_back_ram that])
  have nib: "wp (sd_pmi_wr E PMD_DEV 0xd0a2 0 0xfff0) (\<lambda>x u. x = Inr () \<and>
      pass_at R0 s (pmi_masked PMD_DEV 0xd0a2 0 0xfff0 Q) (pmi_masked PMD_DEV 0xd0a2 0 0xfff0 B) u) u" if "pass_at R0 s Q B u" for Q B u
    by (rule pass_lift [OF sd_pmi_wr_pmi [OF E] put_back_masked that]) (simp_all add: raw_regs_free)
  have pll: "wp (merlin_chk_pll_lock E) (\<lambda>x u. x = Inr () \<and> pass_at R0 s Q B u) u" if "pass_at R0 s Q B u" for Q B u
    by (rule pass_keep [OF pll_lock_pmi [OF E] _ that]) simp_all
  show ?thesis
    unfolding merline_speed_set_core_def merlin_cfg_core_ram_var_def merlin_cfg_lane_ram_var_def rate_file_def raw_file_def core_word_def
    apply (rule wp_bindE_Inr [OF start], rule wp_bindE_Inr [OF vco_pass [OF E on]], assumption, rule wp_bindE_Inr [OF uc'], assumption)
    apply (rule wp_bindE_Inr [OF ram], assumption, rule wp_bindE_Inr [OF prog], assumption, rule prog_regs_sets)
    apply (rule wp_seq [OF mk], assumption, elim conjE)
    apply (rule wp_bindE_Inr [OF nib], assumption, rule wp_bindE_Inr [OF ram], assumption, rule wp_bindE_Inr [OF prog], assumption, rule tbl)
    apply (rule wp_bindE_Inr [OF pll], assumption, rule wp_seq [OF mk], assumption, elim conjE)
    apply (rule d128_pass [OF E], assumption)
    done
qed

end
