(* ===== verification/Serdes_Log.thy ===== *)
theory Serdes_Log
  imports Serdes_Boot
begin

text \<open>
  What the SerDes driver adds to the log, as an interface: a property of logs that survives the accesses to
  the registers of one core survives every function of the driver that works on that core.  The locale
  \<open>link_log\<close> has what the link test needs, \<open>core_log\<close> extends it to the functions that run under the lock.
\<close>

text \<open>The fields that none of these functions changes.\<close>

type_synonym sd_frame = "int \<times> u32 \<times> int \<times> bool \<times> bool"

definition frame :: "'z serdes_world_scheme \<Rightarrow> sd_frame" where
  "frame s = (sd_prtad s, cores s, prtad_override s, sd_base s, ethtop_base s)"

definition log_inv :: "int \<Rightarrow> sd_frame \<Rightarrow> (event list \<Rightarrow> bool) \<Rightarrow> 'z serdes_world_scheme \<Rightarrow> bool" where
  "log_inv c p P s \<longleftrightarrow> sd_core s = c \<and> frame s = p \<and> P (io_log s)"

lemma log_inv_upd [simp]:
  "log_inv c p P (sd_last_mark_update f1 s) = log_inv c p P s" "log_inv c p P (saved_regs_update f2 s) = log_inv c p P s"
  "log_inv c p P (register_dont_save_update f3 s) = log_inv c p P s" "log_inv c p P (selftest_d202_update f4 s) = log_inv c p P s"
  "log_inv c p P (selftest_d225_update f4 s) = log_inv c p P s" "log_inv c p P (d128_after_lock_update f4 s) = log_inv c p P s"
  "log_inv c p P (d128_end_update f4 s) = log_inv c p P s" "log_inv c p P (pol_tx_end_update f4 s) = log_inv c p P s"
  "log_inv c p P (pol_rx_end_update f4 s) = log_inv c p P s" "log_inv c p P (init_ret_update f4 s) = log_inv c p P s"
  "log_inv c p P (st_end_update f5 s) = log_inv c p P s" "log_inv c p P (ctrl_end_update f5 s) = log_inv c p P s"
  "log_inv c p P (sd_inited_mask_update f5 s) = log_inv c p P s"
  by (simp_all add: log_inv_def frame_def)

locale link_log =
  fixes c :: int and p :: sd_frame and P :: "event list \<Rightarrow> bool"
  assumes rd_link: "P L \<Longrightarrow> off = SD_AN_STATUS \<or> off = SD_STATUS_1 \<Longrightarrow> P (Rd Serdes1 (nat c * SD_CORE_STRIDE + off) v # L)"
    and delayed: "P L \<Longrightarrow> P (Delay n # L)"
    and marked: "P L \<Longrightarrow> P (Mark m # L)"
begin

lemma k_delay: "keeps (log_inv c p P) (delay_us n)"
  by (rule keeps_emit) (simp add: log_inv_def frame_def delayed)

lemma k_mark: "keeps (log_inv c p P) (sd_mark m)"
  unfolding sd_mark_def by (intro keeps_bind keeps_modify keeps_emit) (simp_all add: log_inv_def frame_def marked)

lemma k_rd_link: "off = SD_AN_STATUS \<or> off = SD_STATUS_1 \<Longrightarrow> keeps (log_inv c p P) (sd_readl E off)"
  by (rule keepsI) (simp add: sd_readl_def wp_simps sd_reg_def log_inv_def frame_def rd_link)

lemmas k_link = k_delay k_mark k_rd_link keeps_rules

lemma k_link_up: "keeps (log_inv c p P) (serdes6764_link_up E)"
  unfolding serdes6764_link_up_def by (intro k_link) simp_all

lemma k_speed: "keeps (log_inv c p P) (serdes6764_speed E)"
  unfolding serdes6764_speed_def by (intro k_link) simp_all

end

locale core_log = link_log +
  assumes rd_core: "P L \<Longrightarrow> off = SD_CONTROL \<or> off = SD_STATUS \<or> off = SD_INDIR_ACC_CNTRL \<Longrightarrow>
       P (Rd Serdes1 (nat c * SD_CORE_STRIDE + off) v # L)"
    and wr_core: "P L \<Longrightarrow> off = SD_CONTROL \<or> off = SD_INDIR_ACC_ADDR \<or> off = SD_INDIR_ACC_MASK \<or> off = SD_INDIR_ACC_CNTRL \<Longrightarrow>
       P (Wr Serdes1 (nat c * SD_CORE_STRIDE + off) v # L)"
    and wr_top: "P L \<Longrightarrow> P (Wr EthTop ETHTOP_R2PMI_LP_BCAST_MODE_CNTRL v # L)"
begin

lemma k_rd_core: "off = SD_CONTROL \<or> off = SD_STATUS \<or> off = SD_INDIR_ACC_CNTRL \<Longrightarrow> keeps (log_inv c p P) (sd_readl E off)"
  by (rule keepsI) (simp add: sd_readl_def wp_simps sd_reg_def log_inv_def frame_def rd_core)

lemma k_wr_core:
  "off = SD_CONTROL \<or> off = SD_INDIR_ACC_ADDR \<or> off = SD_INDIR_ACC_MASK \<or> off = SD_INDIR_ACC_CNTRL \<Longrightarrow>
     keeps (log_inv c p P) (sd_writel off v)"
  by (rule keepsI) (simp add: sd_writel_def wp_simps sd_reg_def log_inv_def frame_def wr_core)

lemma k_upd:
  "keeps (log_inv c p P) (modify (saved_regs_update f2))" "keeps (log_inv c p P) (modify (register_dont_save_update f3))"
  "keeps (log_inv c p P) (modify (selftest_d202_update f4))" "keeps (log_inv c p P) (modify (selftest_d225_update f4))"
  "keeps (log_inv c p P) (modify (d128_after_lock_update f4))" "keeps (log_inv c p P) (modify (d128_end_update f4))"
  "keeps (log_inv c p P) (modify (pol_tx_end_update f4))" "keeps (log_inv c p P) (modify (pol_rx_end_update f4))"
  "keeps (log_inv c p P) (modify (init_ret_update f4))" "keeps (log_inv c p P) (modify (st_end_update f5))"
  "keeps (log_inv c p P) (modify (ctrl_end_update f5))"
  by (simp_all add: keeps_modify)

lemmas k_base = k_rd_core k_wr_core k_upd k_link

lemma k_acc_delay: "keeps (log_inv c p P) acc_delay"
  unfolding acc_delay_def by (intro k_base)

lemma k_acc_wait: "keeps (log_inv c p P) (sd_acc_wait E)"
  unfolding sd_acc_wait_def by (intro k_base) simp_all

lemma k_pmi_wr: "keeps (log_inv c p P) (sd_pmi_wr E d r v k)"
  unfolding sd_pmi_wr_def by (intro k_base k_acc_delay k_acc_wait) simp_all

lemma k_wr: "keeps (log_inv c p P) (sd_wr E d r v)"
  unfolding sd_wr_def by (rule k_pmi_wr)

lemma k_rd: "keeps (log_inv c p P) (sd_rd E d r)"
  unfolding sd_rd_def by (intro k_base k_acc_delay k_acc_wait) simp_all

lemma k_rdc: "keeps (log_inv c p P) (sd_rdc E r)"
  unfolding sd_rdc_def by (rule k_rd)

lemma k_wr_field: "keeps (log_inv c p P) (sd_wr_field E d r mk sh v)"
  unfolding sd_wr_field_def by (intro k_base k_pmi_wr k_rd)

lemma k_mdelay: "keeps (log_inv c p P) (merlin_delay_us us)"
  unfolding merlin_delay_us_def by (intro k_base)

lemmas k_access = k_pmi_wr k_wr k_rd k_rdc k_wr_field k_mdelay k_base

lemma k_save: "keeps (log_inv c p P) (save_reg E d r)"
  unfolding save_reg_def by (intro k_access)

lemma k_restore: "keeps (log_inv c p P) (restore_regs E)"
  unfolding restore_regs_def by (intro k_access)

lemma k_pll: "keeps (log_inv c p P) (merlin_chk_pll_lock E)"
  unfolding merlin_chk_pll_lock_def by (intro k_access) simp_all

lemma k_reg_prog: "keeps (log_inv c p P) (merlin_reg_prog E tbl)"
  by (induction tbl rule: merlin_reg_prog.induct) (auto intro!: k_access k_save k_pll)

lemma k_config: "keeps (log_inv c p P) (serdes_access_config b)"
  unfolding serdes_access_config_def by (intro k_access) simp_all

lemma k_uc_reset: "keeps (log_inv c p P) (merlin_uc_reset E b)"
  unfolding merlin_uc_reset_def by (intro k_access)

lemma k_initdone: "keeps (log_inv c p P) (poll_micro_ra_initdone E)"
  unfolding poll_micro_ra_initdone_def by (intro k_access)

lemma k_ucode_load: "keeps (log_inv c p P) (merlin_ucode_load E img)"
  unfolding merlin_ucode_load_def by (intro k_access k_initdone)

lemma k_ucode_verify: "keeps (log_inv c p P) (merlin_ucode_verify E img)"
  unfolding merlin_ucode_verify_def verify_word_def by (intro k_access)

lemma k_lib_wait: "keeps (log_inv c p P) (merlin_lib_wait_uc_active E)"
  unfolding merlin_lib_wait_uc_active_def by (intro k_access)

lemma k_wait_uc: "keeps (log_inv c p P) (merlin_wait_uc_active E)"
  unfolding merlin_wait_uc_active_def by (intro k_access)

lemma k_dsc: "keeps (log_inv c p P) (poll_dsc_ready E n)"
  unfolding poll_dsc_ready_def by (intro k_access)

lemma k_crc: "keeps (log_inv c p P) (merlin_ucode_crc_verify E len x)"
  unfolding merlin_ucode_crc_verify_def by (intro k_access k_dsc)

lemma k_info: "keeps (log_inv c p P) (merlin_check_info_table E)"
  unfolding merlin_check_info_table_def by (intro k_access)

lemma k_ram_var: "keeps (log_inv c p P) (ram_var E base w)"
  unfolding ram_var_def by (intro k_access)

lemma k_polarity: "keeps (log_inv c p P) (merlin_polarity_config E)"
  unfolding merlin_polarity_config_def merlin_xfi_polarity_def by (intro k_access)

lemma k_core_init: "keeps (log_inv c p P) (merlin_core_init E)"
proof -
  have "keeps (log_inv c p P) (writel EthTop ETHTOP_R2PMI_LP_BCAST_MODE_CNTRL 0)"
    by (rule keeps_emit) (simp add: log_inv_def frame_def wr_top)
  then show ?thesis unfolding merlin_core_init_def merlin_core_reset_def by (intro k_access)
qed

lemma k_firmware: "keeps (log_inv c p P) (merlin_load_firmware E img)"
  unfolding merlin_load_firmware_def
  by (intro k_access k_uc_reset k_ucode_load k_ucode_verify k_lib_wait k_crc k_info)

lemma k_speed_set_core: "keeps (log_inv c p P) (merline_speed_set_core E b tbl)"
  unfolding merline_speed_set_core_def merlin_cfg_core_ram_var_def merlin_cfg_lane_ram_var_def
  by (intro k_access k_restore k_reg_prog k_wait_uc k_ram_var k_pll)

lemma k_serdes_init: "keeps (log_inv c p P) (merlin16_serdes_init E img)"
  unfolding merlin16_serdes_init_def
  by (intro k_access k_config k_polarity k_core_init k_firmware k_speed_set_core k_reg_prog) simp_all

lemma k_bringup: "keeps (log_inv c p P) (serdes_bringup E img)"
proof -
  have "keeps (log_inv c p P) (modify (\<lambda>s. s\<lparr>sd_inited_mask := sd_inited_mask s OR BIT (nat (sd_core s))\<rparr>))"
    by (rule keeps_modify) (simp add: log_inv_def frame_def)
  then show ?thesis unfolding serdes_bringup_def serdes_full_init_def
    by (intro k_access k_serdes_init k_polarity k_speed_set_core) simp_all
qed

end

text \<open>A world for examples: core 0 alone, without the settle delay.\<close>

definition sd_boot :: serdes_world where
  "sd_boot = \<lparr>io_log = [], sd_core = 0, sd_prtad = 6, cores = 1, serdes_base_phys = 0, ethtop_base_phys = 0, prtad_override = 0,
     acc_delay_us = 0, strict_busy = 0, tx_polarity_inverse = 0, rx_polarity_inverse = 1, p2_vco12p5 = 1, autoinit = 1,
     double_init = 1, mdio_prts = 1, pol_reapply = 1, poll_busy = 0, hw_mask = 1, init_ret = 0, selftest_d225 = 0,
     selftest_d202 = 0, pol_tx_end = 0, pol_rx_end = 0, d128_after_lock = 0, d128_end = 0, st_end = 0, ctrl_end = 0,
     sd_last_mark = 0, sd_base = True, ethtop_base = True, sd_inited_mask = 0, saved_regs = [], register_dont_save = False\<rparr>"

end
