(* ===== verification/Serdes_Props.thy ===== *)
theory Serdes_Props
  imports Serdes_Regs Serdes_Log
begin

text \<open>
  The properties of the SerDes driver: what a change of the line rate makes of the register file of a core,
  what two cores do to each other, the lock and the registers every call touches, the program image.
\<close>

section \<open>Changing the line rate\<close>

definition core_file :: "int \<Rightarrow> pmi \<Rightarrow> 'z serdes_world_scheme \<Rightarrow> pmi" where
  "core_file c R0 s = pmi_of (nat c * SD_CORE_STRIDE) R0 (io_log s)"

text \<open>The file of the core with everything that is saved put back.\<close>

definition unsaved :: "int \<Rightarrow> pmi \<Rightarrow> 'z serdes_world_scheme \<Rightarrow> pmi" where
  "unsaved c R0 s = restored (saved_regs s) (core_file c R0 s)"

text \<open>What line rate \<open>m\<close> makes of a file.\<close>

definition line_file :: "int \<Rightarrow> int \<Rightarrow> pmi \<Rightarrow> pmi" where
  "line_file vco m B = (if m = 2500 then rate_file (vco \<noteq> 0) force_speed_2p5g B else rate_file False force_speed_1g B)"

definition line_raw :: "int \<Rightarrow> int \<Rightarrow> pmi \<Rightarrow> pmi" where
  "line_raw vco m B = raw_file (m = 2500 \<and> vco \<noteq> 0) B"

text \<open>A core that was brought up and whose microcontroller is running.\<close>

definition sd_ready :: "int \<Rightarrow> pmi \<Rightarrow> 'z serdes_world_scheme \<Rightarrow> bool" where
  "sd_ready c R0 s \<longleftrightarrow> sd_base s \<and> sd_inited_mask s AND BIT (nat c) \<noteq> 0 \<and> \<not> register_dont_save s \<and>
     saved_ok (saved_regs s) \<and> uc_ready (unsaved c R0 s)"

text \<open>Everything but the file, the saved values and the records of the last pass.\<close>

lemma sd_same_trans: "sd_same s t \<Longrightarrow> sd_same t u \<Longrightarrow> sd_same s u"
  by (simp add: sd_same_def)

lemma sd_same_cores:
  assumes "sd_same (s\<lparr>sd_core := a, sd_prtad := b\<rparr>) t"
  shows "sd_same s (t\<lparr>sd_core := sd_core s, sd_prtad := sd_prtad s\<rparr>)"
  using assms by (cases s; cases t) (simp add: sd_same_def)

lemma speed_set_pass:
  assumes E: "sd_works c R0 E" and r: "sd_ready c R0 s" and c: "0 \<le> c" "c < 2" and m: "m = 1000 \<or> m = 2500"
  shows "wp (serdes6764_speed_set E c m) (\<lambda>x t. x = Inr () \<and> sd_same s t \<and> saved_ok (saved_regs t) \<and>
     core_file c R0 t = line_file (p2_vco12p5 s) m (unsaved c R0 s) \<and>
     put_back (saved_regs t) (core_file c R0 t) = line_raw (p2_vco12p5 s) m (unsaved c R0 s)) s"
proof -
  let ?s = "s\<lparr>io_log := Acq SdLock # io_log s, sd_core := c, sd_prtad := core_prtad c s\<rparr>"
  let ?v = "m = 2500 \<and> p2_vco12p5 s \<noteq> 0" and ?t = "if m = 2500 then force_speed_2p5g else force_speed_1g"
  have a: "at_pmi R0 ?s (core_file c R0 s) (saved_regs s) ?s"
    by (simp add: at_pmi_def core_file_def sd_reg_def)
  have "wp (merline_speed_set_core E ?v ?t) (\<lambda>x u. x = Inr () \<and>
      pass_at R0 ?s (line_file (p2_vco12p5 s) m (unsaved c R0 s)) (line_raw (p2_vco12p5 s) m (unsaved c R0 s)) u) ?s"
    using speed_pass_pmi [OF _ _ a, of E] E r prog_regs_sets
    by (cases "m = 2500") (simp_all add: sd_ready_def unsaved_def line_file_def line_raw_def)
  moreover have "sd_same s (u\<lparr>sd_core := sd_core s, sd_prtad := sd_prtad s, io_log := Rel SdLock # io_log u\<rparr>) \<and>
      saved_ok (saved_regs u) \<and> core_file c R0 (u\<lparr>sd_core := sd_core s, sd_prtad := sd_prtad s, io_log := Rel SdLock # io_log u\<rparr>) = Q \<and>
      put_back (saved_regs u) Q = B"
    if "pass_at R0 ?s Q B u" for Q B u
    using that sd_same_cores [where s = "s\<lparr>io_log := Acq SdLock # io_log s\<rparr>" and a = c and b = "core_prtad c s" and t = u]
    by (auto simp: pass_at_def at_pmi_def core_file_def sd_reg_def)
  ultimately show ?thesis
    using r c m unfolding serdes6764_speed_set_def sd_ready_def
    by (auto simp: wp_simps core_prtad_def elim!: wp_mono)
qed

lemma line_file_agree: "agree A B \<Longrightarrow> line_file v m A = line_file v m B"
  unfolding line_file_def by (simp add: rate_file_agree)

lemma ready_again:
  assumes "sd_ready c R0 s" and "sd_same s t" and "saved_ok (saved_regs t)" and "agree (unsaved c R0 t) (unsaved c R0 s)"
  shows "sd_ready c R0 t"
  using assms sd_same_fields [OF assms(2)] by (auto simp: sd_ready_def uc_ready_def agree_def raw_regs_def)

lemma agree_trans: "agree A B \<Longrightarrow> agree B C \<Longrightarrow> agree A C"
  by (simp add: agree_def)

lemma speed_sets:
  assumes E: "sd_works c R0 E" and c: "0 \<le> c" "c < 2"
  shows "sd_ready c R0 s \<Longrightarrow> list_all (\<lambda>m. m = 1000 \<or> m = 2500) ms \<Longrightarrow>
    wp (for_eachE ms (serdes6764_speed_set E c)) (\<lambda>x t. x = Inr () \<and> sd_same s t \<and> sd_ready c R0 t \<and> agree (unsaved c R0 t) (unsaved c R0 s) \<and> (ms = [] \<longrightarrow> t = s) \<and>
      (ms \<noteq> [] \<longrightarrow> core_file c R0 t = line_file (p2_vco12p5 s) (last ms) (unsaved c R0 s))) s"
proof (induction ms arbitrary: s)
  case Nil
  then show ?case by (simp add: wp_return agree_def)
next
  case (Cons m ms)
  show ?case unfolding for_eachE.simps
  proof (rule wp_bindE_Inr [OF speed_set_pass [OF E Cons.prems(1) c]])
    fix t
    assume t: "sd_same s t \<and> saved_ok (saved_regs t) \<and> core_file c R0 t = line_file (p2_vco12p5 s) m (unsaved c R0 s) \<and>
      put_back (saved_regs t) (core_file c R0 t) = line_raw (p2_vco12p5 s) m (unsaved c R0 s)"
    then have ag: "agree (unsaved c R0 t) (unsaved c R0 s)" unfolding unsaved_def [of c R0 t] line_raw_def by (intro agree_restored) auto
    have rd: "sd_ready c R0 t" using ready_again [OF Cons.prems(1) _ _ ag] t by auto
    have "wp (for_eachE ms (serdes6764_speed_set E c)) (\<lambda>x u. x = Inr () \<and> sd_same t u \<and> sd_ready c R0 u \<and> agree (unsaved c R0 u) (unsaved c R0 t) \<and> (ms = [] \<longrightarrow> u = t) \<and>
      (ms \<noteq> [] \<longrightarrow> core_file c R0 u = line_file (p2_vco12p5 t) (last ms) (unsaved c R0 t))) t"
      by (rule Cons.IH [OF rd]) (use Cons.prems(2) in simp)
    moreover have "p2_vco12p5 t = p2_vco12p5 s" using t sd_same_fields(7) [of s t] by simp
    ultimately show "wp (for_eachE ms (serdes6764_speed_set E c)) (\<lambda>x u. x = Inr () \<and> sd_same s u \<and> sd_ready c R0 u \<and>
        agree (unsaved c R0 u) (unsaved c R0 s) \<and> (m # ms = [] \<longrightarrow> u = s) \<and>
        (m # ms \<noteq> [] \<longrightarrow> core_file c R0 u = line_file (p2_vco12p5 s) (last (m # ms)) (unsaved c R0 s))) t"
      using t ag by (elim wp_mono) (auto intro: sd_same_trans agree_trans simp: line_file_agree [OF ag] split: if_splits)
  qed (use Cons.prems(2) in simp)
qed

section \<open>The lock and the registers\<close>

text \<open>The registers of the two cores, and those that are accessed under the lock only.\<close>

definition sd_offsets :: "nat list" where
  "sd_offsets = [SD_INDIR_ACC_ADDR, SD_INDIR_ACC_MASK, SD_CONTROL, SD_STATUS, SD_AN_STATUS, SD_STATUS_1, SD_INDIR_ACC_CNTRL]"

definition sd_window :: "event \<Rightarrow> bool" where
  "sd_window e = (let ok = (\<lambda>off. off div SD_CORE_STRIDE < 2 \<and> off mod SD_CORE_STRIDE \<in> set sd_offsets) in
     case e of Rd w off _ \<Rightarrow> w = Serdes1 \<longrightarrow> ok off | Wr w off _ \<Rightarrow> w = Serdes1 \<longrightarrow> ok off | _ \<Rightarrow> True)"

definition sd_guarded :: "win \<Rightarrow> nat \<Rightarrow> bool" where
  "sd_guarded w off \<longleftrightarrow> w = Serdes1 \<and> off mod SD_CORE_STRIDE \<noteq> SD_AN_STATUS \<and> off mod SD_CORE_STRIDE \<noteq> SD_STATUS_1"

definition sd_log :: "bool \<Rightarrow> event list \<Rightarrow> bool" where
  "sd_log h L \<longleftrightarrow> held SdLock L = h \<and> lock_ok SdLock sd_guarded L \<and> list_all sd_window L"

lemma sd_log_core: "sd_log True L \<Longrightarrow> c < 2 \<Longrightarrow> off \<in> set sd_offsets \<Longrightarrow>
    sd_log True (Rd Serdes1 (c * SD_CORE_STRIDE + off) v # L) \<and> sd_log True (Wr Serdes1 (c * SD_CORE_STRIDE + off) v # L)"
  by (auto simp: sd_log_def sd_window_def sd_offsets_def)

lemma sd_log_link: "sd_log h L \<Longrightarrow> c < 2 \<Longrightarrow> off = SD_AN_STATUS \<or> off = SD_STATUS_1 \<Longrightarrow>
    sd_log h (Rd Serdes1 (c * SD_CORE_STRIDE + off) v # L)"
  by (auto simp: sd_log_def sd_window_def sd_offsets_def sd_guarded_def)

lemma sd_log_quiet: "sd_log h L \<Longrightarrow> sd_log h (Delay n # L)" "sd_log h L \<Longrightarrow> sd_log h (Mark m # L)"
  "sd_log h L \<Longrightarrow> sd_log h (Wr EthTop off v # L)" "sd_log h L \<Longrightarrow> sd_log h (Call k r # L)" "sd_log h L \<Longrightarrow> sd_log h (KNote nm i # L)"
  by (auto simp: sd_log_def sd_window_def sd_guarded_def)

lemma sd_log_lock: "sd_log False L \<Longrightarrow> sd_log True (Acq SdLock # L)" "sd_log True L \<Longrightarrow> sd_log False (Rel SdLock # L)"
  by (auto simp: sd_log_def sd_window_def)

lemma link_log_sd:
  assumes c: "c = 0 \<or> c = 1"
  shows "link_log c (sd_log h)"
proof (unfold_locales, goal_cases)
  case (1 L off v)
  then show ?case using c by (intro sd_log_link) auto
qed (simp_all add: sd_log_quiet)

lemma core_log_sd:
  assumes c: "c = 0 \<or> c = 1"
  shows "core_log c (sd_log True)"
proof (intro core_log.intro link_log_sd [OF c], unfold_locales, goal_cases)
  case (1 L off v)
  then show ?case using c by (intro sd_log_core [THEN conjunct1]) (auto simp: sd_offsets_def)
next
  case (2 L off v)
  then show ?case using c by (intro sd_log_core [THEN conjunct2]) (auto simp: sd_offsets_def)
qed (simp add: sd_log_quiet)

interpretation link0: link_log 0 p "sd_log False" for p
  by (rule link_log_sd) simp

interpretation link1: link_log 1 p "sd_log False" for p
  by (rule link_log_sd) simp

interpretation core0: core_log 0 p "sd_log True" for p
  by (rule core_log_sd) simp

interpretation core1: core_log 1 p "sd_log True" for p
  by (rule core_log_sd) simp

lemma locked_core:
  assumes "c = 0 \<or> c = 1"
  shows "keeps (log_inv c p (sd_log True)) (serdes_bringup E img)" "keeps (log_inv c p (sd_log True)) (merline_speed_set_core E b tbl)"
    "keeps (log_inv c p (sd_log True)) (sd_readl E SD_STATUS)" "keeps (log_inv c p (sd_log False)) (serdes6764_link_up E)"
    "keeps (log_inv c p (sd_log False)) (serdes6764_speed E)" "keeps (log_inv c p (sd_log False)) (sd_mark m)"
  using assms
  by (auto simp: core0.k_bringup core1.k_bringup core0.k_speed_set_core core1.k_speed_set_core core0.k_rd_core core1.k_rd_core
      link0.k_link_up link1.k_link_up link0.k_speed link1.k_speed link0.k_mark link1.k_mark)

text \<open>The exported calls, with the lock free before and after.\<close>

lemma init_2p5g_keeps:
  assumes c: "c = 0 \<or> c = 1"
  shows "keeps (log_inv c p (sd_log False)) (serdes6764_init_2p5g E img)"
proof (rule keepsI)
  fix s :: "'z serdes_world_scheme"
  assume s: "log_inv c p (sd_log False) s"
  note K = locked_core [OF c, where p = p]
  let ?I = "log_inv c p (sd_log True)"
  have a: "?I (s\<lparr>io_log := Acq SdLock # io_log s\<rparr>)" using s by (simp add: log_inv_def frame_def sd_log_lock)
  have "wp (do { ret \<leftarrow> serdes_bringup E img; modify (init_ret_update (\<lambda>_. cret ret));
       (case ret of Inl _ \<Rightarrow> do { st \<leftarrow> sd_readl E SD_STATUS; modify (st_end_update (\<lambda>_. st)) } | Inr _ \<Rightarrow> return ());
       emit (Rel SdLock); return ret }) (\<lambda>_. log_inv c p (sd_log False)) (s\<lparr>io_log := Acq SdLock # io_log s\<rparr>)"
    by (rule wp_seq [OF keeps_wp [OF K(1) a]], unfold wp_bind wp_modify wp_emit wp_return, rule wp_sumI [THEN wp_mono])
      (auto simp: wp_simps log_inv_def frame_def sd_log_lock intro!: wp_mono [OF keeps_wp [OF K(3)]])
  moreover have "wp (do { sd_mark E66B_MK_ERR_SD_MAP; return (Inl ENODEV :: errno + unit) }) (\<lambda>_. log_inv c p (sd_log False)) s"
    by (rule wp_seq [OF keeps_wp [OF K(6) s]]) (simp add: wp_return)
  ultimately show "wp (serdes6764_init_2p5g E img) (\<lambda>_. log_inv c p (sd_log False)) s"
    unfolding serdes6764_init_2p5g_def wp_bind [of "gets _"] wp_gets wp_if by (simp add: wp_bind [of "emit (Acq SdLock)"] wp_emit)
qed

lemma core_prtad_log: "core_prtad c (s\<lparr>io_log := L\<rparr>) = core_prtad c s"
  by (simp add: core_prtad_def)

lemma speed_set_log:
  assumes P: "0 \<le> core \<Longrightarrow> core < 2 \<Longrightarrow> core_log core P" "P (Acq SdLock # io_log s)" "\<And>L. P L \<Longrightarrow> P' (Rel SdLock # L)" "P' (io_log s)"
  shows "wp (serdes6764_speed_set E core mbps) (\<lambda>_ t. P' (io_log t) \<and> sd_core t = sd_core s \<and> frame t = frame s) s"
proof (cases "core < 0 \<or> core \<ge> 2 \<or> \<not> sd_base s \<or> sd_inited_mask s AND BIT (nat core) = 0")
  case True
  then show ?thesis using P by (auto simp: serdes6764_speed_set_def wp_simps frame_def)
next
  case False
  then have core: "core_log core P" using P(1) by auto
  let ?s = "s\<lparr>io_log := Acq SdLock # io_log s, sd_core := core, sd_prtad := core_prtad core s\<rparr>"
  let ?I = "log_inv core (frame ?s) P"
  have a: "?I ?s" using P(2) by (simp add: log_inv_def)
  have "keeps ?I (if mbps = 2500 then merline_speed_set_core E (p2_vco12p5 ?s \<noteq> 0) force_speed_2p5g
              else if mbps = 1000 then merline_speed_set_core E False force_speed_1g else return (Inl EINVAL))" (is "keeps _ ?m")
    by (intro keeps_rules core_log.k_speed_set_core [OF core])
  from keeps_wp [OF this a]
  have "wp (do { ret \<leftarrow> ?m; modify (\<lambda>t. t\<lparr>sd_core := sd_core s, sd_prtad := sd_prtad s\<rparr>); emit (Rel SdLock); return ret })
      (\<lambda>_ t. P' (io_log t) \<and> sd_core t = sd_core s \<and> frame t = frame s) ?s"
    by (rule wp_seq) (use P(3) in \<open>simp add: wp_simps log_inv_def frame_def\<close>)
  then show ?thesis using False
    unfolding serdes6764_speed_set_def wp_bind [of "gets _"] wp_gets
    by (simp add: wp_bind [of "gets _"] wp_gets wp_bind [of "emit _"] wp_emit wp_bind [of "modify _"] wp_modify core_prtad_log split del: if_split)
qed

lemma speed_set_keeps: "keeps (log_inv c p (sd_log False)) (serdes6764_speed_set E core mbps)"
proof (rule keepsI)
  fix s :: "'z serdes_world_scheme"
  assume s: "log_inv c p (sd_log False) s"
  have core: "core_log core (sd_log True)" if "0 \<le> core" "core < 2" using that by (intro core_log_sd) auto
  show "wp (serdes6764_speed_set E core mbps) (\<lambda>_. log_inv c p (sd_log False)) s"
    by (rule wp_mono [OF speed_set_log [OF core, where P' = "sd_log False"]]) (use s sd_log_lock in \<open>auto simp: log_inv_def\<close>)
qed

lemma link_up_keeps: "c = 0 \<or> c = 1 \<Longrightarrow> keeps (log_inv c p (sd_log False)) (serdes6764_link_up E)"
  by (rule locked_core)

section \<open>All histories of the module\<close>

definition sd_inv :: "'z serdes_world_scheme \<Rightarrow> bool" where
  "sd_inv s \<longleftrightarrow> sd_log False (io_log s) \<and> cores s AND 3 = cores s \<and> cores s \<noteq> 0 \<and>
     sd_core s = int (ffs32 (cores s)) \<and> sd_prtad s = core_prtad (sd_core s) s"

lemma ffs_small:
  assumes "k AND 3 = k" and "k \<noteq> 0"
  shows "int (ffs32 k) = 0 \<or> int (ffs32 k) = 1"
proof -
  have b: "bit k i \<Longrightarrow> i < 2" for i
  proof -
    assume "bit k i"
    then have "bit (k AND 3) i" using assms(1) by simp
    moreover have "bit (3 :: u32) i \<longleftrightarrow> i < 2"
    proof -
      have "bit (mask 2 :: u32) i \<longleftrightarrow> i < 2" unfolding bit_mask_iff by auto
      then show ?thesis by (simp add: mask_eq_exp_minus_1)
    qed
    ultimately show "i < 2" by (simp add: bit_and_iff)
  qed
  from assms(2) obtain i where "bit k i" by (metis bit_eqI bit_0_eq bot_apply bot_bool_def)
  with b have "bit k 0 \<or> bit k 1" by (metis less_2_cases One_nat_def)
  moreover have "[0..<32] = 0 # 1 # [2..<32]" by (simp add: upt_rec)
  ultimately show ?thesis by (auto simp: ffs32_def)
qed

lemma sd_inv_log: "sd_inv s \<Longrightarrow> log_inv (sd_core s) (frame s) (sd_log False) s \<and> (sd_core s = 0 \<or> sd_core s = 1)"
  using ffs_small [of "cores s"] by (simp add: sd_inv_def log_inv_def)

lemma sd_inv_keeps:
  assumes "\<And>c p. c = 0 \<or> c = 1 \<Longrightarrow> keeps (log_inv c p (sd_log False)) m"
  shows "keeps sd_inv m"
proof (rule keepsI)
  fix s :: "'a serdes_world_scheme"
  assume s: "sd_inv s"
  from sd_inv_log [OF s] have "wp m (\<lambda>_. log_inv (sd_core s) (frame s) (sd_log False)) s"
    by (intro keeps_wp [OF assms]) auto
  then show "wp m (\<lambda>_. sd_inv) s"
    by (rule wp_mono) (use s in \<open>auto simp: sd_inv_def log_inv_def frame_def core_prtad_def\<close>)
qed

datatype sd_op = Init2p5g | SpeedSet int int | LinkUp | Exit

definition sd_run :: "env \<Rightarrow> u8 list \<Rightarrow> sd_op \<Rightarrow> ('z, unit) sd" where
  "sd_run E img op = (case op of
       Init2p5g \<Rightarrow> do { serdes6764_init_2p5g E img; return () }
     | SpeedSet c m \<Rightarrow> do { serdes6764_speed_set E c m; return () }
     | LinkUp \<Rightarrow> do { serdes6764_link_up E; return () }
     | Exit \<Rightarrow> serdes6764_module_exit)"

lemma exit_keeps: "keeps sd_inv serdes6764_module_exit"
  unfolding serdes6764_module_exit_def
  by (intro keeps_rules keeps_emit keeps_modify) (auto simp: sd_inv_def sd_log_quiet core_prtad_def)

lemma sd_run_keeps: "keeps sd_inv (sd_run E img op)"
  unfolding sd_run_def
  by (cases op) (auto intro!: keeps_bind keeps_return exit_keeps sd_inv_keeps init_2p5g_keeps speed_set_keeps link_up_keeps)

lemma core_up_keeps:
  assumes c: "c = 0 \<or> c = 1" and that: "sd_log False (io_log s)"
  shows "wp (serdes_core_up E img pr c) (\<lambda>_ t. sd_log False (io_log t) \<and> cores t = cores s \<and> prtad_override t = prtad_override s) s"
proof -
  let ?s = "s\<lparr>sd_core := c, sd_prtad := core_prtad c s\<rparr>"
  let ?I = "log_inv c (frame ?s) (sd_log False)"
  have a: "?I ?s" using that by (simp add: log_inv_def)
  have "keeps ?I (do { ret \<leftarrow> serdes6764_init_2p5g E img;
       case ret of
         Inl _ \<Rightarrow> return ()
       | Inr _ \<Rightarrow> do {
           up \<leftarrow> serdes6764_link_up E;
           if up = Inr True then do {
             (if c = pr then sd_mark E66B_MK_SD_LINK else return ());
             serdes6764_speed E;
             return () }
           else if c = pr then sd_mark E66B_MK_ERR_SD_LINK
           else return () } })" (is "keeps _ ?m")
    by (intro keeps_rules init_2p5g_keeps locked_core c)
  from keeps_wp [OF this a] have "wp ?m (\<lambda>_ t. sd_log False (io_log t) \<and> cores t = cores s \<and> prtad_override t = prtad_override s) ?s"
    by (rule wp_mono) (simp add: log_inv_def frame_def)
  then show ?thesis
    unfolding serdes_core_up_def wp_bind [of "gets _"] wp_gets wp_if wp_bind [of "modify _"] wp_modify
    using that by (cases "cores s AND BIT (nat c) = 0") (simp_all add: wp_return split del: if_split)
qed

text \<open>The invariant with the mask of cores named.\<close>

definition sd_inv_k :: "u32 \<Rightarrow> 'z serdes_world_scheme \<Rightarrow> bool" where
  "sd_inv_k k s \<longleftrightarrow> sd_inv s \<and> cores s = k"

lemma prelude_keeps:
  "keeps (sd_inv_k k) (map_block E cs fb w)" "keeps (sd_inv_k k) (sd_mark m)" "keeps (sd_inv_k k) (modify (sd_base_update f))"
  "keeps (sd_inv_k k) (modify (ethtop_base_update f))" "keeps (sd_inv_k k) (emit (KNote nm i))"
  unfolding map_block_def sd_mark_def
  by (intro keeps_rules keeps_emit keeps_kcall keeps_modify; auto simp: sd_inv_k_def sd_inv_def sd_log_quiet core_prtad_def)+

lemma cores_loop:
  assumes "sd_inv s"
  shows "wp (do { for_each [0, 1] (serdes_core_up E img (int (ffs32 (cores s))));
       modify (\<lambda>t. t\<lparr>sd_core := int (ffs32 (cores s)), sd_prtad := core_prtad (int (ffs32 (cores s))) t\<rparr>); return r }) (\<lambda>_. sd_inv) s"
proof -
  let ?J = "\<lambda>t. sd_log False (io_log t) \<and> cores t = cores s \<and> prtad_override t = prtad_override s"
  have step: "wp (serdes_core_up E img pr c) (\<lambda>_. ?J) t" if "?J t" "c = 0 \<or> c = 1" for pr c t
    by (rule wp_mono [OF core_up_keeps [OF that(2)]]) (use that(1) in auto)
  have "wp (for_each [0, 1] (serdes_core_up E img pr)) (\<lambda>_. ?J) s" for pr
    using assms unfolding wp_for_each_Cons wp_for_each_Nil
    by (intro wp_mono [OF step] step) (auto simp: sd_inv_def)
  then show ?thesis
    by (rule wp_seq) (use assms in \<open>simp add: wp_simps sd_inv_def core_prtad_def\<close>)
qed

lemma cores_loop_k:
  "sd_inv_k k s \<Longrightarrow> wp (do { for_each [0, 1] (serdes_core_up E img (int (ffs32 k)));
       modify (\<lambda>t. t\<lparr>sd_core := int (ffs32 k), sd_prtad := core_prtad (int (ffs32 k)) t\<rparr>); return r }) (\<lambda>_. sd_inv) s"
  using cores_loop [of s E img r] by (auto simp: sd_inv_k_def)

lemma module_init_inv:
  assumes "sd_log False (io_log s)" and "cores s AND 3 = cores s"
  shows "wp (serdes6764_module_init E img) (\<lambda>_. sd_inv) s"
proof -
  let ?k = "if cores s = 0 then 1 else cores s"
  let ?s = "(cores_update (\<lambda>c. if c = 0 then 1 else c) s)\<lparr>sd_core := int (ffs32 ?k), sd_prtad := core_prtad (int (ffs32 ?k)) s\<rparr>"
  have s: "sd_inv_k ?k ?s" using assms by (simp add: sd_inv_k_def sd_inv_def core_prtad_def)
  note step = wp_seq [OF keeps_wp [OF prelude_keeps(1)]] wp_seq [OF keeps_wp [OF prelude_keeps(2)]] wp_seq [OF keeps_wp [OF prelude_keeps(3)]]
    wp_seq [OF keeps_wp [OF prelude_keeps(4)]] wp_seq [OF keeps_wp [OF prelude_keeps(5)]] wp_gets_seq
  have ret: "wp (return r) (\<lambda>_. sd_inv) t" if "sd_inv_k ?k t" for r :: "errno + unit" and t :: "'a serdes_world_scheme"
    using that by (simp add: wp_return sd_inv_k_def)
  have "wp (do { fb \<leftarrow> gets serdes_base_phys;
     b \<leftarrow> map_block E ''brcm,serdes1'' fb Serdes1;
     modify (sd_base_update (\<lambda>_. b));
     if \<not> b then do { sd_mark E66B_MK_ERR_SD_MAP; return (Inl ENODEV) }
     else do {
       fb \<leftarrow> gets ethtop_base_phys;
       t \<leftarrow> map_block E ''brcm,eth-phy-top'' fb EthTop;
       modify (ethtop_base_update (\<lambda>_. t));
       if \<not> t then do {
         sd_mark E66B_MK_ERR_SD_MAP;
         emit (KNote ''iounmap'' 0);
         modify (sd_base_update (\<lambda>_. False));
         return (Inl ENODEV) }
       else do {
         sd_mark E66B_MK_SD_PROBE;
         auto_up \<leftarrow> gets autoinit;
         if auto_up = 0 then return (Inr ())
         else do {
           for_each [0, 1] (serdes_core_up E img (int (ffs32 ?k)));
           modify (\<lambda>s. s\<lparr>sd_core := int (ffs32 ?k), sd_prtad := core_prtad (int (ffs32 ?k)) s\<rparr>);
           return (Inr ()) } } } }) (\<lambda>_. sd_inv) ?s"
    using s by (intro step wp_ifI ret cores_loop_k)
  then show ?thesis
    unfolding serdes6764_module_init_def
    by (intro wp_modify_seq wp_gets_seq [where g = "\<lambda>s. int (ffs32 (cores s))"])
      (simp add: core_prtad_def cong del: if_weak_cong split del: if_split)
qed

interpretation sds: inv_system sd_inv "\<lambda>op s. snd (run_state (sd_run E img op) s)" sd_inv for E img
  by unfold_locales (auto intro: keeps_run sd_run_keeps)


section \<open>One core, two cores\<close>

text \<open>C11: On a core that works, any sequence of changes of the line rate succeeds, and the register file is then a function
  of the last rate alone, applied to the file with everything the driver had saved put back: no setting of
  an earlier rate survives.\<close>

theorem speed_set_forgets:
  assumes "sd_works c R0 E" and "0 \<le> c" and "c < 2" and "sd_ready c R0 s"
    and "list_all (\<lambda>m. m = 1000 \<or> m = 2500) ms" and "m = 1000 \<or> m = 2500"
  shows "\<exists>t. run_state (for_eachE (ms @ [m]) (serdes6764_speed_set E c)) s = (Inr (), t) \<and>
     core_file c R0 t = line_file (p2_vco12p5 s) m (unsaved c R0 s) \<and> sd_core t = sd_core s \<and> sd_prtad t = sd_prtad s"
  by (rule wp_run [OF speed_sets [OF assms(1,2,3,4), of "ms @ [m]"]])
    (use assms(5,6) sd_same_fields in \<open>auto\<close>)

text \<open>The accesses of one core leave the file of the other alone.\<close>

interpretation other1: core_log 1 p "\<lambda>L. pmi_of 0 R0 L = R" for p R0 R
  by unfold_locales auto

interpretation other0: core_log 0 p "\<lambda>L. pmi_of SD_CORE_STRIDE R0 L = R" for p R0 R
  by unfold_locales auto

lemma speed_set_other:
  "wp (serdes6764_speed_set E 1 m) (\<lambda>_ t. core_file 0 R0 t = core_file 0 R0 s) s"
  "wp (serdes6764_speed_set E 0 m) (\<lambda>_ t. core_file 1 R0 t = core_file 1 R0 s) s"
proof -
  show "wp (serdes6764_speed_set E 1 m) (\<lambda>_ t. core_file 0 R0 t = core_file 0 R0 s) s"
    by (rule wp_mono [OF speed_set_log [OF other1.core_log_axioms, where P' = "\<lambda>L. pmi_of 0 R0 L = core_file 0 R0 s"]])
      (auto simp: core_file_def)
  show "wp (serdes6764_speed_set E 0 m) (\<lambda>_ t. core_file 1 R0 t = core_file 1 R0 s) s"
    by (rule wp_mono [OF speed_set_log [OF other0.core_log_axioms, where P' = "\<lambda>L. pmi_of SD_CORE_STRIDE R0 L = core_file 1 R0 s"]])
      (auto simp: core_file_def)
qed

lemma saved_of_other:
  assumes sv: "put_back sv Q = raw_file v B" and B: "uc_ready B" and R: "uc_ready R" and ok: "saved_ok sv"
  shows "uc_ready (restored sv R)"
proof -
  have "(PMD_DEV, REG_DSC_UC_CTRL) \<notin> set (keys sv)"
  proof -
    have "(PMD_DEV, REG_DSC_UC_CTRL) \<notin> set prog_regs" unfolding prog_regs_def tables by simp
    then show ?thesis using ok by (auto simp: saved_ok_def)
  qed
  then have d: "put_back sv R PMD_DEV REG_DSC_UC_CTRL = R PMD_DEV REG_DSC_UC_CTRL" by (rule put_back_other)
  have "put_back sv R PMD_DEV REG_UC_ACTIVE = R PMD_DEV REG_UC_ACTIVE \<or> put_back sv R PMD_DEV REG_UC_ACTIVE = B PMD_DEV REG_UC_ACTIVE"
  proof (cases "(PMD_DEV, REG_UC_ACTIVE) \<in> set (keys sv)")
    case True
    then show ?thesis using put_back_key [OF True, of R Q] by (simp add: sv raw_file_def ram_file_def pmi_masked_def)
  qed (simp add: put_back_other)
  with d B R show ?thesis by (auto simp: uc_ready_def restored_def Let_def)
qed

text \<open>C12: The saved values are shared by the cores: a change of the rate of core 1 followed by one of core 0 writes
  values saved from core 1 into core 0.  The clock register 0x9201, which the second change does not
  program, ends up with what core 1 had there, whatever core 0 had.\<close>

theorem two_cores_share_saved:
  assumes w: "sd_works 1 R1 E" "sd_works 0 R0 E" and r: "sd_ready 1 R1 s" and i: "sd_inited_mask s AND BIT 0 \<noteq> 0"
    and u: "uc_ready (core_file 0 R0 s)" and v: "p2_vco12p5 s \<noteq> 0" and ne: "unsaved 1 R1 s 3 0x9201 \<noteq> 0x4888"
  shows "\<exists>t u. run_state (serdes6764_speed_set E 1 2500) s = (Inr (), t) \<and> run_state (serdes6764_speed_set E 0 1000) t = (Inr (), u) \<and>
     core_file 0 R0 t = core_file 0 R0 s \<and> core_file 0 R0 u 3 0x9201 = unsaved 1 R1 s 3 0x9201"
proof -
  let ?B = "unsaved 1 R1 s"
  obtain t where t: "run_state (serdes6764_speed_set E 1 2500) s = (Inr (), t)" "sd_same s t" "saved_ok (saved_regs t)"
      "core_file 1 R1 t = line_file (p2_vco12p5 s) 2500 ?B" "put_back (saved_regs t) (core_file 1 R1 t) = line_raw (p2_vco12p5 s) 2500 ?B"
    by (rule wp_run [OF speed_set_pass [OF w(1) r, where m = 2500]]) auto
  have o: "core_file 0 R0 t = core_file 0 R0 s" by (rule wpD [OF speed_set_other(1) t(1)])
  have ub: "uc_ready ?B" using r by (simp add: sd_ready_def)
  have r0: "sd_ready 0 R0 t"
    using r i sd_same_fields [OF t(2)] t(3) saved_of_other [OF t(5) [unfolded line_raw_def] ub u t(3)] o
    by (simp add: sd_ready_def unsaved_def)
  obtain w' where w': "run_state (serdes6764_speed_set E 0 1000) t = (Inr (), w')"
      "core_file 0 R0 w' = line_file (p2_vco12p5 t) 1000 (unsaved 0 R0 t)"
    by (rule wp_run [OF speed_set_pass [OF w(2) r0, where m = 1000]]) auto
  have k: "(3, 0x9201) \<in> set (keys (saved_regs t))"
  proof (rule ccontr)
    assume n: "(3, 0x9201) \<notin> set (keys (saved_regs t))"
    have "core_file 1 R1 t 3 0x9201 = line_raw (p2_vco12p5 s) 2500 ?B 3 0x9201" using put_back_other [OF n, of "core_file 1 R1 t"] t(5) by simp
    moreover have "line_raw (p2_vco12p5 s) 2500 ?B 3 0x9201 = ?B 3 0x9201" by (simp add: line_raw_def raw_file_def ram_file_def pmi_masked_def)
    moreover have "(- 65536 :: u16) = 0" by transfer simp
    then have "x AND - 65536 = 0" for x :: u16 by (simp only: and_zero_eq)
    then have "core_file 1 R1 t 3 0x9201 = 0x4888"
      using v by (simp add: t(4) line_file_def rate_file_def vco_file_def ram_file_def tables pmi_masked_def)
    ultimately show False using ne by simp
  qed
  have "unsaved 0 R0 t 3 0x9201 = put_back (saved_regs t) (core_file 0 R0 t) 3 0x9201" by (simp add: unsaved_def restored_def Let_def)
  also have "\<dots> = put_back (saved_regs t) (core_file 1 R1 t) 3 0x9201" by (rule put_back_key [OF k])
  also have "\<dots> = ?B 3 0x9201" by (simp add: t(5) line_raw_def raw_file_def ram_file_def pmi_masked_def)
  finally have "core_file 0 R0 w' 3 0x9201 = ?B 3 0x9201"
    by (simp add: w'(2) line_file_def rate_file_def vco_file_def ram_file_def tables pmi_masked_def)
  then show ?thesis using t(1) w'(1) o by blast
qed

subsection \<open>An ideal device\<close>

text \<open>Both cores are never busy, locked, and answer with what their file holds.\<close>

definition sd_ideal :: "pmi \<Rightarrow> env" where
  "sd_ideal R0 = \<lparr>env_rd = \<lambda>L w off.
     if off mod SD_CORE_STRIDE = SD_INDIR_ACC_CNTRL then
       (let b = off - SD_INDIR_ACC_CNTRL; a = wr_or0 L (b + SD_INDIR_ACC_ADDR) in ucast (pmi_of b R0 L (a_dev a) (a_reg a)))
     else BIT 3, env_call = \<lambda>_ _. 0\<rparr>"

lemma sd_ideal_works: "sd_works c R0 (sd_ideal R0)"
proof -
  have d: "d < 32" if "readable d r" for d r using that prog_regs_dev by (auto simp: readable_def)
  have b: "\<not> bit (ucast (v :: u16) :: u32) 17" for v using bit_imp_le_length [of v 17] by (auto simp: bit_simps)
  have u: "ucast (ucast (v :: u16) :: u32) = v" for v by (rule bit_word_eqI) (simp add: bit_simps)
  show ?thesis
    unfolding sd_works_def Let_def
    by (auto simp: sd_ideal_def b u wr_or0_def acc_addr_dev acc_addr_reg d Let_def)
qed

definition sd_file0 :: pmi where
  "sd_file0 d r = (if d = PMD_DEV \<and> r = REG_UC_ACTIVE then BIT 15 else if d = PMD_DEV \<and> r = REG_DSC_UC_CTRL then BIT 7 else 0)"

definition sd_up :: serdes_world where
  "sd_up = sd_boot\<lparr>sd_inited_mask := 3\<rparr>"

lemma sd_up_ready: "sd_ready 0 sd_file0 sd_up" "sd_ready 1 sd_file0 sd_up" "core_file 0 sd_file0 sd_up = sd_file0"
   "uc_ready sd_file0" "sd_inited_mask sd_up AND BIT 0 \<noteq> 0" "p2_vco12p5 sd_up = 1" "unsaved 1 sd_file0 sd_up 3 0x9201 = 0"
  by (simp_all add: sd_ready_def sd_up_def sd_boot_def unsaved_def core_file_def restored_def saved_ok_def uc_ready_def sd_file0_def BIT_def)


theorem speed_set_forgets_witness:
  "\<exists>t. run_state (for_eachE ([1000, 2500] @ [1000]) (serdes6764_speed_set (sd_ideal sd_file0) 0)) sd_up = (Inr (), t) \<and>
     core_file 0 sd_file0 t = line_file 1 1000 (unsaved 0 sd_file0 sd_up)"
  using speed_set_forgets [OF sd_ideal_works _ _ sd_up_ready(1), of "[1000, 2500]" 1000] by (auto simp: sd_up_ready(6))

theorem two_cores_share_saved_witness:
  "\<exists>t u. run_state (serdes6764_speed_set (sd_ideal sd_file0) 1 2500) sd_up = (Inr (), t) \<and>
     run_state (serdes6764_speed_set (sd_ideal sd_file0) 0 1000) t = (Inr (), u) \<and> core_file 0 sd_file0 u 3 0x9201 = 0"
  using two_cores_share_saved [OF sd_ideal_works sd_ideal_works sd_up_ready(2)] sd_up_ready by auto

end
