(* ===== verification/Serdes_Ucode.thy ===== *)
theory Serdes_Ucode
  imports Serdes_Regs Serdes_Log
begin

text \<open>
  The program image of the SerDes microcontroller: which words a load puts into the data register of its
  memory port, and which words a successful verification has read back.
\<close>

section \<open>Accesses of a log\<close>

text \<open>The data words written to and read from a register through the window of a core, oldest first.  A read
  takes the last value of the control register before the next access starts; \<open>f\<close> says that no value of the
  running access has been taken yet.\<close>

definition is_cmd :: "bool \<Rightarrow> u32 option \<Rightarrow> bool" where
  "is_cmd rw cmd \<longleftrightarrow> (case cmd of Some v \<Rightarrow> bit v 17 \<and> bit v 16 = rw | None \<Rightarrow> False)"

fun wr_words :: "nat \<Rightarrow> u32 \<Rightarrow> event list \<Rightarrow> u16 list" where
  "wr_words b a [] = []"
| "wr_words b a (Wr w off v # es) = wr_words b a es @
     (if w = Serdes1 \<and> off = b + SD_INDIR_ACC_CNTRL \<and> is_cmd False (Some v) \<and> wr_or0 es (b + SD_INDIR_ACC_ADDR) = a then [ucast v] else [])"
| "wr_words b a (_ # es) = wr_words b a es"

fun rd_words :: "nat \<Rightarrow> u32 \<Rightarrow> bool \<Rightarrow> event list \<Rightarrow> u16 list" where
  "rd_words b a f [] = []"
| "rd_words b a f (Rd w off v # es) =
     (if f \<and> w = Serdes1 \<and> off = b + SD_INDIR_ACC_CNTRL \<and> is_cmd True (last_wr es Serdes1 (b + SD_INDIR_ACC_CNTRL))
      then rd_words b a False es @ (if wr_or0 es (b + SD_INDIR_ACC_ADDR) = a then [ucast v] else [])
      else rd_words b a f es)"
| "rd_words b a f (Wr w off v # es) = rd_words b a (f \<or> w = Serdes1 \<and> off = b + SD_INDIR_ACC_CNTRL) es"
| "rd_words b a f (_ # es) = rd_words b a f es"

text \<open>The events between the start of an access and its end.\<close>

definition polling :: "event \<Rightarrow> bool" where
  "polling e \<longleftrightarrow> (\<exists>off v. e = Rd Serdes1 off v) \<or> (\<exists>n. e = Delay n) \<or> (\<exists>m. e = Mark m)"

lemma polling_simps [simp]: "polling (Rd Serdes1 off v)" "polling (Delay n)" "polling (Mark m)"
  by (simp_all add: polling_def)

lemma polling_last_wr: "list_all polling evs \<Longrightarrow> last_wr (evs @ L) w off = last_wr L w off"
  by (induction evs) (auto simp: polling_def)

lemma polling_wr: "list_all polling evs \<Longrightarrow> wr_words b a (evs @ L) = wr_words b a L"
  by (induction evs) (auto simp: polling_def)

lemma polling_rd_wrote:
  "list_all polling evs \<Longrightarrow> \<not> is_cmd True (last_wr L Serdes1 (b + SD_INDIR_ACC_CNTRL)) \<Longrightarrow> rd_words b a f (evs @ L) = rd_words b a f L"
  by (induction evs) (auto simp: polling_def polling_last_wr)

lemma polling_rd_taken: "list_all polling evs \<Longrightarrow> rd_words b a False (evs @ L) = rd_words b a False L"
  by (induction evs) (auto simp: polling_def)

lemma polling_rd_other:
  "list_all polling evs \<Longrightarrow> wr_or0 L (b + SD_INDIR_ACC_ADDR) \<noteq> a \<Longrightarrow> rd_words b a f (evs @ Wr Serdes1 (b + SD_INDIR_ACC_CNTRL) v # L) = rd_words b a True L"
  by (induction evs arbitrary: f) (auto simp: polling_def polling_last_wr wr_or0_def)

section \<open>The accessors\<close>

text \<open>The words that went through the two data registers of the memory port of core \<open>c\<close>.\<close>

definition ram_written :: "int \<Rightarrow> event list \<Rightarrow> u16 list" where
  "ram_written c L = wr_words (nat c * SD_CORE_STRIDE) (sd_acc_addr PMD_DEV REG_MICRO_WRDATA_LSW) L"

definition ram_read :: "int \<Rightarrow> event list \<Rightarrow> u16 list" where
  "ram_read c L = rd_words (nat c * SD_CORE_STRIDE) (sd_acc_addr PMD_DEV REG_MICRO_RDDATA_LSW) True L"

definition at_words :: "int \<Rightarrow> u16 list \<Rightarrow> u16 list \<Rightarrow> 'z serdes_world_scheme \<Rightarrow> bool" where
  "at_words c W D s \<longleftrightarrow> sd_core s = c \<and> ram_written c (io_log s) = W \<and> ram_read c (io_log s) = D"

lemma at_words_upd [simp]:
  "at_words c W D (sd_last_mark_update f s) = at_words c W D s" "at_words c W D (selftest_d202_update g s) = at_words c W D s"
  "at_words c W D (selftest_d225_update g s) = at_words c W D s"
  by (simp_all add: at_words_def)

lemma acc_wait_emits: "emits polling (do { acc_delay; sd_acc_wait E })"
  unfolding sd_acc_wait_def acc_delay_def sd_readl_def sd_mark_def
  by (intro emits_rules emits_modify; simp)

interpretation any_log: core_log c p "\<lambda>_. True" for c p
  by unfold_locales simp_all

lemma acc_wait_polls:
  "wp (do { acc_delay; sd_acc_wait E }) (\<lambda>_ t. sd_core t = sd_core s \<and> (\<exists>evs. list_all polling evs \<and> io_log t = evs @ io_log s)) s"
proof -
  have "keeps (log_inv (sd_core s) (frame s) (\<lambda>_. True)) (do { acc_delay; sd_acc_wait E })"
    by (intro keeps_bind any_log.k_acc_delay any_log.k_acc_wait)
  moreover have "log_inv (sd_core s) (frame s) (\<lambda>_. True) s" by (simp add: log_inv_def)
  ultimately have "wp (do { acc_delay; sd_acc_wait E }) (\<lambda>_. log_inv (sd_core s) (frame s) (\<lambda>_. True)) s" by (rule keeps_wp)
  from wp_conj [OF this emits_wp [OF acc_wait_emits]] show ?thesis
    by (rule wp_mono) (auto simp: log_inv_def)
qed

lemma acc_addr_inj: "sd_acc_addr d r = sd_acc_addr d' r' \<Longrightarrow> r = r'"
  by (metis acc_addr_reg)

lemma rd_cmd:
  "bit (SD_ACC_DELAYED_ACK OR SD_ACC_START_BUSY OR SD_ACC_RW :: u32) 17" "bit (SD_ACC_DELAYED_ACK OR SD_ACC_START_BUSY OR SD_ACC_RW :: u32) 16"
  by (simp_all add: bit_simps)

lemma pmi_wr_words:
  fixes s :: "'z serdes_world_scheme"
  assumes "at_words c W D s"
  shows "wp (sd_pmi_wr E d r data keep)
     (\<lambda>_. at_words c (W @ (if sd_acc_addr d r = sd_acc_addr PMD_DEV REG_MICRO_WRDATA_LSW then [data] else [])) D) s"
proof -
  let ?u = "s\<lparr>io_log := Wr Serdes1 (sd_reg SD_INDIR_ACC_CNTRL s) (SD_ACC_DELAYED_ACK OR SD_ACC_START_BUSY OR ucast data) #
     Wr Serdes1 (sd_reg SD_INDIR_ACC_MASK s) (0xffff0000 OR ucast keep) # Wr Serdes1 (sd_reg SD_INDIR_ACC_ADDR s) (sd_acc_addr d r) # io_log s\<rparr>"
  let ?W = "W @ (if sd_acc_addr d r = sd_acc_addr PMD_DEV REG_MICRO_WRDATA_LSW then [data] else [])"
  have c: "sd_core s = c" using assms by (simp add: at_words_def)
  have "wp (do { acc_delay; sd_acc_wait E }) (\<lambda>_. at_words c ?W D) ?u"
  proof (rule wp_mono [OF acc_wait_polls])
    fix x and t :: "'z serdes_world_scheme"
    assume "sd_core t = sd_core ?u \<and> (\<exists>evs. list_all polling evs \<and> io_log t = evs @ io_log ?u)"
    then obtain evs where t: "sd_core t = c" "io_log t = evs @ io_log ?u" and p: "list_all polling evs" using c by auto
    show "at_words c ?W D t"
      using assms unfolding at_words_def t ram_written_def ram_read_def polling_wr [OF p]
      by (simp add: polling_rd_wrote [OF p] is_cmd_def cntrl_word sd_reg_def c wr_or0_def or.assoc)
  qed
  then show ?thesis by (simp add: sd_pmi_wr_def sd_writel_def wp_simps sd_reg_def)
qed

lemma rd_words_other:
  fixes s :: "'z serdes_world_scheme"
  assumes s: "at_words c W D s" and r: "sd_acc_addr d r \<noteq> sd_acc_addr PMD_DEV REG_MICRO_RDDATA_LSW"
  shows "wp (sd_rd E d r) (\<lambda>_. at_words c W D) s"
proof -
  let ?u = "s\<lparr>io_log := Wr Serdes1 (sd_reg SD_INDIR_ACC_CNTRL s) (SD_ACC_DELAYED_ACK OR SD_ACC_START_BUSY OR SD_ACC_RW) #
     Wr Serdes1 (sd_reg SD_INDIR_ACC_ADDR s) (sd_acc_addr d r) # io_log s\<rparr>"
  have c: "sd_core s = c" using s by (simp add: at_words_def)
  have at: "at_words c W D t" if "sd_core t = c" "list_all polling evs" "io_log t = evs @ io_log ?u" for t :: "'z serdes_world_scheme" and evs
    using s r unfolding at_words_def that(1,3) ram_written_def ram_read_def polling_wr [OF that(2)]
    by (simp add: polling_rd_other [OF that(2)] is_cmd_def rd_cmd sd_reg_def c wr_or0_def)
  have "wp (bindE (do { acc_delay; sd_acc_wait E }) (\<lambda>_. do {
       v \<leftarrow> sd_readl E SD_INDIR_ACC_CNTRL;
       return (Inr (ucast (v AND SD_ACC_DATA_MASK) :: u16)) })) (\<lambda>_. at_words c W D) ?u"
  proof (rule wp_bindE_split, rule wp_mono [OF acc_wait_polls])
    fix x and t :: "'z serdes_world_scheme"
    assume "sd_core t = sd_core ?u \<and> (\<exists>evs. list_all polling evs \<and> io_log t = evs @ io_log ?u)"
    then obtain evs where t: "sd_core t = c" "io_log t = evs @ io_log ?u" and p: "list_all polling evs" using c by auto
    note a = at [OF t(1) p t(2)]
    have b: "at_words c W D (t\<lparr>io_log := Rd Serdes1 n v # io_log t\<rparr>)" for n v
      by (rule at [of _ "Rd Serdes1 n v # evs"]) (use t p in simp_all)
    show "(\<forall>e. x = Inl e \<longrightarrow> at_words c W D t) \<and> (\<forall>y. x = Inr y \<longrightarrow>
        wp (do { v \<leftarrow> sd_readl E SD_INDIR_ACC_CNTRL; return (Inr (ucast (v AND SD_ACC_DATA_MASK) :: u16)) }) (\<lambda>_. at_words c W D) t)"
      using a b by (simp add: sd_readl_def wp_simps)
  qed
  then show ?thesis by (simp add: sd_rd_def sd_writel_def wp_simps wp_bindE_fun sd_reg_def)
qed

lemma rd_words_data:
  fixes s :: "'z serdes_world_scheme"
  assumes s: "at_words c W D s"
  shows "wp (sd_rd E PMD_DEV REG_MICRO_RDDATA_LSW) (\<lambda>x t. \<forall>v. x = Inr v \<longrightarrow> at_words c W (D @ [v]) t) s"
proof -
  let ?a = "sd_acc_addr PMD_DEV REG_MICRO_RDDATA_LSW"
  let ?u = "s\<lparr>io_log := Wr Serdes1 (sd_reg SD_INDIR_ACC_CNTRL s) (SD_ACC_DELAYED_ACK OR SD_ACC_START_BUSY OR SD_ACC_RW) #
     Wr Serdes1 (sd_reg SD_INDIR_ACC_ADDR s) ?a # io_log s\<rparr>"
  have c: "sd_core s = c" using s by (simp add: at_words_def)
  have m: "ucast (v AND SD_ACC_DATA_MASK) = (ucast v :: u16)" for v :: u32
    by (rule bit_word_eqI, unfold bit_ucast_iff bit_and_iff bit_ffff_iff) auto
  have "wp (bindE (do { acc_delay; sd_acc_wait E }) (\<lambda>_. do {
       v \<leftarrow> sd_readl E SD_INDIR_ACC_CNTRL;
       return (Inr (ucast (v AND SD_ACC_DATA_MASK) :: u16)) })) (\<lambda>x t. \<forall>v. x = Inr v \<longrightarrow> at_words c W (D @ [v]) t) ?u"
  proof (rule wp_bindE_split, rule wp_mono [OF acc_wait_polls])
    fix x and t :: "'z serdes_world_scheme"
    assume "sd_core t = sd_core ?u \<and> (\<exists>evs. list_all polling evs \<and> io_log t = evs @ io_log ?u)"
    then obtain evs where t: "sd_core t = c" "io_log t = evs @ io_log ?u" and p: "list_all polling evs" using c by auto
    have b: "at_words c W (D @ [ucast v]) (t\<lparr>io_log := Rd Serdes1 (sd_reg SD_INDIR_ACC_CNTRL t) v # io_log t\<rparr>)" for v
      using s unfolding at_words_def ram_written_def ram_read_def
      by (simp add: t polling_wr [OF p] polling_last_wr [OF p] polling_rd_taken [OF p] is_cmd_def rd_cmd sd_reg_def c wr_or0_def)
    show "(\<forall>e. x = Inl e \<longrightarrow> (\<forall>v. Inl e = Inr v \<longrightarrow> at_words c W (D @ [v]) t)) \<and> (\<forall>y. x = Inr y \<longrightarrow>
        wp (do { v \<leftarrow> sd_readl E SD_INDIR_ACC_CNTRL; return (Inr (ucast (v AND SD_ACC_DATA_MASK) :: u16)) })
            (\<lambda>x t. \<forall>v. x = Inr v \<longrightarrow> at_words c W (D @ [v]) t) t)"
      using b by (simp add: sd_readl_def wp_simps m)
  qed
  then show ?thesis by (simp add: sd_rd_def sd_writel_def wp_simps wp_bindE_fun sd_reg_def)
qed

section \<open>The routines of the boot\<close>

lemma zero_words: "sd_acc_addr PMD_DEV r = sd_acc_addr PMD_DEV r' \<longleftrightarrow> r = r'"
  by (metis acc_addr_reg)

lemma wr_keeps: "r \<noteq> REG_MICRO_WRDATA_LSW \<Longrightarrow> keeps (at_words c W D) (sd_pmi_wr E PMD_DEV r v k)"
  by (rule keepsI) (use pmi_wr_words [of c W D _ E PMD_DEV r v k] in \<open>simp add: zero_words\<close>)

lemma rd_keeps: "r \<noteq> REG_MICRO_RDDATA_LSW \<Longrightarrow> keeps (at_words c W D) (sd_rd E PMD_DEV r)"
  by (rule keepsI, rule rd_words_other) (simp_all add: zero_words)

lemma delay_keeps: "keeps (at_words c W D) (delay_us n)"
  by (rule keeps_emit) (simp add: at_words_def ram_written_def ram_read_def)

lemma mark_keeps: "keeps (at_words c W D) (sd_mark m)"
  unfolding sd_mark_def
  by (intro keeps_bind keeps_modify keeps_emit) (simp_all add: at_words_def ram_written_def ram_read_def)

lemma field_keeps: "r \<noteq> REG_MICRO_WRDATA_LSW \<Longrightarrow> r \<noteq> REG_MICRO_RDDATA_LSW \<Longrightarrow> keeps (at_words c W D) (sd_wr_field E PMD_DEV r mk sh v)"
  unfolding sd_wr_field_def by (intro keeps_rules wr_keeps rd_keeps)

lemma plain_keeps: "r \<noteq> REG_MICRO_WRDATA_LSW \<Longrightarrow> keeps (at_words c W D) (sd_wr E PMD_DEV r v)"
  "r \<noteq> REG_MICRO_RDDATA_LSW \<Longrightarrow> keeps (at_words c W D) (sd_rdc E r)"
  unfolding sd_wr_def sd_rdc_def by (simp_all add: wr_keeps rd_keeps)

lemma selftest_keeps:
  "keeps (at_words c W D) (modify (selftest_d202_update f))" "keeps (at_words c W D) (modify (selftest_d225_update f))"
  by (simp_all add: keeps_modify)

lemmas words_keep = delay_keeps mark_keeps field_keeps plain_keeps selftest_keeps keeps_rules

lemma boot_keeps:
  "keeps (at_words c W D) (poll_micro_ra_initdone E)" "keeps (at_words c W D) (merlin_uc_reset E False)"
  "keeps (at_words c W D) (merlin_lib_wait_uc_active E)" "keeps (at_words c W D) (poll_dsc_ready E n)"
  "keeps (at_words c W D) (merlin_ucode_crc_verify E len x)"
proof -
  show "keeps (at_words c W D) (poll_micro_ra_initdone E)" "keeps (at_words c W D) (merlin_uc_reset E False)"
    "keeps (at_words c W D) (merlin_lib_wait_uc_active E)"
    unfolding poll_micro_ra_initdone_def merlin_uc_reset_def merlin_lib_wait_uc_active_def merlin_delay_us_def
    by (intro words_keep; simp)+
  show "keeps (at_words c W D) (poll_dsc_ready E n)" for n
    unfolding poll_dsc_ready_def merlin_delay_us_def by (intro words_keep; simp)
  then show "keeps (at_words c W D) (merlin_ucode_crc_verify E len x)"
    unfolding merlin_ucode_crc_verify_def by (intro words_keep; simp)
qed

text \<open>Sequences that go on after success only.\<close>

lemma keeps_ok: "keeps I m \<Longrightarrow> I s \<Longrightarrow> wp m (on_ok I) s"
  by (erule wp_mono [OF keeps_wp], assumption) (simp add: on_ok_def split: sum.split)

lemma keep_then: "keeps I m \<Longrightarrow> I s \<Longrightarrow> (\<And>x t. I t \<Longrightarrow> wp (f x) (on_ok Q) t) \<Longrightarrow> wp (bindE m f) (on_ok Q) s"
  by (rule wp_bindE_ok [OF keeps_ok])

lemma on_ok_conj: "A \<Longrightarrow> wp m (on_ok P) s \<Longrightarrow> wp m (on_ok (\<lambda>t. A \<and> P t)) s"
  by simp

lemma keep_seq: "keeps I m \<Longrightarrow> I s \<Longrightarrow> (\<And>x t. I t \<Longrightarrow> wp (f x) Q t) \<Longrightarrow> wp (State_Monad.bind m f) Q s"
  by (rule wp_seq [OF keeps_wp])

lemma wr_each_words:
  assumes "at_words c W D s"
  shows "wp (for_eachE ks (\<lambda>i. sd_wr E PMD_DEV (reg i) (val i)))
     (on_ok (at_words c (W @ map val (filter (\<lambda>i. reg i = REG_MICRO_WRDATA_LSW) ks)) D)) s"
proof (rule wp_for_eachE_inv [where I = "\<lambda>xs. at_words c (W @ map val (filter (\<lambda>i. reg i = REG_MICRO_WRDATA_LSW) xs)) D"])
  fix xs i ys and t :: "'a serdes_world_scheme"
  assume t: "at_words c (W @ map val (filter (\<lambda>i. reg i = REG_MICRO_WRDATA_LSW) xs)) D t"
  show "wp (sd_wr E PMD_DEV (reg i) (val i)) (\<lambda>r u. case r of Inl e \<Rightarrow> on_ok (at_words c (W @ map val (filter (\<lambda>i. reg i = REG_MICRO_WRDATA_LSW) ks)) D) (Inl e) u
     | Inr _ \<Rightarrow> at_words c (W @ map val (filter (\<lambda>i. reg i = REG_MICRO_WRDATA_LSW) (xs @ [i]))) D u) t"
    unfolding sd_wr_def by (rule wp_mono [OF pmi_wr_words [OF t]]) (auto simp: zero_words split: sum.split)
qed (use assms in simp_all)

lemma uc_reset_words:
  assumes "at_words c W D s"
  shows "wp (merlin_uc_reset E True) (on_ok (at_words c (W @ [0]) D)) s"
proof -
  have z: "map (\<lambda>_. 0) (filter (\<lambda>r. r = REG_MICRO_WRDATA_LSW) zero_regs) = [0 :: u16]" by (simp add: zero_regs_def)
  have u: "map snd (filter (\<lambda>p. fst p = REG_MICRO_WRDATA_LSW) uc_reset_regs) = []" by (simp add: uc_reset_regs_def)
  note zeros = wr_each_words [where reg = "\<lambda>r. r" and val = "\<lambda>_. 0" and ks = zero_regs, unfolded z]
  have rest: "wp (for_eachE uc_reset_regs (\<lambda>(reg, val). sd_wr E PMD_DEV reg val)) (on_ok (at_words c W' D)) t"
    if "at_words c W' D t" for W' and t :: "'a serdes_world_scheme"
    using wr_each_words [OF that, where reg = fst and val = snd and ks = uc_reset_regs] by (simp add: u case_prod_unfold)
  note step = keep_then [OF field_keeps] wp_bindE_ok [OF zeros] rest
  show ?thesis
    unfolding merlin_uc_reset_def if_P [OF TrueI]
    by (insert assms, (rule step | assumption | simp)+)
qed

lemma load_words:
  assumes "at_words c W D s"
  shows "wp (merlin_ucode_load E img) (on_ok (\<lambda>t. length img \<le> UCODE_MAX_SIZE \<and> at_words c (W @ map (img_word img) (img_passes img)) D t)) s"
proof (cases "length img > UCODE_MAX_SIZE")
  case False
  note loop = wr_each_words [where reg = "\<lambda>_. REG_MICRO_WRDATA_LSW" and val = "img_word img" and ks = "img_passes img", simplified]
  note step = keep_then [OF field_keeps] keep_then [OF plain_keeps(1)] keep_then [OF boot_keeps(1)]
    keep_seq [OF plain_keeps(2)] keep_seq [OF selftest_keeps(1)] keeps_ok [OF field_keeps] wp_bindE_ok [OF loop]
  have "wp (merlin_ucode_load E img) (on_ok (at_words c (W @ map (img_word img) (img_passes img)) D)) s"
    unfolding merlin_ucode_load_def if_not_P [OF False]
    by (insert assms, (rule step | assumption | simp)+)
  then show ?thesis using False by (auto elim!: wp_mono simp: on_ok_def split: sum.split)
qed (simp add: merlin_ucode_load_def wp_simps)

lemma verify_words:
  assumes "at_words c W D s"
  shows "wp (merlin_ucode_verify E img) (on_ok (at_words c W (D @ map (img_word img) (img_passes img)))) s"
proof (cases "padded img > UCODE_MAX_SIZE")
  case False
  have one: "wp (verify_word E img i) (on_ok (at_words c W (D' @ [img_word img i]))) t" if "at_words c W D' t" for D' i and t :: "'a serdes_world_scheme"
    unfolding verify_word_def sd_rdc_def
    by (rule wp_bindE_split, rule wp_mono [OF rd_words_data [OF that]]) (simp add: wp_simps sd_mark_def on_ok_def split: sum.split)
  have loop: "wp (for_eachE (img_passes img) (verify_word E img)) (on_ok (at_words c W (D @ map (img_word img) (img_passes img)))) t"
    if "at_words c W D t" for t :: "'a serdes_world_scheme"
    by (rule wp_for_eachE_inv [where I = "\<lambda>xs. at_words c W (D @ map (img_word img) xs)"])
      (use that in \<open>auto intro!: wp_mono [OF one] simp: on_ok_def split: sum.split\<close>)
  note step = keep_then [OF field_keeps] keep_then [OF plain_keeps(1)] keeps_ok [OF field_keeps] wp_bindE_ok [OF loop]
  show ?thesis
    unfolding merlin_ucode_verify_def if_not_P [OF False]
    by (insert assms, (rule step | assumption | simp)+)
qed (simp add: merlin_ucode_verify_def wp_simps)

lemma info_words:
  assumes "at_words c W D s"
  shows "wp (merlin_check_info_table E) (on_ok (\<lambda>t. \<exists>w0 w1. info_table_ok (push_bit 16 (ucast w1) OR ucast w0) \<and> at_words c W (D @ [w0, w1]) t)) s"
proof -
  have rd: "wp (bindE (sd_rd E PMD_DEV REG_MICRO_RDDATA_LSW) f) Q t"
    if "at_words c W D' t" "\<And>w u. at_words c W (D' @ [w]) u \<Longrightarrow> wp (f w) Q u" "\<And>e u. Q (Inl e) u" for D' f Q and t :: "'a serdes_world_scheme"
    by (rule wp_bindE_split, rule wp_mono [OF rd_words_data [OF that(1)]]) (use that(2,3) in auto)
  have fin: "wp (bindE (sd_wr_field E PMD_DEV REG_MICRO_RAM_CTRL MICRO_RDDATASIZE_MASK MICRO_RDDATASIZE_SHIFT 2) (\<lambda>_.
       if \<not> info_table_ok (push_bit 16 (ucast w1) OR ucast w0)
       then do { sd_mark E66B_MK_ERR_SD_CRC; return (Inl EIO) }
       else return (Inr ()))) (on_ok (\<lambda>t. \<exists>w0 w1. info_table_ok (push_bit 16 (ucast w1) OR ucast w0) \<and> at_words c W (D @ [w0, w1]) t)) t"
    if "at_words c W (D @ [w0, w1]) t" for w0 w1 and t :: "'a serdes_world_scheme"
    by (rule keep_then [OF field_keeps that]) (auto simp: wp_simps wp_True on_ok_def sd_mark_def)
  note step = keep_then [OF field_keeps] keep_then [OF plain_keeps(1)] rd fin
  show ?thesis
    unfolding merlin_check_info_table_def
    by (insert assms, (rule step | assumption | simp)+)
qed

section \<open>The image\<close>

definition word_bytes :: "u16 list \<Rightarrow> u8 list" where
  "word_bytes ws = concat (map (\<lambda>w. [ucast w, ucast (drop_bit 8 w)]) ws)"

lemma img_word_bytes:
  "ucast (img_word img i) = img_byte img (2 * i)" "ucast (drop_bit 8 (img_word img i)) = img_byte img (2 * i + 1)"
proof -
  have h: "ucast (push_bit 8 (ucast a) OR ucast b :: u16) = b" for a b :: u8
    by (rule bit_word_eqI) (auto simp: bit_simps)
  have l: "ucast (drop_bit 8 (push_bit 8 (ucast a) OR ucast b :: u16)) = a" for a b :: u8
    by (rule bit_word_eqI) (auto simp: bit_simps dest: bit_imp_le_length)
  show "ucast (img_word img i) = img_byte img (2 * i)" "ucast (drop_bit 8 (img_word img i)) = img_byte img (2 * i + 1)"
    unfolding img_word_def h l by simp_all
qed

lemma img_words_bytes: "word_bytes (map (img_word img) [0..<n]) = map (img_byte img) [0..<2 * n]"
  by (induction n) (simp_all add: word_bytes_def img_word_bytes)

lemma img_passes_bytes: "take (length img) (word_bytes (map (img_word img) (img_passes img))) = img"
proof -
  have "length img \<le> 2 * max 1 (padded img div 2)" by (simp add: padded_def)
  then show ?thesis
    by (intro nth_equalityI) (simp_all add: img_passes_def img_words_bytes img_byte_def)
qed

lemma firmware_words:
  assumes "at_words c W D s"
  shows "wp (merlin_load_firmware E img) (on_ok (\<lambda>t. length img \<le> UCODE_MAX_SIZE \<and> (\<exists>w0 w1. info_table_ok (push_bit 16 (ucast w1) OR ucast w0) \<and>
     at_words c (W @ 0 # map (img_word img) (img_passes img)) (D @ map (img_word img) (img_passes img) @ [w0, w1]) t))) s"
proof -
  let ?P = "map (img_word img) (img_passes img)"
  have prts: "keeps (at_words c W D) (if b then
         bindE (sd_wr_field E PMD_DEV REG_MDIO_MULTI_PRTS 0x8000 15 0) (\<lambda>_.
         sd_wr_field E PMD_DEV REG_MDIO_BRCST_ADDR 0x001f 0 v)
       else return (Inr ()))" for b v
    by (intro words_keep) simp_all
  have check: "wp (bindE (merlin_check_info_table E) (\<lambda>_. do { sd_mark E66B_MK_SD_UCODE_CRC; return (Inr ()) }))
     (on_ok (\<lambda>t. \<exists>w0 w1. info_table_ok (push_bit 16 (ucast w1) OR ucast w0) \<and> at_words c (W @ 0 # ?P) (D @ ?P @ [w0, w1]) t)) t"
    if "at_words c (W @ 0 # ?P) (D @ ?P) t" for t :: "'a serdes_world_scheme"
  proof (rule wp_bindE_ok [OF info_words [OF that]])
    fix x and u :: "'a serdes_world_scheme"
    assume "\<exists>w0 w1. info_table_ok (push_bit 16 (ucast w1) OR ucast w0) \<and> at_words c (W @ 0 # ?P) ((D @ ?P) @ [w0, w1]) u"
    then obtain w0 w1 where w: "info_table_ok (push_bit 16 (ucast w1) OR ucast w0)" and u: "at_words c (W @ 0 # ?P) (D @ ?P @ [w0, w1]) u" by auto
    show "wp (do { sd_mark E66B_MK_SD_UCODE_CRC; return (Inr ()) })
       (on_ok (\<lambda>t. \<exists>w0 w1. info_table_ok (push_bit 16 (ucast w1) OR ucast w0) \<and> at_words c (W @ 0 # ?P) (D @ ?P @ [w0, w1]) t)) u"
      by (rule keep_seq [OF mark_keeps u]) (use w in \<open>auto simp: wp_return\<close>)
  qed
  note step = wp_gets_seq keep_then [OF prts] keep_then [OF boot_keeps(2)] keep_then [OF boot_keeps(3)] keep_then [OF boot_keeps(5)]
    keep_seq [OF plain_keeps(2)] keep_seq [OF selftest_keeps(2)]
  have rest: "wp (do {
         sd_mark E66B_MK_SD_UCODE_LOADED;
         bindE (merlin_ucode_verify E img) (\<lambda>_. do {
           sd_mark E66B_MK_SD_UCODE_VERIFIED;
           bindE (merlin_uc_reset E False) (\<lambda>_.
           bindE (merlin_lib_wait_uc_active E) (\<lambda>_. do {
             sd_mark E66B_MK_SD_UC_ACTIVE;
             bindE (merlin_ucode_crc_verify E (of_nat (length img)) MERLIN16_UCODE_CRC) (\<lambda>_.
             bindE (merlin_check_info_table E) (\<lambda>_. do {
               sd_mark E66B_MK_SD_UCODE_CRC;
               return (Inr ()) })) })) }) })
     (on_ok (\<lambda>t. \<exists>w0 w1. info_table_ok (push_bit 16 (ucast w1) OR ucast w0) \<and> at_words c (W @ 0 # ?P) (D @ ?P @ [w0, w1]) t)) t"
    if "at_words c (W @ 0 # ?P) D t" for t :: "'a serdes_world_scheme"
    by (insert that, (rule step check keep_seq [OF mark_keeps] wp_bindE_ok [OF verify_words] | assumption | simp)+)
  note last = on_ok_conj [OF _ rest]
  show ?thesis
    unfolding merlin_load_firmware_def
    by (insert assms, (rule step wp_bindE_ok [OF uc_reset_words] wp_bindE_ok [OF load_words] | assumption | (erule conjE) | (rule last) | simp)+)
qed

lemma img_passes_pad: "list_all (\<lambda>b. b = 0) (drop (length img) (word_bytes (map (img_word img) (img_passes img))))"
  by (auto simp: list_all_length img_passes_def img_words_bytes img_byte_def)


subsection \<open>A microcontroller that starts\<close>

text \<open>A device whose memory port reads two words in turn, those of the image below and of a table of information.\<close>

definition uc_env :: env where
  "uc_env = \<lparr>env_rd = \<lambda>L w off.
     (if wr_or0 L SD_INDIR_ACC_ADDR = sd_acc_addr PMD_DEV REG_MICRO_RDDATA_LSW then
        (if even (length (ram_read 0 L)) then 0x6e49 else 0x3266)
      else if wr_or0 L SD_INDIR_ACC_ADDR = sd_acc_addr PMD_DEV REG_DSC_UC_DATA then 0x4949
      else 0x8081), env_call = \<lambda>_ _. 0\<rparr>"

definition uc_img :: "u8 list" where
  "uc_img = [0x49, 0x6e, 0x66, 0x32]"

definition uc_up :: "bool \<Rightarrow> 'z serdes_world_scheme \<Rightarrow> bool" where
  "uc_up b s \<longleftrightarrow> sd_core s = 0 \<and> poll_busy s = 0 \<and> hw_mask s \<noteq> 0 \<and> acc_delay_us s = 0 \<and> even (length (ram_read 0 (io_log s))) = b"

lemma uc_wr: "uc_up b s \<Longrightarrow> wp (sd_pmi_wr uc_env PMD_DEV r v k) (\<lambda>x t. x = Inr () \<and> uc_up b t) s"
  by (simp add: sd_pmi_wr_def sd_writel_def sd_acc_wait_def acc_delay_def wp_simps sd_reg_def uc_up_def ram_read_def)

lemma uc_rd:
  "uc_up b s \<Longrightarrow> wp (sd_rd uc_env PMD_DEV r) (\<lambda>x t. x = Inr (if r = REG_MICRO_RDDATA_LSW then if b then 0x6e49 else 0x3266
     else if r = REG_DSC_UC_DATA then 0x4949 else 0x8081) \<and> uc_up (b = (r \<noteq> REG_MICRO_RDDATA_LSW)) t) s"
  by (simp add: sd_rd_def sd_writel_def sd_acc_wait_def acc_delay_def wp_simps wp_bindE_fun sd_readl_def sd_reg_def uc_up_def ram_read_def
      uc_env_def wr_or0_def zero_words is_cmd_def rd_cmd)

lemma uc_wr0: "uc_up b s \<Longrightarrow> wp (sd_wr uc_env PMD_DEV r v) (\<lambda>x t. x = Inr () \<and> uc_up b t) s"
  unfolding sd_wr_def by (rule uc_wr)

lemma uc_fld: "uc_up b s \<Longrightarrow> wp (sd_wr_field uc_env PMD_DEV r mk sh v) (\<lambda>x t. x = Inr () \<and> uc_up b t) s"
  using uc_wr [of b s r "push_bit sh v" "NOT mk"] by (simp add: sd_wr_field_def wp_simps) (simp add: uc_up_def)

lemma uc_mark: "uc_up b s \<Longrightarrow> wp (sd_mark m) (\<lambda>_. uc_up b) s"
  by (simp add: sd_mark_def wp_simps uc_up_def ram_read_def)

lemma uc_modify:
  "uc_up b s \<Longrightarrow> wp (modify (selftest_d202_update f)) (\<lambda>_. uc_up b) s" "uc_up b s \<Longrightarrow> wp (modify (selftest_d225_update f)) (\<lambda>_. uc_up b) s"
  by (simp_all add: wp_modify uc_up_def)

lemma uc_rdc: "uc_up b s \<Longrightarrow> r \<noteq> REG_MICRO_RDDATA_LSW \<Longrightarrow>
    wp (sd_rdc uc_env r) (\<lambda>x t. x = Inr (if r = REG_DSC_UC_DATA then 0x4949 else 0x8081) \<and> uc_up b t) s"
  unfolding sd_rdc_def by (rule wp_mono [OF uc_rd [of b]]) simp_all

lemma uc_rdata: "uc_up b s \<Longrightarrow>
    wp (sd_rd uc_env PMD_DEV REG_MICRO_RDDATA_LSW) (\<lambda>x t. x = Inr (if b then 0x6e49 else 0x3266) \<and> uc_up (\<not> b) t) s"
  by (rule wp_mono [OF uc_rd [of b]]) simp_all

lemma uc_wrs: "uc_up b s \<Longrightarrow> wp (for_eachE ks (\<lambda>k. sd_wr uc_env PMD_DEV (reg k) (val k))) (\<lambda>x t. x = Inr () \<and> uc_up b t) s"
  unfolding sd_wr_def by (rule wp_for_eachE_inv [where I = "\<lambda>_. uc_up b"]) (auto intro: wp_mono [OF uc_wr])

lemma uc_ans:
  assumes "uc_up b s" and "r \<noteq> REG_MICRO_RDDATA_LSW" and "\<And>t. uc_up b t \<Longrightarrow> wp (f (Inr (if r = REG_DSC_UC_DATA then 0x4949 else 0x8081))) Q t"
  shows "wp (State_Monad.bind (sd_rdc uc_env r) f) Q s"
  by (rule wp_seq [OF uc_rdc [OF assms(1,2)]]) (use assms(3) in simp)

lemma uc_status: "(0x8081 :: u16) AND BIT 0 \<noteq> 0" "(0x8081 :: u16) AND BIT 15 \<noteq> 0" "(0x8081 :: u16) AND BIT 7 \<noteq> 0" "(0x8081 :: u16) AND BIT 6 = 0"
  by (simp_all add: and_BIT_eq_0_iff)

lemma uc_polls:
  assumes "uc_up b s"
  shows "wp (poll_micro_ra_initdone uc_env) (\<lambda>x t. x = Inr () \<and> uc_up b t) s"
    "wp (merlin_lib_wait_uc_active uc_env) (\<lambda>x t. x = Inr () \<and> uc_up b t) s"
    "wp (poll_dsc_ready uc_env n) (\<lambda>x t. x = Inr () \<and> uc_up b t) s"
proof -
  have l: "[0..<10000] = 0 # [Suc 0..<10000]" "[0..<100] = 0 # [Suc 0..<100]" by (rule upt_conv_Cons, simp)+
  show "wp (poll_micro_ra_initdone uc_env) (\<lambda>x t. x = Inr () \<and> uc_up b t) s"
    unfolding poll_micro_ra_initdone_def wp_bind [of "poll_loop _ _"]
    by (rule wp_poll_first, simp, rule uc_ans [OF assms]) (simp_all add: wp_simps uc_status)
  show "wp (merlin_lib_wait_uc_active uc_env) (\<lambda>x t. x = Inr () \<and> uc_up b t) s"
    unfolding merlin_lib_wait_uc_active_def wp_bind [of "poll_each _ _"] l
    by (rule wp_poll_each_first, rule uc_ans [OF assms]) (simp_all add: wp_simps uc_status)
  show "wp (poll_dsc_ready uc_env n) (\<lambda>x t. x = Inr () \<and> uc_up b t) s"
    unfolding poll_dsc_ready_def wp_bind [of "poll_each _ _"] l
    by (rule wp_poll_each_first, rule uc_ans [OF assms]) (simp_all add: wp_simps uc_status)
qed

lemmas uc_step = wp_bindE_Inr [OF uc_fld] wp_bindE_Inr [OF uc_wr0] wp_bindE_Inr [OF uc_polls(1)] wp_bindE_Inr [OF uc_polls(3)]
  uc_fld uc_wr0 uc_ans wp_seq [OF uc_mark] wp_seq [OF uc_modify(1)] wp_seq [OF uc_modify(2)]

lemma uc_reset_up: "uc_up b s \<Longrightarrow> wp (merlin_uc_reset uc_env a) (\<lambda>x t. x = Inr () \<and> uc_up b t) s"
  unfolding merlin_uc_reset_def case_prod_unfold
  by (intro wp_ifI) ((rule uc_step uc_wrs [of _ _ uc_reset_regs] wp_bindE_Inr [OF uc_wrs [where reg = "\<lambda>r. r" and val = "\<lambda>_. 0"]] | assumption)+)

lemma uc_load_up: "uc_up b s \<Longrightarrow> wp (merlin_ucode_load uc_env uc_img) (\<lambda>x t. x = Inr () \<and> uc_up b t) s"
  unfolding merlin_ucode_load_def
  by (intro wp_ifI, simp add: uc_img_def) ((rule uc_step wp_bindE_Inr [OF uc_wrs [where reg = "\<lambda>_. REG_MICRO_WRDATA_LSW"]] | assumption | simp)+)

lemma uc_crc_up: "uc_up b s \<Longrightarrow> wp (merlin_ucode_crc_verify uc_env len 0x4949) (\<lambda>x t. x = Inr () \<and> uc_up b t) s"
  unfolding merlin_ucode_crc_verify_def
  by (rule uc_step wp_bindE_Inr [OF uc_rdc] | assumption | simp add: wp_return)+

lemma uc_img_words: "img_passes uc_img = [0, 1]" "img_word uc_img 0 = 0x6e49" "img_word uc_img 1 = 0x3266" "padded uc_img = 4"
  by (simp_all add: img_passes_def padded_def uc_img_def img_word_def img_byte_def upt_rec)

lemma uc_verify_up:
  assumes "uc_up True s"
  shows "wp (merlin_ucode_verify uc_env uc_img) (\<lambda>x t. x = Inr () \<and> uc_up True t) s"
proof -
  have v: "wp (verify_word uc_env uc_img i) (\<lambda>x t. x = Inr () \<and> uc_up (\<not> b) t) t"
    if "img_word uc_img i = (if b then 0x6e49 else 0x3266)" "uc_up b t" for i b and t :: "'a serdes_world_scheme"
    unfolding verify_word_def sd_rdc_def by (rule wp_bindE_Inr [OF uc_rdata [OF that(2)]]) (use that(1) in \<open>simp add: wp_simps\<close>)
  have "wp (for_eachE [0, 1] (verify_word uc_env uc_img)) (\<lambda>x t. x = Inr () \<and> uc_up True t) t" if "uc_up True t" for t :: "'a serdes_world_scheme"
    unfolding for_eachE.simps
    by (rule wp_bindE_Inr [OF v [of 0 True]], simp add: uc_img_words, rule that, rule wp_bindE_Inr [OF v [of 1 False]])
      (simp_all add: uc_img_words [unfolded One_nat_def] wp_return)
  note loop = this [folded uc_img_words(1)]
  show ?thesis
    unfolding merlin_ucode_verify_def
    by (intro wp_ifI, simp add: uc_img_words) (insert assms, (rule uc_step wp_bindE_Inr [OF loop] | assumption | simp)+)
qed

lemma uc_info_up:
  assumes "uc_up True s"
  shows "wp (merlin_check_info_table uc_env) (\<lambda>x t. x = Inr () \<and> uc_up True t) s"
proof -
  have i: "info_table_ok 0x32666e49" by (simp add: info_table_ok_def)
  note rds = wp_bindE_Inr [OF uc_rdata [of True, unfolded if_True not_True_eq_False]]
    wp_bindE_Inr [OF uc_rdata [of False, unfolded if_False not_False_eq_True]]
  show ?thesis
    unfolding merlin_check_info_table_def
    by (insert assms, (rule uc_step | (rule rds, assumption) | assumption)+) (simp add: wp_return i)
qed

lemma uc_firmware_up:
  assumes "uc_up True s"
  shows "wp (merlin_load_firmware uc_env uc_img) (\<lambda>x t. x = Inr () \<and> uc_up True t) s"
proof -
  have prts: "wp (if b then
         bindE (sd_wr_field uc_env PMD_DEV REG_MDIO_MULTI_PRTS 0x8000 15 0) (\<lambda>_.
         sd_wr_field uc_env PMD_DEV REG_MDIO_BRCST_ADDR 0x001f 0 v)
       else return (Inr ())) (\<lambda>x t. x = Inr () \<and> uc_up True t) t" if "uc_up True t" for b v and t :: "'a serdes_world_scheme"
    by (rule wp_ifI) (insert that, (rule uc_step | assumption | simp add: wp_return)+)
  note ups = wp_bindE_Inr [OF prts] wp_bindE_Inr [OF uc_reset_up] wp_bindE_Inr [OF uc_load_up] wp_bindE_Inr [OF uc_verify_up]
    wp_bindE_Inr [OF uc_polls(2)] wp_bindE_Inr [OF uc_crc_up] wp_bindE_Inr [OF uc_info_up]
  show ?thesis
    unfolding merlin_load_firmware_def
    by (insert assms, (rule wp_gets_seq ups uc_step | assumption | simp add: wp_return)+)
qed


end
