(* ===== verification/Sysport.thy ===== *)
theory Sysport
  imports Sf2_Switch
begin

text \<open>
  port66/enet66/sysport6764.c: the SYSTEMPORT MAC, its two network devices over one shared
  receive and one shared transmit ring, the poll timer and the module entry point.  A pointer
  to a network device is an index into the list of allocated devices; the coherent DMA block is
  a byte-addressed memory with offset 0 at \<^verbatim>\<open>dma_va\<close>.  A NULL dereference is the outcome \<open>Oops\<close>.
  Frames handed to the stack are \<open>Deliver\<close> events and calls into the network core that return
  nothing are \<open>KNote\<close> events.
\<close>

section \<open>Constants (enet6764.h)\<close>

abbreviation (input) RBUF_CONTROL :: nat where "RBUF_CONTROL \<equiv> 0x00"
abbreviation (input) RBUF_PACKET_READY_THR :: nat where "RBUF_PACKET_READY_THR \<equiv> 0x04"
abbreviation (input) RBUF_CTRL_RSB_MODE_M :: u32 where "RBUF_CTRL_RSB_MODE_M \<equiv> 0x3"
abbreviation (input) RBUF_CTRL_4B_ALIGN_M :: u32 where "RBUF_CTRL_4B_ALIGN_M \<equiv> BIT 2"
abbreviation (input) RBUF_CTRL_BTAG_STRIP_M :: u32 where "RBUF_CTRL_BTAG_STRIP_M \<equiv> BIT 3"
abbreviation (input) RBUF_CTRL_BAD_PKT_DISCARD_M :: u32 where "RBUF_CTRL_BAD_PKT_DISCARD_M \<equiv> BIT 4"

abbreviation (input) RDMA_DESCRIPTOR :: nat where "RDMA_DESCRIPTOR \<equiv> 0x0000"
abbreviation (input) RDMA_CONTROL :: nat where "RDMA_CONTROL \<equiv> 0x1080"
abbreviation (input) RDMA_STATUS :: nat where "RDMA_STATUS \<equiv> 0x1084"
abbreviation (input) RDMA_LOCRAM_DESCRING_SIZE :: "nat \<Rightarrow> nat" where "RDMA_LOCRAM_DESCRING_SIZE q \<equiv> 0x10b0 + q * 4"
abbreviation (input) RDMA_PKTBUF_SIZE :: "nat \<Rightarrow> nat" where "RDMA_PKTBUF_SIZE q \<equiv> 0x10d0 + q * 4"
abbreviation (input) RDMA_PINDEX :: "nat \<Rightarrow> nat" where "RDMA_PINDEX q \<equiv> 0x10f0 + q * 4"
abbreviation (input) RDMA_CINDEX :: "nat \<Rightarrow> nat" where "RDMA_CINDEX q \<equiv> 0x1110 + q * 4"
abbreviation (input) RDMA_DDR_DESC_RING_START :: "nat \<Rightarrow> nat" where "RDMA_DDR_DESC_RING_START i \<equiv> 0x1170 + i * 4"
abbreviation (input) RDMA_DDR_DESC_RING_SIZE :: "nat \<Rightarrow> nat" where "RDMA_DDR_DESC_RING_SIZE q \<equiv> 0x11b0 + q * 4"
abbreviation (input) RDMA_CTRL_RDMA_EN_M :: u32 where "RDMA_CTRL_RDMA_EN_M \<equiv> BIT 0"
abbreviation (input) RDMA_RING_EN :: u32 where "RDMA_RING_EN \<equiv> BIT 17"

abbreviation (input) TDMA_WRITE_PORT_LO :: "nat \<Rightarrow> nat" where "TDMA_WRITE_PORT_LO r \<equiv> 0x0000 + r * 8 + 0"
abbreviation (input) TDMA_WRITE_PORT_HI :: "nat \<Rightarrow> nat" where "TDMA_WRITE_PORT_HI r \<equiv> 0x0000 + r * 8 + 4"
abbreviation (input) TDMA_DESC_RING_CONTROL :: "nat \<Rightarrow> nat" where "TDMA_DESC_RING_CONTROL r \<equiv> 0x0200 + r * 4"
abbreviation (input) TDMA_DESC_RING_MAX_THRESHOLD :: "nat \<Rightarrow> nat" where "TDMA_DESC_RING_MAX_THRESHOLD r \<equiv> 0x0380 + r * 4"
abbreviation (input) TDMA_DESC_RING_INTR_CONTROL :: "nat \<Rightarrow> nat" where "TDMA_DESC_RING_INTR_CONTROL r \<equiv> 0x0400 + r * 4"
abbreviation (input) TDMA_DESC_RING_PC_INDEX :: "nat \<Rightarrow> nat" where "TDMA_DESC_RING_PC_INDEX r \<equiv> 0x0480 + r * 4"
abbreviation (input) TDMA_DESC_RING_MAPPING :: "nat \<Rightarrow> nat" where "TDMA_DESC_RING_MAPPING r \<equiv> 0x0500 + r * 4"
abbreviation (input) TDMA_DDR_DESC_RING_START :: "nat \<Rightarrow> nat" where "TDMA_DDR_DESC_RING_START i \<equiv> 0x0600 + i * 4"
abbreviation (input) TDMA_DDR_DESC_RING_SIZE :: "nat \<Rightarrow> nat" where "TDMA_DDR_DESC_RING_SIZE r \<equiv> 0x0700 + r * 4"
abbreviation (input) TDMA_DDR_DESC_RING_CTRL :: "nat \<Rightarrow> nat" where "TDMA_DDR_DESC_RING_CTRL r \<equiv> 0x0780 + r * 4"
abbreviation (input) TDMA_DDR_DESC_RING_PUSH_TIMER :: "nat \<Rightarrow> nat" where "TDMA_DDR_DESC_RING_PUSH_TIMER r \<equiv> 0x0800 + r * 4"
abbreviation (input) TDMA_CONTROL :: nat where "TDMA_CONTROL \<equiv> 0x0904"
abbreviation (input) TDMA_STATUS :: nat where "TDMA_STATUS \<equiv> 0x0908"
abbreviation (input) TDMA_TIER1_ARBITER_CTRL :: "nat \<Rightarrow> nat" where "TDMA_TIER1_ARBITER_CTRL i \<equiv> 0x0910 + i * 4"
abbreviation (input) TDMA_TIER1_ARBITER_QUEUE_EN :: "nat \<Rightarrow> nat" where "TDMA_TIER1_ARBITER_QUEUE_EN i \<equiv> 0x0930 + i * 4"
abbreviation (input) TDMA_TIER2_ARBITER_CTRL :: nat where "TDMA_TIER2_ARBITER_CTRL \<equiv> 0x0950"
abbreviation (input) TDMA_DESC_RING_CONTROL_RING_EN :: u32 where "TDMA_DESC_RING_CONTROL_RING_EN \<equiv> BIT 1"
abbreviation (input) TDMA_CONTROL_TDMA_EN_M :: u32 where "TDMA_CONTROL_TDMA_EN_M \<equiv> BIT 0"
abbreviation (input) TDMA_CONTROL_TSB_EN_M :: u32 where "TDMA_CONTROL_TSB_EN_M \<equiv> BIT 1"
abbreviation (input) TDMA_CONTROL_RING_CFG_M :: u32 where "TDMA_CONTROL_RING_CFG_M \<equiv> BIT 19"
abbreviation (input) TDMA_CONTROL_ACB_EN_M :: u32 where "TDMA_CONTROL_ACB_EN_M \<equiv> BIT 27"
abbreviation (input) TDMA_CONTROL_TPD_16B_EN :: u32 where "TDMA_CONTROL_TPD_16B_EN \<equiv> BIT 29"
abbreviation (input) TOPCTRL_RX_FLUSH_CNTL :: nat where "TOPCTRL_RX_FLUSH_CNTL \<equiv> 0x04"
abbreviation (input) TOPCTRL_TX_FLUSH_CNTL :: nat where "TOPCTRL_TX_FLUSH_CNTL \<equiv> 0x08"

abbreviation (input) SP_RX_DESC_LOG2 :: u32 where "SP_RX_DESC_LOG2 \<equiv> 5"
abbreviation (input) SP_TX_DESC_LOG2 :: u32 where "SP_TX_DESC_LOG2 \<equiv> 0"
abbreviation (input) SP_PKT_LEN_LOG2 :: u32 where "SP_PKT_LEN_LOG2 \<equiv> 11"
abbreviation (input) SP_NUM_RX_BUFS :: nat where "SP_NUM_RX_BUFS \<equiv> 32"
abbreviation (input) SP_NUM_TX_BUFS :: nat where "SP_NUM_TX_BUFS \<equiv> 1"
abbreviation (input) SP_DMA_BUFSIZE :: nat where "SP_DMA_BUFSIZE \<equiv> 2048"
abbreviation (input) SP_MAX_PKT_LEN :: nat where "SP_MAX_PKT_LEN \<equiv> 1536"
abbreviation (input) SP_ENET_ZLEN :: nat where "SP_ENET_ZLEN \<equiv> 60"
abbreviation (input) ETH_ZLEN :: nat where "ETH_ZLEN \<equiv> 60"
abbreviation (input) ETH_ALEN :: nat where "ETH_ALEN \<equiv> 6"
abbreviation (input) SP_DESC_STRIDE :: nat where "SP_DESC_STRIDE \<equiv> 8"
abbreviation (input) SP_DESC_ADDR_HI_MASK :: u32 where "SP_DESC_ADDR_HI_MASK \<equiv> 0xff"
abbreviation (input) SP_DESC_LEN_SHIFT :: nat where "SP_DESC_LEN_SHIFT \<equiv> 18"
abbreviation (input) SP_DESC_LEN_MASK :: u32 where "SP_DESC_LEN_MASK \<equiv> 0x3fff"
abbreviation (input) SP_TAG_LEN :: nat where "SP_TAG_LEN \<equiv> 4"
abbreviation (input) SP_TAG_EGRESS_OPCODE :: u8 where "SP_TAG_EGRESS_OPCODE \<equiv> 0x20"
abbreviation (input) SP_TAG_SRC_PORT_MASK :: u8 where "SP_TAG_SRC_PORT_MASK \<equiv> 0x1f"
abbreviation (input) SP_TAG_TYPE2_HI :: u8 where "SP_TAG_TYPE2_HI \<equiv> 0x88"
abbreviation (input) SP_TAG_TYPE2_LO :: u8 where "SP_TAG_TYPE2_LO \<equiv> 0x8a"
abbreviation (input) SP_TAG_FMT_TYPE2 :: int where "SP_TAG_FMT_TYPE2 \<equiv> 2"
abbreviation (input) SP_MAX_NETDEVS :: nat where "SP_MAX_NETDEVS \<equiv> 2"
abbreviation (input) SP_TX_RING :: nat where "SP_TX_RING \<equiv> 0"
abbreviation (input) SP_RX_QUEUE :: nat where "SP_RX_QUEUE \<equiv> 0"
abbreviation (input) SF2_EN_MAN_TO_WAN :: u32 where "SF2_EN_MAN_TO_WAN \<equiv> BIT 9"
abbreviation (input) SP_SPLIT_WAN_PORT_DEFAULT :: u32 where "SP_SPLIT_WAN_PORT_DEFAULT \<equiv> 0"

abbreviation (input) MK_SYSPORT_INIT :: u8 where "MK_SYSPORT_INIT \<equiv> 0x67"
abbreviation (input) MK_NETDEV_OK :: u8 where "MK_NETDEV_OK \<equiv> 0x68"
abbreviation (input) MK_FIRST_TX :: u8 where "MK_FIRST_TX \<equiv> 0x69"
abbreviation (input) MK_FIRST_RX :: u8 where "MK_FIRST_RX \<equiv> 0x6A"
abbreviation (input) MK_ERR_SP_MAP :: u8 where "MK_ERR_SP_MAP \<equiv> 0xE9"
abbreviation (input) MK_ERR_SP_DMA :: u8 where "MK_ERR_SP_DMA \<equiv> 0xEA"
abbreviation (input) MK_ERR_RDMA :: u8 where "MK_ERR_RDMA \<equiv> 0xEB"
abbreviation (input) MK_ERR_TDMA :: u8 where "MK_ERR_TDMA \<equiv> 0xEC"
abbreviation (input) MK_ERR_NETDEV :: u8 where "MK_ERR_NETDEV \<equiv> 0xED"
abbreviation (input) MK_ERR_TX_STUCK :: u8 where "MK_ERR_TX_STUCK \<equiv> 0xEF"

text \<open>\<^verbatim>\<open>msecs_to_jiffies(SP_TX_TIMEOUT_MS)\<close> with \<^verbatim>\<open>CONFIG_HZ=100\<close>, as the kernel configuration of this
  board has it.\<close>

abbreviation (input) SP_TX_TIMEOUT_JIFFIES :: u32 where "SP_TX_TIMEOUT_JIFFIES \<equiv> 20"

section \<open>State\<close>

datatype sp_role = SP_ROLE_LAN | SP_ROLE_WAN

text \<open>The counters of \<^verbatim>\<open>struct net_device_stats\<close> that the driver touches: unsigned longs of a 32-bit
  machine.\<close>

record nd_stats =
  rx_packets :: u32
  rx_bytes :: u32
  rx_errors :: u32
  rx_length_errors :: u32
  rx_fifo_errors :: u32
  rx_dropped :: u32
  tx_packets :: u32
  tx_bytes :: u32
  tx_errors :: u32
  tx_dropped :: u32

text \<open>A network device with its \<^verbatim>\<open>struct sp_priv\<close> (\<open>dest_map\<close>, \<open>role\<close>), and the flags the network core
  keeps of it; \<open>nd_up\<close> is the core's IFF_UP.\<close>

record net_device =
  dest_map :: u16
  role :: sp_role
  dev_addr :: "u8 list"
  mtu :: nat
  max_mtu :: nat
  stats :: nd_stats
  queue_stopped :: bool
  carrier :: bool
  nd_up :: bool

record sysport6764 =
  dma_pa :: u64
  dma_va :: "nat \<Rightarrow> u8"
  dma_len :: nat
  running :: bool
  ndevs :: "nat list"
  napi_ndev :: "nat option"
  wan_ndev :: "nat option"
  lan_ndev :: "nat option"
  open_count :: int
  tx_busy :: bool
  tx_cidx_pre :: u16
  tx_len :: u32
  tx_start :: u32
  tx_ndev :: "nat option"
  sp_tag_fmt :: int
  seen_tx :: bool
  seen_rx :: bool
  rx_entered :: bool
  rx_done_once :: bool
  budget_hit :: bool
  sp_busy :: bool

text \<open>The driver instance, the network devices allocated so far, the module parameters and the
  sequence counter of the diagnostic rotation; \<open>sp_bound\<close> is a completed probe.\<close>

record sysport_world = sf2_world +
  sp_obj :: sysport6764
  sp_bound :: bool
  netdevs :: "net_device list"
  poll_us :: u32
  poll_busy_us :: u32
  brcm_tag_port :: int
  rx_marks :: bool
  tx_marks :: bool
  tag_fmt :: int
  rx_diag :: int
  tx_seq :: u32

definition sp_gets :: "(sysport6764 \<Rightarrow> 'a) \<Rightarrow> ('z sysport_world_scheme, 'a) state" where
  "sp_gets f = gets (\<lambda>s. f (sp_obj s))"

definition sp_mod :: "(sysport6764 \<Rightarrow> sysport6764) \<Rightarrow> ('z sysport_world_scheme, unit) state" where
  "sp_mod f = modify (sp_obj_update f)"

definition nd_mod :: "nat \<Rightarrow> (net_device \<Rightarrow> net_device) \<Rightarrow> ('z sysport_world_scheme, unit) state" where
  "nd_mod i f = modify (netdevs_update (\<lambda>ns. ns[i := f (ns ! i)]))"

definition nd_stat :: "nat \<Rightarrow> (nd_stats \<Rightarrow> nd_stats) \<Rightarrow> ('z sysport_world_scheme, unit) state" where
  "nd_stat i f = nd_mod i (stats_update f)"

text \<open>The markers that the \<^verbatim>\<open>rx_marks\<close> and \<^verbatim>\<open>tx_marks\<close> parameters switch.\<close>

definition rx_mark :: "u8 \<Rightarrow> ('z sysport_world_scheme, unit) state" where
  "rx_mark m = do { b \<leftarrow> gets rx_marks; if b then mark m else return () }"

definition tx_mark :: "u8 \<Rightarrow> ('z sysport_world_scheme, unit) state" where
  "tx_mark m = do { b \<leftarrow> gets tx_marks; if b then mark m else return () }"

section \<open>DMA buffers and the ingress tag\<close>

definition sp_tx_va :: nat where "sp_tx_va = 0"

definition sp_tx_pa :: "sysport6764 \<Rightarrow> u64" where "sp_tx_pa sp = dma_pa sp"

definition sp_rx_va :: "nat \<Rightarrow> nat" where
  "sp_rx_va i = SP_DMA_BUFSIZE * (SP_NUM_TX_BUFS + i)"

definition sp_rx_pa :: "sysport6764 \<Rightarrow> nat \<Rightarrow> u64" where
  "sp_rx_pa sp i = dma_pa sp + of_nat (SP_DMA_BUFSIZE * (SP_NUM_TX_BUFS + i))"

definition dma_read :: "(nat \<Rightarrow> u8) \<Rightarrow> nat \<Rightarrow> nat \<Rightarrow> u8 list" where
  "dma_read m off n = map m [off..<off + n]"

definition dma_write :: "nat \<Rightarrow> u8 list \<Rightarrow> (nat \<Rightarrow> u8) \<Rightarrow> (nat \<Rightarrow> u8)" where
  "dma_write off bs m = (\<lambda>a. if off \<le> a \<and> a < off + length bs then bs ! (a - off) else m a)"

definition upper_32_bits :: "u64 \<Rightarrow> u32" where "upper_32_bits x = ucast (drop_bit 32 x)"
definition lower_32_bits :: "u64 \<Rightarrow> u32" where "lower_32_bits x = ucast x"

text \<open>\<^verbatim>\<open>ffs()\<close>: one plus the number of the lowest set bit, 0 for 0.\<close>

definition ffs :: "u16 \<Rightarrow> int" where
  "ffs x = (case filter (bit x) [0..<16] of [] \<Rightarrow> 0 | i # _ \<Rightarrow> int i + 1)"

definition tag_map :: "u8 list \<Rightarrow> u16" where
  "tag_map tag = push_bit 8 (ucast (tag ! 2)) OR ucast (tag ! 3)"

definition sp_tag_src_port :: "u8 list \<Rightarrow> int \<Rightarrow> int" where
  "sp_tag_src_port tag fmt =
     (if fmt = SP_TAG_FMT_TYPE2 then
        (if tag ! 0 \<noteq> SP_TAG_TYPE2_HI \<or> tag ! 1 \<noteq> SP_TAG_TYPE2_LO then -1
         else ffs (tag_map tag) - 1)
      else if drop_bit 5 (tag ! 0) AND 0x7 \<noteq> 0 then -1
      else uint (tag ! 3 AND SP_TAG_SRC_PORT_MASK))"

section \<open>Descriptors\<close>

definition rx_desc :: "nat \<Rightarrow> nat" where
  "rx_desc i = RDMA_DESCRIPTOR + i * SP_DESC_STRIDE"

definition rx_desc_w1 :: "u64 \<Rightarrow> u32" where
  "rx_desc_w1 pa = push_bit SP_DESC_LEN_SHIFT (of_nat SP_DMA_BUFSIZE) OR (upper_32_bits pa AND SP_DESC_ADDR_HI_MASK)"

definition sp_rx_desc_set :: "nat \<Rightarrow> u64 \<Rightarrow> ('z io_scheme, unit) state" where
  "sp_rx_desc_set i pa = do {
     writel Rdma (rx_desc i + 0) (lower_32_bits pa);
     writel Rdma (rx_desc i + 4) (rx_desc_w1 pa) }"

definition sp_init_rx_descs :: "sysport6764 \<Rightarrow> ('z io_scheme, unit) state" where
  "sp_init_rx_descs sp = for_each [0..<SP_NUM_RX_BUFS] (\<lambda>i. sp_rx_desc_set i (sp_rx_pa sp i))"

section \<open>Hardware bring-up and shut-down\<close>

definition sp_hw_init :: "env \<Rightarrow> sysport6764 \<Rightarrow> ('z io_scheme, unit) state" where
  "sp_hw_init E sp = do {
     v \<leftarrow> readl E Rbuf RBUF_CONTROL;
     writel Rbuf RBUF_CONTROL
       ((((v AND NOT RBUF_CTRL_RSB_MODE_M) AND NOT RBUF_CTRL_4B_ALIGN_M) AND NOT RBUF_CTRL_BTAG_STRIP_M)
         OR RBUF_CTRL_BAD_PKT_DISCARD_M);
     writel Rbuf RBUF_PACKET_READY_THR 0x80;
     writel Rdma (RDMA_LOCRAM_DESCRING_SIZE SP_RX_QUEUE) (RDMA_RING_EN OR of_nat SP_NUM_RX_BUFS);
     writel Rdma (RDMA_PKTBUF_SIZE SP_RX_QUEUE) SP_PKT_LEN_LOG2;
     writel Rdma (RDMA_CINDEX SP_RX_QUEUE) 0;
     writel Rdma (RDMA_DDR_DESC_RING_START 0) 0;
     writel Rdma (RDMA_DDR_DESC_RING_START 1) 0;
     sp_init_rx_descs sp;
     writel Rdma (RDMA_DDR_DESC_RING_SIZE SP_RX_QUEUE) SP_RX_DESC_LOG2;
     writel Tdma (TDMA_DESC_RING_CONTROL SP_TX_RING) TDMA_DESC_RING_CONTROL_RING_EN;
     writel Tdma (TDMA_DDR_DESC_RING_CTRL SP_TX_RING) 0x0808;
     writel Tdma (TDMA_DESC_RING_PC_INDEX SP_TX_RING) 0;
     writel Tdma (TDMA_DDR_DESC_RING_START 0) 0;
     writel Tdma (TDMA_DDR_DESC_RING_START 1) 0;
     writel Tdma (TDMA_DESC_RING_MAPPING SP_TX_RING) 0x40;
     writel Tdma (TDMA_DDR_DESC_RING_PUSH_TIMER SP_TX_RING) 0x1;
     writel Tdma (TDMA_DDR_DESC_RING_SIZE SP_TX_RING) SP_TX_DESC_LOG2;
     writel Tdma (TDMA_DESC_RING_INTR_CONTROL SP_TX_RING) 0x3;
     writel Tdma (TDMA_DESC_RING_MAX_THRESHOLD SP_TX_RING) 0x00100009;
     writel Tdma TDMA_TIER2_ARBITER_CTRL 0x1;
     for_each [0..<4] (\<lambda>i. writel Tdma (TDMA_TIER1_ARBITER_CTRL i) 0x1);
     writel Tdma (TDMA_TIER1_ARBITER_QUEUE_EN 0) 0x000000ff;
     writel Tdma (TDMA_TIER1_ARBITER_QUEUE_EN 1) 0x0000ff00;
     writel Tdma (TDMA_TIER1_ARBITER_QUEUE_EN 2) 0x00ff0000;
     writel Tdma (TDMA_TIER1_ARBITER_QUEUE_EN 3) 0xff000000;
     v \<leftarrow> readl E Tdma TDMA_CONTROL;
     writel Tdma TDMA_CONTROL
       (((v AND NOT TDMA_CONTROL_TSB_EN_M) AND NOT TDMA_CONTROL_RING_CFG_M) AND NOT TDMA_CONTROL_ACB_EN_M);
     writel Tdma (TDMA_TIER1_ARBITER_QUEUE_EN 0) 0x1 }"

definition sp_enable_rdma :: "env \<Rightarrow> ('z io_scheme, errno + unit) state" where
  "sp_enable_rdma E = do {
     v \<leftarrow> readl E Rdma RDMA_CONTROL;
     writel Rdma RDMA_CONTROL (v OR RDMA_CTRL_RDMA_EN_M);
     r \<leftarrow> poll_loop 1000 (do {
       v \<leftarrow> readl E Rdma RDMA_STATUS;
       if v AND 0x3 = 0 then return (Some ()) else do { delay_us 10; return None } });
     case r of Some _ \<Rightarrow> return (Inr ())
     | None \<Rightarrow> do { mark MK_ERR_RDMA; return (Inl ETIMEDOUT) } }"

definition sp_enable_tdma :: "env \<Rightarrow> ('z io_scheme, errno + unit) state" where
  "sp_enable_tdma E = do {
     v \<leftarrow> readl E Tdma TDMA_CONTROL;
     writel Tdma TDMA_CONTROL (v OR TDMA_CONTROL_TDMA_EN_M OR TDMA_CONTROL_TPD_16B_EN);
     r \<leftarrow> poll_loop 1000 (do {
       v \<leftarrow> readl E Tdma TDMA_STATUS;
       if v AND 0x3 = 0 then return (Some ()) else do { delay_us 10; return None } });
     case r of Some _ \<Rightarrow> return (Inr ())
     | None \<Rightarrow> do { mark MK_ERR_TDMA; return (Inl ETIMEDOUT) } }"

definition sp_hw_stop :: "env \<Rightarrow> ('z io_scheme, unit) state" where
  "sp_hw_stop E = do {
     v \<leftarrow> readl E Rdma RDMA_CONTROL;
     writel Rdma RDMA_CONTROL (v AND NOT RDMA_CTRL_RDMA_EN_M);
     writel Topctrl TOPCTRL_RX_FLUSH_CNTL 1;
     v \<leftarrow> readl E Tdma TDMA_CONTROL;
     writel Tdma TDMA_CONTROL (v AND NOT TDMA_CONTROL_TDMA_EN_M);
     poll_loop 1000 (do {
       v \<leftarrow> readl E Tdma (TDMA_DESC_RING_PC_INDEX SP_TX_RING);
       if v AND 0xffff = drop_bit 16 v AND 0xffff then return (Some ())
       else do { delay_us 1000; return None } });
     writel Tdma (TDMA_DESC_RING_PC_INDEX SP_TX_RING) 0;
     writel Topctrl TOPCTRL_TX_FLUSH_CNTL 1;
     delay_us 100;
     writel Topctrl TOPCTRL_RX_FLUSH_CNTL 0;
     writel Topctrl TOPCTRL_TX_FLUSH_CNTL 0 }"

end
