(* ===== verification/Sysport_Data.thy ===== *)
theory Sysport_Data
  imports Sysport
begin

text \<open>
  port66/enet66/sysport6764.c, the data path: receive, transmit, the NAPI poll, the poll timer,
  and open and stop of a network device.
\<close>

section \<open>Receive\<close>

datatype rx_out = RX_OK | RX_EAGAIN

text \<open>\<open>rx_tagged\<close> is the local \<^verbatim>\<open>tagged\<close>; the frame carries a tag that is stripped when it is also long
  enough.\<close>

definition rx_tagged :: "'z sysport_world_scheme \<Rightarrow> bool" where
  "rx_tagged s \<longleftrightarrow> enet6764_split s \<or> brcm_tag_port s \<ge> 0"

text \<open>The network device a frame goes to: the LAN one, unless the device is split and the ingress tag
  names the WAN port.  \<^verbatim>\<open>src_port == SP_SPLIT_WAN_PORT\<close> compares an int with an unsigned int, so both
  are taken modulo \<open>2 ^ 32\<close>.\<close>

definition sp_rx_target :: "'z sysport_world_scheme \<Rightarrow> u8 list \<Rightarrow> nat \<Rightarrow> nat option" where
  "sp_rx_target s buf len =
     (if rx_tagged s \<and> len > 12 + SP_TAG_LEN \<and> enet6764_split s \<and>
         word_of_int (sp_tag_src_port (drop 12 buf) (sp_tag_fmt (sp_obj s))) = enet6764_wan_port s \<and>
         wan_ndev (sp_obj s) \<noteq> None
      then wan_ndev (sp_obj s) else lan_ndev (sp_obj s))"

definition sp_rx_strip :: "bool \<Rightarrow> u8 list \<Rightarrow> u8 list" where
  "sp_rx_strip tagged buf =
     (if tagged \<and> length buf > 12 + SP_TAG_LEN then take 12 buf @ drop (12 + SP_TAG_LEN) buf else buf)"

text \<open>A frame of acceptable length: choose the device, allocate, copy without the tag, hand over.\<close>

definition sp_rx_frame :: "env \<Rightarrow> nat \<Rightarrow> nat \<Rightarrow> ('z sysport_world_scheme, unit outcome) state" where
  "sp_rx_frame E idx len = do {
     m \<leftarrow> sp_gets dma_va;
     let buf = dma_read m (sp_rx_va idx) len in do {
     tagged \<leftarrow> gets rx_tagged;
     diag \<leftarrow> gets rx_diag;
     (if tagged \<and> len > 12 + SP_TAG_LEN \<and> diag > 0 then modify (rx_diag_update (\<lambda>n. n - 1)) else return ());
     ndev \<leftarrow> gets (\<lambda>s. sp_rx_target s buf len);
     skb \<leftarrow> kcall E AllocSkb;
     bindC (deref ndev) (\<lambda>nd.
     if skb = 0 then do {
       nd_stat nd (rx_dropped_update (\<lambda>n. n + 1));
       return (Ret ()) }
     else do {
       nd_stat nd (\<lambda>st. st\<lparr>rx_packets := rx_packets st + 1, rx_bytes := rx_bytes st + of_nat len\<rparr>);
       seen \<leftarrow> sp_gets seen_rx;
       (if \<not> seen then do { sp_mod (seen_rx_update (\<lambda>_. True)); mark MK_FIRST_RX } else return ());
       emit (Deliver nd (sp_rx_strip tagged buf));
       rx_mark 0x7A;
       return (Ret ()) }) } }"

definition sp_rx_bad_len :: "('z sysport_world_scheme, unit outcome) state" where
  "sp_rx_bad_len = do {
     rx_mark 0x7B;
     ndev \<leftarrow> sp_gets lan_ndev;
     bindC (deref ndev) (\<lambda>nd. do {
       nd_stat nd (\<lambda>st. st\<lparr>rx_errors := rx_errors st + 1, rx_length_errors := rx_length_errors st + 1\<rparr>);
       return (Ret ()) }) }"

definition sp_rx_resync :: "u32 \<Rightarrow> ('z sysport_world_scheme, rx_out outcome) state" where
  "sp_rx_resync p_idx = do {
     rx_mark 0x7C;
     ndev \<leftarrow> sp_gets lan_ndev;
     bindC (deref ndev) (\<lambda>nd. do {
       nd_stat nd (rx_fifo_errors_update (\<lambda>n. n + 1));
       writel Rdma (RDMA_CINDEX SP_RX_QUEUE) p_idx;
       return (Ret RX_EAGAIN) }) }"

definition sp_rx_rearm :: "nat \<Rightarrow> u32 \<Rightarrow> ('z sysport_world_scheme, rx_out outcome) state" where
  "sp_rx_rearm idx c_idx = do {
     sp \<leftarrow> gets sp_obj;
     sp_rx_desc_set idx (sp_rx_pa sp idx);
     writel Rdma (RDMA_CINDEX SP_RX_QUEUE) ((c_idx + 1) AND 0xffff);
     once \<leftarrow> sp_gets rx_done_once;
     (if \<not> once then do {
        sp_mod (rx_done_once_update (\<lambda>_. True));
        seen \<leftarrow> sp_gets seen_rx;
        if \<not> seen then mark 0x6F else return () }
      else return ());
     return (Ret RX_OK) }"

definition rx_desc_len :: "u32 \<Rightarrow> nat" where
  "rx_desc_len w1 = unat (drop_bit SP_DESC_LEN_SHIFT w1 AND SP_DESC_LEN_MASK)"

definition sp_rx_one :: "env \<Rightarrow> ('z sysport_world_scheme, rx_out outcome) state" where
  "sp_rx_one E = do {
     p \<leftarrow> readl E Rdma (RDMA_PINDEX SP_RX_QUEUE);
     c \<leftarrow> readl E Rdma (RDMA_CINDEX SP_RX_QUEUE);
     let p_idx = p AND 0xffff; c_idx = c AND 0xffff in
     if p_idx = c_idx then return (Ret RX_EAGAIN)
     else do {
       entered \<leftarrow> sp_gets rx_entered;
       (if \<not> entered then do { sp_mod (rx_entered_update (\<lambda>_. True)); mark 0x6E } else return ());
       if (p_idx - c_idx) AND 0xffff > of_nat SP_NUM_RX_BUFS then sp_rx_resync p_idx
       else let idx = unat c_idx mod SP_NUM_RX_BUFS in do {
         w1 \<leftarrow> readl E Rdma (rx_desc idx + 4);
         let len = rx_desc_len w1 in
         bindC (if len < SP_ENET_ZLEN \<or> len > SP_MAX_PKT_LEN then sp_rx_bad_len else sp_rx_frame E idx len)
           (\<lambda>_. sp_rx_rearm idx c_idx) } } }"

section \<open>Transmit\<close>

text \<open>\<^verbatim>\<open>time_after(a, b)\<close>: the signed difference of two 32-bit jiffies values.\<close>

definition time_after :: "u32 \<Rightarrow> u32 \<Rightarrow> bool" where
  "time_after a b \<longleftrightarrow> sint (b - a) < 0"

text \<open>The decision under the transmit lock: done, and done only because of the time-out.\<close>

definition sp_tx_check :: "env \<Rightarrow> sysport6764 \<Rightarrow> ('z io_scheme, bool \<times> bool) state" where
  "sp_tx_check E sp = do {
     v \<leftarrow> readl E Tdma (TDMA_DESC_RING_PC_INDEX SP_TX_RING);
     if ucast (drop_bit 16 v AND 0xffff) \<noteq> tx_cidx_pre sp then return (True, False)
     else do {
       j \<leftarrow> kcall E Jiffies;
       let late = time_after (word_of_int j) (tx_start sp + SP_TX_TIMEOUT_JIFFIES) in return (late, late) } }"

definition sp_tx_account :: "sysport6764 \<Rightarrow> bool \<Rightarrow> ('z sysport_world_scheme, unit outcome) state" where
  "sp_tx_account sp stuck = do {
     sp_mod (tx_busy_update (\<lambda>_. False));
     tx_mark (if stuck then 0x74 else 0x73);
     bindC (deref (tx_ndev sp)) (\<lambda>nd. do {
       nd_stat nd (if stuck then tx_errors_update (\<lambda>n. n + 1)
         else (\<lambda>st. st\<lparr>tx_packets := tx_packets st + 1, tx_bytes := tx_bytes st + tx_len sp\<rparr>));
       return (Ret ()) }) }"

definition sp_wake_queues :: "nat list \<Rightarrow> ('z sysport_world_scheme, unit) state" where
  "sp_wake_queues nds = for_each nds (\<lambda>i. do {
     ns \<leftarrow> gets netdevs;
     if queue_stopped (ns ! i) then do {
       nd_mod i (queue_stopped_update (\<lambda>_. False));
       emit (KNote ''netif_wake_queue'' i) }
     else return () })"

definition sp_tx_reclaim :: "env \<Rightarrow> ('z sysport_world_scheme, unit outcome) state" where
  "sp_tx_reclaim E = do {
     emit (Acq TxLock);
     sp \<leftarrow> gets sp_obj;
     ds \<leftarrow> (if tx_busy sp then sp_tx_check E sp else return (False, False));
     bindC (if fst ds then sp_tx_account sp (snd ds) else return (Ret ())) (\<lambda>_. do {
     emit (Rel TxLock);
     if \<not> fst ds then return (Ret ())
     else do {
       (if snd ds then mark MK_ERR_TX_STUCK
        else do {
          seen \<leftarrow> sp_gets seen_tx;
          if \<not> seen then do { sp_mod (seen_tx_update (\<lambda>_. True)); mark MK_FIRST_TX } else return () });
       sp_wake_queues (ndevs sp);
       return (Ret ()) } }) }"

datatype netdev_tx = NETDEV_TX_OK | NETDEV_TX_BUSY

text \<open>The destination port map of the egress tag; without the split, parameter 99 rotates over three
  maps.\<close>

definition tx_maps :: "u16 list" where "tx_maps = [BIT 5, BIT 8, BIT 0]"

definition sp_tx_map :: "nat \<Rightarrow> ('z sysport_world_scheme, u16) state" where
  "sp_tx_map nd = do {
     split \<leftarrow> gets enet6764_split;
     btp \<leftarrow> gets brcm_tag_port;
     if split then gets (\<lambda>s. dest_map (netdevs s ! nd))
     else if btp = 99 then do {
       n \<leftarrow> gets tx_seq;
       modify (tx_seq_update (\<lambda>n. n + 1));
       return (tx_maps ! (unat n mod 3)) }
     else return (ucast (BIT (nat btp) :: u32)) }"

text \<open>The bytes put into the transmit buffer for a frame and a map.\<close>

definition sp_tx_tagged :: "u16 \<Rightarrow> u8 list \<Rightarrow> u8 list" where
  "sp_tx_tagged mp data =
     take 12 data @ [SP_TAG_EGRESS_OPCODE, 0x00, ucast (drop_bit 8 mp), ucast (mp AND 0xff)] @ drop 12 data"

definition SP_TXDESC_W1 :: "nat \<Rightarrow> u32" where
  "SP_TXDESC_W1 len = push_bit SP_DESC_LEN_SHIFT (of_nat len) OR push_bit 16 3 OR BIT 11"

definition sp_tx_push :: "sysport6764 \<Rightarrow> nat \<Rightarrow> ('z io_scheme, unit) state" where
  "sp_tx_push sp len = do {
     writel Tdma (TDMA_WRITE_PORT_LO SP_TX_RING) (lower_32_bits (sp_tx_pa sp));
     writel Tdma (TDMA_WRITE_PORT_HI SP_TX_RING)
       (SP_TXDESC_W1 len OR (upper_32_bits (sp_tx_pa sp) AND SP_DESC_ADDR_HI_MASK));
     writel Tdma (TDMA_WRITE_PORT_LO SP_TX_RING) 0;
     writel Tdma (TDMA_WRITE_PORT_HI SP_TX_RING) 0 }"

text \<open>\<open>skb_padto\<close> on a frame of at least 60 bytes does nothing; on a shorter one it appends zeros or fails
  and frees the frame.\<close>

definition skb_padded :: "u8 list \<Rightarrow> u8 list" where
  "skb_padded data = data @ replicate (ETH_ZLEN - length data) 0"

text \<open>The locked part: copy the frame into the transmit buffer, record it, push its descriptor.\<close>

definition sp_xmit_locked :: "env \<Rightarrow> nat \<Rightarrow> u8 list \<Rightarrow> ('z sysport_world_scheme, unit) state" where
  "sp_xmit_locked E nd data = do {
     tagged \<leftarrow> gets rx_tagged;
     frame \<leftarrow> (if tagged then do { mp \<leftarrow> sp_tx_map nd; return (sp_tx_tagged mp data) } else return data);
     sp_mod (dma_va_update (dma_write sp_tx_va frame));
     v \<leftarrow> readl E Tdma (TDMA_DESC_RING_PC_INDEX SP_TX_RING);
     j \<leftarrow> kcall E Jiffies;
     sp_mod (\<lambda>sp. sp\<lparr>tx_cidx_pre := ucast (drop_bit 16 v AND 0xffff), tx_len := of_nat (length frame),
       tx_start := word_of_int j, tx_ndev := Some nd, tx_busy := True\<rparr>);
     sp \<leftarrow> gets sp_obj;
     sp_tx_push sp (length frame);
     tx_mark 0x71;
     nd_mod nd (queue_stopped_update (\<lambda>_. True)) }"

definition sp_xmit_wait :: "env \<Rightarrow> ('z sysport_world_scheme, unit outcome) state" where
  "sp_xmit_wait E = do {
     r \<leftarrow> poll_loop 100 (do {
       b \<leftarrow> sp_gets tx_busy;
       if \<not> b then return (Some (Ret ()))
       else do {
         delay_us 2;
         r \<leftarrow> sp_tx_reclaim E;
         return (case r of Oops \<Rightarrow> Some Oops | Ret _ \<Rightarrow> None) } });
     return (case r of Some Oops \<Rightarrow> Oops | _ \<Rightarrow> Ret ()) }"

definition sp_xmit :: "env \<Rightarrow> u8 list \<Rightarrow> nat \<Rightarrow> ('z sysport_world_scheme, netdev_tx outcome) state" where
  "sp_xmit E skb nd = do {
     tx_mark 0x70;
     pad \<leftarrow> (if length skb < ETH_ZLEN then kcall E SkbPad else return 0);
     if pad \<noteq> 0 then do {
       nd_stat nd (tx_dropped_update (\<lambda>n. n + 1)); return (Ret NETDEV_TX_OK) }
     else if length (skb_padded skb) > SP_MAX_PKT_LEN then do {
       nd_stat nd (tx_dropped_update (\<lambda>n. n + 1));
       emit (KNote ''dev_kfree_skb_any'' nd);
       return (Ret NETDEV_TX_OK) }
     else do {
       emit (Acq TxLock);
       busy \<leftarrow> sp_gets tx_busy;
       if busy then do {
         nd_mod nd (queue_stopped_update (\<lambda>_. True));
         emit (Rel TxLock);
         return (Ret NETDEV_TX_BUSY) }
       else do {
         sp_xmit_locked E nd (skb_padded skb);
         emit (Rel TxLock);
         tx_mark 0x72;
         emit (KNote ''dev_kfree_skb_any'' nd);
         bindC (sp_xmit_wait E) (\<lambda>_. return (Ret NETDEV_TX_OK)) } } }"

definition sp_tx_timeout :: "env \<Rightarrow> nat \<Rightarrow> ('z sysport_world_scheme, unit outcome) state" where
  "sp_tx_timeout E nd = sp_tx_reclaim E"

section \<open>NAPI poll and poll timer\<close>

primrec sp_rx_loop :: "env \<Rightarrow> nat \<Rightarrow> nat \<Rightarrow> ('z sysport_world_scheme, nat outcome) state" where
  "sp_rx_loop E 0 work = return (Ret work)"
| "sp_rx_loop E (Suc left) work = bindC (sp_rx_one E) (\<lambda>r.
     case r of RX_EAGAIN \<Rightarrow> return (Ret work) | RX_OK \<Rightarrow> sp_rx_loop E left (work + 1))"

definition sp_napi_poll :: "env \<Rightarrow> nat \<Rightarrow> ('z sysport_world_scheme, nat outcome) state" where
  "sp_napi_poll E budget = do {
     rx_mark 0x7D;
     bindC (sp_tx_reclaim E) (\<lambda>_.
     bindC (sp_rx_loop E budget 0) (\<lambda>work. do {
       hit \<leftarrow> sp_gets budget_hit;
       (if work \<ge> budget \<and> \<not> hit then do {
          sp_mod (budget_hit_update (\<lambda>_. True));
          seen \<leftarrow> sp_gets seen_rx;
          if \<not> seen then mark 0x6D else return () }
        else return ());
       sp_mod (sp_busy_update (\<lambda>_. work > 0));
       (if work < budget then emit (KNote ''napi_complete_done'' work) else return ());
       rx_mark 0x7E;
       return (Ret work) })) }"

abbreviation (input) NSEC_PER_USEC :: u64 where "NSEC_PER_USEC \<equiv> 1000"

definition sp_poll_ns :: "u32 \<Rightarrow> u64" where
  "sp_poll_ns pus = (let us = (if pus < 100 then 100 else pus) in ucast us * NSEC_PER_USEC)"

definition sp_poll_busy_ns :: "u32 \<Rightarrow> u32 \<Rightarrow> u64" where
  "sp_poll_busy_ns pus pbusy =
     (let us = (if pbusy < 5 then 5 else pbusy); us = (if us > pus then pus else us) in ucast us * NSEC_PER_USEC)"

datatype hrtimer_restart = HRTIMER_NORESTART | HRTIMER_RESTART

definition sp_poll_tick :: "('z sysport_world_scheme, hrtimer_restart) state" where
  "sp_poll_tick = do {
     run \<leftarrow> sp_gets running;
     if \<not> run then return HRTIMER_NORESTART
     else do {
       rx_mark 0x7F;
       emit (KNote ''napi_schedule'' 0);
       busy \<leftarrow> sp_gets sp_busy;
       pus \<leftarrow> gets poll_us;
       pbusy \<leftarrow> gets poll_busy_us;
       emit (KNote ''hrtimer_forward_now'' (unat (if busy then sp_poll_busy_ns pus pbusy else sp_poll_ns pus)));
       return HRTIMER_RESTART } }"

definition sp_poll_controller :: "nat \<Rightarrow> ('z sysport_world_scheme, unit) state" where
  "sp_poll_controller nd = emit (KNote ''napi_schedule'' 0)"

section \<open>Open and stop\<close>

definition sp_hw_up :: "env \<Rightarrow> ('z sysport_world_scheme, errno + unit) state" where
  "sp_hw_up E =
     bindE (sf2_6764_open E) (\<lambda>_. do {
       sp \<leftarrow> gets sp_obj;
       sp_hw_init E sp;
       r \<leftarrow> bindE (sp_enable_rdma E) (\<lambda>_. sp_enable_tdma E);
       case r of
         Inl e \<Rightarrow> do { sp_hw_stop E; sf2_6764_close E; return (Inl e) }
       | Inr _ \<Rightarrow> do {
           delay_us 100;
           readl E Rdma RDMA_STATUS;
           readl E Tdma TDMA_STATUS;
           mark MK_SYSPORT_INIT;
           sp_mod (\<lambda>sp. sp\<lparr>tx_busy := False, tx_ndev := None, running := True\<rparr>);
           emit (KNote ''napi_enable'' 0);
           pus \<leftarrow> gets poll_us;
           emit (KNote ''hrtimer_start'' (unat (sp_poll_ns pus)));
           return (Inr ()) } })"

definition sp_hw_down :: "env \<Rightarrow> ('z sysport_world_scheme, unit) state" where
  "sp_hw_down E = do {
     sp_mod (running_update (\<lambda>_. False));
     emit (KNote ''hrtimer_cancel'' 0);
     emit (KNote ''napi_disable'' 0);
     sp_hw_stop E;
     sf2_6764_close E }"

definition sp_open :: "env \<Rightarrow> nat \<Rightarrow> ('z sysport_world_scheme, errno + unit) state" where
  "sp_open E nd = do {
     emit (Acq SpLock);
     n \<leftarrow> sp_gets open_count;
     ret \<leftarrow> (if n = 0 then sp_hw_up E else return (Inr ()));
     (case ret of
        Inr _ \<Rightarrow> do {
          sp_mod (open_count_update (\<lambda>n. n + 1));
          nd_mod nd (\<lambda>d. d\<lparr>carrier := True, queue_stopped := False\<rparr>) }
      | Inl _ \<Rightarrow> return ());
     emit (Rel SpLock);
     return ret }"

definition sp_stop :: "env \<Rightarrow> nat \<Rightarrow> ('z sysport_world_scheme, errno + unit) state" where
  "sp_stop E nd = do {
     emit (Acq SpLock);
     nd_mod nd (\<lambda>d. d\<lparr>queue_stopped := True, carrier := False\<rparr>);
     n \<leftarrow> sp_gets open_count;
     (if n > 0 then do {
        sp_mod (open_count_update (\<lambda>n. n - 1));
        if n - 1 = 0 then sp_hw_down E else return () }
      else return ());
     emit (Rel SpLock);
     return (Inr ()) }"

end
