(* ===== verification/Sysport_Probe.thy ===== *)
theory Sysport_Probe
  imports Sysport_Data
begin

text \<open>
  port66/enet66/sysport6764.c, probe and remove: the factory MAC address, registration of the
  network devices, the probe with its error paths and the module entry point.  The device tree and
  the flash partitions are not part of the sources; they are the parameter \<open>board\<close>.
\<close>

section \<open>The factory MAC address\<close>

text \<open>What the device tree says of one port node: its \<^verbatim>\<open>mtd-mac-address\<close> property (absent or shorter
  than 8 bytes is \<open>None\<close>) and its increment.\<close>

record mac_port =
  mp_mac :: "(u32 \<times> u32) option"
  mp_inc :: "u32 option"

text \<open>A flash partition: its name and what \<^verbatim>\<open>mtd_read()\<close> of six bytes at an offset gives, the return
  value, the number of bytes read and the bytes.\<close>

record mtd_info =
  mtd_name :: "string option"
  mtd_rd :: "u32 \<Rightarrow> int \<times> nat \<times> u8 list"

text \<open>\<open>bd_ports\<close> are the available children of each node called ports, \<open>bd_label\<close> the label of the node
  a phandle names, \<open>bd_mtd\<close> the partitions up to the first that \<^verbatim>\<open>get_mtd_device()\<close> refuses.\<close>

record board =
  bd_ports :: "mac_port list list"
  bd_label :: "u32 \<Rightarrow> string option option"
  bd_mtd :: "mtd_info list"

definition is_valid_ether_addr :: "u8 list \<Rightarrow> bool" where
  "is_valid_ether_addr mac \<longleftrightarrow> \<not> bit (mac ! 0) 0 \<and> (\<exists>b \<in> set mac. b \<noteq> 0)"

definition mtd_mac :: "mtd_info \<Rightarrow> u32 \<Rightarrow> errno + u8 list" where
  "mtd_mac mtd off = (case mtd_rd mtd off of (ret, rd, mac) \<Rightarrow>
     if ret \<noteq> 0 \<or> rd \<noteq> ETH_ALEN \<or> \<not> is_valid_ether_addr mac then Inl EINVAL else Inr mac)"

definition sp_read_mac_from_mtd :: "board \<Rightarrow> u32 \<Rightarrow> u32 \<Rightarrow> errno + u8 list" where
  "sp_read_mac_from_mtd bd phandle off = (case bd_label bd phandle of
     None \<Rightarrow> Inl ENOENT
   | Some label \<Rightarrow>
       (case filter (\<lambda>m. label \<noteq> None \<and> mtd_name m \<noteq> None \<and> mtd_name m = label) (take 16 (bd_mtd bd)) of
          [] \<Rightarrow> Inl ENOENT
        | mtd # _ \<Rightarrow> mtd_mac mtd off))"

text \<open>One port node: skipped without the property; \<open>Inl\<close> of a failed read is remembered and the search
  goes on; the increment is added to the last octet only, modulo 256.\<close>

definition port_mac :: "board \<Rightarrow> bool \<Rightarrow> mac_port \<Rightarrow> (errno + u8 list) option" where
  "port_mac bd with_increment p = (case mp_mac p of
     None \<Rightarrow> None
   | Some (phandle, off) \<Rightarrow> Some (case sp_read_mac_from_mtd bd phandle off of
       Inl e \<Rightarrow> Inl e
     | Inr buf \<Rightarrow> Inr (if with_increment
         then buf[ETH_ALEN - 1 := buf ! (ETH_ALEN - 1) + ucast (case mp_inc p of None \<Rightarrow> 0 | Some i \<Rightarrow> i)]
         else buf)))"

fun ports_mac :: "board \<Rightarrow> bool \<Rightarrow> errno \<Rightarrow> mac_port list \<Rightarrow> errno + u8 list" where
  "ports_mac bd wi ret [] = Inl ret"
| "ports_mac bd wi ret (p # ps) = (case port_mac bd wi p of
     None \<Rightarrow> ports_mac bd wi ret ps
   | Some (Inl e) \<Rightarrow> ports_mac bd wi e ps
   | Some (Inr mac) \<Rightarrow> Inr mac)"

text \<open>The outer loop over the nodes called ports, with the reference counting of the nodes: the
  iterator takes a reference on the node it yields and drops the one of the node it leaves.\<close>

fun nodes_mac :: "board \<Rightarrow> bool \<Rightarrow> errno \<Rightarrow> nat \<Rightarrow> mac_port list list \<Rightarrow>
    ('z io_scheme, errno + u8 list) state" where
  "nodes_mac bd wi ret n [] = return (Inl ret)"
| "nodes_mac bd wi ret n (ps # pss) = do {
     emit (KNote ''of_node_get'' n);
     case ports_mac bd wi ret ps of
       Inr mac \<Rightarrow> do { emit (KNote ''of_node_put'' n); return (Inr mac) }
     | Inl e \<Rightarrow> do {
         emit (KNote ''of_node_put'' n);
         emit (KNote ''of_node_put'' n);
         nodes_mac bd wi e (n + 1) pss } }"

definition sp_factory_mac :: "board \<Rightarrow> bool \<Rightarrow> ('z io_scheme, errno + u8 list) state" where
  "sp_factory_mac bd with_increment = nodes_mac bd with_increment ENOENT 0 (bd_ports bd)"

section \<open>Registration\<close>

definition sp_mac_addr :: "u8 list" where
  "sp_mac_addr = [0x02, 0x10, 0x18, 0x00, 0x00, 0x02]"

definition nd_stats0 :: nd_stats where
  "nd_stats0 = \<lparr>rx_packets = 0, rx_bytes = 0, rx_errors = 0, rx_length_errors = 0, rx_fifo_errors = 0,
     rx_dropped = 0, tx_packets = 0, tx_bytes = 0, tx_errors = 0, tx_dropped = 0\<rparr>"

definition role_dest_map :: "u32 \<Rightarrow> sp_role \<Rightarrow> u16" where
  "role_dest_map wan r = ucast (BIT (if r = SP_ROLE_WAN then unat wan else SP_SPLIT_LAN_PORT) :: u32)"

definition sp_register_netdev :: "env \<Rightarrow> board \<Rightarrow> sp_role \<Rightarrow> u8 list \<Rightarrow> ('z sysport_world_scheme, errno + unit) state" where
  "sp_register_netdev E bd r mac = do {
     a \<leftarrow> kcall E AllocEtherdev;
     if a = 0 then return (Inl ENOMEM)
     else do {
       wan \<leftarrow> gets enet6764_wan_port;
       f \<leftarrow> sp_factory_mac bd (r = SP_ROLE_WAN);
       nd \<leftarrow> gets (\<lambda>s. length (netdevs s));
       modify (netdevs_update (\<lambda>ns. ns @ [\<lparr>dest_map = role_dest_map wan r, role = r,
         dev_addr = (case f of Inr m \<Rightarrow> m | Inl _ \<Rightarrow> mac), mtu = 1500, max_mtu = SP_MAX_PKT_LEN - 14 - 4,
         stats = nd_stats0, queue_stopped = False, carrier = True, nd_up = False\<rparr>]));
       first \<leftarrow> sp_gets (\<lambda>sp. ndevs sp = []);
       (if first then do { sp_mod (napi_ndev_update (\<lambda>_. Some nd)); emit (KNote ''netif_napi_add'' nd) }
        else return ());
       ret \<leftarrow> kcall E RegisterNetdev;
       if ret \<noteq> 0 then do {
         (if first then do { emit (KNote ''netif_napi_del'' nd); sp_mod (napi_ndev_update (\<lambda>_. None)) }
          else return ());
         mark MK_ERR_NETDEV;
         return (Inl (Kerr ret)) }
       else do {
         sp_mod (ndevs_update (\<lambda>l. l @ [nd]));
         sp_mod (if r = SP_ROLE_WAN then wan_ndev_update (\<lambda>_. Some nd) else lan_ndev_update (\<lambda>_. Some nd));
         return (Inr ()) } } }"

text \<open>\<^verbatim>\<open>unregister_netdev()\<close> of the network core: it stops the device if it is up.\<close>

definition unregister_netdev :: "env \<Rightarrow> nat \<Rightarrow> ('z sysport_world_scheme, unit) state" where
  "unregister_netdev E nd = do {
     up \<leftarrow> gets (\<lambda>s. nd_up (netdevs s ! nd));
     (if up then do { sp_stop E nd; nd_mod nd (nd_up_update (\<lambda>_. False)) } else return ());
     emit (KNote ''unregister_netdev'' nd) }"

definition sp_unregister_netdevs :: "env \<Rightarrow> ('z sysport_world_scheme, unit) state" where
  "sp_unregister_netdevs E = do {
     sp \<leftarrow> gets sp_obj;
     for_each (rev (ndevs sp)) (unregister_netdev E);
     (case napi_ndev sp of Some nd \<Rightarrow> emit (KNote ''netif_napi_del'' nd) | None \<Rightarrow> return ());
     sp_mod (\<lambda>sp. sp\<lparr>ndevs := [], napi_ndev := None, wan_ndev := None, lan_ndev := None\<rparr>) }"

section \<open>Probe\<close>

definition sp_zero :: "int \<Rightarrow> sysport6764" where
  "sp_zero fmt = \<lparr>dma_pa = 0, dma_va = (\<lambda>_. 0), dma_len = 0, running = False, ndevs = [], napi_ndev = None,
     wan_ndev = None, lan_ndev = None, open_count = 0, tx_busy = False, tx_cidx_pre = 0, tx_len = 0,
     tx_start = 0, tx_ndev = None, sp_tag_fmt = fmt, seen_tx = False, seen_rx = False, rx_entered = False,
     rx_done_once = False, budget_hit = False, sp_busy = False\<rparr>"

text \<open>The DMA block; the answer of the allocator is its bus address, negative for a failure.\<close>

definition sp_dma_setup :: "env \<Rightarrow> ('z sysport_world_scheme, errno + unit) state" where
  "sp_dma_setup E = do {
     ret \<leftarrow> kcall E SetDmaMask;
     if ret \<noteq> 0 then do { mark MK_ERR_SP_DMA; return (Inl (Kerr ret)) }
     else do {
       sp_mod (dma_len_update (\<lambda>_. (SP_NUM_TX_BUFS + SP_NUM_RX_BUFS) * SP_DMA_BUFSIZE));
       pa \<leftarrow> kcall E DmaAlloc;
       if pa < 0 then do { mark MK_ERR_SP_DMA; return (Inl ENOMEM) }
       else do {
         sp_mod (dma_pa_update (\<lambda>_. word_of_int pa));
         sp \<leftarrow> gets sp_obj;
         if upper_32_bits (dma_pa sp + of_nat (dma_len sp) - 1) > SP_DESC_ADDR_HI_MASK
         then do { mark MK_ERR_SP_DMA; return (Inl ERANGE) }
         else return (Inr ()) } } }"

definition sp_register_all :: "env \<Rightarrow> board \<Rightarrow> ('z sysport_world_scheme, errno + unit) state" where
  "sp_register_all E bd = do {
     split \<leftarrow> gets enet6764_split;
     if split then
       bindE (sp_register_netdev E bd SP_ROLE_WAN sp_mac_addr) (\<lambda>_. do {
         ret \<leftarrow> sp_register_netdev E bd SP_ROLE_LAN
           (sp_mac_addr[ETH_ALEN - 1 := sp_mac_addr ! (ETH_ALEN - 1) + 1]);
         (case ret of Inl _ \<Rightarrow> sp_unregister_netdevs E | Inr _ \<Rightarrow> return ());
         return ret })
     else sp_register_netdev E bd SP_ROLE_LAN sp_mac_addr }"

definition sysport6764_probe :: "env \<Rightarrow> board \<Rightarrow> ('z sysport_world_scheme, errno + unit) state" where
  "sysport6764_probe E bd = do {
     mark 0x6C;
     sf2 \<leftarrow> sf2_6764_get;
     if \<not> sf2 then do { mark 0xF1; return (Inl EPROBE_DEFER) }
     else do {
       mem \<leftarrow> kcall E KZalloc;
       if mem = 0 then return (Inl ENOMEM)
       else do {
         fmt \<leftarrow> gets tag_fmt;
         sp_mod (\<lambda>_. sp_zero fmt);
         mapped \<leftarrow> ioremap_all E [Rbuf, Rdma, Tdma, Topctrl];
         if \<not> mapped then do { mark MK_ERR_SP_MAP; return (Inl ENXIO) }
         else
           bindE (sp_dma_setup E) (\<lambda>_.
           bindE (sf2_6764_init E) (\<lambda>_.
           bindE (sp_register_all E bd) (\<lambda>_. do {
             modify (sp_bound_update (\<lambda>_. True));
             nds \<leftarrow> sp_gets ndevs;
             for_each nds (\<lambda>i. nd_mod i (carrier_update (\<lambda>_. False)));
             mark MK_NETDEV_OK;
             return (Inr ()) }))) } } }"

definition sysport6764_remove :: "env \<Rightarrow> ('z sysport_world_scheme, unit) state" where
  "sysport6764_remove E = do {
     sp_unregister_netdevs E;
     modify (sp_bound_update (\<lambda>_. False)) }"

section \<open>Module entry\<close>

definition follow_wan_port :: "u32 \<Rightarrow> u32 \<Rightarrow> u32" where
  "follow_wan_port sel wan =
     (if sel = (SF2_EN_MAN_TO_WAN OR BIT 0) \<and> wan \<noteq> SP_SPLIT_WAN_PORT_DEFAULT
      then SF2_EN_MAN_TO_WAN OR BIT (unat wan) else sel)"

text \<open>Registration of the three drivers in the order of their array; the core probes each against its
  device when it is registered.  The result is that of each probe.\<close>

definition enet6764_init :: "env \<Rightarrow> dt_port list list \<Rightarrow> board \<Rightarrow>
    ('z sysport_world_scheme, (errno + unit) list) state" where
  "enet6764_init E np bd = do {
     wan \<leftarrow> gets enet6764_wan_port;
     modify (enet6764_wan_port_sel_update (\<lambda>sel. follow_wan_port sel wan));
     r1 \<leftarrow> pmc6764_probe E;
     r2 \<leftarrow> sf2_6764_probe E np;
     r3 \<leftarrow> sysport6764_probe E bd;
     return [r1, r2, r3] }"

text \<open>Unregistration in the reverse order.\<close>

definition enet6764_exit :: "env \<Rightarrow> ('z sysport_world_scheme, unit) state" where
  "enet6764_exit E = do {
     b \<leftarrow> gets sp_bound;
     (if b then sysport6764_remove E else return ());
     sf2_6764_remove;
     pmc6764_remove }"

text \<open>The state at module load: nothing bound, the parameters at their defaults.\<close>

definition sysport_boot :: sysport_world where
  "sysport_boot = sf2_world.extend sf2_boot
     (sysport_world.fields (sp_zero 1) False [] 200 20 5 True True 1 0 0)"

lemma sysport_boot_simps [simp]:
  "io_log sysport_boot = []" "netdevs sysport_boot = []" "sp_obj sysport_boot = sp_zero 1"
  "sp_bound sysport_boot = False" "enet6764_split sysport_boot = False" "brcm_tag_port sysport_boot = 5"
  by (simp_all add: sysport_boot_def sf2_boot_def sysport_world.defs sf2_world.defs)

end
