(* ===== verification/Sysport_Inv.thy ===== *)
theory Sysport_Inv
  imports Sysport_Probe
begin

text \<open>
  The invariant of a bound SYSTEMPORT driver over every history of calls from the network core, the
  poll timer and the hardware: the open count is the number of devices that are up, the hardware
  runs exactly when it is positive, a transmission in flight has an owner, both locks are free
  between calls, and no call dereferences a NULL pointer.
\<close>

section \<open>The invariant\<close>

text \<open>\<open>sp_ok ups sp\<close>: the instance fits the devices, of which \<open>ups\<close> lists whether each is up.\<close>

definition sp_ok :: "bool list \<Rightarrow> sysport6764 \<Rightarrow> bool" where
  "sp_ok ups sp \<longleftrightarrow>
     (\<exists>n < length ups. lan_ndev sp = Some n) \<and>
     (\<forall>n. wan_ndev sp = Some n \<longrightarrow> n < length ups) \<and>
     (\<forall>n \<in> set (ndevs sp). n < length ups) \<and>
     (tx_busy sp \<longrightarrow> (\<exists>n < length ups. tx_ndev sp = Some n)) \<and>
     open_count sp = int (length (filter (\<lambda>b. b) ups)) \<and>
     (running sp \<longleftrightarrow> open_count sp > 0)"

definition sp_data :: "'z sysport_world_scheme \<Rightarrow> bool" where
  "sp_data s \<longleftrightarrow> sp_ok (map nd_up (netdevs s)) (sp_obj s)"

definition sp_inv :: "'z sysport_world_scheme \<Rightarrow> bool" where
  "sp_inv s \<longleftrightarrow> sp_data s \<and> \<not> held TxLock (io_log s) \<and> \<not> held SpLock (io_log s)"

text \<open>What the data path may do to the state: update a device without touching whether it is up, and
  the instance without touching what the invariant reads.\<close>

lemma map_nd_up_update [simp]: "nd_up y = nd_up (ns ! i) \<Longrightarrow> map nd_up (ns[i := y]) = map nd_up ns"
  by (cases "i < length ns") (simp_all add: list_eq_iff_nth_eq nth_list_update)

definition sp_same :: "sysport6764 \<Rightarrow> sysport6764 \<Rightarrow> bool" where
  "sp_same a b \<longleftrightarrow> lan_ndev a = lan_ndev b \<and> wan_ndev a = wan_ndev b \<and> ndevs a = ndevs b \<and>
     tx_busy a = tx_busy b \<and> tx_ndev a = tx_ndev b \<and> open_count a = open_count b \<and> running a = running b"

lemma sp_ok_same: "sp_same a b \<Longrightarrow> sp_ok ups a = sp_ok ups b"
  by (simp add: sp_ok_def sp_same_def)

section \<open>Frame conditions of the building blocks\<close>

text \<open>\<open>calm\<close> states: the invariant's data part holds, there are \<open>k\<close> devices, and the two locks are as given.\<close>

definition calm :: "nat \<Rightarrow> bool \<Rightarrow> bool \<Rightarrow> 'z sysport_world_scheme \<Rightarrow> bool" where
  "calm k tx sp s \<longleftrightarrow> sp_data s \<and> length (netdevs s) = k \<and> held TxLock (io_log s) = tx \<and> held SpLock (io_log s) = sp"

lemma sp_inv_calm: "sp_inv s \<longleftrightarrow> calm (length (netdevs s)) False False s"
  by (simp add: sp_inv_def calm_def)

lemma calm_sp_inv: "calm k False False s \<Longrightarrow> sp_inv s"
  by (simp add: sp_inv_def calm_def)

fun lockless :: "event \<Rightarrow> bool" where
  "lockless (Acq l) = (l \<noteq> TxLock \<and> l \<noteq> SpLock)"
| "lockless (Rel l) = (l \<noteq> TxLock \<and> l \<noteq> SpLock)"
| "lockless _ = True"

lemma keeps_calm_emit [keeps_rules]: "lockless e \<Longrightarrow> keeps (calm k tx sp) (emit e)"
  by (rule keeps_emit) (cases e; auto simp: calm_def sp_data_def)

lemma keeps_calm_readl [keeps_rules]: "keeps (calm k tx sp) (readl E w off)"
  by (rule keeps_readl) (simp add: calm_def sp_data_def)

lemma keeps_calm_kcall [keeps_rules]: "keeps (calm k tx sp) (kcall E c)"
  by (rule keeps_kcall) (simp add: calm_def sp_data_def)

lemma keeps_calm_sp_gets [keeps_rules]: "keeps (calm k tx sp) (sp_gets f)"
  unfolding sp_gets_def by (rule keeps_gets)

lemma keeps_calm_sp_mod:
  assumes "\<And>x. sp_same (f x) x"
  shows "keeps (calm k tx sp) (sp_mod f)"
proof -
  have "sp_ok ups (f x) = sp_ok ups x" for ups x by (rule sp_ok_same [OF assms])
  then show ?thesis unfolding sp_mod_def by (intro keeps_modify) (simp add: calm_def sp_data_def)
qed

lemma keeps_calm_nd_mod [keeps_rules]: "(\<And>x. nd_up (f x) = nd_up x) \<Longrightarrow> keeps (calm k tx sp) (nd_mod i f)"
  unfolding nd_mod_def by (rule keeps_modify) (simp add: calm_def sp_data_def)

lemma keeps_calm_nd_stat [keeps_rules]: "keeps (calm k tx sp) (nd_stat i f)"
  unfolding nd_stat_def by (rule keeps_calm_nd_mod) simp

lemma keeps_calm_marks [keeps_rules]: "keeps (calm k tx sp) (rx_mark m)" "keeps (calm k tx sp) (tx_mark m)"
  unfolding rx_mark_def tx_mark_def by (intro keeps_rules; simp)+

lemma keeps_calm_flags [keeps_rules]:
  "keeps (calm k tx sp) (sp_mod (seen_rx_update f1))" "keeps (calm k tx sp) (sp_mod (seen_tx_update f2))"
  "keeps (calm k tx sp) (sp_mod (rx_entered_update f3))" "keeps (calm k tx sp) (sp_mod (rx_done_once_update f4))"
  "keeps (calm k tx sp) (sp_mod (budget_hit_update f5))" "keeps (calm k tx sp) (sp_mod (sp_busy_update f6))"
  "keeps (calm k tx sp) (sp_mod (dma_va_update f7))"
  by (rule keeps_calm_sp_mod, simp add: sp_same_def)+

lemma keeps_calm_world [keeps_rules]:
  "keeps (calm k tx sp) (modify (rx_diag_update f))" "keeps (calm k tx sp) (modify (tx_seq_update g))"
  "keeps (calm k tx sp) (modify (sf2_obj_update h))" "keeps (calm k tx sp) (set_diag d)"
  unfolding set_diag_def by (rule keeps_modify, simp add: calm_def sp_data_def)+

section \<open>Safe calls\<close>

text \<open>A call is safe when, from a calm state, it returns (no NULL dereference) in a calm state.\<close>

definition safe :: "nat \<Rightarrow> bool \<Rightarrow> bool \<Rightarrow> ('z sysport_world_scheme, 'a outcome) state \<Rightarrow> bool" where
  "safe k tx sp m \<longleftrightarrow> (\<forall>s. calm k tx sp s \<longrightarrow> wp m (\<lambda>r s'. r \<noteq> Oops \<and> calm k tx sp s') s)"

lemma safe_return: "safe k tx sp (return (Ret x))"
  by (simp add: safe_def wp_simps)

lemma safe_bind:
  assumes "keeps (calm k tx sp) m" and "\<And>x. safe k tx sp (f x)"
  shows "safe k tx sp (State_Monad.bind m f)"
  unfolding safe_def wp_bind
  by (intro allI impI, rule wp_mono [OF keeps_wp [OF assms(1)]]) (use assms(2) in \<open>auto simp: safe_def\<close>)

lemma safe_bindC:
  assumes "safe k tx sp m" and "\<And>x. safe k tx sp (f x)"
  shows "safe k tx sp (bindC m f)"
  unfolding safe_def wp_bindC
proof (intro allI impI)
  fix s :: "'a sysport_world_scheme"
  assume "calm k tx sp s"
  then have "wp m (\<lambda>r s'. r \<noteq> Oops \<and> calm k tx sp s') s" using assms(1) by (simp add: safe_def)
  then show "wp m (\<lambda>r. case r of Oops \<Rightarrow> \<lambda>s'. Oops \<noteq> Oops \<and> calm k tx sp s'
      | Ret v \<Rightarrow> wp (f v) (\<lambda>r s'. r \<noteq> Oops \<and> calm k tx sp s')) s"
    by (rule wp_mono) (use assms(2) in \<open>auto simp: safe_def split: outcome.splits\<close>)
qed

lemma safe_if: "(b \<Longrightarrow> safe k tx sp m) \<Longrightarrow> (\<not> b \<Longrightarrow> safe k tx sp n) \<Longrightarrow> safe k tx sp (if b then m else n)"
  by simp

lemma safe_let: "safe k tx sp (f x) \<Longrightarrow> safe k tx sp (let y = x in f y)"
  by simp

text \<open>The dereference of a pointer read from the state, where the invariant gives it a value.\<close>

lemma safe_deref_gets:
  assumes "\<And>s. calm k tx sp s \<Longrightarrow> \<exists>n. g s = Some n" and "\<And>n. safe k tx sp (f n)"
  shows "safe k tx sp (do { p \<leftarrow> gets g; bindC (deref p) f })"
  unfolding safe_def wp_bind wp_gets wp_bindC wp_deref
  using assms by (fastforce simp: safe_def)

lemma calm_lan: "calm k tx sp s \<Longrightarrow> \<exists>n. lan_ndev (sp_obj s) = Some n"
  by (auto simp: calm_def sp_data_def sp_ok_def)

lemma calm_target: "calm k tx sp s \<Longrightarrow> \<exists>n. sp_rx_target s buf len = Some n"
  using calm_lan [of k tx sp s] by (auto simp: sp_rx_target_def)

lemmas safe_rules = safe_return safe_bindC safe_if safe_let

section \<open>Receive\<close>

lemma sp_rx_desc_set_calm [keeps_rules]: "keeps (calm k tx sp) (sp_rx_desc_set i pa)"
  unfolding sp_rx_desc_set_def by (intro keeps_rules; simp)

lemma sp_rx_resync_safe: "safe k tx sp (sp_rx_resync p)"
  unfolding sp_rx_resync_def sp_gets_def
  by (rule safe_bind [OF keeps_calm_marks(1)], rule safe_deref_gets, erule calm_lan)
    (intro safe_return safe_bind keeps_rules; simp)

lemma sp_rx_bad_len_safe: "safe k tx sp sp_rx_bad_len"
  unfolding sp_rx_bad_len_def sp_gets_def
  by (rule safe_bind [OF keeps_calm_marks(1)], rule safe_deref_gets, erule calm_lan)
    (intro safe_return safe_bind keeps_rules)

lemma sp_rx_rearm_safe: "safe k tx sp (sp_rx_rearm idx c)"
  unfolding sp_rx_rearm_def by (intro safe_return safe_bind keeps_rules; simp)

text \<open>The target is read before the allocation, which does not change it.\<close>

lemma safe_target:
  assumes "\<And>j n. safe k tx sp (f j n)"
  shows "safe k tx sp (do { p \<leftarrow> gets (\<lambda>s. sp_rx_target s buf len); j \<leftarrow> kcall E c; bindC (deref p) (f j) })"
  unfolding safe_def
proof (intro allI impI)
  fix s :: "'a sysport_world_scheme"
  assume c: "calm k tx sp s"
  then obtain n where n: "sp_rx_target s buf len = Some n" using calm_target by blast
  show "wp (do { p \<leftarrow> gets (\<lambda>s. sp_rx_target s buf len); j \<leftarrow> kcall E c; bindC (deref p) (f j) })
     (\<lambda>r s'. r \<noteq> Oops \<and> calm k tx sp s') s"
    unfolding wp_bind wp_gets n
    by (rule wp_mono [OF keeps_wp [OF keeps_calm_kcall c]])
      (use assms in \<open>simp add: wp_bindC wp_deref safe_def\<close>)
qed

lemma sp_rx_frame_safe: "safe k tx sp (sp_rx_frame E idx len)"
proof -
  have "safe k tx sp (if skb = 0 then do {
       nd_stat nd (rx_dropped_update (\<lambda>n. n + 1));
       return (Ret ()) }
     else do {
       nd_stat nd (\<lambda>st. st\<lparr>rx_packets := rx_packets st + 1, rx_bytes := rx_bytes st + of_nat len\<rparr>);
       seen \<leftarrow> sp_gets seen_rx;
       (if \<not> seen then do { sp_mod (seen_rx_update (\<lambda>_. True)); mark MK_FIRST_RX } else return ());
       emit (Deliver nd bs);
       rx_mark 0x7A;
       return (Ret ()) })" for nd bs and skb :: int
    by (intro safe_return safe_if safe_bind keeps_rules; simp)
  then show ?thesis
    unfolding sp_rx_frame_def
    by (intro safe_bind keeps_calm_sp_gets safe_let keeps_gets keeps_if keeps_calm_world keeps_return safe_target)
qed

lemma sp_rx_one_safe: "safe k tx sp (sp_rx_one E)"
  unfolding sp_rx_one_def
  by (intro safe_rules safe_bind keeps_calm_readl keeps_calm_sp_gets sp_rx_frame_safe sp_rx_bad_len_safe
      sp_rx_rearm_safe sp_rx_resync_safe keeps_rules; simp)

lemma sp_rx_loop_safe: "safe k tx sp (sp_rx_loop E n work)"
  by (induction n arbitrary: work) (auto intro!: safe_rules sp_rx_one_safe split: rx_out.split)

section \<open>Transmit\<close>

lemma keeps_calm_tx_idle [keeps_rules]: "keeps (calm k tx sp) (sp_mod (tx_busy_update (\<lambda>_. False)))"
  unfolding sp_mod_def by (rule keeps_modify) (auto simp: calm_def sp_data_def sp_ok_def)

lemma sp_tx_check_calm [keeps_rules]: "keeps (calm k tx sp) (sp_tx_check E o')"
  unfolding sp_tx_check_def by (intro keeps_rules)

lemma sp_wake_queues_calm [keeps_rules]: "keeps (calm k tx sp) (sp_wake_queues nds)"
  unfolding sp_wake_queues_def by (intro keeps_rules; simp)

lemma safe_deref: "(\<And>n. safe k tx sp (f n)) \<Longrightarrow> p = Some n \<Longrightarrow> safe k tx sp (bindC (deref p) f)"
  by (simp add: safe_def wp_bindC wp_deref)

lemma sp_tx_account_safe:
  assumes "tx_ndev o' = Some n"
  shows "safe k tx sp (sp_tx_account o' stuck)"
  unfolding sp_tx_account_def
  by (rule safe_bind [OF keeps_calm_tx_idle], rule safe_bind [OF keeps_calm_marks(2)],
      rule safe_deref [OF _ assms], intro safe_bind keeps_rules safe_return)

lemma safeD: "safe k tx sp m \<Longrightarrow> calm k tx sp s \<Longrightarrow> wp m (\<lambda>r s'. r \<noteq> Oops \<and> calm k tx sp s') s"
  by (simp add: safe_def)

lemma safe_then:
  assumes "safe k tx sp m" and "calm k tx sp s" and "\<And>v s'. calm k tx sp s' \<Longrightarrow> wp (f v) Q s'"
  shows "wp (bindC m f) Q s"
  unfolding wp_bindC
  by (rule wp_mono [OF safeD [OF assms(1,2)]]) (use assms(3) in \<open>auto split: outcome.splits\<close>)

lemma sp_obj_log: "sp_obj (s\<lparr>io_log := l\<rparr>) = sp_obj s"
  by simp

lemma calm_acq_tx: "calm k False sp s \<Longrightarrow> calm k True sp (s\<lparr>io_log := Acq TxLock # io_log s\<rparr>)"
  by (simp add: calm_def sp_data_def)

lemma calm_rel_tx: "calm k tx sp s \<Longrightarrow> calm k False sp (s\<lparr>io_log := Rel TxLock # io_log s\<rparr>)"
  by (simp add: calm_def sp_data_def)

lemma sp_tx_reclaim_tail_safe:
  "safe k False sp (if \<not> fst ds then return (Ret ())
     else do {
       (if snd ds then mark MK_ERR_TX_STUCK
        else do {
          seen \<leftarrow> sp_gets seen_tx;
          if \<not> seen then do { sp_mod (seen_tx_update (\<lambda>_. True)); mark MK_FIRST_TX } else return () });
       sp_wake_queues nds;
       return (Ret ()) })"
  by (intro safe_return safe_if safe_bind keeps_rules; simp)

lemma sp_tx_reclaim_safe: "safe k False sp (sp_tx_reclaim E)"
  unfolding safe_def
proof (intro allI impI)
  fix s :: "'a sysport_world_scheme"
  assume c: "calm k False sp s"
  have acc: "safe k True sp (if fst ds then sp_tx_account (sp_obj s) (snd ds) else return (Ret ()))"
    if "fst ds \<longrightarrow> tx_busy (sp_obj s)" for ds
  proof (intro safe_if safe_return)
    assume "fst ds"
    with that c obtain n where "tx_ndev (sp_obj s) = Some n" by (auto simp: calm_def sp_data_def sp_ok_def)
    then show "safe k True sp (sp_tx_account (sp_obj s) (snd ds))" by (rule sp_tx_account_safe)
  qed
  have chk: "wp (if tx_busy (sp_obj s) then sp_tx_check E (sp_obj s) else return (False, False))
     (\<lambda>ds s'. (fst ds \<longrightarrow> tx_busy (sp_obj s)) \<and> calm k True sp s') (s\<lparr>io_log := Acq TxLock # io_log s\<rparr>)"
    by (rule wp_ifI, rule wp_mono [OF keeps_wp [OF sp_tx_check_calm calm_acq_tx [OF c]]])
      (simp_all add: wp_return calm_acq_tx [OF c])
  show "wp (sp_tx_reclaim E) (\<lambda>r s'. r \<noteq> Oops \<and> calm k False sp s') s"
    unfolding sp_tx_reclaim_def wp_bind wp_emit wp_gets sp_obj_log
    apply (rule wp_mono [OF chk], elim conjE)
    apply (rule safe_then [OF acc], assumption, assumption)
    apply (unfold wp_bind wp_emit)
    apply (rule safeD [OF sp_tx_reclaim_tail_safe])
    apply (erule calm_rel_tx)
    done
qed

lemma sp_tx_timeout_safe: "safe k False sp (sp_tx_timeout E nd)"
  unfolding sp_tx_timeout_def by (rule sp_tx_reclaim_safe)

lemma sp_napi_poll_safe: "safe k False sp (sp_napi_poll E budget)"
  unfolding sp_napi_poll_def
  by (intro safe_rules safe_bind sp_tx_reclaim_safe sp_rx_loop_safe keeps_rules; simp)

lemma sp_tx_map_calm [keeps_rules]: "keeps (calm k tx sp) (sp_tx_map nd)"
  unfolding sp_tx_map_def by (intro keeps_rules)

lemma sp_tx_push_calm [keeps_rules]: "keeps (calm k tx sp) (sp_tx_push o' len)"
  unfolding sp_tx_push_def by (intro keeps_rules; simp)

text \<open>A transmission of a device that exists.\<close>

lemma keeps_calm_tx_start:
  "keeps (calm k tx sp) (sp_mod (\<lambda>sp. sp\<lparr>tx_cidx_pre := a, tx_len := b, tx_start := c, tx_ndev := Some nd, tx_busy := True\<rparr>))"
  if "nd < k"
  using that unfolding sp_mod_def by (intro keeps_modify) (auto simp: calm_def sp_data_def sp_ok_def)

lemma sp_xmit_locked_calm: "nd < k \<Longrightarrow> keeps (calm k tx sp) (sp_xmit_locked E nd data)"
  unfolding sp_xmit_locked_def
  by (intro keeps_rules keeps_calm_tx_start; simp)

lemma sp_xmit_wait_safe: "safe k False sp (sp_xmit_wait E)"
proof -
  have body: "wp (do {
       b \<leftarrow> sp_gets tx_busy;
       if \<not> b then return (Some (Ret ()))
       else do {
         delay_us 2;
         r \<leftarrow> sp_tx_reclaim E;
         return (case r of Oops \<Rightarrow> Some Oops | Ret _ \<Rightarrow> None) } })
     (\<lambda>r s'. r \<noteq> Some Oops \<and> calm k False sp s') s" if "calm k False sp s" for s :: "'a sysport_world_scheme"
    unfolding sp_gets_def wp_bind wp_gets
    apply (rule wp_ifI)
     apply (simp add: wp_return that)
    apply (unfold wp_bind)
    apply (rule wp_mono [OF keeps_wp [where I = "calm k False sp", OF _ that]], rule keeps_calm_emit, simp)
    apply (rule wp_mono [OF safeD [OF sp_tx_reclaim_safe]], assumption)
    apply (auto simp: wp_return split: outcome.splits)
    done
  show ?thesis
    unfolding safe_def sp_xmit_wait_def wp_bind
    apply (intro allI impI)
    apply (rule wp_poll_loop [where I = "calm k False sp"], assumption)
     apply (rule wp_mono [OF body], assumption)
     apply (auto simp: wp_return split: option.splits outcome.splits)
    done
qed

lemma tx_unlock:
  assumes "keeps (calm k True sp) m" and "safe k False sp n" and "calm k True sp s"
  shows "wp (do { m; emit (Rel TxLock); n }) (\<lambda>r s'. r \<noteq> Oops \<and> calm k False sp s') s"
  unfolding wp_bind wp_emit
  by (rule wp_mono [OF keeps_wp [OF assms(1,3)]]) (intro safeD [OF assms(2)] calm_rel_tx)

lemma sp_xmit_section_safe:
  assumes "nd < k"
  shows "safe k False sp (do {
       emit (Acq TxLock);
       busy \<leftarrow> sp_gets tx_busy;
       if busy then do {
         nd_mod nd (queue_stopped_update (\<lambda>_. True));
         emit (Rel TxLock);
         return (Ret NETDEV_TX_BUSY) }
       else do {
         sp_xmit_locked E nd (skb_padded skb);
         emit (Rel TxLock);
         tx_mark 0x72;
         emit (KNote ''dev_kfree_skb_any'' nd);
         bindC (sp_xmit_wait E) (\<lambda>_. return (Ret NETDEV_TX_OK)) } })"
  unfolding safe_def
  apply (intro allI impI)
  apply (subst wp_bind, subst wp_emit)
  apply (subst wp_bind)
  apply (rule wp_mono [OF keeps_wp [OF keeps_calm_sp_gets calm_acq_tx]], assumption)
  apply (rule wp_ifI)
   apply (rule tx_unlock [OF _ safe_return], intro keeps_rules, simp, assumption)
  apply (rule tx_unlock [OF sp_xmit_locked_calm [OF assms]])
   apply (intro safe_bind safe_bindC sp_xmit_wait_safe safe_return keeps_rules; simp)
  apply assumption
  done

lemma sp_xmit_safe:
  assumes "nd < k"
  shows "safe k False sp (sp_xmit E skb nd)"
  unfolding sp_xmit_def
  apply (rule safe_bind [OF keeps_calm_marks(2)])
  apply (rule safe_bind, intro keeps_rules)
  apply (rule safe_if)
   apply (intro safe_bind safe_return keeps_rules)
  apply (rule safe_if)
   apply (intro safe_bind safe_return keeps_rules; simp)
  apply (rule sp_xmit_section_safe [OF assms])
  done

section \<open>Open and stop\<close>

text \<open>The network core calls \<^verbatim>\<open>ndo_open\<close> only for a device that is down and \<^verbatim>\<open>ndo_stop\<close> only for one that is
  up, and marks the device after a successful open.\<close>

definition dev_open :: "env \<Rightarrow> nat \<Rightarrow> ('z sysport_world_scheme, errno + unit) state" where
  "dev_open E nd = do {
     up \<leftarrow> gets (\<lambda>s. nd_up (netdevs s ! nd));
     if up then return (Inr ())
     else do {
       r \<leftarrow> sp_open E nd;
       (case r of Inl _ \<Rightarrow> return () | Inr _ \<Rightarrow> nd_mod nd (nd_up_update (\<lambda>_. True)));
       return r } }"

definition dev_close :: "env \<Rightarrow> nat \<Rightarrow> ('z sysport_world_scheme, unit) state" where
  "dev_close E nd = do {
     up \<leftarrow> gets (\<lambda>s. nd_up (netdevs s ! nd));
     if up then do { sp_stop E nd; nd_mod nd (nd_up_update (\<lambda>_. False)) }
     else return () }"

text \<open>Code that touches only the hardware leaves the instance, the devices and the two locks as they
  are.\<close>

definition still :: "sysport6764 \<Rightarrow> net_device list \<Rightarrow> bool \<Rightarrow> bool \<Rightarrow> 'z sysport_world_scheme \<Rightarrow> bool" where
  "still o' ns tx sp s \<longleftrightarrow> sp_obj s = o' \<and> netdevs s = ns \<and> held TxLock (io_log s) = tx \<and> held SpLock (io_log s) = sp"

lemma still_emit [keeps_rules]: "lockless e \<Longrightarrow> keeps (still o' ns tx sp) (emit e)"
  by (rule keeps_emit) (cases e; auto simp: still_def)

lemma still_io [keeps_rules]:
  "keeps (still o' ns tx sp) (readl E w off)" "keeps (still o' ns tx sp) (kcall E c)"
  by (rule keeps_readl keeps_kcall, simp add: still_def)+

lemma still_world [keeps_rules]:
  "keeps (still o' ns tx sp) (modify (sf2_obj_update h))" "keeps (still o' ns tx sp) (set_diag d)"
  unfolding set_diag_def by (rule keeps_modify, simp add: still_def)+

lemmas sf2_open_parts = sf2_save_def sf2_port_enable_def sf2_open_report_def sf2_overrides_def
  sf2_restore_def rd_diag_def sf2_rd64_def sf2_wr64_def sf2_rd32_def sf2_wr32_def

lemma sf2_6764_open_still [keeps_rules]: "keeps (still o' ns tx sp) (sf2_6764_open E)"
  unfolding sf2_6764_open_def sf2_open_parts by (intro keeps_rules; simp)

lemma sf2_6764_close_still [keeps_rules]: "keeps (still o' ns tx sp) (sf2_6764_close E)"
  unfolding sf2_6764_close_def sf2_open_parts by (intro keeps_rules; simp)

lemma sp_hw_still [keeps_rules]:
  "keeps (still o' ns tx sp) (sp_hw_init E p)" "keeps (still o' ns tx sp) (sp_hw_stop E)"
  "keeps (still o' ns tx sp) (sp_enable_rdma E)" "keeps (still o' ns tx sp) (sp_enable_tdma E)"
  unfolding sp_hw_init_def sp_hw_stop_def sp_enable_rdma_def sp_enable_tdma_def sp_init_rx_descs_def sp_rx_desc_set_def
  by (intro keeps_rules; simp)+

lemma still_then:
  "keeps (still o' ns tx sp) m \<Longrightarrow> still o' ns tx sp s \<Longrightarrow> (\<And>x s'. still o' ns tx sp s' \<Longrightarrow> wp (f x) Q s') \<Longrightarrow>
     wp (State_Monad.bind m f) Q s"
  unfolding wp_bind by (rule wp_mono [OF keeps_wp])

text \<open>Bringing the hardware up changes the instance only when it succeeds.\<close>

definition sp_up :: "sysport6764 \<Rightarrow> sysport6764" where
  "sp_up o' = o'\<lparr>tx_busy := False, tx_ndev := None, running := True\<rparr>"

lemma still_up_mod:
  "still o' ns tx sp s \<Longrightarrow> (\<And>s'. still (sp_up o') ns tx sp s' \<Longrightarrow> wp (f ()) Q s') \<Longrightarrow>
     wp (State_Monad.bind (sp_mod (\<lambda>sp. sp\<lparr>tx_busy := False, tx_ndev := None, running := True\<rparr>)) f) Q s"
  by (simp add: wp_simps sp_mod_def still_def sp_up_def)

lemma sp_hw_up_still:
  assumes "still o' ns tx sp s"
  shows "wp (sp_hw_up E) (\<lambda>r s'. still (case r of Inl _ \<Rightarrow> o' | Inr _ \<Rightarrow> sp_up o') ns tx sp s') s"
  using assms unfolding sp_hw_up_def bindE_def
  apply -
  apply (rule still_then, rule sf2_6764_open_still, assumption)
  apply (rule wp_sumI)
   apply (simp add: wp_return)
  apply (rule still_then, rule keeps_gets, assumption)
  apply (rule still_then, rule sp_hw_still, assumption)
  apply (rule still_then, intro keeps_rules, assumption)
  apply (rule wp_sumI)
   apply (rule still_then, rule sp_hw_still, assumption)
   apply (rule still_then, rule sf2_6764_close_still, assumption)
   apply (simp add: wp_return)
  apply (rule still_then, (intro keeps_rules; simp; fail), assumption)+
  apply (erule still_up_mod)
  apply (rule still_then, (intro keeps_rules; simp; fail), assumption)+
  apply (simp add: wp_return)
  done

lemma sp_hw_down_still:
  assumes "still o' ns tx sp s"
  shows "wp (sp_hw_down E) (\<lambda>_. still (o'\<lparr>running := False\<rparr>) ns tx sp) s"
proof -
  have "keeps (still (o'\<lparr>running := False\<rparr>) ns tx sp) (do {
     emit (KNote ''hrtimer_cancel'' 0);
     emit (KNote ''napi_disable'' 0);
     sp_hw_stop E;
     sf2_6764_close E } :: ('a sysport_world_scheme, unit) state)"
    by (intro keeps_rules; simp)
  from keeps_wp [OF this] assms show ?thesis
    unfolding sp_hw_down_def sp_mod_def by (simp add: wp_bind [of "modify _"] wp_modify still_def)
qed

lemma sp_open_still:
  assumes "still o' ns tx False s"
  shows "wp (sp_open E nd) (\<lambda>r. still (case r of Inl _ \<Rightarrow> o'
      | Inr _ \<Rightarrow> (if open_count o' = 0 then sp_up o' else o')\<lparr>open_count := open_count o' + 1\<rparr>)
     (case r of Inl _ \<Rightarrow> ns | Inr _ \<Rightarrow> ns[nd := (ns ! nd)\<lparr>carrier := True, queue_stopped := False\<rparr>]) tx False) s"
proof -
  let ?o = "if open_count o' = 0 then sp_up o' else o'"
  have a: "still o' ns tx True (s\<lparr>io_log := Acq SpLock # io_log s\<rparr>)" using assms by (simp add: still_def)
  have "wp (if open_count o' = 0 then sp_hw_up E else return (Inr ()))
      (\<lambda>r. still (case r of Inl _ \<Rightarrow> o' | Inr _ \<Rightarrow> ?o) ns tx True) (s\<lparr>io_log := Acq SpLock # io_log s\<rparr>)"
    using sp_hw_up_still [OF a] a by (auto simp: wp_return)
  moreover have "open_count ?o = open_count o'" by (simp add: sp_up_def)
  ultimately show ?thesis
    using assms unfolding sp_open_def sp_gets_def sp_mod_def nd_mod_def
    by (auto simp: wp_simps still_def elim!: wp_mono split: sum.splits)
qed

lemma sp_stop_still:
  assumes "still o' ns tx False s"
  shows "wp (sp_stop E nd) (\<lambda>r. still
     (if open_count o' > 0 then o'\<lparr>open_count := open_count o' - 1, running := running o' \<and> open_count o' \<noteq> 1\<rparr> else o')
     (ns[nd := (ns ! nd)\<lparr>queue_stopped := True, carrier := False\<rparr>]) tx False) s"
proof -
  let ?ns = "ns[nd := (ns ! nd)\<lparr>queue_stopped := True, carrier := False\<rparr>]"
  let ?o = "o'\<lparr>open_count := open_count o' - 1\<rparr>"
  show ?thesis
    using assms unfolding sp_stop_def sp_gets_def sp_mod_def nd_mod_def
    by (auto simp: wp_simps still_def intro!: wp_mono [OF sp_hw_down_still [where o' = ?o and ns = ?ns and tx = tx and sp = True]])
qed

lemma count_up_set:
  assumes "nd < length ups"
  shows "length (filter (\<lambda>b. b) (ups[nd := b])) + (if ups ! nd then 1 else 0) =
    length (filter (\<lambda>b. b) ups) + (if b then 1 else 0)"
  using assms
proof (induction ups arbitrary: nd)
  case (Cons x ups)
  show ?case using Cons.prems Cons.IH [of "nd - 1"] by (cases nd) (auto split: if_splits)
qed simp

lemma still_of_calm: "calm k tx sp s \<Longrightarrow> still (sp_obj s) (netdevs s) tx sp s"
  by (simp add: calm_def still_def)

text \<open>The invariant after a device has come up or gone down.\<close>

lemma sp_ok_open:
  assumes "sp_ok ups o'" and "nd < length ups" and "\<not> ups ! nd"
  shows "sp_ok (ups[nd := True]) ((if open_count o' = 0 then sp_up o' else o')\<lparr>open_count := open_count o' + 1\<rparr>)"
  using assms count_up_set [of nd ups True] by (auto simp: sp_ok_def sp_up_def)

lemma sp_ok_stop:
  assumes "sp_ok ups o'" and "nd < length ups" and "ups ! nd"
  shows "open_count o' > 0"
    and "sp_ok (ups[nd := False]) (o'\<lparr>open_count := open_count o' - 1, running := running o' \<and> open_count o' \<noteq> 1\<rparr>)"
  using assms count_up_set [of nd ups False] by (auto simp: sp_ok_def)

lemma map_nd_up_set: "map nd_up (ns[nd := y]) = (map nd_up ns)[nd := nd_up y]"
  by (simp add: map_update)

lemma dev_open_calm:
  assumes "nd < k"
  shows "keeps (calm k tx False) (dev_open E nd)"
proof (rule keepsI)
  fix s :: "'a sysport_world_scheme"
  assume c: "calm k tx False s"
  show "wp (dev_open E nd) (\<lambda>_. calm k tx False) s"
    unfolding dev_open_def wp_bind wp_gets
    apply (rule wp_ifI)
     apply (simp add: wp_return c)
    apply (unfold wp_bind)
    apply (rule wp_mono [OF sp_open_still [OF still_of_calm [OF c]]])
    apply (use c assms sp_ok_open [of "map nd_up (netdevs s)" "sp_obj s" nd] in
        \<open>auto simp: wp_simps nd_mod_def still_def calm_def sp_data_def map_nd_up_set split: sum.split\<close>)
    done
qed

lemma dev_close_calm:
  assumes "nd < k"
  shows "keeps (calm k tx False) (dev_close E nd)"
proof (rule keepsI)
  fix s :: "'a sysport_world_scheme"
  assume c: "calm k tx False s"
  show "wp (dev_close E nd) (\<lambda>_. calm k tx False) s"
    unfolding dev_close_def wp_bind wp_gets
    apply (rule wp_ifI)
     apply (unfold wp_bind)
     apply (rule wp_mono [OF sp_stop_still [OF still_of_calm [OF c]]])
     apply (use c assms sp_ok_stop [of "map nd_up (netdevs s)" "sp_obj s" nd] in
        \<open>auto simp: wp_simps nd_mod_def still_def calm_def sp_data_def map_nd_up_set\<close>)
    done
qed

section \<open>Histories\<close>

text \<open>What can happen to a bound driver: calls of the network core on an existing device, the NAPI poll,
  the timer, and the hardware writing a receive buffer.\<close>

datatype sp_op =
    DevOpen nat | DevClose nat | StartXmit "u8 list" nat | TxTimeout nat | NapiPoll nat | PollTick
  | DmaWrite nat "u8 list"

text \<open>\<open>sp_call E op\<close> is the call; its result says whether it returned.\<close>

definition returned :: "('s, 'a outcome) state \<Rightarrow> ('s, bool) state" where
  "returned m = do { r \<leftarrow> m; return (r \<noteq> Oops) }"

definition returns :: "('s, 'a) state \<Rightarrow> ('s, bool) state" where
  "returns m = do { m; return True }"

fun sp_call :: "env \<Rightarrow> sp_op \<Rightarrow> ('z sysport_world_scheme, bool) state" where
  "sp_call E (DevOpen nd) = returns (dev_open E nd)"
| "sp_call E (DevClose nd) = returns (dev_close E nd)"
| "sp_call E (StartXmit skb nd) = returned (sp_xmit E skb nd)"
| "sp_call E (TxTimeout nd) = returned (sp_tx_timeout E nd)"
| "sp_call E (NapiPoll budget) = returned (sp_napi_poll E budget)"
| "sp_call E PollTick = returns sp_poll_tick"
| "sp_call E (DmaWrite off bs) = returns (sp_mod (dma_va_update (dma_write off bs)))"

fun op_dev :: "sp_op \<Rightarrow> nat option" where
  "op_dev (DevOpen nd) = Some nd"
| "op_dev (DevClose nd) = Some nd"
| "op_dev (StartXmit _ nd) = Some nd"
| "op_dev (TxTimeout nd) = Some nd"
| "op_dev _ = None"

definition op_valid :: "sp_op \<Rightarrow> 'z sysport_world_scheme \<Rightarrow> bool" where
  "op_valid opn s \<longleftrightarrow> (case op_dev opn of None \<Rightarrow> True | Some nd \<Rightarrow> nd < length (netdevs s))"

definition sp_exec :: "env \<Rightarrow> sp_op \<Rightarrow> 'z sysport_world_scheme \<Rightarrow> 'z sysport_world_scheme" where
  "sp_exec E opn s = (if op_valid opn s then snd (run_state (sp_call E opn) s) else s)"

lemma returned_safe: "safe k tx sp m \<Longrightarrow> calm k tx sp s \<Longrightarrow> wp (returned m) (\<lambda>b s'. b \<and> calm k tx sp s') s"
  unfolding returned_def wp_bind wp_return by (drule (1) safeD, erule wp_mono) simp

lemma returns_calm: "keeps (calm k tx sp) m \<Longrightarrow> calm k tx sp s \<Longrightarrow> wp (returns m) (\<lambda>b s'. b \<and> calm k tx sp s') s"
  unfolding returns_def wp_bind wp_return by (drule (1) keeps_wp, erule wp_mono) simp

lemma sp_poll_tick_calm: "keeps (calm k tx sp) sp_poll_tick"
  unfolding sp_poll_tick_def by (intro keeps_rules; simp)

lemma sp_call_calm:
  assumes "calm k False False s" and "op_valid opn s"
  shows "wp (sp_call E opn) (\<lambda>b s'. b \<and> calm k False False s') s"
proof -
  have "op_dev opn = Some nd \<Longrightarrow> nd < k" for nd
    using assms by (simp add: op_valid_def calm_def)
  then show ?thesis
    by (cases opn) (auto intro!: returned_safe returns_calm assms(1) dev_open_calm dev_close_calm sp_xmit_safe
        sp_tx_timeout_safe sp_napi_poll_safe sp_poll_tick_calm keeps_calm_flags)
qed

interpretation sp_sys: inv_system
  "sp_inv" "sp_exec E" "sp_inv :: 'z sysport_world_scheme \<Rightarrow> bool" for E
proof
  fix s :: "'z sysport_world_scheme" and opn
  assume "sp_inv s"
  then have "calm (length (netdevs s)) False False s" by (simp add: sp_inv_calm)
  from sp_call_calm [OF this, of opn E]
  show "sp_inv (sp_exec E opn s)"
    using \<open>sp_inv s\<close> by (auto simp: sp_exec_def wp_def case_prod_beta dest: calm_sp_inv)
qed


text \<open>C15: in a state that satisfies the invariant no call faults: none of the entry points dereferences a
  NULL device pointer, in particular not the transmit completion.\<close>

theorem sp_call_returns:
  assumes "sp_inv s" and "op_valid opn s"
  shows "wp (sp_call E opn) (\<lambda>ok s'. ok \<and> sp_inv s') s"
  using sp_call_calm [of "length (netdevs s)" s opn E] assms
  by (auto simp: sp_inv_calm [of s] elim!: wp_mono intro: calm_sp_inv)

text \<open>A split driver with both devices registered, the WAN device up.\<close>

definition bench_dev :: "sp_role \<Rightarrow> bool \<Rightarrow> net_device" where
  "bench_dev r up = \<lparr>dest_map = role_dest_map 0 r, role = r, dev_addr = sp_mac_addr, mtu = 1500, max_mtu = 1518,
     stats = nd_stats0, queue_stopped = False, carrier = up, nd_up = up\<rparr>"

definition bench :: sysport_world where
  "bench = sysport_boot\<lparr>enet6764_split := True, sp_bound := True,
     netdevs := [bench_dev SP_ROLE_WAN True, bench_dev SP_ROLE_LAN False],
     sp_obj := (sp_zero 1)\<lparr>ndevs := [0, 1], napi_ndev := Some 0, wan_ndev := Some 0, lan_ndev := Some 1,
       open_count := 1, running := True\<rparr>\<rparr>"

lemma bench_inv: "sp_inv bench"
  by (simp add: sp_inv_def sp_data_def sp_ok_def bench_def bench_dev_def sp_zero_def)


theorem sp_call_returns_witness:
  "wp (sp_call (ram_env (\<lambda>_ _. 0)) (StartXmit [1, 2, 3] 1)) (\<lambda>ok s'. ok \<and> sp_inv s') bench"
  by (rule sp_call_returns [OF bench_inv]) (simp add: op_valid_def bench_def)

end
