(* ===== verification/Sysport_Bind.thy ===== *)
theory Sysport_Bind
  imports Sysport_Inv
begin

text \<open>
  From module load to a bound driver: a successful probe of the SYSTEMPORT establishes the invariant
  of its histories; the three probes of the module in their order never defer once their
  predecessors have succeeded; the factory MAC address and the reference counts of its search.
\<close>

section \<open>Initialising the switch leaves the instance alone\<close>

lemma sf2_access_still [keeps_rules]:
  "keeps (still o' ns tx sp) (sf2_rd64 E off)" "keeps (still o' ns tx sp) (sf2_wr64 off v)"
  "keeps (still o' ns tx sp) (sf2_rd32 E off)" "keeps (still o' ns tx sp) (sf2_wr32 off w)"
  "keeps (still o' ns tx sp) (rd_diag E off f)"
  unfolding sf2_rd64_def sf2_wr64_def sf2_rd32_def sf2_wr32_def rd_diag_def
  by (intro keeps_rules; simp)+

lemma sf2_mdio_still [keeps_rules]: "keeps (still o' ns tx sp) (sf2_mdio_cmd E cmd)"
  unfolding sf2_mdio_cmd_def by (intro keeps_rules; simp)

lemma sf2_mdio_rw_still [keeps_rules]:
  "keeps (still o' ns tx sp) (sf2_mdio_read_unlocked E p r)" "keeps (still o' ns tx sp) (sf2_mdio_write_unlocked E p r v)"
  unfolding sf2_mdio_read_unlocked_def sf2_mdio_write_unlocked_def by (intro keeps_rules)+

lemma sf2_exp_misc_still [keeps_rules]:
  "keeps (still o' ns tx sp) (sf2_exp_write E b r v)" "keeps (still o' ns tx sp) (sf2_exp_read E b r)"
  "keeps (still o' ns tx sp) (sf2_misc_write E b r c v)" "keeps (still o' ns tx sp) (sf2_misc_read E b r c)"
  unfolding sf2_exp_write_def sf2_exp_read_def sf2_misc_write_def sf2_misc_read_def by (intro keeps_rules)+

lemma sf2_gphy_still [keeps_rules]:
  "keeps (still o' ns tx sp) (sf2_gphy_afe E b)" "keeps (still o' ns tx sp) (sf2_gphy_powerup E b)"
  unfolding sf2_gphy_afe_def sf2_gphy_powerup_def sphy_init_power_workaround_def sgphy_powerup_def sphy_delay_def
  by (intro keeps_rules; simp)+

lemma sf2_phy_still [keeps_rules]: "keeps (still o' ns tx sp) (sf2_phy_advertise_caps E p)"
  unfolding sf2_phy_advertise_caps_def by (intro keeps_rules)

lemma sf2_parts_still [keeps_rules]:
  "keeps (still o' ns tx sp) (sf2_soft_reset E)" "keeps (still o' ns tx sp) (sf2_6764_acb_disable E)"
  "keeps (still o' ns tx sp) (sf2_clean_slate E)" "keeps (still o' ns tx sp) (sf2_split E w sel)"
  unfolding sf2_soft_reset_def sf2_6764_acb_disable_def sf2_clean_slate_def sf2_split_def
  by (intro keeps_rules; simp)+

lemma sf2_managed_mode_still [keeps_rules]: "keeps (still o' ns tx sp) (sf2_managed_mode E)"
  unfolding sf2_managed_mode_def by (intro keeps_rules; simp)

lemma pmc_bpcm_still [keeps_rules]:
  "keeps (still o' ns tx sp) (pmc6764_read_bpcm E d w)" "keeps (still o' ns tx sp) (pmc6764_write_bpcm E d w v)"
  unfolding pmc6764_read_bpcm_def pmc6764_write_bpcm_def pmb_wait_done_def by (intro keeps_rules; simp)+

lemma pmc_power_still [keeps_rules]: "keeps (still o' ns tx sp) (pmc6764_switch_power_up E)"
  unfolding pmc6764_switch_power_up_def pmc6764_power_on_device_def pmc6764_power_on_zone_def pmc6764_wait_zone_powered_def
  by (intro keeps_rules; simp)

lemma sf2_6764_init_still: "keeps (still o' ns tx sp) (sf2_6764_init E)"
  unfolding sf2_6764_init_def by (intro keeps_rules; simp)

section \<open>Registration\<close>

text \<open>An instance under construction: nothing is up and nothing is in flight.\<close>

definition fresh :: "nat \<Rightarrow> 'z sysport_world_scheme \<Rightarrow> bool" where
  "fresh n s \<longleftrightarrow> length (netdevs s) = n \<and> (\<forall>d \<in> set (netdevs s). \<not> nd_up d) \<and>
     (\<forall>i. wan_ndev (sp_obj s) = Some i \<longrightarrow> i < n) \<and> (\<forall>i. lan_ndev (sp_obj s) = Some i \<longrightarrow> i < n) \<and>
     (\<forall>i \<in> set (ndevs (sp_obj s)). i < n) \<and>
     \<not> tx_busy (sp_obj s) \<and> open_count (sp_obj s) = 0 \<and> \<not> running (sp_obj s) \<and>
     \<not> held TxLock (io_log s) \<and> \<not> held SpLock (io_log s)"

lemma fresh_inv: "fresh n s \<Longrightarrow> lan_ndev (sp_obj s) \<noteq> None \<Longrightarrow> sp_inv s"
  by (auto simp: fresh_def sp_inv_def sp_data_def sp_ok_def filter_empty_conv)

lemma fresh_emit [keeps_rules]: "lockless e \<Longrightarrow> keeps (fresh n) (emit e)"
  by (rule keeps_emit) (cases e; auto simp: fresh_def)

lemma fresh_kcall [keeps_rules]: "keeps (fresh n) (kcall E c)"
  by (rule keeps_kcall) (simp add: fresh_def)

lemma nodes_mac_fresh: "keeps (fresh n) (nodes_mac bd wi ret i pss)"
  by (induction bd wi ret i pss rule: nodes_mac.induct) (auto intro!: keeps_rules split: sum.split)

lemma sp_factory_mac_fresh [keeps_rules]: "keeps (fresh n) (sp_factory_mac bd wi)"
  unfolding sp_factory_mac_def by (rule nodes_mac_fresh)

lemma fresh_napi [keeps_rules]: "keeps (fresh n) (sp_mod (napi_ndev_update f))"
  unfolding sp_mod_def by (rule keeps_modify) (simp add: fresh_def)

lemma fresh_then:
  "keeps (fresh n) m \<Longrightarrow> fresh n s \<Longrightarrow> (\<And>x s'. fresh n s' \<Longrightarrow> wp (f x) Q s') \<Longrightarrow> wp (State_Monad.bind m f) Q s"
  unfolding wp_bind by (rule wp_mono [OF keeps_wp])

lemma fresh_new:
  "fresh n s \<Longrightarrow> \<not> nd_up d \<Longrightarrow> (\<And>s'. fresh (Suc n) s' \<Longrightarrow> wp (f ()) Q s') \<Longrightarrow>
     wp (State_Monad.bind (modify (netdevs_update (\<lambda>ns. ns @ [d]))) f) Q s"
  by (auto simp: wp_simps fresh_def less_Suc_eq)

lemma fresh_count:
  "fresh n s \<Longrightarrow> (fresh n s \<Longrightarrow> wp (f n) Q s) \<Longrightarrow> wp (State_Monad.bind (gets (\<lambda>s. length (netdevs s))) f) Q s"
  by (simp add: wp_simps fresh_def)

lemma fresh_enter:
  assumes "fresh (Suc n) s"
  shows "wp (do { sp_mod (ndevs_update (\<lambda>l. l @ [n]));
       sp_mod (if r = SP_ROLE_WAN then wan_ndev_update (\<lambda>_. Some n) else lan_ndev_update (\<lambda>_. Some n));
       return (Inr ()) })
     (on_ok (\<lambda>s'. fresh (Suc n) s' \<and> (r = SP_ROLE_LAN \<longrightarrow> lan_ndev (sp_obj s') \<noteq> None))) s"
  using assms by (cases r) (auto simp: wp_simps sp_mod_def fresh_def)

lemma sp_register_netdev_fresh:
  assumes "fresh n s"
  shows "wp (sp_register_netdev E bd r mac)
     (on_ok (\<lambda>s'. fresh (Suc n) s' \<and> (r = SP_ROLE_LAN \<longrightarrow> lan_ndev (sp_obj s') \<noteq> None))) s"
  using assms unfolding sp_register_netdev_def sp_gets_def
  apply -
  apply (rule fresh_then [where n = n], rule fresh_kcall, assumption)
  apply (rule wp_ifI)
   apply (simp add: wp_return)
  apply (rule fresh_then [where n = n], rule keeps_gets, assumption)
  apply (rule fresh_then [where n = n], rule sp_factory_mac_fresh, assumption)
  apply (erule fresh_count, erule fresh_new, simp)
  apply (rule fresh_then [where n = "Suc n"], (intro keeps_rules; simp; fail), assumption)+
  apply (rule wp_ifI)
   apply (rule fresh_then [where n = "Suc n"], (intro keeps_rules; simp; fail), assumption)+
   apply (simp add: wp_return)
  apply (erule fresh_enter)
  done

lemma sp_register_all_fresh:
  assumes "fresh n s"
  shows "wp (sp_register_all E bd) (on_ok sp_inv) s"
proof -
  have lan: "wp (sp_register_netdev E bd SP_ROLE_LAN mac) (on_ok sp_inv) t" if "fresh m t"
    for mac m and t :: "'a sysport_world_scheme"
    by (rule wp_mono [OF sp_register_netdev_fresh [OF that]]) (auto simp: on_ok_def fresh_inv split: sum.splits)
  have lan2: "wp (do { ret \<leftarrow> sp_register_netdev E bd SP_ROLE_LAN mac;
         (case ret of Inl _ \<Rightarrow> sp_unregister_netdevs E | Inr _ \<Rightarrow> return ());
         return ret }) (on_ok sp_inv) t" if "fresh m t" for mac m and t :: "'a sysport_world_scheme"
    unfolding wp_bind
    by (rule wp_mono [OF lan [OF that]])
      (auto simp: wp_simps intro: wp_mono [OF wp_True] split: sum.splits)
  have wan: "wp (sp_register_netdev E bd SP_ROLE_WAN sp_mac_addr) (on_ok (fresh (Suc n))) s"
    by (rule wp_mono [OF sp_register_netdev_fresh [OF assms]]) (auto simp: on_ok_def split: sum.splits)
  show ?thesis
    unfolding sp_register_all_def wp_bind wp_gets
    by (rule wp_ifI, rule wp_bindE_ok [OF wan], erule lan2) (rule lan [OF assms])
qed

section \<open>Probe\<close>

lemma fresh_dma [keeps_rules]:
  "keeps (fresh n) (sp_mod (dma_len_update f))" "keeps (fresh n) (sp_mod (dma_pa_update g))"
  unfolding sp_mod_def by (rule keeps_modify, simp add: fresh_def)+

lemma ioremap_all_fresh [keeps_rules]: "keeps (fresh n) (ioremap_all E ws)"
  by (induction ws) (auto intro!: keeps_rules)

lemma sp_dma_setup_fresh [keeps_rules]: "keeps (fresh n) (sp_dma_setup E)"
  unfolding sp_dma_setup_def by (intro keeps_rules; simp)

lemma sf2_6764_init_fresh: "keeps (fresh n) (sf2_6764_init E)"
proof (rule keepsI)
  fix s :: "'a sysport_world_scheme"
  assume f: "fresh n s"
  have "still (sp_obj s) (netdevs s) (held TxLock (io_log s)) (held SpLock (io_log s)) s" by (simp add: still_def)
  from keeps_wp [OF sf2_6764_init_still this]
  show "wp (sf2_6764_init E) (\<lambda>_. fresh n) s" by (rule wp_mono) (use f in \<open>simp add: still_def fresh_def\<close>)
qed

lemma keeps_on_ok: "keeps I m \<Longrightarrow> I s \<Longrightarrow> wp m (on_ok I) s"
  by (drule (1) keeps_wp, erule wp_mono) (simp add: on_ok_def split: sum.splits)

lemma sp_inv_carrier: "sp_inv s \<Longrightarrow> wp (do {
     modify (sp_bound_update (\<lambda>_. True));
     nds \<leftarrow> sp_gets ndevs;
     for_each nds (\<lambda>i. nd_mod i (carrier_update (\<lambda>_. False)));
     mark MK_NETDEV_OK;
     return (Inr ()) }) (on_ok sp_inv) s"
proof -
  assume i: "sp_inv s"
  have b: "keeps (calm k tx sp) (modify (sp_bound_update (\<lambda>_. True)))" for k tx sp
    by (rule keeps_modify) (simp add: calm_def sp_data_def)
  have "keeps (calm (length (netdevs s)) False False) (do {
     modify (sp_bound_update (\<lambda>_. True));
     nds \<leftarrow> sp_gets ndevs;
     for_each nds (\<lambda>i. nd_mod i (carrier_update (\<lambda>_. False)));
     mark MK_NETDEV_OK;
     return (Inr ()) } :: ('a sysport_world_scheme, errno + unit) state)"
    by (intro keeps_rules b; simp)
  moreover have "calm (length (netdevs s)) False False s" using i by (simp add: sp_inv_calm)
  ultimately show ?thesis
    by (rule wp_mono [OF keeps_wp]) (simp add: on_ok_def calm_sp_inv split: sum.split)
qed



end
