(* ===== verification/Sysport_Props.thy ===== *)
theory Sysport_Props
  imports Sysport_Bind
begin

text \<open>
  Properties of the SYSTEMPORT data path: the switch tag round trip, what one receive step does to
  the ring and hands to the stack, what a transmission puts into the DMA block, the address in a
  receive descriptor, the poll period, the NAPI budget and the factory MAC address.
\<close>

section \<open>The switch tag\<close>

lemma length_sp_tx_tagged [simp]: "12 \<le> length data \<Longrightarrow> length (sp_tx_tagged mp data) = length data + 4"
  by (simp add: sp_tx_tagged_def)

lemma map_bytes: "push_bit 8 (ucast (ucast (drop_bit 8 mp) :: u8)) OR ucast (ucast (mp AND 0xff) :: u8) = mp" for mp :: u16
proof -
  have m: "(0xff :: u16) = mask 8" by (simp add: mask_eq_exp_minus_1)
  show ?thesis
    unfolding m by (rule bit_word_eqI)
      (auto simp: bit_or_iff bit_and_iff bit_mask_iff bit_push_bit_iff bit_ucast_iff bit_drop_bit_eq)
qed

text \<open>C17: tagging a frame for transmission and stripping the tag on reception are inverse: for every
  frame longer than its two addresses the stripped frame is the original, the tag adds four bytes,
  and its last two carry the destination port map.\<close>

theorem tag_roundtrip:
  assumes "12 < length data"
  shows "sp_rx_strip True (sp_tx_tagged mp data) = data \<and>
    length (sp_tx_tagged mp data) = length data + SP_TAG_LEN \<and>
    take 12 (sp_tx_tagged mp data) = take 12 data \<and>
    tag_map (drop 12 (sp_tx_tagged mp data)) = mp"
proof -
  have d: "drop 12 (sp_tx_tagged mp data) = [SP_TAG_EGRESS_OPCODE, 0, ucast (drop_bit 8 mp), ucast (mp AND 0xff)] @ drop 12 data"
    using assms by (simp add: sp_tx_tagged_def)
  have "drop 16 (sp_tx_tagged mp data) = drop 4 (drop 12 (sp_tx_tagged mp data))" by simp
  then have "drop 16 (sp_tx_tagged mp data) = drop 12 data" unfolding d by simp
  moreover have t: "take 12 (sp_tx_tagged mp data) = take 12 data" using assms by (simp add: sp_tx_tagged_def)
  moreover have "tag_map (drop 12 (sp_tx_tagged mp data)) = mp"
    unfolding d tag_map_def by (simp add: map_bytes)
  ultimately show ?thesis using assms by (simp add: sp_rx_strip_def)
qed

theorem tag_roundtrip_witness:
  "sp_rx_strip True (sp_tx_tagged 0x20 (replicate 60 7)) = replicate 60 7 \<and>
    length (sp_tx_tagged 0x20 (replicate 60 7)) = length (replicate 60 (7 :: u8)) + SP_TAG_LEN \<and>
    take 12 (sp_tx_tagged 0x20 (replicate 60 7)) = take 12 (replicate 60 7) \<and>
    tag_map (drop 12 (sp_tx_tagged 0x20 (replicate 60 7))) = 0x20"
  by (rule tag_roundtrip) simp

section \<open>Receive\<close>

text \<open>The frames a piece of log hands to the stack, oldest first.\<close>

fun frames_of :: "event list \<Rightarrow> (nat \<times> u8 list) list" where
  "frames_of [] = []"
| "frames_of (Deliver nd bs # es) = frames_of es @ [(nd, bs)]"
| "frames_of (_ # es) = frames_of es"

text \<open>The answers of the buffer allocator, oldest first.\<close>

fun allocs_of :: "event list \<Rightarrow> int list" where
  "allocs_of [] = []"
| "allocs_of (Call AllocSkb v # es) = allocs_of es @ [v]"
| "allocs_of (_ # es) = allocs_of es"

definition no_wr :: "event list \<Rightarrow> bool" where
  "no_wr evs \<longleftrightarrow> list_all (\<lambda>e. \<forall>w off v. e \<noteq> Wr w off v) evs"

lemma no_wr_simps [simp]:
  "no_wr []" "no_wr (Rd w off v # es) = no_wr es" "no_wr (Mark m # es) = no_wr es"
  "no_wr (Call c r # es) = no_wr es" "no_wr (Deliver nd bs # es) = no_wr es" "\<not> no_wr (Wr w off v # es)"
  by (simp_all add: no_wr_def)

text \<open>\<open>grew L fs al L'\<close>: the log \<open>L'\<close> extends \<open>L\<close> by events that write no register, deliver \<open>fs\<close> and had the
  allocator answer \<open>al\<close>.\<close>

definition grew :: "event list \<Rightarrow> (nat \<times> u8 list) list \<Rightarrow> int list \<Rightarrow> event list \<Rightarrow> bool" where
  "grew L fs al L' \<longleftrightarrow> (\<exists>evs. L' = evs @ L \<and> no_wr evs \<and> frames_of evs = fs \<and> allocs_of evs = al)"

lemma grew_refl [simp]: "grew L [] [] L"
  by (simp add: grew_def)

lemma grew_Cons [simp]:
  "grew L fs al L' \<Longrightarrow> grew L fs al (Rd w off v # L')" "grew L fs al L' \<Longrightarrow> grew L fs al (Mark m # L')"
  unfolding grew_def
  by ((elim exE conjE, rule_tac x = "Rd w off v # evs" in exI, simp),
      (elim exE conjE, rule_tac x = "Mark m # evs" in exI, simp))

lemma grew_Alloc [simp]: "grew L fs [] L' \<Longrightarrow> grew L fs [v] (Call AllocSkb v # L')"
  unfolding grew_def by (elim exE conjE, rule_tac x = "Call AllocSkb v # evs" in exI) simp

lemma grew_Deliver [simp]: "grew L [] al L' \<Longrightarrow> grew L [(nd, bs)] al (Deliver nd bs # L')"
  unfolding grew_def by (elim exE conjE, rule_tac x = "Deliver nd bs # evs" in exI) simp

lemma wp_nd_stat [wp_simps]: "wp (nd_stat i f) Q s = Q () (netdevs_update (\<lambda>ns. ns[i := stats_update f (ns ! i)]) s)"
  by (simp add: nd_stat_def nd_mod_def wp_modify)

lemma wp_sp_gets [wp_simps]: "wp (sp_gets f) Q s = Q (f (sp_obj s)) s"
  by (simp add: sp_gets_def wp_gets)

lemma wp_sp_mod [wp_simps]: "wp (sp_mod f) Q s = Q () (sp_obj_update f s)"
  by (simp add: sp_mod_def wp_modify)

text \<open>What a valid descriptor hands to the stack: one frame, the buffer without its tag to the target
  device, unless the allocator has no memory.\<close>

definition rx_delivers :: "'z sysport_world_scheme \<Rightarrow> nat \<Rightarrow> nat \<Rightarrow> (nat \<times> u8 list) list \<Rightarrow> int list \<Rightarrow> bool" where
  "rx_delivers s idx len fs al \<longleftrightarrow>
     (let buf = dma_read (dma_va (sp_obj s)) (sp_rx_va idx) len in
      \<exists>nd v. sp_rx_target s buf len = Some nd \<and> al = [v] \<and>
        fs = (if v = 0 then [] else [(nd, sp_rx_strip (rx_tagged s) buf)]))"

lemma sp_rx_frame_spec:
  assumes "grew L [] [] (io_log s)"
  shows "wp (sp_rx_frame E idx len) (\<lambda>r s'. case r of
      Oops \<Rightarrow> lan_ndev (sp_obj s) = None
    | Ret _ \<Rightarrow> (\<exists>fs al. grew L fs al (io_log s') \<and> rx_delivers s idx len fs al) \<and> dma_pa (sp_obj s') = dma_pa (sp_obj s)) s"
proof -
  let ?buf = "dma_read (dma_va (sp_obj s)) (sp_rx_va idx) len"
  have same: "sp_rx_target (rx_diag_update f s) b n = sp_rx_target s b n" for f b n
    by (auto simp: sp_rx_target_def rx_tagged_def)
  have nil: "\<exists>fs al. grew L fs al L' \<and> rx_delivers s idx len fs al"
    if "grew L [] [0] L'" and "sp_rx_target s ?buf len = Some nd" for L' nd
    using that by (auto simp: rx_delivers_def Let_def)
  have one: "\<exists>fs al. grew L fs al L' \<and> rx_delivers s idx len fs al"
    if "grew L [(nd, sp_rx_strip (rx_tagged s) ?buf)] [v] L'" and "sp_rx_target s ?buf len = Some nd" and "v \<noteq> 0" for L' nd v
    using that by (auto simp: rx_delivers_def Let_def)
  have none: "lan_ndev (sp_obj s) = None" if "sp_rx_target s ?buf len = None"
    using that by (auto simp: sp_rx_target_def split: if_splits)
  show ?thesis
  proof (cases "env_call E (io_log s) AllocSkb = 0")
    case True
    then show ?thesis
      using assms unfolding sp_rx_frame_def rx_mark_def Let_def
      by (auto simp: wp_simps same none intro!: nil split: option.split)
  next
    case False
    then show ?thesis
      using assms unfolding sp_rx_frame_def rx_mark_def Let_def
      by (auto simp: wp_simps same none intro!: one split: option.split)
  qed
qed

lemma sp_rx_bad_len_spec:
  assumes "grew L [] [] (io_log s)"
  shows "wp sp_rx_bad_len (\<lambda>r s'. case r of
      Oops \<Rightarrow> lan_ndev (sp_obj s) = None
    | Ret _ \<Rightarrow> grew L [] [] (io_log s') \<and> sp_obj s' = sp_obj s) s"
  using assms unfolding sp_rx_bad_len_def rx_mark_def by (auto simp: wp_simps split: option.split)

text \<open>The log without the markers at its end.\<close>

fun strip_marks :: "event list \<Rightarrow> event list" where
  "strip_marks (Mark m # es) = strip_marks es"
| "strip_marks es = es"

text \<open>The log after a descriptor was re-armed and the consumer index advanced by one modulo \<open>2 ^ 16\<close>.\<close>

definition rx_rearmed :: "u64 \<Rightarrow> nat \<Rightarrow> u32 \<Rightarrow> event list \<Rightarrow> event list" where
  "rx_rearmed pa idx c_idx L = [Wr Rdma (RDMA_CINDEX SP_RX_QUEUE) ((c_idx + 1) AND 0xffff),
     Wr Rdma (rx_desc idx + 4) (rx_desc_w1 pa), Wr Rdma (rx_desc idx) (lower_32_bits pa)] @ L"

lemma sp_rx_rearm_spec:
  "wp (sp_rx_rearm idx c_idx) (\<lambda>r s'. r = Ret RX_OK \<and>
     strip_marks (io_log s') = rx_rearmed (sp_rx_pa (sp_obj s) idx) idx c_idx (io_log s)) s"
  unfolding sp_rx_rearm_def sp_rx_desc_set_def rx_rearmed_def by (simp add: wp_simps)

text \<open>The outcome of one receive step that consumed a descriptor: the descriptor the consumer index
  names was read, its frame was handed over if its length is acceptable, it was re-armed, and the
  consumer index was advanced.\<close>

definition rx_consumed :: "'z sysport_world_scheme \<Rightarrow> event list \<Rightarrow> bool" where
  "rx_consumed s L' \<longleftrightarrow> (\<exists>c w1 fs al L1.
     (let c_idx = c AND 0xffff; idx = unat c_idx mod SP_NUM_RX_BUFS; len = rx_desc_len w1 in
      Rd Rdma (RDMA_CINDEX SP_RX_QUEUE) c \<in> set L1 \<and> Rd Rdma (rx_desc idx + 4) w1 \<in> set L1 \<and>
      grew (io_log s) fs al L1 \<and>
      (if SP_ENET_ZLEN \<le> len \<and> len \<le> SP_MAX_PKT_LEN then rx_delivers s idx len fs al else fs = [] \<and> al = []) \<and>
      strip_marks L' = rx_rearmed (sp_rx_pa (sp_obj s) idx) idx c_idx L1))"

text \<open>The outcome of a step that consumed nothing: nothing was handed over, and either no register was
  written or the consumer index was moved to the producer index.\<close>

definition rx_nothing :: "'z sysport_world_scheme \<Rightarrow> event list \<Rightarrow> bool" where
  "rx_nothing s L' \<longleftrightarrow> grew (io_log s) [] [] L' \<or>
     (\<exists>p L1. grew (io_log s) [] [] L1 \<and> Rd Rdma (RDMA_PINDEX SP_RX_QUEUE) p \<in> set L1 \<and>
        L' = Wr Rdma (RDMA_CINDEX SP_RX_QUEUE) (p AND 0xffff) # L1)"

lemma grew_trans: "grew L [] [] M \<Longrightarrow> grew M fs al N \<Longrightarrow> grew L fs al N"
proof -
  assume "grew L [] [] M" "grew M fs al N"
  then obtain e1 e2 where "M = e1 @ L" "no_wr e1" "frames_of e1 = []" "allocs_of e1 = []"
    "N = e2 @ M" "no_wr e2" "frames_of e2 = fs" "allocs_of e2 = al"
    by (auto simp: grew_def)
  moreover have "frames_of (xs @ ys) = frames_of ys @ frames_of xs" for xs ys
    by (induction xs rule: frames_of.induct) simp_all
  moreover have "allocs_of (xs @ ys) = allocs_of ys @ allocs_of xs" for xs ys
    by (induction xs rule: allocs_of.induct) simp_all
  ultimately show ?thesis
    unfolding grew_def by (intro exI [of _ "e2 @ e1"]) (simp add: no_wr_def)
qed

lemma grew_set: "grew M fs al N \<Longrightarrow> x \<in> set M \<Longrightarrow> x \<in> set N"
  by (auto simp: grew_def)

text \<open>The states inside the step differ from the first one in what the frame handling does not read.\<close>

definition rx_alike :: "'z sysport_world_scheme \<Rightarrow> 'z sysport_world_scheme \<Rightarrow> bool" where
  "rx_alike s t \<longleftrightarrow> grew (io_log s) [] [] (io_log t) \<and> enet6764_split t = enet6764_split s \<and>
     enet6764_wan_port t = enet6764_wan_port s \<and> brcm_tag_port t = brcm_tag_port s \<and>
     (\<exists>b. sp_obj t = (sp_obj s)\<lparr>rx_entered := b\<rparr>)"

lemma rx_alike_delivers: "rx_alike s t \<Longrightarrow> rx_delivers t idx len fs al = rx_delivers s idx len fs al"
  by (auto simp: rx_alike_def rx_delivers_def sp_rx_target_def rx_tagged_def)

lemma rx_alike_obj:
  assumes "rx_alike s t"
  shows "lan_ndev (sp_obj t) = lan_ndev (sp_obj s)" "dma_pa (sp_obj t) = dma_pa (sp_obj s)"
    "grew (io_log s) [] [] (io_log t)"
  using assms by (auto simp: rx_alike_def)

definition rx_post :: "'z sysport_world_scheme \<Rightarrow> rx_out outcome \<Rightarrow> 'z sysport_world_scheme \<Rightarrow> bool" where
  "rx_post s r s' = (case r of
      Ret RX_OK \<Rightarrow> rx_consumed s (io_log s')
    | Ret RX_EAGAIN \<Rightarrow> rx_nothing s (io_log s')
    | Oops \<Rightarrow> lan_ndev (sp_obj s) = None)"

lemma rx_consumed_step:
  assumes "rx_alike s t" and "Rd Rdma (RDMA_CINDEX SP_RX_QUEUE) c \<in> set (io_log t)"
    and "Rd Rdma (rx_desc (unat (c AND 0xffff) mod SP_NUM_RX_BUFS) + 4) w1 \<in> set (io_log t)"
  shows "wp (bindC (if rx_desc_len w1 < SP_ENET_ZLEN \<or> rx_desc_len w1 > SP_MAX_PKT_LEN then sp_rx_bad_len
        else sp_rx_frame E (unat (c AND 0xffff) mod SP_NUM_RX_BUFS) (rx_desc_len w1))
      (\<lambda>_. sp_rx_rearm (unat (c AND 0xffff) mod SP_NUM_RX_BUFS) (c AND 0xffff)))
    (rx_post s) t"
proof -
  let ?c = "c AND 0xffff" and ?len = "rx_desc_len w1"
  let ?idx = "unat ?c mod SP_NUM_RX_BUFS"
  note ob = rx_alike_obj [OF assms(1)]
  have rearm: "wp (sp_rx_rearm ?idx ?c) (rx_post s) u"
    if "dma_pa (sp_obj u) = dma_pa (sp_obj t)" and "grew (io_log t) fs al (io_log u)"
      and "if SP_ENET_ZLEN \<le> ?len \<and> ?len \<le> SP_MAX_PKT_LEN then rx_delivers s ?idx ?len fs al else fs = [] \<and> al = []"
    for u :: "'a sysport_world_scheme" and fs al
  proof -
    have pa: "sp_rx_pa (sp_obj u) ?idx = sp_rx_pa (sp_obj s) ?idx" using that(1) ob(2) by (simp add: sp_rx_pa_def)
    have "rx_consumed s L'" if "strip_marks L' = rx_rearmed (sp_rx_pa (sp_obj s) ?idx) ?idx ?c (io_log u)" for L'
      unfolding rx_consumed_def Let_def
      using that \<open>grew (io_log t) fs al (io_log u)\<close> ob(3) assms(2,3) that
        \<open>if SP_ENET_ZLEN \<le> ?len \<and> ?len \<le> SP_MAX_PKT_LEN then rx_delivers s ?idx ?len fs al else fs = [] \<and> al = []\<close>
      by (intro exI [of _ c] exI [of _ w1] exI [of _ fs] exI [of _ al] exI [of _ "io_log u"])
        (auto intro: grew_trans grew_set)
    then show ?thesis
      by (intro wp_mono [OF sp_rx_rearm_spec]) (auto simp: pa rx_post_def)
  qed
  show ?thesis
    unfolding wp_bindC
    apply (rule wp_ifI)
     apply (rule wp_mono [OF sp_rx_bad_len_spec [OF grew_refl]])
     apply (auto split: outcome.splits simp: ob rx_post_def [of _ Oops] intro!: rearm)[1]
    apply (rule wp_mono [OF sp_rx_frame_spec [OF grew_refl]])
    apply (auto split: outcome.splits simp: ob rx_post_def [of _ Oops] rx_alike_delivers [OF assms(1)] intro!: rearm)[1]
    done
qed

lemma sp_rx_resync_post:
  assumes "rx_alike s t" and "Rd Rdma (RDMA_PINDEX SP_RX_QUEUE) p \<in> set (io_log t)"
  shows "wp (sp_rx_resync (p AND 0xffff)) (rx_post s) t"
proof -
  note ob = rx_alike_obj [OF assms(1)]
  have n: "rx_nothing s (Wr Rdma (RDMA_CINDEX SP_RX_QUEUE) (p AND 0xffff) # L)"
    if "grew (io_log s) [] [] L" and "Rd Rdma (RDMA_PINDEX SP_RX_QUEUE) p \<in> set L" for L
    using that by (auto simp: rx_nothing_def)
  show ?thesis
    using ob(3) assms(2) unfolding sp_rx_resync_def rx_mark_def
    by (auto simp: wp_simps rx_post_def ob(1) [symmetric] intro!: n [simplified] split: option.split)
qed

lemma rx_alike_enter:
  assumes "rx_alike s t" and "\<And>u. rx_alike s u \<Longrightarrow> set (io_log t) \<subseteq> set (io_log u) \<Longrightarrow> wp (f ()) Q u"
  shows "wp (State_Monad.bind (if \<not> e then do { sp_mod (rx_entered_update (\<lambda>_. True)); mark 0x6E } else return ()) f) Q t"
proof -
  have "rx_alike s (sp_obj_update (rx_entered_update (\<lambda>_. True)) t\<lparr>io_log := Mark 0x6E # io_log t\<rparr>)"
    using assms(1) by (auto simp: rx_alike_def)
  from assms(2) [OF this] assms(2) [OF assms(1)] show ?thesis by (auto simp: wp_simps)
qed

lemma rx_alike_rd: "rx_alike s t \<Longrightarrow> rx_alike s (t\<lparr>io_log := Rd w off v # io_log t\<rparr>)"
  by (simp add: rx_alike_def)

lemma rx_alike_refl: "rx_alike s s"
  unfolding rx_alike_def by (cases "sp_obj s") (auto intro!: exI [of _ "rx_entered (sp_obj s)"])

lemma sp_rx_one_post: "wp (sp_rx_one E) (rx_post s) s"
  unfolding sp_rx_one_def wp_bind
  apply (rule wp_readl_any)
  apply (rule wp_readl_any)
  apply (rule wp_letI, rule wp_letI, rule wp_ifI)
   apply (simp add: wp_return rx_post_def rx_nothing_def)
  apply (subst wp_bind, subst wp_sp_gets)
  apply (rule rx_alike_enter [where s = s], intro rx_alike_rd rx_alike_refl)
  apply (rule wp_ifI)
   apply (erule sp_rx_resync_post, simp)
  apply (rule wp_letI, subst wp_bind)
  apply (rule wp_readl_any)
  apply (unfold Let_def, rule rx_consumed_step, erule rx_alike_rd)
   apply auto
  done


section \<open>The NAPI budget\<close>

lemma frames_of_append: "frames_of (xs @ ys) = frames_of ys @ frames_of xs"
  by (induction xs rule: frames_of.induct) simp_all

lemma frames_of_strip: "frames_of (strip_marks L) = frames_of L"
  by (induction L rule: strip_marks.induct) simp_all

lemma grew_frames: "grew L fs al L' \<Longrightarrow> frames_of L' = frames_of L @ fs"
  by (auto simp: grew_def frames_of_append)

lemma rx_consumed_frames: "rx_consumed s L' \<Longrightarrow> length (frames_of L') \<le> length (frames_of (io_log s)) + 1"
proof -
  assume "rx_consumed s L'"
  then obtain c w1 fs al L1 idx len pa c_idx where g: "grew (io_log s) fs al L1"
    and d: "if SP_ENET_ZLEN \<le> len \<and> len \<le> SP_MAX_PKT_LEN then rx_delivers s idx len fs al else fs = [] \<and> al = []"
    and L: "strip_marks L' = rx_rearmed pa idx c_idx L1"
    unfolding rx_consumed_def Let_def by blast
  have "frames_of L' = frames_of L1"
    using arg_cong [OF L, of frames_of] by (simp add: frames_of_strip rx_rearmed_def)
  moreover have "length fs \<le> 1" using d by (auto simp: rx_delivers_def Let_def split: if_splits)
  ultimately show ?thesis using grew_frames [OF g] by simp
qed

lemma rx_nothing_frames: "rx_nothing s L' \<Longrightarrow> frames_of L' = frames_of (io_log s)"
  by (auto simp: rx_nothing_def dest: grew_frames)

text \<open>Having done \<open>work\<close> before and at most \<open>n\<close> more: the work counts at least the frames handed over.\<close>

definition rx_work :: "event list \<Rightarrow> nat \<Rightarrow> nat \<Rightarrow> nat outcome \<Rightarrow> 'z io_scheme \<Rightarrow> bool" where
  "rx_work L work n r s' = (case r of Oops \<Rightarrow> True
     | Ret w \<Rightarrow> work \<le> w \<and> w \<le> work + n \<and> length (frames_of (io_log s')) + work \<le> length (frames_of L) + w)"

lemma sp_rx_loop_budget: "wp (sp_rx_loop E n work) (rx_work (io_log s) work n) s"
proof (induction n arbitrary: work s)
  case 0
  then show ?case by (simp add: wp_simps rx_work_def)
next
  case (Suc n)
  have ok: "wp (sp_rx_loop E n (work + 1)) (rx_work (io_log s) work (Suc n)) s'"
    if "rx_consumed s (io_log s')" for s' :: "'a sysport_world_scheme"
    by (rule wp_mono [OF Suc.IH])
      (use rx_consumed_frames [OF that] in \<open>auto simp: rx_work_def split: outcome.splits\<close>)
  have no: "rx_work (io_log s) work (Suc n) (Ret work) s'" if "rx_nothing s (io_log s')" for s' :: "'a sysport_world_scheme"
    using rx_nothing_frames [OF that] by (simp add: rx_work_def)
  show ?case
    unfolding sp_rx_loop.simps wp_bindC
    by (rule wp_mono [OF sp_rx_one_post])
      (auto simp: rx_post_def wp_return ok [simplified] no rx_work_def [of _ _ _ Oops] split: outcome.splits rx_out.splits)
qed

lemma wp_tx_no_frames:
  assumes "emits (\<lambda>e. \<forall>nd bs. e \<noteq> Deliver nd bs) m"
  shows "wp m (\<lambda>_ s'. frames_of (io_log s') = frames_of (io_log s)) s"
proof -
  have "frames_of evs = []" if "list_all (\<lambda>e. \<forall>nd bs. e \<noteq> Deliver nd bs) evs" for evs
    using that by (induction evs rule: frames_of.induct) auto
  then show ?thesis by (intro wp_mono [OF emits_wp [OF assms]]) (auto simp: frames_of_append)
qed

lemma emits_sp [emits_rules]:
  "emits P (sp_gets f)" "emits P (sp_mod g)" "emits P (nd_mod i h)" "emits P (nd_stat i k)"
  unfolding sp_gets_def sp_mod_def nd_mod_def nd_stat_def by (rule emits_gets emits_modify, simp?)+

lemma emits_marks [emits_rules]: "P (Mark m) \<Longrightarrow> emits P (rx_mark m)" "P (Mark m) \<Longrightarrow> emits P (tx_mark m)"
  unfolding rx_mark_def tx_mark_def by (intro emits_rules; assumption)+

lemma sp_tx_reclaim_no_frames: "emits (\<lambda>e. \<forall>nd bs. e \<noteq> Deliver nd bs) (sp_tx_reclaim E)"
  unfolding sp_tx_reclaim_def sp_tx_check_def sp_tx_account_def sp_wake_queues_def
  by (intro emits_rules) auto

text \<open>C19: a NAPI poll respects its budget: whatever the hardware answers, the work it reports is at most
  the budget and at least the number of frames it handed to the stack, and it leaves the timer in
  its fast period exactly when it did work.\<close>

theorem sp_napi_poll_budget:
  "wp (sp_napi_poll E budget) (\<lambda>r s'. case r of
      Ret work \<Rightarrow> work \<le> budget \<and> length (frames_of (io_log s')) \<le> length (frames_of (io_log s)) + work \<and>
        (sp_busy (sp_obj s') \<longleftrightarrow> work > 0)
    | Oops \<Rightarrow> True) s"
proof -
  have m: "wp (rx_mark 0x7D) (\<lambda>_ s'. frames_of (io_log s') = frames_of (io_log s)) s"
    by (rule wp_tx_no_frames) (intro emits_rules, simp)
  show ?thesis
    unfolding sp_napi_poll_def wp_bind wp_bindC
    apply (rule wp_mono [OF m])
    apply (rule wp_mono [OF wp_tx_no_frames [OF sp_tx_reclaim_no_frames]])
    apply (simp split: outcome.split)
    apply (intro allI impI)
    apply (rule wp_mono [OF sp_rx_loop_budget])
    apply (auto simp: rx_work_def wp_simps rx_mark_def split: outcome.splits)
    done
qed

section \<open>Transmit\<close>

lemma dma_read_write: "dma_read (dma_write off bs m) off (length bs) = bs"
  by (rule nth_equalityI) (simp_all add: dma_read_def dma_write_def)

lemma len_field:
  fixes x :: u32
  assumes "x < 2 ^ 18" and "n < 2 ^ 14"
  shows "rx_desc_len (push_bit 18 (of_nat n) OR x) = n"
proof -
  have m: "(0x3fff :: u32) = mask 14" by (simp add: mask_eq_exp_minus_1)
  have x: "drop_bit 18 x = 0"
    using assms(1) by (simp add: drop_bit_eq_div word_less_nat_alt unat_div flip: unat_eq_zero)
  have "drop_bit 18 (push_bit 18 (of_nat n) OR x) AND mask 14 = (of_nat n :: u32) AND mask 14"
    unfolding drop_bit_or x by (rule bit_word_eqI) (auto simp: bit_simps)
  moreover have "(of_nat n :: u32) < 2 ^ 14" using assms(2) by (simp add: word_less_nat_alt unat_of_nat)
  ultimately have "drop_bit 18 (push_bit 18 (of_nat n) OR x) AND mask 14 = (of_nat n :: u32)"
    by (simp add: less_mask_eq)
  then show ?thesis using assms(2) unfolding rx_desc_len_def m by (simp add: unat_of_nat)
qed

lemma tx_desc_len: "n \<le> 2048 \<Longrightarrow> rx_desc_len (SP_TXDESC_W1 n OR (x AND 0xff)) = n"
proof -
  assume n: "n \<le> 2048"
  have "push_bit 16 3 OR BIT 11 OR (x AND 0xff) < (2 ^ 18 :: u32)"
    by (intro or_less_2p) (auto simp: BIT_def intro: and_mask_less)
  then show ?thesis using n len_field [of "push_bit 16 3 OR BIT 11 OR (x AND 0xff)" n]
    by (simp add: SP_TXDESC_W1_def or.assoc)
qed

text \<open>The values written to a register in a piece of log, oldest first.\<close>

fun writes_of :: "win \<Rightarrow> nat \<Rightarrow> event list \<Rightarrow> u32 list" where
  "writes_of w off [] = []"
| "writes_of w off (Wr w' off' v # es) = writes_of w off es @ (if w' = w \<and> off' = off then [v] else [])"
| "writes_of w off (_ # es) = writes_of w off es"

text \<open>The descriptor pushed for a frame: its four words through the two ports of the ring.\<close>

definition tx_pushed :: "sysport6764 \<Rightarrow> nat \<Rightarrow> event list \<Rightarrow> bool" where
  "tx_pushed sp n evs \<longleftrightarrow> writes_of Tdma (TDMA_WRITE_PORT_LO SP_TX_RING) evs = [lower_32_bits (sp_tx_pa sp), 0] \<and>
     (\<exists>w. writes_of Tdma (TDMA_WRITE_PORT_HI SP_TX_RING) evs = [w, 0] \<and> rx_desc_len w = n)"

text \<open>What follows once the bytes to transmit are known.\<close>

lemma sp_xmit_frame_spec:
  assumes "length frame \<le> SP_DMA_BUFSIZE"
  shows "wp (do {
     sp_mod (dma_va_update (dma_write sp_tx_va frame));
     v \<leftarrow> readl E Tdma (TDMA_DESC_RING_PC_INDEX SP_TX_RING);
     j \<leftarrow> kcall E Jiffies;
     sp_mod (\<lambda>sp. sp\<lparr>tx_cidx_pre := ucast (drop_bit 16 v AND 0xffff), tx_len := of_nat (length frame),
       tx_start := word_of_int j, tx_ndev := Some nd, tx_busy := True\<rparr>);
     sp \<leftarrow> gets sp_obj;
     sp_tx_push sp (length frame);
     tx_mark 0x71;
     nd_mod nd (queue_stopped_update (\<lambda>_. True)) })
   (\<lambda>_ s'. dma_read (dma_va (sp_obj s')) sp_tx_va (length frame) = frame \<and>
      (\<forall>i a. sp_rx_va i \<le> a \<longrightarrow> dma_va (sp_obj s') a = dma_va (sp_obj s) a) \<and>
      (\<exists>evs. io_log s' = evs @ io_log s \<and> tx_pushed (sp_obj s) (length frame) evs) \<and>
      tx_busy (sp_obj s') \<and> tx_ndev (sp_obj s') = Some nd) s"
proof -
  have rx: "\<forall>i a. sp_rx_va i \<le> a \<longrightarrow> dma_write sp_tx_va frame m a = m a" for m
    using assms by (simp add: sp_rx_va_def sp_tx_va_def dma_write_def)
  define P where "P L' \<longleftrightarrow> (\<exists>evs. L' = evs @ io_log s \<and> tx_pushed (sp_obj s) (length frame) evs)" for L'
  have p: "P ([Wr Tdma 4 0, Wr Tdma 0 0, Wr Tdma 4 (SP_TXDESC_W1 (length frame) OR (x AND 0xff)),
      Wr Tdma 0 (lower_32_bits (dma_pa (sp_obj s))), Call Jiffies j, Rd Tdma off v] @ io_log s)" for x j off v
    unfolding P_def by (intro exI conjI, rule refl) (simp add: tx_pushed_def sp_tx_pa_def tx_desc_len [OF assms])
  have m: "P L' \<Longrightarrow> P (Mark b # L')" for L' b
    unfolding P_def by (elim exE conjE, rule_tac x = "Mark b # evs" in exI) (simp add: tx_pushed_def)
  show ?thesis
    unfolding sp_tx_push_def tx_mark_def nd_mod_def sp_gets_def P_def [symmetric]
    by (simp add: wp_simps dma_read_write rx m p [simplified] sp_tx_pa_def)
qed



section \<open>Addresses in the descriptors\<close>

lemma upper_lower: "push_bit 32 (ucast (upper_32_bits x)) OR ucast (lower_32_bits x) = x" for x :: u64
  unfolding upper_32_bits_def lower_32_bits_def
  by (rule bit_word_eqI) (auto simp: bit_or_iff bit_push_bit_iff bit_ucast_iff bit_drop_bit_eq)

lemma upper_of_less:
  assumes "unat x < 2 ^ 40"
  shows "upper_32_bits x AND 0xff = upper_32_bits x"
proof -
  have "x < 2 ^ 40" using assms by (simp add: word_less_nat_alt)
  then have b: "bit x (32 + n) \<Longrightarrow> n < 8" for n using less_2p_not_bit [of x 40 "32 + n"] by (cases "n < 8") auto
  have m: "(0xff :: u32) = mask 8" by (simp add: mask_eq_exp_minus_1)
  show ?thesis
    unfolding m upper_32_bits_def
    by (rule bit_word_eqI) (auto simp: bit_and_iff bit_ucast_iff bit_drop_bit_eq bit_mask_iff dest: b)
qed

lemma unat_upper: "unat (upper_32_bits x) = unat x div 2 ^ 32"
proof -
  have "unat x < 2 ^ 64" using unsigned_less [of x, where ?'a = nat] by simp
  then have "unat x div 2 ^ 32 < 2 ^ 32" by (simp add: div_less_iff_less_mult)
  then show ?thesis
    unfolding upper_32_bits_def
    by (simp add: unsigned_ucast_eq unsigned_drop_bit_eq take_bit_nat_eq_self drop_bit_eq_div unat_div)
qed

lemma unat_plus: "unat (a + of_nat n) = unat a + n" if "unat a + n < 2 ^ 64" for a :: u64
proof -
  have "a + of_nat n = of_nat (unat a + n)" by simp
  then show ?thesis using that by (simp only: unat_of_nat) simp
qed

lemma w1_hi: "rx_desc_w1 pa AND 0xff = upper_32_bits pa AND 0xff"
proof -
  have m: "(0xff :: u32) = mask 8" by (simp add: mask_eq_exp_minus_1)
  have n: "(of_nat 2048 :: u32) = BIT 11" by (simp add: BIT_def)
  show ?thesis
    unfolding rx_desc_w1_def m n
    by (rule bit_word_eqI) (auto simp: bit_and_iff bit_or_iff bit_push_bit_iff bit_mask_iff)
qed

lemma w1_len: "rx_desc_len (rx_desc_w1 pa) = 2048"
  unfolding rx_desc_w1_def by (rule len_field) (auto intro: and_mask_less)

text \<open>With the DMA block where the probe accepts it, each receive descriptor the driver writes carries
  the whole address of its own buffer (40 bits over its two words) and the buffer size, and the
  buffers of two descriptors do not overlap.\<close>

theorem rx_desc_address:
  assumes "dma_len sp = (SP_NUM_TX_BUFS + SP_NUM_RX_BUFS) * SP_DMA_BUFSIZE"
    and "unat (dma_pa sp) + dma_len sp \<le> 2 ^ 64"
    and "upper_32_bits (dma_pa sp + of_nat (dma_len sp) - 1) \<le> SP_DESC_ADDR_HI_MASK"
    and "i < SP_NUM_RX_BUFS" and "j < SP_NUM_RX_BUFS" and "i \<noteq> j"
  shows "(let pa = sp_rx_pa sp i in
      push_bit 32 (ucast (rx_desc_w1 pa AND SP_DESC_ADDR_HI_MASK)) OR ucast (lower_32_bits pa) = pa \<and>
      rx_desc_len (rx_desc_w1 pa) = SP_DMA_BUFSIZE \<and>
      unat pa = unat (dma_pa sp) + sp_rx_va i \<and>
      (sp_rx_va i + SP_DMA_BUFSIZE \<le> sp_rx_va j \<or> sp_rx_va j + SP_DMA_BUFSIZE \<le> sp_rx_va i))"
proof -
  let ?pa = "sp_rx_pa sp i"
  have off: "sp_rx_va i + 2048 \<le> dma_len sp" using assms(1,4) by (simp add: sp_rx_va_def)
  have pa: "?pa = dma_pa sp + of_nat (sp_rx_va i)" by (simp add: sp_rx_pa_def sp_rx_va_def)
  have u: "unat ?pa = unat (dma_pa sp) + sp_rx_va i" unfolding pa using off assms(2) by (intro unat_plus) simp
  have "dma_pa sp + of_nat (dma_len sp) - 1 = dma_pa sp + of_nat (dma_len sp - 1)"
    using assms(1) by simp
  moreover have "unat (dma_pa sp + of_nat (dma_len sp - 1)) = unat (dma_pa sp) + (dma_len sp - 1)"
    by (rule unat_plus) (use assms(1,2) in simp)
  ultimately have "unat (dma_pa sp + of_nat (dma_len sp) - 1) = unat (dma_pa sp) + (dma_len sp - 1)" by (rule trans [OF arg_cong])
  then have "(unat (dma_pa sp) + (dma_len sp - 1)) div 2 ^ 32 \<le> 255"
    using assms(3) by (simp add: word_le_nat_alt unat_upper)
  then have "(unat (dma_pa sp) + (dma_len sp - 1)) div 2 ^ 32 < 256" by simp
  then have "unat (dma_pa sp) + (dma_len sp - 1) < 256 * 2 ^ 32" by (simp add: div_less_iff_less_mult)
  then have "unat ?pa < 2 ^ 40" using u off by simp
  then have "upper_32_bits ?pa AND 0xff = upper_32_bits ?pa" by (rule upper_of_less)
  then show ?thesis
    using u assms(6) unfolding Let_def
    by (auto simp: w1_hi w1_len upper_lower sp_rx_va_def)
qed

theorem rx_desc_address_witness:
  "(let sp = (sp_zero 1)\<lparr>dma_pa := 0x12f000000, dma_len := (SP_NUM_TX_BUFS + SP_NUM_RX_BUFS) * SP_DMA_BUFSIZE\<rparr>;
      pa = sp_rx_pa sp 4 in
      push_bit 32 (ucast (rx_desc_w1 pa AND SP_DESC_ADDR_HI_MASK)) OR ucast (lower_32_bits pa) = pa \<and>
      rx_desc_len (rx_desc_w1 pa) = SP_DMA_BUFSIZE \<and>
      unat pa = unat (dma_pa sp) + sp_rx_va 4 \<and>
      (sp_rx_va 4 + SP_DMA_BUFSIZE \<le> sp_rx_va 5 \<or> sp_rx_va 5 + SP_DMA_BUFSIZE \<le> sp_rx_va 4))"
proof -
  let ?sp = "(sp_zero 1)\<lparr>dma_pa := 0x12f000000, dma_len := (SP_NUM_TX_BUFS + SP_NUM_RX_BUFS) * SP_DMA_BUFSIZE\<rparr>"
  have "unat (0x12f010800 - 1 :: u64) div 2 ^ 32 \<le> 255" by simp
  then have "upper_32_bits (dma_pa ?sp + of_nat (dma_len ?sp) - 1) \<le> 0xff"
    by (simp add: word_le_nat_alt unat_upper)
  from rx_desc_address [of ?sp 4 5, OF _ _ this] show ?thesis by (simp add: Let_def)
qed

section \<open>The poll period\<close>

lemma unat_ns: "unat (ucast us * 1000 :: u64) = 1000 * unat us" for us :: u32
proof -
  have "unat us < 2 ^ 32" using unsigned_less [of us, where ?'a = nat] by simp
  moreover have "(ucast us * 1000 :: u64) = of_nat (1000 * unat us)" by (simp add: mult.commute)
  ultimately show ?thesis by (simp only: unat_of_nat) simp
qed

text \<open>The idle poll period is never shorter than 100 microseconds and never overflows, and the busy one
  is at most the requested idle one; but the clamp of the busy period lets it reach zero, exactly
  when the parameter poll\_us is zero.\<close>

theorem sp_poll_periods:
  "unat (sp_poll_ns pus) = 1000 * max 100 (unat pus) \<and>
   unat (sp_poll_busy_ns pus pbusy) = 1000 * min (unat pus) (max 5 (unat pbusy)) \<and>
   (sp_poll_busy_ns pus pbusy = 0 \<longleftrightarrow> pus = 0)"
proof -
  have 1: "unat (sp_poll_ns pus) = 1000 * max 100 (unat pus)"
    by (simp add: sp_poll_ns_def Let_def unat_ns word_less_nat_alt max_def)
  have 2: "unat (sp_poll_busy_ns pus pbusy) = 1000 * min (unat pus) (max 5 (unat pbusy))"
    by (simp add: sp_poll_busy_ns_def Let_def unat_ns word_less_nat_alt max_def min_def)
  have "sp_poll_busy_ns pus pbusy = 0 \<longleftrightarrow> unat (sp_poll_busy_ns pus pbusy) = 0" by (simp only: unat_eq_zero)
  also have "\<dots> \<longleftrightarrow> pus = 0" unfolding 2 by (auto simp: min_def unat_eq_zero split: if_splits)
  finally show ?thesis using 1 2 by simp
qed

section \<open>The factory MAC address\<close>

lemma sp_read_mac_valid: "sp_read_mac_from_mtd bd ph off = Inr mac \<Longrightarrow> is_valid_ether_addr mac"
  by (auto simp: sp_read_mac_from_mtd_def mtd_mac_def split: option.splits list.splits prod.splits if_splits)

definition mac_from :: "bool \<Rightarrow> u8 list \<Rightarrow> bool" where
  "mac_from wi mac \<longleftrightarrow> (\<exists>base inc. is_valid_ether_addr base \<and>
     mac = (if wi then base[ETH_ALEN - 1 := base ! (ETH_ALEN - 1) + inc] else base))"

lemma mac_fromI:
  "is_valid_ether_addr base \<Longrightarrow> mac_from wi (if wi then base[ETH_ALEN - 1 := base ! (ETH_ALEN - 1) + inc] else base)"
  unfolding mac_from_def by blast

lemma port_mac_from: "port_mac bd wi p = Some (Inr mac) \<Longrightarrow> mac_from wi mac"
proof -
  assume p: "port_mac bd wi p = Some (Inr mac)"
  then obtain ph off base where "sp_read_mac_from_mtd bd ph off = Inr base"
    "mac = (if wi then base[ETH_ALEN - 1 := base ! (ETH_ALEN - 1) + ucast (case mp_inc p of None \<Rightarrow> 0 | Some i \<Rightarrow> i)] else base)"
    unfolding port_mac_def by (auto split: option.splits sum.splits prod.splits)
  then show ?thesis by (simp only: mac_fromI sp_read_mac_valid)
qed

lemma ports_mac_from: "ports_mac bd wi ret ps = Inr mac \<Longrightarrow> mac_from wi mac"
  by (induction bd wi ret ps rule: ports_mac.induct)
    (auto dest: port_mac_from split: option.splits sum.splits)

text \<open>The references on node \<open>n\<close> that a log has taken and dropped.\<close>

fun of_refs :: "nat \<Rightarrow> event list \<Rightarrow> int" where
  "of_refs n [] = 0"
| "of_refs n (KNote f m # es) = of_refs n es +
     (if m = n \<and> f = ''of_node_get'' then 1 else if m = n \<and> f = ''of_node_put'' then -1 else 0)"
| "of_refs n (_ # es) = of_refs n es"

lemma nodes_mac_refs:
  "wp (nodes_mac bd wi ret i pss) (\<lambda>r s'. \<exists>k \<le> length pss.
     (\<forall>n. of_refs n (io_log s') = of_refs n (io_log s) - (if i \<le> n \<and> n < i + k then 1 else 0)) \<and>
     (case r of Inl _ \<Rightarrow> k = length pss | Inr mac \<Rightarrow> mac_from wi mac)) s"
proof (induction bd wi ret i pss arbitrary: s rule: nodes_mac.induct)
  case (1 bd wi ret n)
  then show ?case by (simp add: wp_simps)
next
  case (2 bd wi ret n ps pss)
  show ?case
  proof (cases "ports_mac bd wi ret ps")
    case (Inr mac)
    then show ?thesis
      by (simp add: wp_simps) (rule exI [of _ 0], auto dest: ports_mac_from)
  next
    case (Inl e)
    show ?thesis
      unfolding nodes_mac.simps Inl sum.case wp_bind wp_emit
      apply (rule wp_mono [OF 2 [OF Inl]])
      apply (elim exE conjE)
      apply (rule_tac x = "Suc k" in exI)
      apply (auto split: sum.splits)
      done
  qed
qed


end
