(* ===== verification/Stores.thy ===== *)
theory Stores
  imports Prelude66
begin

text \<open>
  The contracts of the two tables the compatibility shim keeps: the NVRAM store of
  \<^verbatim>\<open>shim_nvram.c\<close> (names to values) and the DMA registry of \<^verbatim>\<open>shim_dma.c\<close> (legacy device
  pointers to native devices).  Both tables are bounded by something outside their contract (memory,
  eight slots), so an insertion may fail and then leaves the table as it was.  The clients' lemmas
  (what a batch of insertions leaves behind) are proved once here.
\<close>

locale keyed_store =
  fixes inv :: "'s \<Rightarrow> bool"
    and arg_ok :: "'k \<Rightarrow> 'v \<Rightarrow> bool"
    and lookup :: "'s \<Rightarrow> 'k \<Rightarrow> 'v option"
    and put :: "'k \<Rightarrow> 'v \<Rightarrow> 's \<Rightarrow> bool \<times> 's"
  assumes put_inv: "inv s \<Longrightarrow> arg_ok k v \<Longrightarrow> put k v s = (b, s') \<Longrightarrow> inv s'"
    and put_done: "inv s \<Longrightarrow> arg_ok k v \<Longrightarrow> put k v s = (True, s') \<Longrightarrow> lookup s' = (lookup s)(k \<mapsto> v)"
    and put_fail: "inv s \<Longrightarrow> arg_ok k v \<Longrightarrow> put k v s = (False, s') \<Longrightarrow> lookup s' = lookup s"
begin

text \<open>A batch of insertions: each is tried, failures are skipped.  The result lists the successes.\<close>

primrec put_all :: "('k \<times> 'v) list \<Rightarrow> 's \<Rightarrow> ('k \<times> 'v) list \<times> 's" where
  "put_all [] s = ([], s)"
| "put_all (kv # kvs) s =
     (case put (fst kv) (snd kv) s of (b, s') \<Rightarrow>
       (case put_all kvs s' of (acc, s'') \<Rightarrow> (if b then kv # acc else acc, s'')))"

lemma put_all_inv:
  "inv s \<Longrightarrow> (\<And>k v. (k, v) \<in> set kvs \<Longrightarrow> arg_ok k v) \<Longrightarrow> inv (snd (put_all kvs s))"
proof (induction kvs arbitrary: s)
  case (Cons kv kvs)
  obtain b s' where put: "put (fst kv) (snd kv) s = (b, s')" by fastforce
  have "inv s'" using put_inv [OF Cons.prems(1) _ put] Cons.prems(2) by simp
  with Cons.IH [of s'] Cons.prems(2) put show ?case by (cases "put_all kvs s'") simp
qed simp

lemma put_all_lookup:
  "inv s \<Longrightarrow> (\<And>k v. (k, v) \<in> set kvs \<Longrightarrow> arg_ok k v) \<Longrightarrow> put_all kvs s = (acc, s') \<Longrightarrow>
     lookup s' = lookup s ++ map_of (rev acc)"
proof (induction kvs arbitrary: s acc s')
  case (Cons kv kvs)
  obtain b t where put: "put (fst kv) (snd kv) s = (b, t)" by fastforce
  obtain d s'' where rest: "put_all kvs t = (d, s'')" by fastforce
  have out: "acc = (if b then kv # d else d)" "s' = s''"
    using Cons.prems(3) put rest by (auto split: if_splits)
  have ok: "arg_ok (fst kv) (snd kv)" using Cons.prems(2) by simp
  have "inv t" by (rule put_inv [OF Cons.prems(1) ok put])
  with Cons.IH [of t d s''] Cons.prems(2) rest
  have tail: "lookup s'' = lookup t ++ map_of (rev d)" by simp
  show ?case
  proof (cases b)
    case True
    with put_done [OF Cons.prems(1) ok] put have "lookup t = (lookup s)(fst kv \<mapsto> snd kv)" by simp
    with tail out True show ?thesis by (cases kv) (simp add: map_add_def fun_eq_iff split: option.splits)
  next
    case False
    with put_fail [OF Cons.prems(1) ok] put have "lookup t = lookup s" by simp
    with tail out False show ?thesis by simp
  qed
qed simp

lemma put_all_sub: "put_all kvs s = (acc, s') \<Longrightarrow> set acc \<subseteq> set kvs"
  by (induction kvs arbitrary: s acc) (fastforce split: prod.splits if_splits)+

end

text \<open>A registry also deletes, and refuses a key that is already bound.\<close>

locale keyed_registry = keyed_store +
  fixes del :: "'b \<Rightarrow> 'a \<Rightarrow> 'a"
  assumes del_inv: "inv s \<Longrightarrow> inv (del k s)"
    and del_lookup: "inv s \<Longrightarrow> lookup (del k s) = (lookup s)(k := None)"
    and put_bound: "inv s \<Longrightarrow> arg_ok k v \<Longrightarrow> lookup s k \<noteq> None \<Longrightarrow> \<not> fst (put k v s)"
begin

text \<open>A binding that succeeds and is deleted again leaves the table as it was.\<close>

lemma put_del:
  assumes "inv s" and "arg_ok k v" and "put k v s = (True, s')"
  shows "lookup (del k s') = lookup s"
proof -
  have "lookup s k = None"
    using put_bound [OF assms(1,2)] assms(3) by fastforce
  moreover have "lookup (del k s') = ((lookup s)(k \<mapsto> v))(k := None)"
    using del_lookup [of s' k] put_done [OF assms] put_inv [OF assms] by simp
  ultimately show ?thesis by auto
qed

lemma del_all_inv: "inv s \<Longrightarrow> inv (fold del ks s)"
  by (induction ks arbitrary: s) (simp_all add: del_inv)

lemma del_all_lookup: "inv s \<Longrightarrow> lookup (fold del ks s) k = (if k \<in> set ks then None else lookup s k)"
  by (induction ks arbitrary: s) (auto simp: del_inv del_lookup)

end

end
