(* ===== verification/Nvram.thy ===== *)
theory Nvram
  imports Stores
begin

text \<open>
  The NVRAM backend of the Wi-Fi shim, \<^verbatim>\<open>bsp-6.6/compat/shim_nvram.c\<close>: an in-memory list of
  name/value entries behind a spinlock, with the three entry points the vendor module imports
  (\<^verbatim>\<open>wlcsm_nvram_k_get\<close>, \<^verbatim>\<open>wlcsm_nvram_k_set\<close>, \<^verbatim>\<open>wlcsm_nvram_getall\<close>), the MAC address service and
  the boot-time seeding.

  Entries hold pointers to heap strings, as in the code: \<open>nv_heap\<close> maps the address of a live
  allocation to its text.  An allocation may fail; \<open>nv_mem\<close> answers the n-th one.  A double
  free, a sleeping allocation while the spinlock is held, or unbalanced locking sets \<open>nv_bug\<close>.  The
  generated seed table, the kernel's \<^verbatim>\<open>mac_pton\<close> and its \<^verbatim>\<open>%pM\<close> format are parameters.
\<close>

section \<open>State\<close>

type_synonym addr = nat

record shim_nvram_entry =
  en_name :: addr
  en_value :: addr

text \<open>Messages, and the call sites whose message is printed at most once.\<close>

datatype nvram_once = OnceMissCap | OnceEmpty | OnceOom | OnceOomEntry

datatype nvram_msg =
    Miss int string
  | Warned nvram_once
  | BadMacParam string
  | SeedFailed string
  | BackendUp nat nat string

record nvram =
  nv_list :: "shim_nvram_entry list"
  nv_locked :: bool
  nv_miss_count :: u32
  nv_heap :: "addr \<rightharpoonup> string"
  nv_next :: addr
  nv_mem :: "nat \<Rightarrow> bool"
  nv_allocs :: nat
  nv_bug :: bool
  nv_warned :: "nvram_once list"
  nv_log :: "nvram_msg list"
  p_et0macaddr :: string
  p_wl0_hwaddr :: string
  p_wl1_hwaddr :: string
  p_wl_mlo_config :: string

type_synonym 'a nv = "(nvram, 'a) state"

definition nvram_params :: "nvram \<Rightarrow> nvram" where
  "nvram_params s = s\<lparr>p_et0macaddr := ''02:10:18:00:00:01'', p_wl0_hwaddr := [], p_wl1_hwaddr := [],
     p_wl_mlo_config := ''0 1 -1 -1''\<rparr>"

abbreviation (input) "SHIM_NVRAM_MISS_LOG_N \<equiv> (32 :: int)"

abbreviation (input) "NUL \<equiv> (CHR 0x00)"

section \<open>The kernel services the store uses\<close>

definition say :: "nvram_msg \<Rightarrow> unit nv" where
  "say m = modify (\<lambda>s. s\<lparr>nv_log := nv_log s @ [m]\<rparr>)"

definition shim_warn_once :: "nvram_once \<Rightarrow> unit nv" where
  "shim_warn_once w = modify (\<lambda>s. if w \<in> set (nv_warned s) then s
     else s\<lparr>nv_warned := w # nv_warned s, nv_log := nv_log s @ [Warned w]\<rparr>)"

text \<open>An allocation request.  \<open>sleeps\<close> is set for \<^verbatim>\<open>GFP_KERNEL\<close>, clear for \<^verbatim>\<open>GFP_ATOMIC\<close>.\<close>

definition kmalloc_ok :: "bool \<Rightarrow> bool nv" where
  "kmalloc_ok sleeps = State (\<lambda>s. (nv_mem s (nv_allocs s),
     s\<lparr>nv_allocs := Suc (nv_allocs s), nv_bug := (nv_bug s \<or> sleeps \<and> nv_locked s)\<rparr>))"

definition kstrdup :: "string \<Rightarrow> addr option nv" where
  "kstrdup str = do {
     ok \<leftarrow> kmalloc_ok True;
     if ok then do {
       p \<leftarrow> gets nv_next;
       modify (\<lambda>s. s\<lparr>nv_heap := (nv_heap s)(p \<mapsto> str), nv_next := Suc p\<rparr>);
       return (Some p) }
     else return None }"

definition kfree :: "addr option \<Rightarrow> unit nv" where
  "kfree q = (case q of None \<Rightarrow> return ()
     | Some p \<Rightarrow> modify (\<lambda>s. s\<lparr>nv_bug := (nv_bug s \<or> nv_heap s p = None),
                              nv_heap := (nv_heap s)(p := None)\<rparr>))"

text \<open>Reading a C string through a pointer.\<close>

definition text_at :: "(addr \<rightharpoonup> string) \<Rightarrow> addr \<Rightarrow> string" where
  "text_at h p = (case h p of Some t \<Rightarrow> t | None \<Rightarrow> [])"

definition nv_lock :: "unit nv" where
  "nv_lock = modify (\<lambda>s. s\<lparr>nv_bug := (nv_bug s \<or> nv_locked s), nv_locked := True\<rparr>)"

definition nv_unlock :: "unit nv" where
  "nv_unlock = modify (\<lambda>s. s\<lparr>nv_bug := (nv_bug s \<or> \<not> nv_locked s), nv_locked := False\<rparr>)"

section \<open>Lookup and update\<close>

primrec find_entry :: "(addr \<rightharpoonup> string) \<Rightarrow> string \<Rightarrow> shim_nvram_entry list \<Rightarrow> nat option" where
  "find_entry h name [] = None"
| "find_entry h name (e # es) =
     (if text_at h (en_name e) = name then Some 0 else map_option Suc (find_entry h name es))"

definition shim_nvram_find_locked :: "string \<Rightarrow> nat option nv" where
  "shim_nvram_find_locked name = State (\<lambda>s. (find_entry (nv_heap s) name (nv_list s),
     s\<lparr>nv_bug := (nv_bug s \<or> \<not> nv_locked s)\<rparr>))"

definition count_miss :: "string \<Rightarrow> unit nv" where
  "count_miss name = do {
     modify (\<lambda>s. s\<lparr>nv_miss_count := nv_miss_count s + 1\<rparr>);
     n \<leftarrow> gets (\<lambda>s. sint (nv_miss_count s));
     if n \<le> SHIM_NVRAM_MISS_LOG_N then say (Miss n name)
     else if n = SHIM_NVRAM_MISS_LOG_N + 1 then shim_warn_once OnceMissCap
     else return () }"

definition wlcsm_nvram_k_get :: "string option \<Rightarrow> addr option nv" where
  "wlcsm_nvram_k_get name = (case name of
     None \<Rightarrow> return None
   | Some nm \<Rightarrow> do {
       nv_lock;
       e \<leftarrow> shim_nvram_find_locked nm;
       val \<leftarrow> gets (\<lambda>s. map_option (\<lambda>i. en_value (nv_list s ! i)) e);
       nv_unlock;
       (if val = None then count_miss nm else return ());
       return val })"

definition shim_nvram_k_set_worker :: "string option \<Rightarrow> string option \<Rightarrow> int nv" where
  "shim_nvram_k_set_worker name value =
     (case name of
        None \<Rightarrow> do { shim_warn_once OnceEmpty; return 1 }
      | Some [] \<Rightarrow> do { shim_warn_once OnceEmpty; return 1 }
      | Some nm \<Rightarrow> do {
          nname \<leftarrow> kstrdup nm;
          nval \<leftarrow> kstrdup (case value of None \<Rightarrow> [] | Some v \<Rightarrow> v);
          if nname = None \<or> nval = None then do {
            kfree nname;
            kfree nval;
            shim_warn_once OnceOom;
            return 1 }
          else do {
            nv_lock;
            e \<leftarrow> shim_nvram_find_locked nm;
            (case e of
              Some i \<Rightarrow> do {
                old \<leftarrow> gets (\<lambda>s. en_value (nv_list s ! i));
                kfree (Some old);
                modify (\<lambda>s. s\<lparr>nv_list := (nv_list s)[i := (nv_list s ! i)\<lparr>en_value := the nval\<rparr>]\<rparr>);
                kfree nname;
                nv_unlock;
                return 0 }
            | None \<Rightarrow> do {
                ne \<leftarrow> kmalloc_ok False;
                if \<not> ne then do {
                  nv_unlock;
                  kfree nname;
                  kfree nval;
                  shim_warn_once OnceOomEntry;
                  return 1 }
                else do {
                  modify (\<lambda>s. s\<lparr>nv_list := nv_list s @ [\<lparr>en_name = the nname, en_value = the nval\<rparr>]\<rparr>);
                  nv_unlock;
                  return 0 } }) } })"

definition wlcsm_nvram_k_set :: "string option \<Rightarrow> string option \<Rightarrow> int nv" where
  "wlcsm_nvram_k_set name value = shim_nvram_k_set_worker name value"

section \<open>The byte stream of all entries\<close>

definition buf_write :: "string \<Rightarrow> nat \<Rightarrow> string \<Rightarrow> string" where
  "buf_write buf off bs = take off buf @ bs @ drop (off + length bs) buf"

text \<open>\<^verbatim>\<open>scnprintf(buf + off, size, "%s", str)\<close>: at most \<open>sz - 1\<close> characters and a NUL; the result is
  the number of characters without the NUL.\<close>

definition scnprintf :: "string \<Rightarrow> nat \<Rightarrow> int \<Rightarrow> string \<Rightarrow> nat \<times> string" where
  "scnprintf buf off sz str =
     (if sz \<le> 0 then (0, buf)
      else (let t = take (nat (sz - 1)) str in (length t, buf_write buf off (t @ [NUL]))))"

fun getall_loop :: "(addr \<rightharpoonup> string) \<Rightarrow> int \<Rightarrow> shim_nvram_entry list \<Rightarrow> nat \<Rightarrow> string \<Rightarrow> nat \<times> string" where
  "getall_loop h count [] len buf = (len, buf)"
| "getall_loop h count (e # es) len buf =
     (let name = text_at h (en_name e); value = text_at h (en_value e);
          nlen = length name + 1 + length value + 1
      in if int len + int nlen + 1 > count then (len, buf)
         else (let (n, buf') = scnprintf buf len (count - int len) (name @ ''='' @ value)
               in getall_loop h count es (len + (n + 1)) buf'))"

definition wlcsm_nvram_getall :: "string option \<Rightarrow> int \<Rightarrow> (errno + nat \<times> string) nv" where
  "wlcsm_nvram_getall buf count = (case buf of
     None \<Rightarrow> return (Inl ENOSPC)
   | Some b \<Rightarrow>
       if count < 2 then return (Inl ENOSPC)
       else do {
         nv_lock;
         r \<leftarrow> gets (\<lambda>s. getall_loop (nv_heap s) count (nv_list s) 0 b);
         nv_unlock;
         return (Inr (fst r + 1, buf_write (snd r) (fst r) [NUL])) })"

section \<open>MAC addresses and seeding\<close>

abbreviation (input) "ETH_ALEN \<equiv> (6 :: nat)"

definition kerSysGetMacAddress :: "(string \<Rightarrow> u8 list option) \<Rightarrow> u8 list option \<Rightarrow> u32 \<Rightarrow> (errno + u8 list) nv" where
  "kerSysGetMacAddress mac_pton pucaAddr ulId = (case pucaAddr of
     None \<Rightarrow> return (Inl EINVAL)
   | Some dst \<Rightarrow> do {
       base \<leftarrow> gets p_et0macaddr;
       (case mac_pton base of
          None \<Rightarrow> do { say (BadMacParam base); return (Inl EINVAL) }
        | Some mac \<Rightarrow>
            return (Inr (mac[ETH_ALEN - 1 := mac ! (ETH_ALEN - 1) + ucast (ulId AND 0xff)]
                         @ drop ETH_ALEN dst))) })"

definition shim_mac_bump ::
    "(string \<Rightarrow> u8 list option) \<Rightarrow> (u8 list \<Rightarrow> string) \<Rightarrow> string \<Rightarrow> u8 \<Rightarrow> nat \<Rightarrow> errno + string" where
  "shim_mac_bump mac_pton fmt_pM src add dstlen = (case mac_pton src of
     None \<Rightarrow> Inl EINVAL
   | Some mac \<Rightarrow> Inr (take (dstlen - 1) (fmt_pM (mac[ETH_ALEN - 1 := mac ! (ETH_ALEN - 1) + add]))))"

primrec seed_loop :: "(string \<times> string) list \<Rightarrow> nat \<Rightarrow> nat nv" where
  "seed_loop [] seeded = return seeded"
| "seed_loop (nv # nvs) seeded = do {
     r \<leftarrow> shim_nvram_k_set_worker (Some (fst nv)) (Some (snd nv));
     seed_loop nvs (if r = 0 then seeded + 1 else seeded) }"

definition seed_radio_mac ::
    "(string \<Rightarrow> u8 list option) \<Rightarrow> (u8 list \<Rightarrow> string) \<Rightarrow> string \<Rightarrow> string \<Rightarrow> u8 \<Rightarrow> string \<Rightarrow> unit nv" where
  "seed_radio_mac mac_pton fmt_pM key hwaddr add et0 =
     (if hwaddr = [] then
        (case shim_mac_bump mac_pton fmt_pM et0 add 18 of
           Inl _ \<Rightarrow> return ()
         | Inr macbuf \<Rightarrow> do { _ \<leftarrow> shim_nvram_k_set_worker (Some key) (Some macbuf); return () })
      else do { _ \<leftarrow> shim_nvram_k_set_worker (Some key) (Some hwaddr); return () })"

definition seed_macs :: "(string \<Rightarrow> u8 list option) \<Rightarrow> (u8 list \<Rightarrow> string) \<Rightarrow> unit nv" where
  "seed_macs mac_pton fmt_pM = do {
     et0 \<leftarrow> gets p_et0macaddr;
     r \<leftarrow> shim_nvram_k_set_worker (Some ''et0macaddr'') (Some et0);
     (if r \<noteq> 0 then say (SeedFailed ''et0macaddr'') else return ());
     wl0 \<leftarrow> gets p_wl0_hwaddr;
     seed_radio_mac mac_pton fmt_pM ''sb/0/macaddr'' wl0 2 et0;
     wl1 \<leftarrow> gets p_wl1_hwaddr;
     seed_radio_mac mac_pton fmt_pM ''sb/1/macaddr'' wl1 3 et0 }"

definition shim_nvram_init ::
    "(string \<times> string) list \<Rightarrow> (string \<Rightarrow> u8 list option) \<Rightarrow> (u8 list \<Rightarrow> string) \<Rightarrow> (errno + unit) nv" where
  "shim_nvram_init shim_nvram_seed mac_pton fmt_pM = do {
     seeded \<leftarrow> seed_loop shim_nvram_seed 0;
     mlo \<leftarrow> gets p_wl_mlo_config;
     r \<leftarrow> shim_nvram_k_set_worker (Some ''wl_mlo_config'') (Some mlo);
     if r \<noteq> 0 then return (Inl ENOMEM)
     else do {
       seed_macs mac_pton fmt_pM;
       et0 \<leftarrow> gets p_et0macaddr;
       say (BackendUp seeded (length shim_nvram_seed) et0);
       return (Inr ()) } }"

section \<open>Invariant\<close>

definition nv_ptrs :: "nvram \<Rightarrow> addr list" where
  "nv_ptrs s = map en_name (nv_list s) @ map en_value (nv_list s)"

definition nv_pairs :: "nvram \<Rightarrow> (string \<times> string) list" where
  "nv_pairs s = map (\<lambda>e. (text_at (nv_heap s) (en_name e), text_at (nv_heap s) (en_value e))) (nv_list s)"

definition nv_lookup :: "nvram \<Rightarrow> string \<Rightarrow> string option" where
  "nv_lookup s = map_of (nv_pairs s)"

text \<open>The store is well formed: the lock is free, nothing went wrong, the live strings are exactly the
  names and values of the entries, each owned once, names are unique and not empty, and no stored
  text contains a NUL.\<close>

definition nv_wf :: "nvram \<Rightarrow> bool" where
  "nv_wf s \<longleftrightarrow> \<not> nv_locked s \<and> \<not> nv_bug s \<and> distinct (nv_ptrs s) \<and> set (nv_ptrs s) = dom (nv_heap s)
     \<and> (\<forall>p \<in> dom (nv_heap s). p < nv_next s)
     \<and> distinct (map fst (nv_pairs s)) \<and> [] \<notin> set (map fst (nv_pairs s))
     \<and> (\<forall>t \<in> ran (nv_heap s). NUL \<notin> set t)"

text \<open>What an operation that does not change the store leaves as it was.\<close>

definition nv_same :: "nvram \<Rightarrow> nvram \<Rightarrow> bool" where
  "nv_same s s' \<longleftrightarrow> nv_list s' = nv_list s \<and> nv_heap s' = nv_heap s \<and> nv_locked s' = nv_locked s
     \<and> nv_bug s' = nv_bug s \<and> nv_next s \<le> nv_next s'"

lemma nv_same_wf: "nv_same s s' \<Longrightarrow> nv_wf s \<Longrightarrow> nv_wf s'"
  unfolding nv_wf_def nv_ptrs_def nv_pairs_def
  by (simp add: nv_same_def) (meson order.strict_trans2)

lemma nv_same_lookup: "nv_same s s' \<Longrightarrow> nv_lookup s' = nv_lookup s"
  by (simp add: nv_same_def nv_lookup_def nv_pairs_def)

lemma find_entry_Some:
  "find_entry h name es = Some i \<Longrightarrow> i < length es \<and> text_at h (en_name (es ! i)) = name"
  by (induction es arbitrary: i) (auto split: if_splits)

lemma find_entry_None:
  "find_entry h name es = None \<longleftrightarrow> name \<notin> (\<lambda>e. text_at h (en_name e)) ` set es"
  by (induction es) auto

lemma find_entry_lookup:
  "map_of (map (\<lambda>e. (text_at h (en_name e), text_at h (en_value e))) es) name =
     map_option (\<lambda>i. text_at h (en_value (es ! i))) (find_entry h name es)"
  by (induction es) (auto simp: option.map_comp comp_def)

lemma wp_say [wp_simps]: "wp (say m) Q s = Q () (s\<lparr>nv_log := nv_log s @ [m]\<rparr>)"
  by (simp add: say_def wp_simps)

lemma wp_shim_warn_once:
  "(\<And>s'. nv_same s s' \<Longrightarrow> nv_miss_count s' = nv_miss_count s \<Longrightarrow> Q () s') \<Longrightarrow> wp (shim_warn_once w) Q s"
  by (simp add: shim_warn_once_def wp_simps nv_same_def)

lemma wp_kmalloc_ok [wp_simps]:
  "wp (kmalloc_ok b) Q s = Q (nv_mem s (nv_allocs s))
     (s\<lparr>nv_allocs := Suc (nv_allocs s), nv_bug := (nv_bug s \<or> b \<and> nv_locked s)\<rparr>)"
  by (simp add: kmalloc_ok_def wp_def)

lemma wp_shim_nvram_find_locked [wp_simps]:
  "wp (shim_nvram_find_locked name) Q s =
     Q (find_entry (nv_heap s) name (nv_list s)) (s\<lparr>nv_bug := (nv_bug s \<or> \<not> nv_locked s)\<rparr>)"
  by (simp add: shim_nvram_find_locked_def wp_def)

lemmas nv_simps = wp_simps kstrdup_def kfree_def nv_lock_def nv_unlock_def

text \<open>What \<^verbatim>\<open>k_set\<close> does, on every branch: it fails and changes nothing, it replaces the value of an
  existing entry in place and frees the old one, or it appends an entry.\<close>

definition set_fails :: "nvram \<Rightarrow> nvram \<Rightarrow> bool" where
  "set_fails s s' \<longleftrightarrow> nv_same s s'"

definition set_replaces :: "string \<Rightarrow> string \<Rightarrow> nvram \<Rightarrow> nvram \<Rightarrow> bool" where
  "set_replaces nm v s s' \<longleftrightarrow> (\<exists>i p. find_entry (nv_heap s) nm (nv_list s) = Some i
     \<and> p \<ge> nv_next s \<and> p < nv_next s' \<and> nv_list s' = (nv_list s)[i := (nv_list s ! i)\<lparr>en_value := p\<rparr>]
     \<and> nv_heap s' = (nv_heap s)(en_value (nv_list s ! i) := None, p \<mapsto> v)
     \<and> nv_locked s' = nv_locked s \<and> nv_bug s' = nv_bug s)"

definition set_appends :: "string \<Rightarrow> string \<Rightarrow> nvram \<Rightarrow> nvram \<Rightarrow> bool" where
  "set_appends nm v s s' \<longleftrightarrow> (\<exists>p q. find_entry (nv_heap s) nm (nv_list s) = None
     \<and> p \<ge> nv_next s \<and> p < q \<and> q < nv_next s'
     \<and> nv_list s' = nv_list s @ [\<lparr>en_name = p, en_value = q\<rparr>]
     \<and> nv_heap s' = (nv_heap s)(p \<mapsto> nm, q \<mapsto> v)
     \<and> nv_locked s' = nv_locked s \<and> nv_bug s' = nv_bug s)"

definition set_post :: "string \<Rightarrow> string \<Rightarrow> nvram \<Rightarrow> int \<Rightarrow> nvram \<Rightarrow> bool" where
  "set_post nm v s r s' \<longleftrightarrow>
     r = 1 \<and> set_fails s s' \<or> r = 0 \<and> (set_replaces nm v s s' \<or> set_appends nm v s s')"

lemma text_at_cong: "h' p = h p \<Longrightarrow> text_at h' p = text_at h p"
  by (simp add: text_at_def)

lemma find_entry_cong:
  "(\<And>e. e \<in> set es \<Longrightarrow> h' (en_name e) = h (en_name e)) \<Longrightarrow> find_entry h' name es = find_entry h name es"
  by (induction es) (auto simp: text_at_def)

lemma nv_wfD:
  assumes "nv_wf s"
  shows "\<not> nv_locked s" "\<not> nv_bug s" "nv_next s \<le> p \<Longrightarrow> nv_heap s p = None"
    "e \<in> set (nv_list s) \<Longrightarrow> nv_heap s (en_value e) \<noteq> None"
    "e \<in> set (nv_list s) \<Longrightarrow> nv_heap s (en_name e) \<noteq> None"
    "e \<in> set (nv_list s) \<Longrightarrow> en_value e < nv_next s" "e \<in> set (nv_list s) \<Longrightarrow> en_name e < nv_next s"
proof -
  have live: "en_name e \<in> dom (nv_heap s) \<and> en_value e \<in> dom (nv_heap s)" if "e \<in> set (nv_list s)"
  proof -
    from that have "en_name e \<in> set (nv_ptrs s)" "en_value e \<in> set (nv_ptrs s)"
      by (auto simp: nv_ptrs_def)
    then show ?thesis using assms by (simp add: nv_wf_def)
  qed
  show "\<not> nv_locked s" "\<not> nv_bug s" using assms by (simp_all add: nv_wf_def)
  show "nv_heap s p = None" if "nv_next s \<le> p"
    using assms that unfolding nv_wf_def by (metis domIff leD)
  show "e \<in> set (nv_list s) \<Longrightarrow> nv_heap s (en_value e) \<noteq> None"
    "e \<in> set (nv_list s) \<Longrightarrow> nv_heap s (en_name e) \<noteq> None"
    using live by auto
  show "e \<in> set (nv_list s) \<Longrightarrow> en_value e < nv_next s" "e \<in> set (nv_list s) \<Longrightarrow> en_name e < nv_next s"
    using live assms unfolding nv_wf_def by blast+
qed

lemma k_set_worker_post:
  assumes wf: "nv_wf s" and nm: "nm \<noteq> []"
  shows "wp (shim_nvram_k_set_worker (Some nm) value) (set_post nm (case value of None \<Rightarrow> [] | Some v \<Rightarrow> v) s) s"
proof -
  define v where "v = (case value of None \<Rightarrow> [] | Some v \<Rightarrow> v)"
  define n where "n = nv_next s"
  have free: "nv_heap s n = None" "nv_heap s (Suc n) = None" "\<not> nv_locked s" "\<not> nv_bug s"
    using nv_wfD [OF wf] by (simp_all add: n_def)
  have undo [simp]: "(nv_heap s)(n := None) = nv_heap s" "(nv_heap s)(Suc n := None) = nv_heap s"
    using free by auto
  have find: "find_entry ((nv_heap s)(n \<mapsto> nm, Suc n \<mapsto> v)) nm (nv_list s) = find_entry (nv_heap s) nm (nv_list s)"
    by (rule find_entry_cong) (use nv_wfD(7) [OF wf] in \<open>fastforce simp: n_def\<close>)
  obtain c nm' where nm': "nm = c # nm'" using nm by (cases nm) auto
  show ?thesis
  proof (cases "find_entry (nv_heap s) nm (nv_list s)")
    case None
    show ?thesis
      unfolding shim_nvram_k_set_worker_def nm' option.case list.case
      unfolding nm' [symmetric] v_def [symmetric]
      by (auto simp: nv_simps n_def [symmetric] free find None set_post_def set_fails_def set_appends_def
          set_replaces_def nv_same_def fun_upd_twist intro!: wp_shim_warn_once)
  next
    case (Some i)
    then have i: "nv_list s ! i \<in> set (nv_list s)" by (simp add: find_entry_Some)
    define old where "old = en_value (nv_list s ! i)"
    obtain t where old: "old \<noteq> n" "old \<noteq> Suc n" "n \<noteq> old" "Suc n \<noteq> old" "nv_heap s old = Some t"
      using nv_wfD(4,6) [OF wf i] by (auto simp: old_def n_def)
    show ?thesis
      unfolding shim_nvram_k_set_worker_def nm' option.case list.case
      unfolding nm' [symmetric] v_def [symmetric]
      by (auto simp: nv_simps n_def [symmetric] free find Some set_post_def set_fails_def set_appends_def
          set_replaces_def nv_same_def old_def [symmetric] old fun_upd_twist
          intro!: wp_shim_warn_once exI [of _ "Suc n"])
  qed
qed

lemma set_replaces_pairs:
  assumes wf: "nv_wf s" and rep: "set_replaces nm v s s'"
  obtains i where "i < length (nv_pairs s)" "fst (nv_pairs s ! i) = nm" "nv_pairs s' = (nv_pairs s)[i := (nm, v)]"
proof -
  from rep obtain i p where i: "find_entry (nv_heap s) nm (nv_list s) = Some i"
    and p: "p \<ge> nv_next s" and l': "nv_list s' = (nv_list s)[i := (nv_list s ! i)\<lparr>en_value := p\<rparr>]"
    and h': "nv_heap s' = (nv_heap s)(en_value (nv_list s ! i) := None, p \<mapsto> v)"
    unfolding set_replaces_def by blast
  from find_entry_Some [OF i] have lt: "i < length (nv_list s)"
    and at: "text_at (nv_heap s) (en_name (nv_list s ! i)) = nm" by simp_all
  have dist: "distinct (map en_value (nv_list s))"
      "set (map en_name (nv_list s)) \<inter> set (map en_value (nv_list s)) = {}"
    using wf by (simp_all add: nv_wf_def nv_ptrs_def)
  have old: "en_name e \<noteq> en_value (nv_list s ! i)" if "e \<in> set (nv_list s)" for e
    using dist(2) that lt by (auto simp: disjoint_iff)
  have fresh: "en_name e \<noteq> p" "en_value e \<noteq> p" if "e \<in> set (nv_list s)" for e
    using nv_wfD(6,7) [OF wf that] p by auto
  have "nv_pairs s' ! j = (nv_pairs s)[i := (nm, v)] ! j" if "j < length (nv_list s)" for j
  proof (cases "j = i")
    case True
    then show ?thesis using lt at old [of "nv_list s ! i"] fresh [of "nv_list s ! i"]
      by (simp add: nv_pairs_def l' h' text_at_def)
  next
    case False
    then have "en_value (nv_list s ! j) \<noteq> en_value (nv_list s ! i)"
      using dist(1) lt that by (simp add: distinct_conv_nth)
    then show ?thesis using False that old [of "nv_list s ! j"] fresh [of "nv_list s ! j"]
      by (simp add: nv_pairs_def l' h' text_at_def)
  qed
  then have "nv_pairs s' = (nv_pairs s)[i := (nm, v)]"
    by (intro nth_equalityI) (simp_all add: nv_pairs_def l')
  with that [of i] lt at show thesis by (simp add: nv_pairs_def)
qed

lemma set_appends_pairs:
  assumes wf: "nv_wf s" and app: "set_appends nm v s s'"
  shows "nv_pairs s' = nv_pairs s @ [(nm, v)]" "nm \<notin> set (map fst (nv_pairs s))"
proof -
  from app obtain p q where new: "find_entry (nv_heap s) nm (nv_list s) = None"
    and pq: "p \<ge> nv_next s" "p < q" and l': "nv_list s' = nv_list s @ [\<lparr>en_name = p, en_value = q\<rparr>]"
    and h': "nv_heap s' = (nv_heap s)(p \<mapsto> nm, q \<mapsto> v)"
    unfolding set_appends_def by blast
  have "text_at (nv_heap s') (en_name e) = text_at (nv_heap s) (en_name e)"
      "text_at (nv_heap s') (en_value e) = text_at (nv_heap s) (en_value e)" if "e \<in> set (nv_list s)" for e
    using nv_wfD(6,7) [OF wf that] pq by (auto simp: h' text_at_def)
  then show "nv_pairs s' = nv_pairs s @ [(nm, v)]"
    using pq by (simp add: nv_pairs_def l') (simp add: h' text_at_def)
  show "nm \<notin> set (map fst (nv_pairs s))"
    using new by (auto simp: find_entry_None nv_pairs_def)
qed

lemma map_of_append_new: "k \<notin> set (map fst xs) \<Longrightarrow> map_of (xs @ [(k, v)]) = (map_of xs)(k \<mapsto> v)"
  by (induction xs) (auto simp: fun_eq_iff)

lemma map_of_list_update:
  "distinct (map fst xs) \<Longrightarrow> i < length xs \<Longrightarrow> fst (xs ! i) = k \<Longrightarrow>
     map_of (xs[i := (k, v)]) = (map_of xs)(k \<mapsto> v)"
proof (induction xs arbitrary: i)
  case (Cons x xs)
  then show ?case by (cases i) (auto simp: fun_eq_iff, metis image_eqI nth_mem)
qed simp

lemma set_post_lookup:
  assumes wf: "nv_wf s" and post: "set_post nm v s r s'"
  shows "nv_lookup s' = (if r = 0 then (nv_lookup s)(nm \<mapsto> v) else nv_lookup s)"
proof -
  have dist: "distinct (map fst (nv_pairs s))" using wf by (simp add: nv_wf_def)
  consider "r = 1" "nv_same s s'" | "r = 0" "set_replaces nm v s s'" | "r = 0" "set_appends nm v s s'"
    using post by (auto simp: set_post_def set_fails_def)
  then show ?thesis
  proof cases
    case 2
    show ?thesis
      by (rule set_replaces_pairs [OF wf 2(2)]) (simp add: nv_lookup_def map_of_list_update dist 2(1))
  next
    case 3
    then show ?thesis using set_appends_pairs [OF wf 3(2)] by (simp add: nv_lookup_def map_of_append_new del: map_of_append)
  qed (simp add: nv_same_lookup)
qed

lemma ran_upd_subset: "ran (m(k := x)) \<subseteq> ran m \<union> set_option x"
  by (auto simp: ran_def split: if_splits)

lemma set_replaces_wf:
  assumes wf: "nv_wf s" and rep: "set_replaces nm v s s'" and v: "NUL \<notin> set v"
  shows "nv_wf s'"
proof -
  from rep obtain i p where i: "find_entry (nv_heap s) nm (nv_list s) = Some i"
    and p: "p \<ge> nv_next s" "p < nv_next s'"
    and l': "nv_list s' = (nv_list s)[i := (nv_list s ! i)\<lparr>en_value := p\<rparr>]"
    and h': "nv_heap s' = (nv_heap s)(en_value (nv_list s ! i) := None, p \<mapsto> v)"
    and flags: "nv_locked s' = nv_locked s" "nv_bug s' = nv_bug s"
    unfolding set_replaces_def by blast
  from find_entry_Some [OF i] have lt: "i < length (nv_list s)" by simp
  have names: "map en_name (nv_list s') = map en_name (nv_list s)"
    using lt by (simp add: l' map_update) (metis list_update_id map_update nth_map)
  have vals: "map en_value (nv_list s') = (map en_value (nv_list s))[i := p]"
    by (simp add: l' map_update)
  have ptrs: "distinct (map en_name (nv_list s) @ map en_value (nv_list s))"
      "set (map en_name (nv_list s) @ map en_value (nv_list s)) = dom (nv_heap s)"
    using wf by (simp_all add: nv_wf_def nv_ptrs_def)
  have "p \<notin> dom (nv_heap s)" using nv_wfD(3) [OF wf p(1)] by auto
  with ptrs lt have "distinct (nv_ptrs s')"
    unfolding nv_ptrs_def names vals
    by (auto simp: distinct_list_update set_update_distinct)
  moreover have "set (nv_ptrs s') = dom (nv_heap s')"
  proof -
    have "en_value (nv_list s ! i) \<in> en_value ` set (nv_list s)" using lt by simp
    with ptrs(1) have apart: "en_value (nv_list s ! i) \<notin> en_name ` set (nv_list s)" by auto
    have "set (nv_ptrs s') = en_name ` set (nv_list s) \<union> insert p (en_value ` set (nv_list s) - {en_value (nv_list s ! i)})"
      unfolding nv_ptrs_def names vals using ptrs(1) lt by (simp add: set_update_distinct)
    also have "\<dots> = insert p (dom (nv_heap s) - {en_value (nv_list s ! i)})"
      using apart ptrs(2) by auto
    finally show ?thesis by (simp add: h')
  qed
  moreover have "\<forall>q \<in> dom (nv_heap s'). q < nv_next s'"
    using wf p by (auto simp: h' nv_wf_def split: if_splits) (meson domI order.strict_trans2 order.trans less_imp_le)
  moreover have "map fst (nv_pairs s') = map fst (nv_pairs s)"
    by (rule set_replaces_pairs [OF wf rep]) (metis fst_conv list_update_id map_update nth_map)
  moreover have "\<forall>t \<in> ran (nv_heap s'). NUL \<notin> set t"
    using wf v ran_upd_subset [of "(nv_heap s)(en_value (nv_list s ! i) := None)" p "Some v"]
      ran_upd_subset [of "nv_heap s" "en_value (nv_list s ! i)" None]
    by (fastforce simp: h' nv_wf_def)
  ultimately show ?thesis using wf by (simp add: nv_wf_def flags)
qed

lemma set_appends_wf:
  assumes wf: "nv_wf s" and app: "set_appends nm v s s'"
    and nm: "nm \<noteq> []" "NUL \<notin> set nm" and v: "NUL \<notin> set v"
  shows "nv_wf s'"
proof -
  from app obtain p q where pq: "p \<ge> nv_next s" "p < q" "q < nv_next s'"
    and l': "nv_list s' = nv_list s @ [\<lparr>en_name = p, en_value = q\<rparr>]"
    and h': "nv_heap s' = (nv_heap s)(p \<mapsto> nm, q \<mapsto> v)"
    and flags: "nv_locked s' = nv_locked s" "nv_bug s' = nv_bug s"
    unfolding set_appends_def by blast
  have new: "p \<notin> dom (nv_heap s)" "q \<notin> dom (nv_heap s)" using nv_wfD(3) [OF wf] pq by auto
  have ptrs: "distinct (map en_name (nv_list s) @ map en_value (nv_list s))"
      "set (map en_name (nv_list s) @ map en_value (nv_list s)) = dom (nv_heap s)"
    using wf by (simp_all add: nv_wf_def nv_ptrs_def)
  have "distinct (nv_ptrs s')" "set (nv_ptrs s') = dom (nv_heap s')"
    using ptrs new pq(2) by (auto simp: nv_ptrs_def l' h')
  moreover have "\<forall>r \<in> dom (nv_heap s'). r < nv_next s'"
    using wf pq by (auto simp: h' nv_wf_def split: if_splits) (meson domI order.strict_trans2 order.trans less_imp_le)
  moreover have "distinct (map fst (nv_pairs s'))" "[] \<notin> set (map fst (nv_pairs s'))"
    using set_appends_pairs [OF wf app] wf nm by (auto simp: nv_wf_def)
  moreover have "\<forall>t \<in> ran (nv_heap s'). NUL \<notin> set t"
    using wf v nm ran_upd_subset [of "(nv_heap s)(p \<mapsto> nm)" q "Some v"] ran_upd_subset [of "nv_heap s" p "Some nm"]
    by (fastforce simp: h' nv_wf_def)
  ultimately show ?thesis using wf by (simp add: nv_wf_def flags)
qed

lemma set_post_wf:
  assumes "nv_wf s" and "set_post nm v s r s'" and "nm \<noteq> []" "NUL \<notin> set nm" "NUL \<notin> set v"
  shows "nv_wf s'"
  using assms nv_same_wf set_replaces_wf set_appends_wf
  unfolding set_post_def set_fails_def by blast

section \<open>Lookups\<close>

definition nv_vptr :: "nvram \<Rightarrow> string \<Rightarrow> addr option" where
  "nv_vptr s nm = map_option (\<lambda>i. en_value (nv_list s ! i)) (find_entry (nv_heap s) nm (nv_list s))"

lemma nv_lookup_vptr: "nv_lookup s nm = map_option (text_at (nv_heap s)) (nv_vptr s nm)"
  by (simp add: nv_lookup_def nv_pairs_def nv_vptr_def find_entry_lookup option.map_comp comp_def)

lemma nv_vptr_live:
  assumes "nv_wf s" and "nv_vptr s nm = Some p"
  shows "nv_lookup s nm = nv_heap s p" "nv_heap s p \<noteq> None"
proof -
  from assms(2) obtain i where i: "find_entry (nv_heap s) nm (nv_list s) = Some i" "p = en_value (nv_list s ! i)"
    by (auto simp: nv_vptr_def)
  then have "nv_list s ! i \<in> set (nv_list s)" by (simp add: find_entry_Some)
  from nv_wfD(4) [OF assms(1) this] i(2) show "nv_heap s p \<noteq> None" by simp
  then show "nv_lookup s nm = nv_heap s p" by (auto simp: nv_lookup_vptr assms(2) text_at_def)
qed

lemma wp_count_miss: "(\<And>s'. nv_same s s' \<Longrightarrow> Q () s') \<Longrightarrow> wp (count_miss nm) Q s"
  by (auto simp: count_miss_def wp_simps nv_same_def intro!: wp_shim_warn_once)

lemma k_get_post:
  assumes "nv_wf s"
  shows "wp (wlcsm_nvram_k_get (Some nm)) (\<lambda>r s'. r = nv_vptr s nm \<and> nv_same s s') s"
  using nv_wfD(1,2) [OF assms]
  by (auto simp: wlcsm_nvram_k_get_def nv_simps nv_vptr_def nv_same_def intro!: wp_count_miss)

lemma k_get_null: "wp (wlcsm_nvram_k_get None) (\<lambda>r s'. r = None \<and> s' = s) s"
  by (simp add: wlcsm_nvram_k_get_def wp_simps)

lemma find_entry_names:
  "map (\<lambda>e. text_at h' (en_name e)) es' = map (\<lambda>e. text_at h (en_name e)) es \<Longrightarrow>
     find_entry h' nm es' = find_entry h nm es"
  by (induction es arbitrary: es') auto

lemma find_entry_append:
  "find_entry h nm (es @ es') = (case find_entry h nm es of Some i \<Rightarrow> Some i
     | None \<Rightarrow> map_option (\<lambda>i. length es + i) (find_entry h nm es'))"
proof (induction es)
  case Nil
  then show ?case by (cases "find_entry h nm es'") simp_all
next
  case (Cons e es)
  then show ?case by (cases "find_entry h nm es'") (auto split: option.splits)
qed

lemma set_post_vptr_other:
  assumes wf: "nv_wf s" and post: "set_post nm v s r s'" and other: "nm' \<noteq> nm \<or> r \<noteq> 0"
  shows "nv_vptr s' nm' = nv_vptr s nm'"
proof -
  consider "nv_same s s'" | "r = 0" "set_replaces nm v s s'" | "r = 0" "set_appends nm v s s'"
    using post by (auto simp: set_post_def set_fails_def)
  then show ?thesis
  proof cases
    case 1
    then show ?thesis by (simp add: nv_same_def nv_vptr_def)
  next
    case 2
    then obtain i p where i: "find_entry (nv_heap s) nm (nv_list s) = Some i"
      and l': "nv_list s' = (nv_list s)[i := (nv_list s ! i)\<lparr>en_value := p\<rparr>]"
      unfolding set_replaces_def by blast
    have "map fst (nv_pairs s') = map fst (nv_pairs s)"
      by (rule set_replaces_pairs [OF wf 2(2)]) (metis fst_conv list_update_id map_update nth_map)
    then have same: "find_entry (nv_heap s') nm' (nv_list s') = find_entry (nv_heap s) nm' (nv_list s)"
      by (intro find_entry_names) (simp add: nv_pairs_def comp_def)
    have "j \<noteq> i" if "find_entry (nv_heap s) nm' (nv_list s) = Some j" for j
      using find_entry_Some [OF i] find_entry_Some [OF that] other 2(1) by auto
    then show ?thesis unfolding nv_vptr_def same unfolding l'
      by (auto intro!: option.map_cong)
  next
    case 3
    then obtain p q where l': "nv_list s' = nv_list s @ [\<lparr>en_name = p, en_value = q\<rparr>]"
      and h': "nv_heap s' = (nv_heap s)(p \<mapsto> nm, q \<mapsto> v)" and pq: "nv_next s \<le> p" "p < q"
      unfolding set_appends_def by blast
    have "find_entry (nv_heap s') nm' (nv_list s) = find_entry (nv_heap s) nm' (nv_list s)"
      by (rule find_entry_cong) (use nv_wfD(7) [OF wf] pq in \<open>fastforce simp: h'\<close>)
    moreover have "text_at (nv_heap s') p = nm" using pq by (simp add: h' text_at_def)
    ultimately show ?thesis
      using other 3(1) find_entry_Some [of "nv_heap s" nm' "nv_list s"]
      by (auto simp: nv_vptr_def l' find_entry_append nth_append split: option.splits)
  qed
qed

section \<open>The store as a keyed store\<close>

definition cstring :: "string \<Rightarrow> bool" where
  "cstring t \<longleftrightarrow> NUL \<notin> set t"

definition nv_arg :: "string \<Rightarrow> string \<Rightarrow> bool" where
  "nv_arg nm v \<longleftrightarrow> nm \<noteq> [] \<and> cstring nm \<and> cstring v"

definition nv_put :: "string \<Rightarrow> string \<Rightarrow> nvram \<Rightarrow> bool \<times> nvram" where
  "nv_put nm v s = (case run_state (shim_nvram_k_set_worker (Some nm) (Some v)) s of (r, s') \<Rightarrow> (r = 0, s'))"

lemma nv_put_post:
  assumes "nv_wf s" and "nm \<noteq> []" and "nv_put nm v s = (b, s')"
  shows "set_post nm v s (if b then 0 else 1) s'"
proof -
  obtain r where r: "run_state (shim_nvram_k_set_worker (Some nm) (Some v)) s = (r, s')" "b \<longleftrightarrow> r = 0"
    using assms(3) by (auto simp: nv_put_def split: prod.splits)
  from wpD [OF k_set_worker_post [OF assms(1,2), of "Some v"] r(1)]
  have "set_post nm v s r s'" by simp
  moreover from this have "r = (if b then 0 else 1)" using r(2) by (auto simp: set_post_def)
  ultimately show ?thesis by simp
qed

interpretation nvs: keyed_store nv_wf nv_arg nv_lookup nv_put
proof
  fix s s' k v b
  assume wf: "nv_wf s" and arg: "nv_arg k v"
  show "nv_wf s'" if "nv_put k v s = (b, s')"
    using set_post_wf [OF wf nv_put_post [OF wf _ that]] arg by (simp add: nv_arg_def cstring_def)
  show "nv_lookup s' = (nv_lookup s)(k \<mapsto> v)" if "nv_put k v s = (True, s')"
    using set_post_lookup [OF wf nv_put_post [OF wf _ that]] arg by (simp add: nv_arg_def)
  show "nv_lookup s' = nv_lookup s" if "nv_put k v s = (False, s')"
    using set_post_lookup [OF wf nv_put_post [OF wf _ that]] arg by (simp add: nv_arg_def)
qed

end
