(* ===== verification/Nvram_Props.thy ===== *)
theory Nvram_Props
  imports Nvram
begin

text \<open>
  What the NVRAM backend promises its callers: lookups after updates and the lifetime of the
  pointers it hands out, the byte stream of all entries and how a reader recovers them, the store
  after boot, and the memory and lock discipline over every history of calls.
\<close>

section \<open>Set and get\<close>

definition k_get_val :: "nvram \<Rightarrow> string \<Rightarrow> addr option" where
  "k_get_val s nm = fst (run_state (wlcsm_nvram_k_get (Some nm)) s)"

lemma k_get_val_vptr: "nv_wf s \<Longrightarrow> k_get_val s nm = nv_vptr s nm"
  using k_get_post [of s nm] by (simp add: k_get_val_def wp_def case_prod_beta)

lemma set_post_frees_old:
  assumes wf: "nv_wf s" and post: "set_post nm v s r s'" and r: "r = 0" and p: "nv_vptr s nm = Some p"
  shows "nv_heap s' p = None"
proof -
  have "set_replaces nm v s s'"
    using post r p by (auto simp: set_post_def set_appends_def nv_vptr_def)
  then obtain i q where i: "find_entry (nv_heap s) nm (nv_list s) = Some i" and q: "nv_next s \<le> q"
    and h': "nv_heap s' = (nv_heap s)(en_value (nv_list s ! i) := None, q \<mapsto> v)"
    unfolding set_replaces_def by blast
  have "p = en_value (nv_list s ! i)" using p i by (simp add: nv_vptr_def)
  moreover have "en_value (nv_list s ! i) < nv_next s"
    by (rule nv_wfD(6) [OF wf]) (use find_entry_Some [OF i] in simp)
  ultimately show ?thesis using q h' by simp
qed

text \<open>
  C24.  \<^verbatim>\<open>wlcsm_nvram_k_set\<close> answers 0 or 1.  After 0, a lookup of the name finds a live string that
  holds the value (the empty string for a NULL value), and the string a lookup found before the call
  is freed: a pointer from \<^verbatim>\<open>k_get\<close> lives until the next set of the same name.  After 1, and for
  every other name, lookups hand out the same pointer to the same text as before.  The store stays well
  formed: unique names, every live string owned by exactly one entry, lock released.
\<close>

theorem k_set_then_get:
  assumes wf: "nv_wf s" and nm: "nm \<noteq> []" "cstring nm" and v: "cstring (case value of None \<Rightarrow> [] | Some v \<Rightarrow> v)"
    and run: "run_state (wlcsm_nvram_k_set (Some nm) value) s = (r, s')"
  shows "nv_wf s' \<and> (r = 0 \<or> r = 1)
     \<and> (r = 0 \<longrightarrow> (\<exists>p. k_get_val s' nm = Some p \<and> nv_heap s' p = Some (case value of None \<Rightarrow> [] | Some v \<Rightarrow> v))
                \<and> (\<forall>p. k_get_val s nm = Some p \<longrightarrow> nv_heap s' p = None))
     \<and> (\<forall>nm'. nm' \<noteq> nm \<or> r = 1 \<longrightarrow> k_get_val s' nm' = k_get_val s nm'
          \<and> (\<forall>p. k_get_val s nm' = Some p \<longrightarrow> nv_heap s' p = nv_heap s p))"
proof -
  let ?v = "case value of None \<Rightarrow> [] | Some v \<Rightarrow> v"
  have post: "set_post nm ?v s r s'"
    using wpD [OF k_set_worker_post [OF wf nm(1), of "value"]] run by (simp add: wlcsm_nvram_k_set_def)
  have wf': "nv_wf s'" using set_post_wf [OF wf post nm(1)] nm(2) v by (simp add: cstring_def)
  have r: "r = 0 \<or> r = 1" using post by (auto simp: set_post_def)
  have look: "nv_lookup s' = (if r = 0 then (nv_lookup s)(nm \<mapsto> ?v) else nv_lookup s)"
    by (rule set_post_lookup [OF wf post])
  have hit: "\<exists>p. nv_vptr s' nm = Some p \<and> nv_heap s' p = Some ?v" if "r = 0"
  proof -
    have found: "nv_lookup s' nm = Some ?v" using look that by simp
    then obtain p where p: "nv_vptr s' nm = Some p" by (auto simp: nv_lookup_vptr)
    with nv_vptr_live(1) [OF wf' p] found show ?thesis by simp
  qed
  have dead: "nv_heap s' p = None" if "r = 0" "nv_vptr s nm = Some p" for p
    by (rule set_post_frees_old [OF wf post that])
  have other: "nv_vptr s' nm' = nv_vptr s nm'" "nv_vptr s nm' = Some p \<Longrightarrow> nv_heap s' p = nv_heap s p"
    if "nm' \<noteq> nm \<or> r = 1" for nm' p
  proof -
    show same: "nv_vptr s' nm' = nv_vptr s nm'" by (rule set_post_vptr_other [OF wf post]) (use that in auto)
    assume p: "nv_vptr s nm' = Some p"
    have "nv_lookup s' nm' = nv_lookup s nm'" using look that by auto
    with nv_vptr_live(1) [OF wf p] nv_vptr_live(1) [OF wf', of nm' p] p same
    show "nv_heap s' p = nv_heap s p" by simp
  qed
  show ?thesis
    unfolding k_get_val_vptr [OF wf] k_get_val_vptr [OF wf']
    using wf' r hit dead other by simp
qed

section \<open>The byte stream\<close>

definition nv_record :: "string \<times> string \<Rightarrow> string" where
  "nv_record p = fst p @ ''='' @ snd p"

definition nv_stream :: "(string \<times> string) list \<Rightarrow> string" where
  "nv_stream ps = concat (map (\<lambda>p. nv_record p @ [NUL]) ps)"

text \<open>The entries that fit: the longest prefix whose stream leaves room for the final NUL.\<close>

fun nv_fit :: "int \<Rightarrow> nat \<Rightarrow> (string \<times> string) list \<Rightarrow> nat" where
  "nv_fit count len [] = 0"
| "nv_fit count len (p # ps) =
     (if int (len + length (nv_record p) + 1) + 1 > count then 0
      else Suc (nv_fit count (len + length (nv_record p) + 1) ps))"

text \<open>How the importing module reads the stream: strings up to a NUL, until an empty one.\<close>

fun nul_strings :: "string \<Rightarrow> string list" where
  "nul_strings [] = []"
| "nul_strings (c # cs) =
     (if c = NUL then []
      else takeWhile (\<lambda>c. c \<noteq> NUL) (c # cs) #
           nul_strings (drop (length (takeWhile (\<lambda>c. c \<noteq> NUL) (c # cs))) cs))"

lemma nv_stream_simps [simp]:
  "nv_stream [] = []" "nv_stream (p # ps) = nv_record p @ NUL # nv_stream ps"
  by (simp_all add: nv_stream_def)

lemma buf_write_twice:
  "off \<le> length buf \<Longrightarrow> buf_write (buf_write buf off a) (off + length a) b = buf_write buf off (a @ b)"
  by (simp add: buf_write_def add_ac)

lemma buf_write_nil [simp]: "buf_write buf off [] = buf"
  by (simp add: buf_write_def)

lemma length_buf_write: "off + length a \<le> length buf \<Longrightarrow> length (buf_write buf off a) = length buf"
  by (simp add: buf_write_def)

lemma getall_loop_stream:
  assumes "int len < count" and "nat count \<le> length buf"
  shows "getall_loop h count es len buf =
    (let ps = map (\<lambda>e. (text_at h (en_name e), text_at h (en_value e))) es;
         bs = nv_stream (take (nv_fit count len ps) ps)
     in (len + length bs, buf_write buf len bs))"
  using assms
proof (induction es arbitrary: len buf)
  case (Cons e es)
  let ?r = "text_at h (en_name e) @ ''='' @ text_at h (en_value e)"
  let ?len = "len + length ?r + 1"
  show ?case
  proof (cases "int ?len + 1 > count")
    case False
    let ?buf = "buf_write buf len (?r @ [NUL])"
    have fits: "len + length (?r @ [NUL]) \<le> length buf" using False Cons.prems by (simp add: nat_le_iff)
    have print: "scnprintf buf len (count - int len) ?r = (length ?r, ?buf)"
      using False by (simp add: scnprintf_def Let_def)
    have IH: "getall_loop h count es ?len ?buf =
      (let ps = map (\<lambda>e. (text_at h (en_name e), text_at h (en_value e))) es;
           bs = nv_stream (take (nv_fit count ?len ps) ps)
       in (?len + length bs, buf_write ?buf ?len bs))"
      by (rule Cons.IH) (use False Cons.prems fits in \<open>simp_all add: length_buf_write\<close>)
    have join: "buf_write ?buf ?len bs = buf_write buf len (?r @ NUL # bs)" for bs
      using buf_write_twice [of len buf "?r @ [NUL]" bs] fits by simp
    show ?thesis
      using False IH print join by (simp add: Let_def nv_record_def add_ac)
  qed (simp add: Let_def nv_record_def add_ac)
qed simp

lemma nv_fit_le: "nv_fit count len ps \<le> length ps"
  by (induction ps arbitrary: len) auto

lemma nv_fit_room: "int len < count \<Longrightarrow> int (len + length (nv_stream (take (nv_fit count len ps) ps))) < count"
proof (induction ps arbitrary: len)
  case (Cons p ps)
  then show ?case using Cons.IH [of "len + length (nv_record p) + 1"] by (simp add: add_ac)
qed simp

lemma nv_fit_max:
  "nv_fit count len ps < length ps \<Longrightarrow>
     count < int (len + length (nv_stream (take (Suc (nv_fit count len ps)) ps))) + 1"
proof (induction ps arbitrary: len)
  case (Cons p ps)
  then show ?case using Cons.IH [of "len + length (nv_record p) + 1"] by (simp add: add_ac split: if_splits)
qed simp

lemma nul_strings_stream:
  "(\<And>p. p \<in> set ps \<Longrightarrow> cstring (nv_record p)) \<Longrightarrow> nul_strings (nv_stream ps @ NUL # rest) = map nv_record ps"
proof (induction ps)
  case (Cons p ps)
  then obtain c cs where r: "nv_record p = c # cs" by (cases "nv_record p") (auto simp: nv_record_def)
  have c: "c \<noteq> NUL" "NUL \<notin> set cs" using Cons.prems [of p] r by (auto simp: cstring_def)
  then have "takeWhile (\<lambda>c. c \<noteq> NUL) (cs @ NUL # t) = cs" for t
    by (subst takeWhile_append2) auto
  then show ?case using Cons c by (simp add: r)
qed simp

lemma nv_wf_records:
  assumes "nv_wf s" and "p \<in> set (nv_pairs s)"
  shows "cstring (nv_record p)"
proof -
  from assms(2) obtain e where e: "e \<in> set (nv_list s)"
    "p = (text_at (nv_heap s) (en_name e), text_at (nv_heap s) (en_value e))" by (auto simp: nv_pairs_def)
  have "cstring (text_at (nv_heap s) q)" if "nv_heap s q \<noteq> None" for q
    using assms(1) that by (auto simp: nv_wf_def cstring_def text_at_def ran_def)
  with nv_wfD(4,5) [OF assms(1) e(1)] show ?thesis by (simp add: e(2) nv_record_def cstring_def)
qed

text \<open>
  C25.  \<^verbatim>\<open>wlcsm_nvram_getall\<close> with a buffer of at least \<open>count \<ge> 2\<close> bytes always succeeds.  It writes
  the records \<^verbatim>\<open>name=value\<close>, each with its NUL, of the longest prefix of the entries that fits, and one
  more NUL; it stays within \<open>count\<close> bytes and leaves the rest of the buffer alone; a reader that takes
  NUL-terminated strings until an empty one recovers exactly these records.
\<close>

theorem getall_roundtrip:
  assumes wf: "nv_wf s" and count: "2 \<le> count" "nat count \<le> length b"
  shows "\<exists>k len b' s'. run_state (wlcsm_nvram_getall (Some b) count) s = (Inr (len, b'), s') \<and> nv_same s s'
     \<and> k \<le> length (nv_pairs s) \<and> len = length (nv_stream (take k (nv_pairs s))) + 1 \<and> int len \<le> count
     \<and> take len b' = nv_stream (take k (nv_pairs s)) @ [NUL]
     \<and> drop len b' = drop len b \<and> length b' = length b
     \<and> nul_strings b' = map nv_record (take k (nv_pairs s))
     \<and> (k < length (nv_pairs s) \<longrightarrow> count < int (length (nv_stream (take (Suc k) (nv_pairs s)))) + 1)"
proof -
  let ?k = "nv_fit count 0 (nv_pairs s)"
  let ?bs = "nv_stream (take ?k (nv_pairs s))"
  let ?b = "buf_write b 0 (?bs @ [NUL])"
  have loop: "getall_loop (nv_heap s) count (nv_list s) 0 b = (length ?bs, buf_write b 0 ?bs)"
    using getall_loop_stream [of 0 count b "nv_heap s" "nv_list s"] count by (simp add: nv_pairs_def Let_def)
  have room: "int (length ?bs) + 1 \<le> count" using nv_fit_room [of 0 count "nv_pairs s"] count by simp
  with count have fits: "length ?bs + 1 \<le> length b" by (simp add: nat_le_iff)
  have "wp (wlcsm_nvram_getall (Some b) count) (\<lambda>r s'. r = Inr (length ?bs + 1, ?b) \<and> nv_same s s') s"
    using count(1) nv_wfD(1,2) [OF wf] buf_write_twice [of 0 b ?bs "[NUL]"]
    by (simp add: wlcsm_nvram_getall_def nv_simps loop nv_same_def)
  then obtain s' where run: "run_state (wlcsm_nvram_getall (Some b) count) s = (Inr (length ?bs + 1, ?b), s')" "nv_same s s'"
    by (rule wp_run)
  have "nul_strings ?b = map nv_record (take ?k (nv_pairs s))"
  proof -
    have "?b = ?bs @ NUL # drop (length ?bs + 1) b" by (simp add: buf_write_def)
    moreover have "nul_strings (?bs @ NUL # drop (length ?bs + 1) b) = map nv_record (take ?k (nv_pairs s))"
      by (rule nul_strings_stream) (blast intro: nv_wf_records [OF wf] in_set_takeD)
    ultimately show ?thesis by (simp only:)
  qed
  moreover have "take (length ?bs + 1) ?b = ?bs @ [NUL]" "drop (length ?bs + 1) ?b = drop (length ?bs + 1) b"
    "length ?b = length b" using fits by (simp_all add: buf_write_def)
  ultimately show ?thesis
    using run room nv_fit_le [of count 0 "nv_pairs s"] nv_fit_max [of count 0 "nv_pairs s"]
    by (intro exI [of _ ?k] exI [of _ "length ?bs + 1"] exI [of _ ?b] exI [of _ s']) simp
qed

section \<open>Boot\<close>

lemma worker_put:
  "run_state (shim_nvram_k_set_worker (Some nm) (Some v)) s = (r, s') \<Longrightarrow> nv_put nm v s = (r = 0, s')"
  by (simp add: nv_put_def)

lemma seed_loop_put_all:
  "run_state (seed_loop kvs n) s = (case nvs.put_all kvs s of (acc, s') \<Rightarrow> (n + length acc, s'))"
proof (induction kvs arbitrary: n s)
  case (Cons kv kvs)
  obtain r s' where run: "run_state (shim_nvram_k_set_worker (Some (fst kv)) (Some (snd kv))) s = (r, s')" by fastforce
  show ?case
    unfolding seed_loop.simps nvs.put_all.simps worker_put [OF run] run_state_bind run prod.case Cons.IH
    by (simp split: prod.splits)
qed simp

text \<open>What no update touches: the module parameters and the memory oracle.\<close>

definition nv_config :: "nvram \<Rightarrow> _" where
  "nv_config s = (nv_mem s, p_et0macaddr s, p_wl0_hwaddr s, p_wl1_hwaddr s, p_wl_mlo_config s)"

lemma keeps_config_worker: "keeps (\<lambda>s. nv_config s = c) (shim_nvram_k_set_worker nm v)"
proof -
  have kmalloc: "keeps (\<lambda>s. nv_config s = c) (kmalloc_ok b)" for b
    by (rule keepsI) (simp add: wp_simps nv_config_def)
  have find: "keeps (\<lambda>s. nv_config s = c) (shim_nvram_find_locked n)" for n
    by (rule keepsI) (simp add: wp_simps nv_config_def)
  show ?thesis
    unfolding shim_nvram_k_set_worker_def kstrdup_def kfree_def shim_warn_once_def nv_lock_def nv_unlock_def
    by (auto intro!: keeps_rules kmalloc [unfolded nv_config_def] find [unfolded nv_config_def] keeps_modify
        simp: nv_config_def split: option.splits list.splits)
qed

text \<open>With memory available an update never fails.\<close>

lemma nv_put_memory:
  assumes "nv_wf s" and "nm \<noteq> []" and "\<And>n. nv_mem s n"
  shows "fst (nv_put nm v s)"
proof -
  have "wp (shim_nvram_k_set_worker (Some nm) (Some v)) (\<lambda>r _. r = 0) s"
    using assms(2,3) by (cases nm) (auto simp: shim_nvram_k_set_worker_def nv_simps split: option.splits)
  then show ?thesis by (simp add: nv_put_def wp_def split: prod.splits)
qed

text \<open>The kernel's \<^verbatim>\<open>%pM\<close> prints six octets as at most 17 characters, none of them NUL.\<close>

definition pM_format :: "(u8 list \<Rightarrow> string) \<Rightarrow> bool" where
  "pM_format fmt_pM \<longleftrightarrow> (\<forall>m. length m = 6 \<longrightarrow> length (fmt_pM m) \<le> 17 \<and> cstring (fmt_pM m))"

text \<open>The conditions of an orderly boot, which no update changes: memory, parameters that are C strings,
  a base MAC that parses.\<close>

definition boot_env :: "(string \<Rightarrow> u8 list option) \<Rightarrow> (u8 list \<Rightarrow> string) \<Rightarrow> u8 list \<Rightarrow> nvram \<Rightarrow> bool" where
  "boot_env mac_pton fmt_pM mac s \<longleftrightarrow> (\<forall>n. nv_mem s n)
     \<and> cstring (p_wl_mlo_config s) \<and> cstring (p_et0macaddr s) \<and> cstring (p_wl0_hwaddr s) \<and> cstring (p_wl1_hwaddr s)
     \<and> mac_pton (p_et0macaddr s) = Some mac \<and> length mac = 6 \<and> pM_format fmt_pM"

definition boot_step :: "nvram \<Rightarrow> (string \<rightharpoonup> string) \<Rightarrow> nvram \<Rightarrow> bool" where
  "boot_step s m s' \<longleftrightarrow> nv_wf s' \<and> nv_config s' = nv_config s \<and> nv_lookup s' = m"

lemma boot_stepD:
  assumes "boot_step s m t"
  shows "nv_wf t" "nv_lookup t = m" "boot_env pton fmt mac t = boot_env pton fmt mac s"
    "p_et0macaddr t = p_et0macaddr s" "p_wl0_hwaddr t = p_wl0_hwaddr s" "p_wl1_hwaddr t = p_wl1_hwaddr s"
    "p_wl_mlo_config t = p_wl_mlo_config s"
  using assms by (simp_all add: boot_step_def nv_config_def boot_env_def)

lemma boot_step_trans: "boot_step s m t \<Longrightarrow> boot_step t m' u \<Longrightarrow> boot_step s m' u"
  by (simp add: boot_step_def)

lemma boot_set:
  assumes "nv_wf s" and "boot_env pton fmt mac s" and "nv_arg nm v"
  shows "wp (shim_nvram_k_set_worker (Some nm) (Some v)) (\<lambda>r s'. r = 0 \<and> boot_step s ((nv_lookup s)(nm \<mapsto> v)) s') s"
proof (rule wpI)
  fix r s' assume run: "run_state (shim_nvram_k_set_worker (Some nm) (Some v)) s = (r, s')"
  have "fst (nv_put nm v s)" using nv_put_memory assms by (simp add: nv_arg_def boot_env_def)
  with worker_put [OF run] have put: "nv_put nm v s = (True, s')" and "r = 0" by auto
  moreover have "nv_config s' = nv_config s"
    by (rule keepsD [OF keeps_config_worker _ run]) simp
  ultimately show "r = 0 \<and> boot_step s ((nv_lookup s)(nm \<mapsto> v)) s'"
    using nvs.put_inv [OF assms(1,3) put] nvs.put_done [OF assms(1,3) put] by (simp add: boot_step_def)
qed

lemma boot_seeds:
  assumes "nv_wf s" and "boot_env pton fmt mac s" and "\<And>k v. (k, v) \<in> set kvs \<Longrightarrow> nv_arg k v"
  shows "wp (seed_loop kvs n) (\<lambda>_ s'. boot_step s (nv_lookup s ++ map_of (rev kvs)) s') s"
  using assms
proof (induction kvs arbitrary: n s)
  case (Cons kv kvs)
  have arg: "nv_arg (fst kv) (snd kv)" using Cons.prems(3) by simp
  show ?case
    unfolding seed_loop.simps
  proof (rule wp_seq [OF boot_set [OF Cons.prems(1,2) arg]])
    fix r t assume rt: "r = 0 \<and> boot_step s ((nv_lookup s)(fst kv \<mapsto> snd kv)) t"
    then have step: "boot_step s ((nv_lookup s)(fst kv \<mapsto> snd kv)) t" by simp
    note t = boot_stepD [OF step]
    have maps: "nv_lookup t ++ map_of (rev kvs) = nv_lookup s ++ map_of (rev (kv # kvs))"
      by (cases kv) (simp add: t(2) map_add_def fun_eq_iff split: option.splits)
    have "wp (seed_loop kvs k) (\<lambda>_ s'. boot_step t (nv_lookup s ++ map_of (rev (kv # kvs))) s') t" for k
      unfolding maps [symmetric] by (rule Cons.IH [OF t(1)]) (use Cons.prems t(3) in auto)
    then show "wp (seed_loop kvs (if r = 0 then n + 1 else n)) (\<lambda>_ s'. boot_step s (nv_lookup s ++ map_of (rev (kv # kvs))) s') t"
      by (rule wp_mono) (rule boot_step_trans [OF step])
  qed
qed (simp add: wp_simps boot_step_def)

definition radio_mac :: "(u8 list \<Rightarrow> string) \<Rightarrow> u8 list \<Rightarrow> string \<Rightarrow> u8 \<Rightarrow> string" where
  "radio_mac fmt_pM mac hwaddr add = (if hwaddr = [] then fmt_pM (mac[5 := mac ! 5 + add]) else hwaddr)"

lemma boot_radio:
  assumes wf: "nv_wf s" and env: "boot_env pton fmt mac s" and key: "key \<noteq> []" "cstring key" and hw: "cstring hw"
  shows "wp (seed_radio_mac pton fmt key hw add (p_et0macaddr s))
    (\<lambda>_ s'. boot_step s ((nv_lookup s)(key \<mapsto> radio_mac fmt mac hw add)) s') s"
proof -
  let ?m = "fmt (mac[5 := mac ! 5 + add])"
  have m: "length ?m \<le> 17" "cstring ?m" using env by (simp_all add: boot_env_def pM_format_def)
  then have bump: "shim_mac_bump pton fmt (p_et0macaddr s) add 18 = Inr ?m"
    using env by (simp add: shim_mac_bump_def boot_env_def)
  have arg: "nv_arg key (radio_mac fmt mac hw add)" using key hw m by (simp add: nv_arg_def radio_mac_def)
  have "seed_radio_mac pton fmt key hw add (p_et0macaddr s) =
      do { _ \<leftarrow> shim_nvram_k_set_worker (Some key) (Some (radio_mac fmt mac hw add)); return () }"
    by (simp add: seed_radio_mac_def bump radio_mac_def)
  then show ?thesis using boot_set [OF wf env arg] by (simp add: wp_simps wp_mono)
qed

lemma boot_macs:
  assumes wf: "nv_wf s" and env: "boot_env pton fmt mac s"
  shows "wp (seed_macs pton fmt) (\<lambda>_ s'. boot_step s ((nv_lookup s)(''et0macaddr'' \<mapsto> p_et0macaddr s,
        ''sb/0/macaddr'' \<mapsto> radio_mac fmt mac (p_wl0_hwaddr s) 2,
        ''sb/1/macaddr'' \<mapsto> radio_mac fmt mac (p_wl1_hwaddr s) 3)) s') s"
proof -
  have arg: "nv_arg ''et0macaddr'' (p_et0macaddr s)" and hw: "cstring (p_wl0_hwaddr s)" "cstring (p_wl1_hwaddr s)"
    using env by (simp_all add: nv_arg_def cstring_def boot_env_def)
  let ?m0 = "(nv_lookup s)(''et0macaddr'' \<mapsto> p_et0macaddr s)"
  let ?m1 = "?m0(''sb/0/macaddr'' \<mapsto> radio_mac fmt mac (p_wl0_hwaddr s) 2)"
  let ?m2 = "?m1(''sb/1/macaddr'' \<mapsto> radio_mac fmt mac (p_wl1_hwaddr s) 3)"
  have radio1: "wp (seed_radio_mac pton fmt ''sb/1/macaddr'' (p_wl1_hwaddr u) 3 (p_et0macaddr s)) (\<lambda>_. boot_step s ?m2) u"
    if "boot_step s ?m1 u" for u
    using boot_radio [OF boot_stepD(1) [OF that], of pton fmt mac "''sb/1/macaddr''" "p_wl1_hwaddr s" 3]
      env hw(2) boot_step_trans [OF that]
    by (simp add: boot_stepD [OF that] cstring_def wp_mono)
  have radio0: "wp (seed_radio_mac pton fmt ''sb/0/macaddr'' (p_wl0_hwaddr t) 2 (p_et0macaddr s)) (\<lambda>_. boot_step s ?m1) t"
    if "boot_step s ?m0 t" for t
    using boot_radio [OF boot_stepD(1) [OF that], of pton fmt mac "''sb/0/macaddr''" "p_wl0_hwaddr s" 2]
      env hw(1) boot_step_trans [OF that]
    by (simp add: boot_stepD [OF that] cstring_def wp_mono)
  show ?thesis
    unfolding seed_macs_def
    by (subst wp_bind, subst wp_gets, rule wp_seq [OF boot_set [OF wf env arg]])
      (clarsimp simp: wp_if wp_return wp_bind wp_gets, rule wp_mono [OF radio0], assumption,
        simp add: wp_bind wp_gets radio1)
qed

lemma boot_init:
  assumes wf: "nv_wf s" and env: "boot_env pton fmt mac s" and seed: "\<And>k v. (k, v) \<in> set seed \<Longrightarrow> nv_arg k v"
  shows "wp (shim_nvram_init seed pton fmt) (\<lambda>r s'. r = Inr () \<and> boot_step s ((nv_lookup s ++ map_of (rev seed))
         (''wl_mlo_config'' \<mapsto> p_wl_mlo_config s, ''et0macaddr'' \<mapsto> p_et0macaddr s,
          ''sb/0/macaddr'' \<mapsto> radio_mac fmt mac (p_wl0_hwaddr s) 2,
          ''sb/1/macaddr'' \<mapsto> radio_mac fmt mac (p_wl1_hwaddr s) 3)) s') s" (is "wp _ (\<lambda>r s'. _ \<and> boot_step s ?m s') s")
proof -
  let ?base = "nv_lookup s ++ map_of (rev seed)"
  have arg: "nv_arg ''wl_mlo_config'' (p_wl_mlo_config s)"
    using env by (simp add: nv_arg_def cstring_def boot_env_def)
  have mlo: "wp (shim_nvram_k_set_worker (Some ''wl_mlo_config'') (Some (p_wl_mlo_config t)))
      (\<lambda>r u. r = 0 \<and> boot_step s (?base(''wl_mlo_config'' \<mapsto> p_wl_mlo_config s)) u) t" if "boot_step s ?base t" for t
    using boot_set [OF boot_stepD(1) [OF that], of pton fmt mac "''wl_mlo_config''" "p_wl_mlo_config s"]
      env arg boot_step_trans [OF that]
    by (simp add: boot_stepD [OF that] wp_mono)
  have macs: "wp (seed_macs pton fmt) (\<lambda>_. boot_step s ?m) u"
    if "boot_step s (?base(''wl_mlo_config'' \<mapsto> p_wl_mlo_config s)) u" for u
    using boot_macs [OF boot_stepD(1) [OF that], of pton fmt mac] env boot_step_trans [OF that]
    by (simp add: boot_stepD [OF that] wp_mono)
  have log: "boot_step s m (u\<lparr>nv_log := l\<rparr>) = boot_step s m u" for m u l
    by (simp add: boot_step_def nv_wf_def nv_ptrs_def nv_pairs_def nv_config_def nv_lookup_def)
  show ?thesis
    unfolding shim_nvram_init_def
    by (rule wp_seq [OF boot_seeds [OF wf env seed]], assumption, subst wp_bind, subst wp_gets, rule wp_seq, erule mlo)
      (clarsimp simp: wp_if wp_bind, rule wp_mono [OF macs], assumption, simp add: wp_simps log)
qed

text \<open>
  C26.  The store after boot, with memory available and a base MAC the kernel can parse: the seed
  table, later records overriding earlier ones, and over it the module parameters: the MLO
  mapping, the base MAC, and for the two radios the explicit address or the base MAC with 2 and 3
  added to its last octet.  These are the octets \<^verbatim>\<open>kerSysGetMacAddress\<close> serves for ids 2 and 3, so one
  parameter fixes both.
\<close>

theorem shim_nvram_init_store:
  assumes wf: "nv_wf s" and env: "boot_env mac_pton fmt_pM mac s"
    and seed: "\<And>k v. (k, v) \<in> set seed \<Longrightarrow> nv_arg k v"
  shows "\<exists>s' mac2 mac3. run_state (shim_nvram_init seed mac_pton fmt_pM) s = (Inr (), s') \<and> nv_wf s'
     \<and> fst (run_state (kerSysGetMacAddress mac_pton (Some (replicate 6 0)) 2) s') = Inr mac2
     \<and> fst (run_state (kerSysGetMacAddress mac_pton (Some (replicate 6 0)) 3) s') = Inr mac3
     \<and> mac2 = mac[5 := mac ! 5 + 2] \<and> mac3 = mac[5 := mac ! 5 + 3]
     \<and> nv_lookup s' = (nv_lookup s ++ map_of (rev seed))
         (''wl_mlo_config'' \<mapsto> p_wl_mlo_config s, ''et0macaddr'' \<mapsto> p_et0macaddr s,
          ''sb/0/macaddr'' \<mapsto> (if p_wl0_hwaddr s = [] then fmt_pM mac2 else p_wl0_hwaddr s),
          ''sb/1/macaddr'' \<mapsto> (if p_wl1_hwaddr s = [] then fmt_pM mac3 else p_wl1_hwaddr s))"
proof -
  obtain s' where run: "run_state (shim_nvram_init seed mac_pton fmt_pM) s = (Inr (), s')"
    and step: "boot_step s ((nv_lookup s ++ map_of (rev seed))
         (''wl_mlo_config'' \<mapsto> p_wl_mlo_config s, ''et0macaddr'' \<mapsto> p_et0macaddr s,
          ''sb/0/macaddr'' \<mapsto> radio_mac fmt_pM mac (p_wl0_hwaddr s) 2,
          ''sb/1/macaddr'' \<mapsto> radio_mac fmt_pM mac (p_wl1_hwaddr s) 3)) s'"
    by (rule wp_run [OF boot_init [OF wf env seed]])
  show ?thesis
    using run env boot_stepD(1,2,4) [OF step]
    by (simp add: radio_mac_def kerSysGetMacAddress_def boot_env_def gets_def)
qed

section \<open>Histories\<close>

text \<open>The module as loaded: an empty list, the lock free, the default parameters.\<close>

definition nv_boot :: "(nat \<Rightarrow> bool) \<Rightarrow> nvram" where
  "nv_boot mem = nvram_params \<lparr>nv_list = [], nv_locked = False, nv_miss_count = 0, nv_heap = Map.empty,
     nv_next = 1, nv_mem = mem, nv_allocs = 0, nv_bug = False, nv_warned = [], nv_log = [],
     p_et0macaddr = [], p_wl0_hwaddr = [], p_wl1_hwaddr = [], p_wl_mlo_config = []\<rparr>"

text \<open>The calls other modules make.  A C string ends at its first NUL.\<close>

definition cstr :: "string \<Rightarrow> string" where
  "cstr t = takeWhile (\<lambda>c. c \<noteq> NUL) t"

datatype nv_op =
    NvGet "string option"
  | NvSet "string option" "string option"
  | NvGetall "string option" int
  | NvMac "u8 list option" u32

primrec nv_exec :: "(string \<Rightarrow> u8 list option) \<Rightarrow> nv_op \<Rightarrow> nvram \<Rightarrow> nvram" where
  "nv_exec mac_pton (NvGet nm) s = snd (run_state (wlcsm_nvram_k_get (map_option cstr nm)) s)"
| "nv_exec mac_pton (NvSet nm v) s =
     snd (run_state (wlcsm_nvram_k_set (map_option cstr nm) (map_option cstr v)) s)"
| "nv_exec mac_pton (NvGetall b count) s = snd (run_state (wlcsm_nvram_getall b count) s)"
| "nv_exec mac_pton (NvMac dst n) s = snd (run_state (kerSysGetMacAddress mac_pton dst n) s)"

lemma cstring_cstr [simp]: "cstring (cstr t)"
  by (auto simp: cstring_def cstr_def dest: set_takeWhileD)

lemma cstring_Nil [simp]: "cstring []"
  by (simp add: cstring_def)

lemma wp_snd: "wp m (\<lambda>_. P) s \<Longrightarrow> P (snd (run_state m s))"
  by (simp add: wp_def case_prod_beta)

lemma worker_wf:
  assumes wf: "nv_wf s" and "\<And>t. nm = Some t \<Longrightarrow> cstring t" and "\<And>t. v = Some t \<Longrightarrow> cstring t"
  shows "wp (shim_nvram_k_set_worker nm v) (\<lambda>_. nv_wf) s"
proof (cases "nm = None \<or> nm = Some []")
  case True
  then show ?thesis
    using nv_same_wf [OF _ wf]
    by (auto simp: shim_nvram_k_set_worker_def wp_simps intro!: wp_shim_warn_once)
next
  case False
  then obtain t where t: "nm = Some t" "t \<noteq> []" by (cases nm) auto
  have "cstring (case v of None \<Rightarrow> [] | Some v \<Rightarrow> v)" using assms(3) by (cases v) simp_all
  then show ?thesis
    using wp_mono [OF k_set_worker_post [OF wf t(2), of v]] set_post_wf [OF wf _ t(2)] assms(2) t
    by (simp add: cstring_def)
qed

lemma k_get_wf: "nv_wf s \<Longrightarrow> wp (wlcsm_nvram_k_get nm) (\<lambda>_. nv_wf) s"
  by (cases nm) (auto intro: wp_mono [OF k_get_null] wp_mono [OF k_get_post] nv_same_wf)

lemma getall_wf:
  assumes "nv_wf s"
  shows "wp (wlcsm_nvram_getall b count) (\<lambda>_. nv_wf) s"
proof -
  have "nv_same s (s\<lparr>nv_bug := False, nv_locked := False\<rparr>)"
    using nv_wfD(1,2) [OF assms] by (simp add: nv_same_def)
  from nv_same_wf [OF this assms] assms nv_wfD(1,2) [OF assms] show ?thesis
    by (simp add: wlcsm_nvram_getall_def nv_simps split: option.splits)
qed

lemma say_wf: "nv_wf s \<Longrightarrow> nv_wf (s\<lparr>nv_log := l\<rparr>)"
  by (rule nv_same_wf [of s]) (simp_all add: nv_same_def)

lemma get_mac_wf: "nv_wf s \<Longrightarrow> wp (kerSysGetMacAddress pton dst n) (\<lambda>_. nv_wf) s"
  by (simp add: kerSysGetMacAddress_def wp_simps say_wf split: option.splits)

lemma nv_exec_wf:
  assumes "nv_wf s"
  shows "nv_wf (nv_exec pton c s)"
proof (cases c)
  case (NvSet nm v)
  have "wp (shim_nvram_k_set_worker (map_option cstr nm) (map_option cstr v)) (\<lambda>_. nv_wf) s"
    by (rule worker_wf [OF assms]) auto
  with NvSet show ?thesis by (simp add: wlcsm_nvram_k_set_def wp_snd)
qed (simp_all add: wp_snd [OF k_get_wf] wp_snd [OF getall_wf] wp_snd [OF get_mac_wf] assms)

lemma seed_loop_wf:
  assumes "nv_wf s" and "\<And>k v. (k, v) \<in> set kvs \<Longrightarrow> nv_arg k v"
  shows "wp (seed_loop kvs n) (\<lambda>_. nv_wf) s"
proof -
  have "nv_wf (snd (nvs.put_all kvs s))" by (rule nvs.put_all_inv [OF assms])
  then show ?thesis by (cases "nvs.put_all kvs s") (simp add: wp_def seed_loop_put_all)
qed

text \<open>Parameters that are C strings, and a MAC printer that yields C strings.\<close>

definition boot_text :: "(u8 list \<Rightarrow> string) \<Rightarrow> nvram \<Rightarrow> bool" where
  "boot_text fmt_pM s \<longleftrightarrow> (\<forall>m. cstring (fmt_pM m))
     \<and> cstring (p_wl_mlo_config s) \<and> cstring (p_et0macaddr s) \<and> cstring (p_wl0_hwaddr s) \<and> cstring (p_wl1_hwaddr s)"

lemma boot_text_worker: "keeps (boot_text fmt) (shim_nvram_k_set_worker nm v)"
proof -
  have "boot_text fmt s'" if "boot_text fmt s" "nv_config s' = nv_config s" for s s'
    using that by (simp add: boot_text_def nv_config_def)
  then show ?thesis
    using keeps_config_worker [of _ nm v] unfolding keeps_def by blast
qed

definition boot_ok :: "(u8 list \<Rightarrow> string) \<Rightarrow> nvram \<Rightarrow> bool" where
  "boot_ok fmt_pM s \<longleftrightarrow> nv_wf s \<and> boot_text fmt_pM s"

lemma boot_ok_worker: "cstring nm \<Longrightarrow> cstring v \<Longrightarrow> keeps (boot_ok fmt) (shim_nvram_k_set_worker (Some nm) (Some v))"
  unfolding boot_ok_def
  by (rule keepsI, elim conjE, rule wp_conj) (auto intro!: worker_wf keeps_wp [OF boot_text_worker])

lemma boot_ok_seed:
  assumes "boot_ok fmt s" and "\<And>k v. (k, v) \<in> set kvs \<Longrightarrow> nv_arg k v"
  shows "wp (seed_loop kvs n) (\<lambda>_. boot_ok fmt) s"
proof -
  have "keeps (boot_text fmt) (seed_loop kvs n)"
    by (induction kvs arbitrary: n) (auto intro!: keeps_rules boot_text_worker)
  with assms show ?thesis
    unfolding boot_ok_def by (intro wp_conj seed_loop_wf) (auto intro: keeps_wp)
qed

lemma boot_ok_radio:
  assumes ok: "boot_ok fmt s" and key: "cstring key" and hw: "cstring hw"
  shows "wp (seed_radio_mac pton fmt key hw add et0) (\<lambda>_. boot_ok fmt) s"
proof -
  have bump: "cstring m" if "shim_mac_bump pton fmt et0 add 18 = Inr m" for m
    using that ok
    by (auto simp: shim_mac_bump_def boot_ok_def boot_text_def cstring_def split: option.splits dest: in_set_takeD)
  have "wp (do { _ \<leftarrow> shim_nvram_k_set_worker (Some key) (Some v); return () }) (\<lambda>_. boot_ok fmt) s" if "cstring v" for v
    by (rule wp_seq [OF keeps_wp [OF boot_ok_worker [OF key that] ok]]) (simp add: wp_return)
  with ok bump hw show ?thesis
    unfolding seed_radio_mac_def by (cases "shim_mac_bump pton fmt et0 add 18") (simp_all add: wp_return)
qed

lemma boot_ok_params:
  assumes "boot_ok fmt t"
  shows "cstring (p_wl_mlo_config t)" "cstring (p_et0macaddr t)" "cstring (p_wl0_hwaddr t)" "cstring (p_wl1_hwaddr t)"
    "boot_ok fmt (t\<lparr>nv_log := l\<rparr>)"
  using assms say_wf [of t] by (simp_all add: boot_ok_def boot_text_def)

lemma boot_ok_macs:
  assumes ok: "boot_ok fmt s"
  shows "wp (seed_macs pton fmt) (\<lambda>_. boot_ok fmt) s"
proof -
  have radio: "wp (seed_radio_mac pton fmt ''sb/0/macaddr'' (p_wl0_hwaddr t) 2 et0) (\<lambda>_. boot_ok fmt) t"
      "wp (seed_radio_mac pton fmt ''sb/1/macaddr'' (p_wl1_hwaddr t) 3 et0) (\<lambda>_. boot_ok fmt) t"
    if "boot_ok fmt t" for t et0
    by (rule boot_ok_radio [OF that]; simp add: boot_ok_params [OF that] cstring_def [of "_ # _"])+
  have key: "cstring ''et0macaddr''" by (simp add: cstring_def)
  show ?thesis
    unfolding seed_macs_def
    by (subst wp_bind, subst wp_gets, rule wp_seq [OF keeps_wp [OF boot_ok_worker [OF key boot_ok_params(2) [OF ok]] ok]],
        rule wp_seq [where P = "\<lambda>_. boot_ok fmt"], simp add: wp_simps boot_ok_params,
        subst wp_bind, subst wp_gets, rule wp_seq, erule radio(1), subst wp_bind, subst wp_gets, erule radio(2))
qed

lemma boot_ok_init:
  assumes ok: "boot_ok fmt s" and seed: "\<And>k v. (k, v) \<in> set seed \<Longrightarrow> nv_arg k v"
  shows "wp (shim_nvram_init seed pton fmt) (\<lambda>_. boot_ok fmt) s"
proof -
  have key: "cstring ''wl_mlo_config''" by (simp add: cstring_def)
  have mlo: "wp (shim_nvram_k_set_worker (Some ''wl_mlo_config'') (Some (p_wl_mlo_config t))) (\<lambda>_. boot_ok fmt) t"
    if "boot_ok fmt t" for t
    by (rule keeps_wp [OF boot_ok_worker [OF key boot_ok_params(1) [OF that]] that])
  have tail: "wp (do { seed_macs pton fmt; et0 \<leftarrow> gets p_et0macaddr; say (BackendUp a b et0); return (Inr ()) })
      (\<lambda>_ :: errno + unit. boot_ok fmt) t" if "boot_ok fmt t" for t a b
    by (rule wp_seq [OF boot_ok_macs [OF that]]) (simp add: wp_simps boot_ok_params)
  show ?thesis
    unfolding shim_nvram_init_def
    by (rule wp_seq [OF boot_ok_seed [OF ok seed]], assumption, subst wp_bind, subst wp_gets, rule wp_seq, erule mlo)
      (simp add: wp_if wp_return tail)
qed

lemma nv_boot_ok: "(\<And>m. cstring (fmt m)) \<Longrightarrow> boot_ok fmt (nv_boot mem)"
  by (simp add: boot_ok_def nv_boot_def nvram_params_def nv_wf_def nv_ptrs_def nv_pairs_def boot_text_def cstring_def)

text \<open>The states reached by loading the module.\<close>

definition nv_started :: "(string \<Rightarrow> u8 list option) \<Rightarrow> nvram \<Rightarrow> bool" where
  "nv_started mac_pton s \<longleftrightarrow> (\<exists>mem seed fmt_pM. (\<forall>m. cstring (fmt_pM m)) \<and> (\<forall>kv \<in> set seed. nv_arg (fst kv) (snd kv))
     \<and> s = snd (run_state (shim_nvram_init seed mac_pton fmt_pM) (nv_boot mem)))"

interpretation nv_sys: inv_system "nv_started pton" "nv_exec pton" nv_wf for pton
proof
  show "nv_wf s" if "nv_started pton s" for s
  proof -
    from that obtain mem seed fmt where fmt: "\<And>m. cstring (fmt m)"
      and seed: "\<And>k v. (k, v) \<in> set seed \<Longrightarrow> nv_arg k v"
      and s: "s = snd (run_state (shim_nvram_init seed pton fmt) (nv_boot mem))"
      unfolding nv_started_def by (metis fst_conv snd_conv)
    have "boot_ok fmt s" unfolding s by (rule wp_snd [where P = "boot_ok fmt"], rule boot_ok_init [OF nv_boot_ok]) (simp_all add: fmt seed)
    then show ?thesis by (simp add: boot_ok_def)
  qed
  show "nv_wf s \<Longrightarrow> nv_wf (nv_exec pton op s)" for op s by (rule nv_exec_wf)
qed

text \<open>
  C27.  Whatever allocations fail while the module loads and afterwards, and whatever calls follow in any
  order, the store is well formed after each of them: no string is leaked, freed twice or shared between
  entries, names are unique, the spinlock is released on every path and nothing sleeps while holding it.
\<close>

theorem nv_history_wf:
  assumes "\<And>m. cstring (fmt_pM m)" and "\<And>k v. (k, v) \<in> set seed \<Longrightarrow> nv_arg k v"
  shows "nv_wf (fold (nv_exec mac_pton) calls (snd (run_state (shim_nvram_init seed mac_pton fmt_pM) (nv_boot mem))))"
proof -
  have "nv_started mac_pton (snd (run_state (shim_nvram_init seed mac_pton fmt_pM) (nv_boot mem)))"
    unfolding nv_started_def using assms by (intro exI [of _ mem] exI [of _ seed] exI [of _ fmt_pM]) auto
  then show ?thesis by (rule nv_sys.reachable_inv)
qed

section \<open>Concrete instances\<close>

text \<open>A MAC printer in the kernel's style, for the instances.\<close>

definition hexd :: "nat \<Rightarrow> char" where
  "hexd n = ''0123456789abcdef'' ! (n mod 16)"

definition mac_text :: "u8 list \<Rightarrow> string" where
  "mac_text m = take 17 (concat (map (\<lambda>w. [hexd (unat w div 16), hexd (unat w), CHR '':'']) m))"

lemma hexd_not_NUL: "hexd n \<noteq> NUL"
proof -
  have "hexd n \<in> set ''0123456789abcdef''" unfolding hexd_def by (rule nth_mem) simp
  then show ?thesis by auto
qed

lemma mac_text_cstring: "cstring (mac_text m)"
  using hexd_not_NUL [THEN not_sym] by (auto simp: mac_text_def cstring_def dest!: in_set_takeD)

lemma nv_boot_wf: "nv_wf (nv_boot mem)"
  using nv_boot_ok [of mac_text mem] mac_text_cstring by (simp add: boot_ok_def)

theorem k_set_then_get_witness:
  "\<exists>p. k_get_val (snd (run_state (wlcsm_nvram_k_set (Some ''a'') (Some ''b'')) (nv_boot (\<lambda>_. True)))) ''a'' = Some p
     \<and> nv_heap (snd (run_state (wlcsm_nvram_k_set (Some ''a'') (Some ''b'')) (nv_boot (\<lambda>_. True)))) p = Some ''b''"
proof -
  let ?run = "run_state (wlcsm_nvram_k_set (Some ''a'') (Some ''b'')) (nv_boot (\<lambda>_. True))"
  have "fst ?run = 0" by code_simp
  then have "?run = (0, snd ?run)" by (metis prod.collapse)
  from k_set_then_get [OF nv_boot_wf _ _ _ this] show ?thesis by (simp add: cstring_def)
qed

theorem getall_roundtrip_witness:
  "\<exists>len b' s'. run_state (wlcsm_nvram_getall (Some (replicate 16 CHR ''x'')) 16)
      (nv_exec (\<lambda>_. None) (NvSet (Some ''a'') (Some ''b'')) (nv_boot (\<lambda>_. True))) = (Inr (len, b'), s') \<and> int len \<le> 16"
  using getall_roundtrip [OF nv_exec_wf [OF nv_boot_wf], of 16 "replicate 16 CHR ''x''"
      "\<lambda>_. None" "NvSet (Some ''a'') (Some ''b'')" "\<lambda>_. True"] by auto

theorem shim_nvram_init_store_witness:
  "\<exists>s'. run_state (shim_nvram_init [(''boardrev'', ''0x1'')] (\<lambda>_. Some [2, 0x10, 0x18, 0, 0, 1]) mac_text)
      (nv_boot (\<lambda>_. True)) = (Inr (), s') \<and> nv_lookup s' ''boardrev'' = Some ''0x1''
      \<and> nv_lookup s' ''sb/1/macaddr'' = Some ''02:10:18:00:00:04''"
proof -
  have env: "boot_env (\<lambda>_. Some [2, 0x10, 0x18, 0, 0, 1]) mac_text [2, 0x10, 0x18, 0, 0, 1] (nv_boot (\<lambda>_. True))"
    by (simp add: boot_env_def nv_boot_def nvram_params_def pM_format_def mac_text_cstring)
      (simp add: mac_text_def cstring_def)
  have hw: "p_wl1_hwaddr (nv_boot (\<lambda>_. True)) = []" by (simp add: nv_boot_def nvram_params_def)
  have mac: "mac_text [2, 0x10, 0x18, 0, 0, 4] = ''02:10:18:00:00:04''" by code_simp
  show ?thesis
    using shim_nvram_init_store [OF nv_boot_wf env, of "[(''boardrev'', ''0x1'')]"]
    by (auto simp: hw mac nv_arg_def cstring_def)
qed

theorem nv_history_wf_witness:
  "nv_wf (fold (nv_exec (\<lambda>_. None)) [NvGet (Some ''x''), NvSet (Some ''a'') None, NvSet None None, NvGetall None 0]
     (snd (run_state (shim_nvram_init [(''boardrev'', ''0x1'')] (\<lambda>_. None) mac_text) (nv_boot (\<lambda>n. n \<noteq> 3)))))"
  by (rule nv_history_wf) (rule mac_text_cstring, auto simp: nv_arg_def cstring_def)

end
