(* ===== verification/Dma419.thy ===== *)
theory Dma419
  imports Stores
begin

text \<open>
  The DMA boundary of the Wi-Fi shim, \<^verbatim>\<open>bsp-6.6/compat/shim_dma.c\<close> with \<^verbatim>\<open>shim_gfp.h\<close>: the registry
  that binds the vendor module's opaque device pointers to native devices (eight slots, each holding a
  device reference), the eight operations of the legacy table with their 64-bit handles, the MLO device
  set-up and its release, and the self-test.

  Pointers are numbers, \<open>None\<close> is NULL.  \<open>d_refs\<close> counts device references.  The kernel's DMA, memory
  and device services are the record \<open>dma_kernel\<close>, a parameter; every call of one is recorded in
  \<open>d_log\<close> and its answer may depend on all calls before.  Messages are not modelled.
\<close>

section \<open>State\<close>

type_synonym ptr = "nat option"
type_synonym dev = nat

record dma_binding =
  b_old :: ptr
  b_native :: "dev option"

datatype dma_dir = DMA_BIDIRECTIONAL | DMA_TO_DEVICE | DMA_FROM_DEVICE | DMA_NONE

datatype dma_ev =
    DmaAlloc dev u32 u32 u32
  | DmaFree dev u32 ptr u32 u32
  | DmaMap dev nat u32 u32 dma_dir u32
  | DmaUnmap dev u32 u32 dma_dir u32
  | SyncCpu dev u32 u32 dma_dir
  | SyncDev dev u32 u32 dma_dir
  | OldOps nat
  | OldMask nat u64
  | Kmalloc u32
  | Kfree ptr
  | Memset nat u8 u32
  | Register
  | Unregister dev
  | SetMask dev u64

text \<open>The native allocation flags the translation names.\<close>

datatype gfp_flag =
    GFP_WRITE | GFP_NOWARN | GFP_RETRY_MAYFAIL | GFP_NOFAIL | GFP_NORETRY | GFP_MEMALLOC | GFP_COMP | GFP_ZERO
  | GFP_NOMEMALLOC | GFP_HARDWALL | GFP_THISNODE | GFP_HIGH | GFP_ACCOUNT | GFP_DIRECT_RECLAIM
  | GFP_KSWAPD_RECLAIM | GFP_NOLOCKDEP

record dma_kernel =
  k_alloc :: "dma_ev list \<Rightarrow> (nat \<times> u32) option"
  k_map :: "dma_ev list \<Rightarrow> u32"
  k_map_err :: "u32 \<Rightarrow> bool"
  k_gfp :: "gfp_flag \<Rightarrow> u32"
  k_register :: "dma_ev list \<Rightarrow> errno + dev"
  k_set_mask :: "dma_ev list \<Rightarrow> errno + unit"
  k_malloc :: "dma_ev list \<Rightarrow> ptr"
  k_all_bytes :: "dma_ev list \<Rightarrow> nat \<Rightarrow> u8 \<Rightarrow> bool"
  k_page :: "nat \<Rightarrow> nat"
  k_off :: "nat \<Rightarrow> u32"
  k_phys :: "nat \<Rightarrow> u32"

record dma =
  d_slots :: "dma_binding list"
  d_locked :: bool
  d_bug :: bool
  d_refs :: "dev \<Rightarrow> int"
  d_mlo :: "dev option"
  d_key :: ptr
  d_mask :: "dev \<Rightarrow> u64 option"
  d_cmask :: "dev \<Rightarrow> u64"
  d_coherent :: "dev \<Rightarrow> bool"
  d_log :: "dma_ev list"

type_synonym 'a dm = "(dma, 'a) state"

abbreviation (input) "DMA419_SLOTS \<equiv> (8 :: nat)"

definition DMA419_ERROR :: u64 where
  "DMA419_ERROR = NOT 0"

definition U32_MAX :: u64 where
  "U32_MAX = 0xffffffff"

definition DMA_BIT_MASK_32 :: u64 where
  "DMA_BIT_MASK_32 = mask 32"

abbreviation (input) "PAGE_SIZE \<equiv> (0x1000 :: u32)"

section \<open>Kernel services\<close>

definition dcall :: "dma_ev \<Rightarrow> unit dm" where
  "dcall e = modify (\<lambda>s. s\<lparr>d_log := d_log s @ [e]\<rparr>)"

definition get_device :: "dev \<Rightarrow> unit dm" where
  "get_device d = modify (\<lambda>s. s\<lparr>d_refs := (d_refs s)(d := d_refs s d + 1)\<rparr>)"

definition put_device :: "dev option \<Rightarrow> unit dm" where
  "put_device q = (case q of None \<Rightarrow> return ()
     | Some d \<Rightarrow> modify (\<lambda>s. s\<lparr>d_refs := (d_refs s)(d := d_refs s d - 1)\<rparr>))"

definition d_lock :: "unit dm" where
  "d_lock = modify (\<lambda>s. s\<lparr>d_bug := (d_bug s \<or> d_locked s), d_locked := True\<rparr>)"

definition d_unlock :: "unit dm" where
  "d_unlock = modify (\<lambda>s. s\<lparr>d_bug := (d_bug s \<or> \<not> d_locked s), d_locked := False\<rparr>)"

definition valid_dma_direction :: "dma_dir \<Rightarrow> bool" where
  "valid_dma_direction dir \<longleftrightarrow> dir \<noteq> DMA_NONE"

section \<open>The allocation flags\<close>

text \<open>The \<^verbatim>\<open>MAP\<close> lines: an old bit and the native flag it stands for.\<close>

definition gfp_map :: "dma_kernel \<Rightarrow> u32 \<Rightarrow> u32 \<times> gfp_flag \<Rightarrow> u32 \<Rightarrow> u32" where
  "gfp_map K old m flags = (if old AND fst m \<noteq> 0 then flags OR k_gfp K (snd m) else flags)"

definition gfp_table :: "(u32 \<times> gfp_flag) list" where
  "gfp_table = [(0x100, GFP_WRITE), (0x200, GFP_NOWARN), (0x400, GFP_RETRY_MAYFAIL), (0x800, GFP_NOFAIL),
     (0x1000, GFP_NORETRY), (0x2000, GFP_MEMALLOC), (0x4000, GFP_COMP), (0x8000, GFP_ZERO),
     (0x10000, GFP_NOMEMALLOC), (0x20000, GFP_HARDWALL), (0x40000, GFP_THISNODE), (0x80000, GFP_HIGH),
     (0x100000, GFP_ACCOUNT), (0x200000, GFP_DIRECT_RECLAIM), (0x400000, GFP_KSWAPD_RECLAIM),
     (0x800000, GFP_NOLOCKDEP)]"

definition shim_gfp419 :: "dma_kernel \<Rightarrow> u32 \<Rightarrow> u32" where
  "shim_gfp419 K old = fold (gfp_map K old) gfp_table (old AND 0xff)"

section \<open>The registry\<close>

text \<open>The scan of \<^verbatim>\<open>shim_dma_bind\<close>: a slot that already has the key ends it, the first free slot is
  remembered.\<close>

fun bind_scan :: "nat \<Rightarrow> dma_binding list \<Rightarrow> nat \<Rightarrow> nat option \<Rightarrow> errno + nat option" where
  "bind_scan old [] i slot = Inr slot"
| "bind_scan old (b # bs) i slot =
     (if b_old b = Some old then Inl EEXIST
      else bind_scan old bs (i + 1) (if b_old b = None \<and> slot = None then Some i else slot))"

primrec slot_of :: "nat \<Rightarrow> dma_binding list \<Rightarrow> nat option" where
  "slot_of old [] = None"
| "slot_of old (b # bs) = (if b_old b = Some old then Some 0 else map_option Suc (slot_of old bs))"

definition shim_dma_bind :: "ptr \<Rightarrow> dev option \<Rightarrow> (errno + unit) dm" where
  "shim_dma_bind old native = (case (old, native) of
     (Some k, Some d) \<Rightarrow> do {
       d_lock;
       r \<leftarrow> gets (\<lambda>s. bind_scan k (d_slots s) 0 None);
       ret \<leftarrow> (case r of
           Inl e \<Rightarrow> return (Inl e)
         | Inr None \<Rightarrow> return (Inl ENOSPC)
         | Inr (Some slot) \<Rightarrow> do {
             get_device d;
             modify (\<lambda>s. s\<lparr>d_slots := (d_slots s)[slot := \<lparr>b_old = Some k, b_native = Some d\<rparr>]\<rparr>);
             return (Inr ()) });
       d_unlock;
       return ret }
   | _ \<Rightarrow> return (Inl EINVAL))"

definition shim_dma_unbind :: "ptr \<Rightarrow> unit dm" where
  "shim_dma_unbind old = do {
     d_lock;
     hit \<leftarrow> gets (\<lambda>s. case old of None \<Rightarrow> None | Some k \<Rightarrow> slot_of k (d_slots s));
     native \<leftarrow> (case hit of
         None \<Rightarrow> return None
       | Some i \<Rightarrow> do {
           d \<leftarrow> gets (\<lambda>s. b_native (d_slots s ! i));
           modify (\<lambda>s. s\<lparr>d_slots := (d_slots s)[i := \<lparr>b_old = None, b_native = None\<rparr>]\<rparr>);
           return d });
     d_unlock;
     put_device native }"

definition dma419_device :: "ptr \<Rightarrow> dev option dm" where
  "dma419_device old = do {
     d_lock;
     hit \<leftarrow> gets (\<lambda>s. case old of None \<Rightarrow> None | Some k \<Rightarrow> slot_of k (d_slots s));
     native \<leftarrow> (case hit of
         None \<Rightarrow> return None
       | Some i \<Rightarrow> do {
           d \<leftarrow> gets (\<lambda>s. b_native (d_slots s ! i));
           (case d of None \<Rightarrow> return () | Some x \<Rightarrow> get_device x);
           return d });
     d_unlock;
     return native }"

definition shim_dma_get_device :: "ptr \<Rightarrow> dev option dm" where
  "shim_dma_get_device old = dma419_device old"

section \<open>The operations of the legacy table\<close>

definition dma419_args :: "u64 \<Rightarrow> u32 \<Rightarrow> bool" where
  "dma419_args addr attrs \<longleftrightarrow> \<not> (U32_MAX < addr \<or> attrs \<noteq> 0)"

text \<open>The result is the CPU address and what \<^verbatim>\<open>*handle\<close> holds, \<open>None\<close> for a NULL handle pointer.\<close>

definition dma419_alloc :: "dma_kernel \<Rightarrow> ptr \<Rightarrow> u32 \<Rightarrow> bool \<Rightarrow> u32 \<Rightarrow> u32 \<Rightarrow> (ptr \<times> u64 option) dm" where
  "dma419_alloc K old sz handle flags attrs = do {
     dev \<leftarrow> dma419_device old;
     r \<leftarrow> (case dev of
         Some d \<Rightarrow>
           if handle \<and> sz \<noteq> 0 \<and> dma419_args 0 attrs then do {
             ans \<leftarrow> gets (\<lambda>s. k_alloc K (d_log s));
             dcall (DmaAlloc d sz (shim_gfp419 K flags) attrs);
             return (case ans of None \<Rightarrow> (None, Some DMA419_ERROR)
                     | Some (cpu, native_handle) \<Rightarrow> (Some cpu, Some (ucast native_handle))) }
           else return (None, if handle then Some DMA419_ERROR else None)
       | None \<Rightarrow> return (None, if handle then Some DMA419_ERROR else None));
     put_device dev;
     return r }"

definition dma419_free :: "ptr \<Rightarrow> u32 \<Rightarrow> ptr \<Rightarrow> u64 \<Rightarrow> u32 \<Rightarrow> unit dm" where
  "dma419_free old sz cpu handle attrs = do {
     dev \<leftarrow> dma419_device old;
     (case dev of
        Some d \<Rightarrow> if dma419_args handle attrs then dcall (DmaFree d sz cpu (ucast handle) attrs) else return ()
      | None \<Rightarrow> return ());
     put_device dev }"

definition dma419_map_page :: "dma_kernel \<Rightarrow> ptr \<Rightarrow> ptr \<Rightarrow> u32 \<Rightarrow> u32 \<Rightarrow> dma_dir \<Rightarrow> u32 \<Rightarrow> u64 dm" where
  "dma419_map_page K old page off sz dir attrs = do {
     dev \<leftarrow> dma419_device old;
     result \<leftarrow> (case (dev, page) of
         (Some d, Some p) \<Rightarrow>
           if sz \<noteq> 0 \<and> valid_dma_direction dir \<and> dma419_args 0 attrs then do {
             handle \<leftarrow> gets (\<lambda>s. k_map K (d_log s));
             dcall (DmaMap d p off sz dir attrs);
             return (if \<not> k_map_err K handle then ucast handle else DMA419_ERROR) }
           else return DMA419_ERROR
       | _ \<Rightarrow> return DMA419_ERROR);
     put_device dev;
     return result }"

definition dma419_unmap_page :: "ptr \<Rightarrow> u64 \<Rightarrow> u32 \<Rightarrow> dma_dir \<Rightarrow> u32 \<Rightarrow> unit dm" where
  "dma419_unmap_page old handle sz dir attrs = do {
     dev \<leftarrow> dma419_device old;
     (case dev of
        Some d \<Rightarrow> if valid_dma_direction dir \<and> dma419_args handle attrs
                  then dcall (DmaUnmap d (ucast handle) sz dir attrs) else return ()
      | None \<Rightarrow> return ());
     put_device dev }"

definition dma419_sync_cpu :: "ptr \<Rightarrow> u64 \<Rightarrow> u32 \<Rightarrow> dma_dir \<Rightarrow> unit dm" where
  "dma419_sync_cpu old handle sz dir = do {
     dev \<leftarrow> dma419_device old;
     (case dev of
        Some d \<Rightarrow> if valid_dma_direction dir \<and> dma419_args handle 0
                  then dcall (SyncCpu d (ucast handle) sz dir) else return ()
      | None \<Rightarrow> return ());
     put_device dev }"

definition dma419_sync_device :: "ptr \<Rightarrow> u64 \<Rightarrow> u32 \<Rightarrow> dma_dir \<Rightarrow> unit dm" where
  "dma419_sync_device old handle sz dir = do {
     dev \<leftarrow> dma419_device old;
     (case dev of
        Some d \<Rightarrow> if valid_dma_direction dir \<and> dma419_args handle 0
                  then dcall (SyncDev d (ucast handle) sz dir) else return ()
      | None \<Rightarrow> return ());
     put_device dev }"

text \<open>The native \<^verbatim>\<open>DMA_MAPPING_ERROR\<close> is the all-ones 32-bit address.\<close>

definition dma419_mapping_error :: "u64 \<Rightarrow> bool" where
  "dma419_mapping_error addr \<longleftrightarrow> addr \<ge> U32_MAX"

definition dma419_supported :: "ptr \<Rightarrow> u64 \<Rightarrow> bool dm" where
  "dma419_supported old m = do {
     dev \<leftarrow> dma419_device old;
     supported \<leftarrow> gets (\<lambda>s. case dev of
         None \<Rightarrow> False
       | Some d \<Rightarrow> (case d_mask s d of
             None \<Rightarrow> False
           | Some dm \<Rightarrow> dm \<noteq> 0 \<and> m \<ge> dm \<and> m \<ge> d_cmask s d));
     put_device dev;
     return supported }"

definition bcm419_dma_alloc_from_dev_coherent :: "ptr \<Rightarrow> int \<Rightarrow> int" where
  "bcm419_dma_alloc_from_dev_coherent old sz = 0"

definition bcm419_dma_release_from_dev_coherent :: "ptr \<Rightarrow> int \<Rightarrow> ptr \<Rightarrow> int" where
  "bcm419_dma_release_from_dev_coherent old order cpu = 0"

section \<open>The MLO device\<close>

definition bcm419_arch_setup_dma_ops :: "ptr \<Rightarrow> u64 \<Rightarrow> u64 \<Rightarrow> ptr \<Rightarrow> bool \<Rightarrow> unit dm" where
  "bcm419_arch_setup_dma_ops old base sz iommu coherent = do {
     key \<leftarrow> gets d_key;
     (case old of
        Some k \<Rightarrow>
          if base \<noteq> 0 \<or> sz \<noteq> 0 \<or> iommu \<noteq> None \<or> \<not> coherent \<or> key \<noteq> None then return ()
          else do {
            mlo \<leftarrow> gets d_mlo;
            ret \<leftarrow> shim_dma_bind old mlo;
            (case ret of
               Inl e \<Rightarrow> return ()
             | Inr _ \<Rightarrow> do {
                 modify (\<lambda>s. s\<lparr>d_key := old\<rparr>);
                 dcall (OldOps k);
                 dcall (OldMask k DMA_BIT_MASK_32) }) }
      | None \<Rightarrow> return ()) }"

definition bcm419_hnd_kfree :: "ptr \<Rightarrow> unit dm" where
  "bcm419_hnd_kfree p = do {
     key \<leftarrow> gets d_key;
     (if p \<noteq> None \<and> p = key then do {
        modify (\<lambda>s. s\<lparr>d_key := None\<rparr>);
        shim_dma_unbind p }
      else return ());
     dcall (Kfree p) }"

section \<open>Self-test, load and unload\<close>

text \<open>The structure around the handle, with a guard word on each side.\<close>

record dma_guard =
  g_before :: u32
  g_handle :: u64
  g_after :: u32

text \<open>The body of the self-test after the binding, up to its \<^verbatim>\<open>out\<close> label: whether it passed, and the
  CPU buffer, the guard, the stream buffer and the mapped handle as they are then.\<close>

definition selftest_body :: "dma_kernel \<Rightarrow> nat \<Rightarrow> (bool \<times> ptr \<times> dma_guard \<times> ptr \<times> u64) dm" where
  "selftest_body K key = (let guard = \<lparr>g_before = 0x12345678, g_handle = DMA419_ERROR, g_after = 0xabcdef01\<rparr> in do {
     a \<leftarrow> dma419_alloc K (Some key) PAGE_SIZE True 0x6080c0 0;
     (let cpu = fst a; guard = guard\<lparr>g_handle := (case snd a of Some h \<Rightarrow> h | None \<Rightarrow> g_handle guard)\<rparr> in do {
       zero \<leftarrow> gets (\<lambda>s. case cpu of None \<Rightarrow> False | Some c \<Rightarrow> k_all_bytes K (d_log s) c 0);
       if cpu = None \<or> g_before guard \<noteq> 0x12345678 \<or> g_after guard \<noteq> 0xabcdef01
          \<or> dma419_mapping_error (g_handle guard) \<or> \<not> zero
       then return (False, cpu, guard, None, DMA419_ERROR)
       else do {
         dcall (Memset (the cpu) 0x5a PAGE_SIZE);
         stream \<leftarrow> gets (\<lambda>s. k_malloc K (d_log s));
         dcall (Kmalloc PAGE_SIZE);
         (case stream of
            None \<Rightarrow> return (False, cpu, guard, None, DMA419_ERROR)
          | Some st \<Rightarrow> do {
              dcall (Memset st 0xa5 PAGE_SIZE);
              mapped \<leftarrow> dma419_map_page K (Some key) (Some (k_page K st)) (k_off K st) PAGE_SIZE DMA_BIDIRECTIONAL 0;
              if dma419_mapping_error mapped then return (False, cpu, guard, stream, mapped)
              else do {
                dma419_sync_cpu (Some key) mapped PAGE_SIZE DMA_BIDIRECTIONAL;
                same \<leftarrow> gets (\<lambda>s. k_all_bytes K (d_log s) st 0xa5);
                if \<not> same then return (False, cpu, guard, stream, mapped)
                else do {
                  dcall (Memset st 0x3c PAGE_SIZE);
                  dma419_sync_device (Some key) mapped PAGE_SIZE DMA_BIDIRECTIONAL;
                  if mapped \<noteq> ucast (k_phys K st) \<or> \<not> dma419_mapping_error 0xffffffff
                     \<or> \<not> dma419_mapping_error 0x100000000 \<or> \<not> dma419_mapping_error DMA419_ERROR
                  then return (False, cpu, guard, stream, mapped)
                  else do {
                    sup \<leftarrow> dma419_supported (Some key) DMA419_ERROR;
                    return (sup, cpu, guard, stream, mapped) } } } }) } }) })"

definition dma419_selftest :: "dma_kernel \<Rightarrow> nat \<Rightarrow> (errno + unit) dm" where
  "dma419_selftest K key = do {
     mlo \<leftarrow> gets d_mlo;
     bindE (shim_dma_bind (Some key) mlo) (\<lambda>_. do {
       r \<leftarrow> selftest_body K key;
       (case r of (pass, cpu, guard, stream, mapped) \<Rightarrow> do {
         (if \<not> dma419_mapping_error mapped
          then dma419_unmap_page (Some key) mapped PAGE_SIZE DMA_BIDIRECTIONAL 0 else return ());
         dcall (Kfree stream);
         (if cpu \<noteq> None then dma419_free (Some key) PAGE_SIZE cpu (g_handle guard) 0 else return ());
         shim_dma_unbind (Some key);
         return (if pass then Inr () else Inl EIO) }) }) }"

text \<open>\<open>key\<close> is the address of the self-test's local variable.\<close>

definition shim_dma_init :: "dma_kernel \<Rightarrow> bool \<Rightarrow> nat \<Rightarrow> (errno + unit) dm" where
  "shim_dma_init K dma_selftest key = do {
     r \<leftarrow> gets (\<lambda>s. k_register K (d_log s));
     dcall Register;
     (case r of
        Inl e \<Rightarrow> return (Inl e)
      | Inr mlo \<Rightarrow> do {
          modify (\<lambda>s. s\<lparr>d_mlo := Some mlo, d_mask := (d_mask s)(mlo \<mapsto> DMA_BIT_MASK_32),
                       d_coherent := (d_coherent s)(mlo := True)\<rparr>);
          ret \<leftarrow> gets (\<lambda>s. k_set_mask K (d_log s));
          dcall (SetMask mlo DMA_BIT_MASK_32);
          (case ret of
             Inl e \<Rightarrow> return ()
           | Inr _ \<Rightarrow> modify (\<lambda>s. s\<lparr>d_cmask := (d_cmask s)(mlo := DMA_BIT_MASK_32)\<rparr>));
          ret \<leftarrow> (case ret of
              Inl e \<Rightarrow> return (Inl e)
            | Inr _ \<Rightarrow> if dma_selftest then dma419_selftest K key else return (Inr ()));
          (case ret of
             Inl e \<Rightarrow> do { dcall (Unregister mlo); return (Inl e) }
           | Inr _ \<Rightarrow> return (Inr ())) }) }"

definition shim_dma_exit :: "unit dm" where
  "shim_dma_exit = do {
     for_each [0..<DMA419_SLOTS] (\<lambda>i. do {
       old \<leftarrow> gets (\<lambda>s. b_old (d_slots s ! i));
       shim_dma_unbind old });
     modify (\<lambda>s. s\<lparr>d_key := None\<rparr>);
     mlo \<leftarrow> gets d_mlo;
     (case mlo of None \<Rightarrow> return () | Some d \<Rightarrow> dcall (Unregister d)) }"

text \<open>The module as loaded.\<close>

definition dma_boot :: "(dev \<Rightarrow> int) \<Rightarrow> dma" where
  "dma_boot refs = \<lparr>d_slots = replicate DMA419_SLOTS \<lparr>b_old = None, b_native = None\<rparr>, d_locked = False,
     d_bug = False, d_refs = refs, d_mlo = None, d_key = None, d_mask = (\<lambda>_. None), d_cmask = (\<lambda>_. 0),
     d_coherent = (\<lambda>_. False), d_log = []\<rparr>"

end
