(* ===== verification/Dma419_Props.thy ===== *)
theory Dma419_Props
  imports Dma419
begin

text \<open>
  What the DMA boundary promises: the registry is a keyed registry with eight slots, every operation
  leaves the device reference counts as it found them apart from the one reference each binding holds,
  handles survive the trip through the 64-bit interface, and the self-test and unloading give back
  everything they took.
\<close>

section \<open>Invariant\<close>

definition keys_unique :: "dma_binding list \<Rightarrow> bool" where
  "keys_unique bs \<longleftrightarrow> (\<forall>i < length bs. \<forall>j < length bs. b_old (bs ! i) \<noteq> None \<longrightarrow> b_old (bs ! i) = b_old (bs ! j) \<longrightarrow> i = j)"

definition dma_wf :: "dma \<Rightarrow> bool" where
  "dma_wf s \<longleftrightarrow> length (d_slots s) = DMA419_SLOTS \<and> \<not> d_locked s \<and> \<not> d_bug s \<and> keys_unique (d_slots s)
     \<and> (\<forall>b \<in> set (d_slots s). b_old b = None \<longleftrightarrow> b_native b = None)"

definition dma_lookup :: "dma \<Rightarrow> nat \<Rightarrow> dev option" where
  "dma_lookup s k = (case slot_of k (d_slots s) of None \<Rightarrow> None | Some i \<Rightarrow> b_native (d_slots s ! i))"

text \<open>The references the registry holds on a device: one for every slot bound to it.\<close>

definition held :: "dma_binding list \<Rightarrow> dev \<Rightarrow> int" where
  "held bs d = int (length (filter (\<lambda>b. b_native b = Some d) bs))"

primrec free_of :: "dma_binding list \<Rightarrow> nat option" where
  "free_of [] = None"
| "free_of (b # bs) = (if b_old b = None then Some 0 else map_option Suc (free_of bs))"

lemma slot_of_Some: "slot_of k bs = Some i \<Longrightarrow> i < length bs \<and> b_old (bs ! i) = Some k"
  by (induction bs arbitrary: i) (auto split: if_splits)

lemma slot_of_None: "slot_of k bs = None \<longleftrightarrow> (\<forall>b \<in> set bs. b_old b \<noteq> Some k)"
  by (induction bs) auto

lemma free_of_Some: "free_of bs = Some i \<Longrightarrow> i < length bs \<and> b_old (bs ! i) = None"
  by (induction bs arbitrary: i) (auto split: if_splits)

lemma free_of_None: "free_of bs = None \<longleftrightarrow> (\<forall>b \<in> set bs. b_old b \<noteq> None)"
  by (induction bs) auto

lemma slot_of_unique:
  assumes "keys_unique bs" and "i < length bs" and "b_old (bs ! i) = Some k"
  shows "slot_of k bs = Some i"
proof (cases "slot_of k bs")
  case None
  then show ?thesis using assms(2,3) by (auto simp: slot_of_None)
next
  case (Some j)
  with slot_of_Some [OF Some] assms show ?thesis unfolding keys_unique_def by (metis option.distinct(1))
qed

lemma bind_scan_eq:
  "bind_scan k bs i slot = (if slot_of k bs \<noteq> None then Inl EEXIST
     else Inr (case slot of Some x \<Rightarrow> Some x | None \<Rightarrow> map_option ((+) i) (free_of bs)))"
proof (induction bs arbitrary: i slot)
  case (Cons b bs)
  have "map_option ((+) (Suc i)) m = map_option ((+) i) (map_option Suc m)" for m
    by (cases m) simp_all
  then show ?case using Cons.IH [of "i + 1"] by (auto split: option.splits)
qed (simp split: option.splits)

lemma held_simps [simp]:
  "held [] d = 0" "held (b # bs) d = (if b_native b = Some d then 1 else 0) + held bs d"
  by (simp_all add: held_def)

lemma held_update:
  "i < length bs \<Longrightarrow> held (bs[i := b]) d =
     held bs d - (if b_native (bs ! i) = Some d then 1 else 0) + (if b_native b = Some d then 1 else 0)"
proof (induction bs arbitrary: i)
  case (Cons c bs)
  then show ?case by (cases i) simp_all
qed simp

lemma dma_wfD:
  assumes "dma_wf s"
  shows "\<not> d_locked s" "\<not> d_bug s" "length (d_slots s) = 8" "keys_unique (d_slots s)"
    "i < length (d_slots s) \<Longrightarrow> b_old (d_slots s ! i) = None \<longleftrightarrow> b_native (d_slots s ! i) = None"
  using assms by (auto simp: dma_wf_def)

lemma dma_wf_id: "dma_wf s \<Longrightarrow> s\<lparr>d_bug := False, d_locked := False\<rparr> = s"
  by (cases s) (simp add: dma_wf_def)

lemma keys_unique_update:
  assumes "keys_unique bs" and "b_old b = None \<or> slot_of (the (b_old b)) bs = None"
  shows "keys_unique (bs[i := b])"
  unfolding keys_unique_def
proof (intro allI impI)
  fix j k assume lt: "j < length (bs[i := b])" "k < length (bs[i := b])"
    and key: "b_old (bs[i := b] ! j) \<noteq> None" "b_old (bs[i := b] ! j) = b_old (bs[i := b] ! k)"
  have new: "b_old (bs ! m) \<noteq> b_old b" if "m < length bs" "b_old b \<noteq> None" for m
    using assms(2) that by (fastforce simp: slot_of_None)
  show "j = k"
  proof (cases "j = i \<or> k = i")
    case True
    then show ?thesis using lt key new by (auto simp: nth_list_update split: if_splits)
  next
    case False
    then show ?thesis using lt key assms(1) unfolding keys_unique_def by simp
  qed
qed

lemma dma_wf_update:
  assumes "dma_wf s" and "b_old b = None \<or> slot_of (the (b_old b)) (d_slots s) = None"
    and "b_old b = None \<longleftrightarrow> b_native b = None"
    and "d_slots s' = (d_slots s)[i := b]" "\<not> d_locked s'" "\<not> d_bug s'"
  shows "dma_wf s'"
  using assms keys_unique_update [of "d_slots s" b i] set_update_subset_insert [of "d_slots s" i b]
  unfolding dma_wf_def by auto

section \<open>The registry\<close>

lemmas dma_simps = wp_simps d_lock_def d_unlock_def get_device_def put_device_def dcall_def

lemma run_bind:
  assumes "dma_wf s"
  shows "run_state (shim_dma_bind (Some k) (Some d)) s =
    (if slot_of k (d_slots s) \<noteq> None then (Inl EEXIST, s)
     else (case free_of (d_slots s) of None \<Rightarrow> (Inl ENOSPC, s)
       | Some i \<Rightarrow> (Inr (), s\<lparr>d_refs := (d_refs s)(d := d_refs s d + 1),
                            d_slots := (d_slots s)[i := \<lparr>b_old = Some k, b_native = Some d\<rparr>]\<rparr>)))"
  using dma_wf_id [OF assms] dma_wfD(1,2) [OF assms]
  by (auto simp: shim_dma_bind_def d_lock_def d_unlock_def get_device_def modify_def gets_def bind_scan_eq
      split: option.splits)

lemma run_unbind:
  assumes "dma_wf s"
  shows "run_state (shim_dma_unbind old) s =
    (case old of None \<Rightarrow> ((), s) | Some k \<Rightarrow>
      (case slot_of k (d_slots s) of None \<Rightarrow> ((), s)
       | Some i \<Rightarrow> ((), s\<lparr>d_slots := (d_slots s)[i := \<lparr>b_old = None, b_native = None\<rparr>],
                         d_refs := (case b_native (d_slots s ! i) of None \<Rightarrow> d_refs s
                            | Some d \<Rightarrow> (d_refs s)(d := d_refs s d - 1))\<rparr>)))"
  using dma_wf_id [OF assms] dma_wfD(1,2) [OF assms]
  by (auto simp: shim_dma_unbind_def d_lock_def d_unlock_def put_device_def modify_def gets_def
      split: option.splits)

definition dma_dev :: "dma \<Rightarrow> ptr \<Rightarrow> dev option" where
  "dma_dev s old = (case old of None \<Rightarrow> None | Some k \<Rightarrow> dma_lookup s k)"

definition pin :: "dev option \<Rightarrow> dma \<Rightarrow> dma" where
  "pin q s = (case q of None \<Rightarrow> s | Some d \<Rightarrow> s\<lparr>d_refs := (d_refs s)(d := d_refs s d + 1)\<rparr>)"

lemma run_device:
  assumes "dma_wf s"
  shows "run_state (dma419_device old) s = (dma_dev s old, pin (dma_dev s old) s)"
  using dma_wf_id [OF assms] dma_wfD(1,2) [OF assms]
  by (auto simp: dma419_device_def d_lock_def d_unlock_def get_device_def modify_def gets_def
      dma_dev_def dma_lookup_def pin_def split: option.splits)

lemma slot_of_update_other:
  assumes "i < length bs" and "b_old (bs ! i) \<noteq> Some k'" and "b_old b \<noteq> Some k'" and "keys_unique bs"
    and "keys_unique (bs[i := b])"
  shows "slot_of k' (bs[i := b]) = slot_of k' bs"
proof (cases "slot_of k' bs")
  case None
  then have "slot_of k' (bs[i := b]) = None"
    using assms(3) set_update_subset_insert [of bs i b] by (auto simp: slot_of_None)
  with None show ?thesis by simp
next
  case (Some j)
  from slot_of_Some [OF Some] assms(2) have "j \<noteq> i" by auto
  with slot_of_Some [OF Some] have "j < length (bs[i := b])" "b_old (bs[i := b] ! j) = Some k'"
    by simp_all
  with slot_of_unique [OF assms(5)] Some show ?thesis by simp
qed

lemma dma_lookup_bind:
  assumes wf: "dma_wf s" and new: "slot_of k (d_slots s) = None" and i: "free_of (d_slots s) = Some i"
    and s': "d_slots s' = (d_slots s)[i := \<lparr>b_old = Some k, b_native = Some d\<rparr>]"
  shows "dma_lookup s' = (dma_lookup s)(k \<mapsto> d)"
proof
  fix k'
  let ?bs = "(d_slots s)[i := \<lparr>b_old = Some k, b_native = Some d\<rparr>]"
  have uniq: "keys_unique ?bs" using dma_wfD(4) [OF wf] new by (intro keys_unique_update) simp_all
  note fi = free_of_Some [OF i]
  show "dma_lookup s' k' = ((dma_lookup s)(k \<mapsto> d)) k'"
  proof (cases "k' = k")
    case True
    have "slot_of k ?bs = Some i" by (rule slot_of_unique [OF uniq]) (use fi in simp_all)
    then show ?thesis using True fi by (simp add: dma_lookup_def s')
  next
    case False
    have same: "slot_of k' ?bs = slot_of k' (d_slots s)"
      by (rule slot_of_update_other) (use fi False uniq dma_wfD(4) [OF wf] in simp_all)
    have "j \<noteq> i" if "slot_of k' (d_slots s) = Some j" for j using slot_of_Some [OF that] fi by auto
    then show ?thesis using False same by (auto simp: dma_lookup_def s' split: option.splits)
  qed
qed

lemma dma_lookup_unbind:
  assumes wf: "dma_wf s" and i: "slot_of k (d_slots s) = Some i"
    and s': "d_slots s' = (d_slots s)[i := \<lparr>b_old = None, b_native = None\<rparr>]"
  shows "dma_lookup s' = (dma_lookup s)(k := None)"
proof
  fix k'
  let ?bs = "(d_slots s)[i := \<lparr>b_old = None, b_native = None\<rparr>]"
  have uniq: "keys_unique ?bs" using dma_wfD(4) [OF wf] by (intro keys_unique_update) simp_all
  note fi = slot_of_Some [OF i]
  show "dma_lookup s' k' = ((dma_lookup s)(k := None)) k'"
  proof (cases "k' = k")
    case True
    have "slot_of k ?bs = None"
    proof (rule ccontr)
      assume "slot_of k ?bs \<noteq> None"
      then obtain j where j: "slot_of k ?bs = Some j" by blast
      from slot_of_Some [OF j] fi have "j \<noteq> i" "j < length (d_slots s)" "b_old (d_slots s ! j) = Some k"
        by (auto simp: nth_list_update split: if_splits)
      with slot_of_unique [OF dma_wfD(4) [OF wf], of j k] i show False by simp
    qed
    then show ?thesis using True by (simp add: dma_lookup_def s')
  next
    case False
    have same: "slot_of k' ?bs = slot_of k' (d_slots s)"
      by (rule slot_of_update_other) (use fi False uniq dma_wfD(4) [OF wf] in simp_all)
    have "j \<noteq> i" if "slot_of k' (d_slots s) = Some j" for j using slot_of_Some [OF that] fi False by auto
    then show ?thesis using False same by (auto simp: dma_lookup_def s' split: option.splits)
  qed
qed

lemma dma_lookup_None:
  assumes "dma_wf s"
  shows "dma_lookup s k = None \<longleftrightarrow> slot_of k (d_slots s) = None"
proof (cases "slot_of k (d_slots s)")
  case (Some i)
  from slot_of_Some [OF Some] dma_wfD(5) [OF assms, of i] show ?thesis by (simp add: dma_lookup_def Some)
qed (simp add: dma_lookup_def)

definition dma_put :: "nat \<Rightarrow> dev \<Rightarrow> dma \<Rightarrow> bool \<times> dma" where
  "dma_put k d s = (case run_state (shim_dma_bind (Some k) (Some d)) s of (r, s') \<Rightarrow> (r = Inr (), s'))"

definition dma_del :: "nat \<Rightarrow> dma \<Rightarrow> dma" where
  "dma_del k s = snd (run_state (shim_dma_unbind (Some k)) s)"

lemma dma_wf_bound:
  assumes "dma_wf s" and "slot_of k (d_slots s) = None"
  shows "dma_wf (s\<lparr>d_refs := r, d_slots := (d_slots s)[i := \<lparr>b_old = Some k, b_native = Some d\<rparr>]\<rparr>)"
  by (rule dma_wf_update [OF assms(1), of "\<lparr>b_old = Some k, b_native = Some d\<rparr>"])
    (simp_all add: assms dma_wfD)

lemma dma_wf_freed:
  assumes "dma_wf s"
  shows "dma_wf (s\<lparr>d_slots := (d_slots s)[i := \<lparr>b_old = None, b_native = None\<rparr>], d_refs := r\<rparr>)"
  by (rule dma_wf_update [OF assms, of "\<lparr>b_old = None, b_native = None\<rparr>"]) (simp_all add: assms dma_wfD)

lemma dma_wf_bind: "dma_wf s \<Longrightarrow> dma_wf (snd (run_state (shim_dma_bind old native) s))"
  by (cases old; cases native)
    (auto simp: shim_dma_bind_def [of None] shim_dma_bind_def [of _ None] run_bind dma_wf_bound split: option.splits)

lemma dma_wf_unbind: "dma_wf s \<Longrightarrow> dma_wf (snd (run_state (shim_dma_unbind old) s))"
  by (simp add: run_unbind dma_wf_freed split: option.split)

interpretation dmas: keyed_registry dma_wf "\<lambda>_ _. True" dma_lookup dma_put dma_del
proof
  fix s s' k d b
  assume wf: "dma_wf s"
  show "dma_wf s'" if "dma_put k d s = (b, s')"
    using dma_wf_bind [OF wf, of "Some k" "Some d"] that by (simp add: dma_put_def case_prod_beta)
  show "dma_lookup s' = (dma_lookup s)(k \<mapsto> d)" if "dma_put k d s = (True, s')"
    using that run_bind [OF wf, of k d]
    by (auto simp: dma_put_def split: if_splits option.splits intro!: dma_lookup_bind [OF wf])
  show "dma_lookup s' = dma_lookup s" if "dma_put k d s = (False, s')"
    using that run_bind [OF wf, of k d] by (auto simp: dma_put_def split: if_splits option.splits)
  show "dma_wf (dma_del k s)" unfolding dma_del_def by (rule dma_wf_unbind [OF wf])
  show "dma_lookup (dma_del k s) = (dma_lookup s)(k := None)"
  proof (cases "slot_of k (d_slots s)")
    case None
    with dma_lookup_None [OF wf, of k] run_unbind [OF wf, of "Some k"] show ?thesis
      by (simp add: dma_del_def fun_upd_idem)
  next
    case (Some i)
    then show ?thesis
      by (intro dma_lookup_unbind [OF wf Some]) (simp add: dma_del_def run_unbind [OF wf])
  qed
  show "\<not> fst (dma_put k d s)" if "dma_lookup s k \<noteq> None"
    using that run_bind [OF wf, of k d] by (simp add: dma_put_def dma_lookup_None [OF wf])
qed

lemma keys_uniqueD:
  "keys_unique bs \<Longrightarrow> i < length bs \<Longrightarrow> j < length bs \<Longrightarrow> b_old (bs ! i) \<noteq> None \<Longrightarrow>
     b_old (bs ! i) = b_old (bs ! j) \<Longrightarrow> i = j"
  unfolding keys_unique_def by blast

lemma keys_unique_Cons:
  assumes "keys_unique (b # bs)"
  shows "keys_unique bs" "b_old b \<noteq> None \<Longrightarrow> c \<in> set bs \<Longrightarrow> b_old c \<noteq> b_old b"
proof -
  show "keys_unique bs"
    unfolding keys_unique_def
  proof (intro allI impI)
    fix i j assume "i < length bs" "j < length bs" "b_old (bs ! i) \<noteq> None" "b_old (bs ! i) = b_old (bs ! j)"
    then show "i = j" using keys_uniqueD [OF assms, of "Suc i" "Suc j"] by simp
  qed
  show "b_old c \<noteq> b_old b" if "b_old b \<noteq> None" "c \<in> set bs"
  proof -
    from that(2) obtain i where "i < length bs" "c = bs ! i" by (auto simp: in_set_conv_nth)
    then show ?thesis using keys_uniqueD [OF assms, of 0 "Suc i"] that(1) by auto
  qed
qed

lemma keys_distinct: "keys_unique bs \<Longrightarrow> distinct (map b_old (filter (\<lambda>b. b_old b \<noteq> None) bs))"
proof (induction bs)
  case (Cons b bs)
  then show ?case using keys_unique_Cons [OF Cons.prems] by (auto simp: image_iff)
qed simp

text \<open>As many keys are bound as slots are in use.\<close>

lemma card_bound:
  assumes "dma_wf s"
  shows "card (dom (dma_lookup s)) = length (filter (\<lambda>b. b_old b \<noteq> None) (d_slots s))"
proof -
  let ?used = "filter (\<lambda>b. b_old b \<noteq> None) (d_slots s)"
  have "dom (dma_lookup s) = {k. \<exists>b \<in> set (d_slots s). b_old b = Some k}"
    using dma_lookup_None [OF assms] by (auto simp: dom_def slot_of_None)
  then have "Some ` dom (dma_lookup s) = set (map b_old ?used)" by (auto simp: image_iff) force
  then have "card (Some ` dom (dma_lookup s)) = length ?used"
    using distinct_card [OF keys_distinct [OF dma_wfD(4) [OF assms]]] by simp
  then show ?thesis by (simp add: card_image)
qed

lemma full_iff:
  assumes "dma_wf s"
  shows "free_of (d_slots s) = None \<longleftrightarrow> card (dom (dma_lookup s)) = DMA419_SLOTS"
  using dma_wfD(3) [OF assms] length_filter_less [of _ "d_slots s" "\<lambda>b. b_old b \<noteq> None"]
  by (fastforce simp: card_bound [OF assms] free_of_None)

text \<open>
  C28.  The registry.  Binding a key fails with \<^verbatim>\<open>-EEXIST\<close> exactly when it is bound already, with
  \<^verbatim>\<open>-ENOSPC\<close> exactly when it is not and eight others are, and then changes nothing.  Otherwise it succeeds,
  lookups find the device under this key and every other key as before, one reference is taken on the
  device, and unbinding the key restores both the bindings and the reference count.
\<close>

theorem shim_dma_bind_spec:
  assumes wf: "dma_wf s" and run: "run_state (shim_dma_bind (Some k) (Some d)) s = (r, s')"
  shows "(r = Inl EEXIST \<longleftrightarrow> dma_lookup s k \<noteq> None)
     \<and> (r = Inl ENOSPC \<longleftrightarrow> dma_lookup s k = None \<and> card (dom (dma_lookup s)) = DMA419_SLOTS)
     \<and> (r = Inr () \<longleftrightarrow> dma_lookup s k = None \<and> card (dom (dma_lookup s)) < DMA419_SLOTS)
     \<and> (if r = Inr () then dma_lookup s' = (dma_lookup s)(k \<mapsto> d) \<and> d_refs s' = (d_refs s)(d := d_refs s d + 1)
          \<and> dma_lookup (dma_del k s') = dma_lookup s \<and> d_refs (dma_del k s') = d_refs s
        else s' = s)"
proof -
  have le: "card (dom (dma_lookup s)) \<le> DMA419_SLOTS"
    using card_bound [OF wf] dma_wfD(3) [OF wf] length_filter_le [of "\<lambda>b. b_old b \<noteq> None" "d_slots s"] by simp
  show ?thesis
  proof (cases "slot_of k (d_slots s) = None \<and> free_of (d_slots s) \<noteq> None")
    case True
    then obtain i where i: "free_of (d_slots s) = Some i" by blast
    from True i run run_bind [OF wf, of k d] have r: "r = Inr ()"
      and s': "s' = s\<lparr>d_refs := (d_refs s)(d := d_refs s d + 1), d_slots := (d_slots s)[i := \<lparr>b_old = Some k, b_native = Some d\<rparr>]\<rparr>"
      by auto
    have put: "dma_put k d s = (True, s')" using run r by (simp add: dma_put_def)
    have wf': "dma_wf s'" using dmas.put_inv [OF wf _ put] by simp
    have slot: "slot_of k (d_slots s') = Some i"
      by (rule slot_of_unique [OF dma_wfD(4) [OF wf']]) (use free_of_Some [OF i] s' in simp_all)
    have "d_refs (dma_del k s') = d_refs s"
      using run_unbind [OF wf', of "Some k"] slot free_of_Some [OF i] by (simp add: dma_del_def s')
    then show ?thesis
      using True r s' le full_iff [OF wf] dma_lookup_None [OF wf, of k] dmas.put_done [OF wf _ put] dmas.put_del [OF wf _ put]
      by auto
  next
    case False
    then show ?thesis
      using run run_bind [OF wf, of k d] full_iff [OF wf] dma_lookup_None [OF wf, of k] le
      by (auto split: if_splits option.splits)
  qed
qed

section \<open>The operations\<close>

definition dlog :: "dma_ev list \<Rightarrow> dma \<Rightarrow> dma" where
  "dlog evs s = s\<lparr>d_log := d_log s @ evs\<rparr>"

lemma dlog_simps [simp]:
  "d_slots (dlog evs s) = d_slots s" "d_refs (dlog evs s) = d_refs s" "d_locked (dlog evs s) = d_locked s"
  "d_bug (dlog evs s) = d_bug s" "d_mlo (dlog evs s) = d_mlo s" "d_key (dlog evs s) = d_key s"
  "d_mask (dlog evs s) = d_mask s" "d_cmask (dlog evs s) = d_cmask s" "d_log (dlog evs s) = d_log s @ evs"
  "dlog [] s = s" "dlog a (dlog b s) = dlog (b @ a) s"
  by (simp_all add: dlog_def)

lemma dlog_wf [simp]: "dma_wf (dlog evs s) = dma_wf s"
  by (simp add: dma_wf_def)

lemma dlog_dev [simp]: "dma_dev (dlog evs s) old = dma_dev s old"
  by (simp add: dma_dev_def dma_lookup_def split: option.split)

lemma run_dcall [simp]: "run_state (dcall e) s = ((), dlog [e] s)"
  by (simp add: dcall_def modify_def dlog_def)

lemma run_gets [simp]: "run_state (gets f) s = (f s, s)"
  by (simp add: gets_def)

lemma put_pin [simp]: "run_state (put_device q) (dlog evs (pin q s)) = ((), dlog evs s)"
  by (cases q) (simp_all add: put_device_def pin_def dlog_def modify_def)

lemma put_pin0 [simp]: "run_state (put_device q) (pin q s) = ((), s)"
  using put_pin [of q "[]" s] by simp

lemma pin_log [simp]: "d_log (pin q s) = d_log s" "d_mask (pin q s) = d_mask s" "d_cmask (pin q s) = d_cmask s"
  by (simp_all add: pin_def split: option.split)

text \<open>Every operation pins the device for its duration only: what it leaves behind is its entry in
  the log of kernel calls.\<close>

lemma run_alloc:
  assumes "dma_wf s"
  shows "run_state (dma419_alloc K old sz handle flags attrs) s =
    (case dma_dev s old of
       Some d \<Rightarrow> if handle \<and> sz \<noteq> 0 \<and> dma419_args 0 attrs
         then (case k_alloc K (d_log s) of None \<Rightarrow> (None, Some DMA419_ERROR)
               | Some (cpu, h) \<Rightarrow> (Some cpu, Some (ucast h)),
               dlog [DmaAlloc d sz (shim_gfp419 K flags) attrs] s)
         else ((None, if handle then Some DMA419_ERROR else None), s)
     | None \<Rightarrow> ((None, if handle then Some DMA419_ERROR else None), s))"
  by (simp add: dma419_alloc_def run_device [OF assms] split: option.split)

lemma run_free:
  assumes "dma_wf s"
  shows "run_state (dma419_free old sz cpu h attrs) s = ((), case dma_dev s old of
       Some d \<Rightarrow> if dma419_args h attrs then dlog [DmaFree d sz cpu (ucast h) attrs] s else s
     | None \<Rightarrow> s)"
  by (simp add: dma419_free_def run_device [OF assms] split: option.split)

lemma run_map:
  assumes "dma_wf s"
  shows "run_state (dma419_map_page K old page off sz dir attrs) s = (case (dma_dev s old, page) of
       (Some d, Some p) \<Rightarrow> if sz \<noteq> 0 \<and> valid_dma_direction dir \<and> dma419_args 0 attrs
         then (if \<not> k_map_err K (k_map K (d_log s)) then ucast (k_map K (d_log s)) else DMA419_ERROR,
               dlog [DmaMap d p off sz dir attrs] s)
         else (DMA419_ERROR, s)
     | _ \<Rightarrow> (DMA419_ERROR, s))"
  by (auto simp: dma419_map_page_def run_device [OF assms] split: option.split)

lemma run_unmap:
  assumes "dma_wf s"
  shows "run_state (dma419_unmap_page old h sz dir attrs) s = ((), case dma_dev s old of
       Some d \<Rightarrow> if valid_dma_direction dir \<and> dma419_args h attrs then dlog [DmaUnmap d (ucast h) sz dir attrs] s else s
     | None \<Rightarrow> s)"
  by (auto simp: dma419_unmap_page_def run_device [OF assms] split: option.split)

lemma run_sync:
  assumes "dma_wf s"
  shows "run_state (dma419_sync_cpu old h sz dir) s = ((), case dma_dev s old of
       Some d \<Rightarrow> if valid_dma_direction dir \<and> dma419_args h 0 then dlog [SyncCpu d (ucast h) sz dir] s else s
     | None \<Rightarrow> s)"
    "run_state (dma419_sync_device old h sz dir) s = ((), case dma_dev s old of
       Some d \<Rightarrow> if valid_dma_direction dir \<and> dma419_args h 0 then dlog [SyncDev d (ucast h) sz dir] s else s
     | None \<Rightarrow> s)"
  by (auto simp: dma419_sync_cpu_def dma419_sync_device_def run_device [OF assms] split: option.split)

lemma run_supported:
  assumes "dma_wf s"
  shows "run_state (dma419_supported old m) s = ((case dma_dev s old of None \<Rightarrow> False
       | Some d \<Rightarrow> (case d_mask s d of None \<Rightarrow> False | Some dm \<Rightarrow> dm \<noteq> 0 \<and> m \<ge> dm \<and> m \<ge> d_cmask s d)), s)"
  by (simp add: dma419_supported_def run_device [OF assms] split: option.split)

lemmas run_ops = run_alloc run_free run_map run_unmap run_sync run_supported

text \<open>The 64-bit view of a native handle.\<close>

lemma ucast_handle_le: "(ucast (h :: u32) :: u64) \<le> U32_MAX"
proof -
  have lt: "unat h < 2 ^ LENGTH(32)" by (rule unsigned_less)
  then have "unat (ucast h :: u64) = unat h"
    by (simp add: unsigned_ucast_eq take_bit_nat_eq_self)
  then show ?thesis using lt by (simp add: U32_MAX_def word_le_nat_alt)
qed

lemma handle_args [simp]: "dma419_args (ucast (h :: u32)) 0"
  using ucast_handle_le [of h] by (simp add: dma419_args_def not_less)

lemma handle_back [simp]: "(ucast (ucast (h :: u32) :: u64) :: u32) = h"
  by (rule bit_word_eqI) (simp add: bit_simps)

lemma handle_error: "dma419_mapping_error (ucast (h :: u32)) \<longleftrightarrow> h = 0xffffffff"
proof
  assume "dma419_mapping_error (ucast h)"
  then have "(ucast h :: u64) = U32_MAX"
    using ucast_handle_le [of h] by (simp add: dma419_mapping_error_def order.antisym)
  then have "(ucast (ucast h :: u64) :: u32) = ucast U32_MAX" by simp
  then show "h = 0xffffffff" by (simp add: U32_MAX_def)
qed (simp add: dma419_mapping_error_def U32_MAX_def)

lemma error_is_error [simp]: "dma419_mapping_error DMA419_ERROR"
  by (simp add: dma419_mapping_error_def DMA419_ERROR_def U32_MAX_def)

text \<open>
  C30.  A streaming mapping survives the 64-bit interface.  With a bound device and proper arguments,
  \<^verbatim>\<open>map_page\<close> calls the native mapping once; \<^verbatim>\<open>mapping_error\<close> on the handle it returns tells exactly
  whether the native mapping failed; and if it did not, \<^verbatim>\<open>unmap_page\<close> with that handle reaches the same
  device with the native handle.  Bindings and reference counts are as before after both.
\<close>

theorem dma419_map_roundtrip:
  assumes wf: "dma_wf s" and dev: "dma_dev s old = Some d" and args: "sz \<noteq> 0" "valid_dma_direction dir"
    and err: "\<And>h. k_map_err K h \<longleftrightarrow> h = 0xffffffff"
    and map: "run_state (dma419_map_page K old (Some p) off sz dir 0) s = (h, s1)"
    and unmap: "run_state (dma419_unmap_page old h sz dir 0) s1 = ((), s2)"
  shows "(dma419_mapping_error h \<longleftrightarrow> k_map_err K (k_map K (d_log s)))
     \<and> s1 = dlog [DmaMap d p off sz dir 0] s
     \<and> (\<not> dma419_mapping_error h \<longrightarrow> s2 = dlog [DmaUnmap d (k_map K (d_log s)) sz dir 0] s1)
     \<and> d_slots s2 = d_slots s \<and> d_refs s2 = d_refs s"
proof -
  have zero: "dma419_args 0 0" by (simp add: dma419_args_def)
  from map run_map [OF wf] dev args zero
  have h: "h = (if \<not> k_map_err K (k_map K (d_log s)) then ucast (k_map K (d_log s)) else DMA419_ERROR)"
    and s1: "s1 = dlog [DmaMap d p off sz dir 0] s" by simp_all
  show ?thesis
    using unmap dev args wf run_unmap [of s1] by (auto simp: s1 h handle_error err split: if_splits)
qed

text \<open>
  The translation of the old allocation flags is additive: the flags of a union are the union of
  the flags, so no combination of old bits interferes with another, and bits above the table are
  dropped.
\<close>

theorem shim_gfp419_union:
  "shim_gfp419 K (a OR b) = shim_gfp419 K a OR shim_gfp419 K b
     \<and> shim_gfp419 K (a AND mask 24) = shim_gfp419 K a"
proof -
  have acc: "fold (gfp_map K x) t f = f OR fold (gfp_map K x) t 0" for x t f
  proof (induction t arbitrary: f)
    case (Cons m t)
    show ?case using Cons [of "gfp_map K x m f"] Cons [of "gfp_map K x m 0"] by (simp add: gfp_map_def or.assoc)
  qed simp
  have hit: "(x OR y) AND m = 0 \<longleftrightarrow> x AND m = 0 \<and> y AND m = 0" for x y m :: u32
    by (simp add: bit.conj_disj_distrib2 or_eq_0_iff)
  have swap: "(p OR q) OR (r OR t) = (p OR r) OR (q OR t)" for p q r t :: u32
    by (rule bit_word_eqI) (auto simp: bit_simps)
  have one: "gfp_map K (x OR y) m 0 = gfp_map K x m 0 OR gfp_map K y m 0" for x y m
    by (simp add: gfp_map_def hit)
  have join: "fold (gfp_map K (x OR y)) t 0 = fold (gfp_map K x) t 0 OR fold (gfp_map K y) t 0" for x y t
  proof (induction t)
    case (Cons m t)
    have step: "fold (gfp_map K z) (m # t) 0 = gfp_map K z m 0 OR fold (gfp_map K z) t 0" for z
      using acc [of z t "gfp_map K z m 0"] by simp
    show ?case unfolding step one Cons by (rule swap)
  qed simp
  have low: "fold (gfp_map K (a AND mask 24)) gfp_table f = fold (gfp_map K a) gfp_table f" for f
    by (simp add: gfp_table_def gfp_map_def and.assoc mask_eq_exp_minus_1)
  show ?thesis
  proof
    have split: "shim_gfp419 K x = (x AND 0xff) OR fold (gfp_map K x) gfp_table 0" for x
      unfolding shim_gfp419_def by (rule acc)
    show "shim_gfp419 K (a OR b) = shim_gfp419 K a OR shim_gfp419 K b"
      unfolding split join bit.conj_disj_distrib2 by (rule swap)
    have "(a AND mask 24) AND 0xff = a AND 0xff" by (simp add: and.assoc mask_eq_exp_minus_1)
    then show "shim_gfp419 K (a AND mask 24) = shim_gfp419 K a" unfolding shim_gfp419_def by (simp only: low)
  qed
qed

section \<open>Histories\<close>

text \<open>The registry's account: each device has the references it had before the module was loaded and
  one for every slot bound to it.\<close>

definition dma_inv :: "(dev \<Rightarrow> int) \<Rightarrow> dma \<Rightarrow> bool" where
  "dma_inv base s \<longleftrightarrow> dma_wf s \<and> (\<forall>d. d_refs s d = base d + held (d_slots s) d)"

text \<open>The calls, in any order.  A caller of \<^verbatim>\<open>shim_dma_get_device\<close> puts the reference back.\<close>

datatype dma_op =
    OpBind ptr "dev option"
  | OpUnbind ptr
  | OpGetPut ptr
  | OpAlloc ptr u32 bool u32 u32
  | OpFree ptr u32 ptr u64 u32
  | OpMap ptr ptr u32 u32 dma_dir u32
  | OpUnmap ptr u64 u32 dma_dir u32
  | OpSyncCpu ptr u64 u32 dma_dir
  | OpSyncDev ptr u64 u32 dma_dir
  | OpSupported ptr u64
  | OpArchSetup ptr u64 u64 ptr bool
  | OpHndKfree ptr
  | OpInit bool nat
  | OpExit

primrec dma_exec :: "dma_kernel \<Rightarrow> dma_op \<Rightarrow> dma \<Rightarrow> dma" where
  "dma_exec K (OpBind old native) s = snd (run_state (shim_dma_bind old native) s)"
| "dma_exec K (OpUnbind old) s = snd (run_state (shim_dma_unbind old) s)"
| "dma_exec K (OpGetPut old) s = snd (run_state (do { d \<leftarrow> shim_dma_get_device old; put_device d }) s)"
| "dma_exec K (OpAlloc old sz handle flags attrs) s = snd (run_state (dma419_alloc K old sz handle flags attrs) s)"
| "dma_exec K (OpFree old sz cpu h attrs) s = snd (run_state (dma419_free old sz cpu h attrs) s)"
| "dma_exec K (OpMap old page off sz dir attrs) s = snd (run_state (dma419_map_page K old page off sz dir attrs) s)"
| "dma_exec K (OpUnmap old h sz dir attrs) s = snd (run_state (dma419_unmap_page old h sz dir attrs) s)"
| "dma_exec K (OpSyncCpu old h sz dir) s = snd (run_state (dma419_sync_cpu old h sz dir) s)"
| "dma_exec K (OpSyncDev old h sz dir) s = snd (run_state (dma419_sync_device old h sz dir) s)"
| "dma_exec K (OpSupported old m) s = snd (run_state (dma419_supported old m) s)"
| "dma_exec K (OpArchSetup old b sz iommu coh) s = snd (run_state (bcm419_arch_setup_dma_ops old b sz iommu coh) s)"
| "dma_exec K (OpHndKfree p) s = snd (run_state (bcm419_hnd_kfree p) s)"
| "dma_exec K (OpInit test key) s = snd (run_state (shim_dma_init K test key) s)"
| "dma_exec K OpExit s = snd (run_state shim_dma_exit s)"

lemma dma_inv_frame:
  "dma_inv base s \<Longrightarrow> d_slots s' = d_slots s \<Longrightarrow> d_refs s' = d_refs s \<Longrightarrow> d_locked s' = d_locked s \<Longrightarrow>
     d_bug s' = d_bug s \<Longrightarrow> dma_inv base s'"
  by (simp add: dma_inv_def dma_wf_def)

lemma dlog_inv [simp]: "dma_inv base (dlog evs s) = dma_inv base s"
  by (simp add: dma_inv_def)

lemma dma_inv_wf: "dma_inv base s \<Longrightarrow> dma_wf s"
  by (simp add: dma_inv_def)

lemma keeps_bind_op [keeps_rules]: "keeps (dma_inv base) (shim_dma_bind old native)"
  unfolding keeps_def
proof (intro allI impI)
  fix s assume inv: "dma_inv base s"
  note wf = dma_inv_wf [OF inv]
  have "d_refs (snd (run_state (shim_dma_bind old native) s)) d =
      base d + held (d_slots (snd (run_state (shim_dma_bind old native) s))) d" for d
  proof (cases "\<exists>k x. old = Some k \<and> native = Some x")
    case True
    then obtain k x where kx: "old = Some k" "native = Some x" by blast
    have "b_native (d_slots s ! i) = None" if "free_of (d_slots s) = Some i" for i
      using dma_wfD(5) [OF wf, of i] free_of_Some [OF that] by simp
    then show ?thesis
      using inv run_bind [OF wf, of k x] free_of_Some [of "d_slots s"]
      by (auto simp: kx dma_inv_def held_update split: option.splits)
  next
    case False
    then show ?thesis using inv by (auto simp: shim_dma_bind_def dma_inv_def split: option.splits)
  qed
  then show "dma_inv base (snd (run_state (shim_dma_bind old native) s))"
    using dma_wf_bind [OF wf] by (simp add: dma_inv_def)
qed

lemma keeps_unbind_op [keeps_rules]: "keeps (dma_inv base) (shim_dma_unbind old)"
  unfolding keeps_def
proof (intro allI impI)
  fix s assume inv: "dma_inv base s"
  note wf = dma_inv_wf [OF inv]
  have "d_refs (snd (run_state (shim_dma_unbind old) s)) d =
      base d + held (d_slots (snd (run_state (shim_dma_unbind old) s))) d" for d
    using inv run_unbind [OF wf, of old] slot_of_Some [of _ "d_slots s"]
    by (auto simp: dma_inv_def held_update split: option.splits)
  then show "dma_inv base (snd (run_state (shim_dma_unbind old) s))"
    using dma_wf_unbind [OF wf] by (simp add: dma_inv_def)
qed

text \<open>The operations keep whatever does not depend on the log.\<close>

definition log_blind :: "(dma \<Rightarrow> bool) \<Rightarrow> bool" where
  "log_blind I \<longleftrightarrow> (\<forall>s. I s \<longrightarrow> dma_wf s) \<and> (\<forall>evs s. I s \<longrightarrow> I (dlog evs s))"

lemma log_blind_inv [simp]: "log_blind (dma_inv base)"
  by (simp add: log_blind_def dma_inv_def)

lemma keeps_ops [keeps_rules]:
  assumes "log_blind I"
  shows "keeps I (dma419_alloc K old sz handle flags attrs)"
    "keeps I (dma419_free old sz cpu h attrs)"
    "keeps I (dma419_map_page K old page off sz dir attrs)"
    "keeps I (dma419_unmap_page old h sz dir attrs)"
    "keeps I (dma419_sync_cpu old h sz dir)"
    "keeps I (dma419_sync_device old h sz dir)"
    "keeps I (dma419_supported old m)"
    "keeps I (do { d \<leftarrow> shim_dma_get_device old; put_device d })"
    "keeps I (dcall e)"
proof -
  from assms have wf: "I s \<Longrightarrow> dma_wf s" and log: "I s \<Longrightarrow> I (dlog evs s)" for s evs
    by (simp_all add: log_blind_def)
  show "keeps I (dma419_alloc K old sz handle flags attrs)"
    "keeps I (dma419_free old sz cpu h attrs)"
    "keeps I (dma419_map_page K old page off sz dir attrs)"
    "keeps I (dma419_unmap_page old h sz dir attrs)"
    "keeps I (dma419_sync_cpu old h sz dir)"
    "keeps I (dma419_sync_device old h sz dir)"
    "keeps I (dma419_supported old m)"
    "keeps I (do { d \<leftarrow> shim_dma_get_device old; put_device d })"
    "keeps I (dcall e)"
    by (simp_all add: keeps_def run_ops [OF wf] run_device [OF wf] shim_dma_get_device_def log split: option.split)
qed

lemma keeps_dma_modify:
  "(\<And>s. d_slots (f s) = d_slots s \<and> d_refs (f s) = d_refs s \<and> d_locked (f s) = d_locked s \<and> d_bug (f s) = d_bug s) \<Longrightarrow>
     keeps (dma_inv base) (modify f)"
  by (rule keeps_modify, erule dma_inv_frame) simp_all

lemma keeps_selftest_body [keeps_rules]:
  assumes "log_blind I"
  shows "keeps I (selftest_body K key)"
  unfolding selftest_body_def Let_def by (intro keeps_rules assms)

lemma keeps_selftest [keeps_rules]: "keeps (dma_inv base) (dma419_selftest K key)"
  unfolding dma419_selftest_def case_prod_beta by (intro keeps_rules log_blind_inv)

lemma keeps_arch_setup: "keeps (dma_inv base) (bcm419_arch_setup_dma_ops old b sz iommu coh)"
  unfolding bcm419_arch_setup_dma_ops_def by (intro keeps_rules keeps_dma_modify log_blind_inv) simp

lemma keeps_hnd_kfree: "keeps (dma_inv base) (bcm419_hnd_kfree p)"
  unfolding bcm419_hnd_kfree_def by (intro keeps_rules keeps_dma_modify log_blind_inv) simp

lemma keeps_init: "keeps (dma_inv base) (shim_dma_init K test key)"
  unfolding shim_dma_init_def by (intro keeps_rules keeps_dma_modify log_blind_inv) simp_all

lemma keeps_exit: "keeps (dma_inv base) shim_dma_exit"
  unfolding shim_dma_exit_def by (intro keeps_rules keeps_dma_modify log_blind_inv) simp

interpretation dma_sys: inv_system "\<lambda>s. s = dma_boot base" "dma_exec K" "dma_inv base" for base K
proof
  show "dma_inv base s" if "s = dma_boot base" for s
    using that by (simp add: dma_boot_def dma_inv_def dma_wf_def keys_unique_def held_def)
  show "dma_inv base s \<Longrightarrow> dma_inv base (dma_exec K op s)" for op s
    by (cases op)
      (simp_all add: keeps_run [OF keeps_bind_op] keeps_run [OF keeps_unbind_op]
        keeps_ops [OF log_blind_inv, THEN keeps_run, simplified] keeps_run [OF keeps_arch_setup]
        keeps_run [OF keeps_hnd_kfree] keeps_run [OF keeps_init] keeps_run [OF keeps_exit])
qed

lemma exit_frees_slot:
  assumes wf: "dma_wf s" and j: "j < DMA419_SLOTS"
  shows "\<exists>b r. snd (run_state (shim_dma_unbind (b_old (d_slots s ! j))) s) = s\<lparr>d_slots := (d_slots s)[j := b], d_refs := r\<rparr>
     \<and> b_old b = None"
proof (cases "b_old (d_slots s ! j)")
  case None
  then show ?thesis using run_unbind [OF wf, of None] by (intro exI [of _ "d_slots s ! j"] exI [of _ "d_refs s"]) simp
next
  case (Some k)
  have "slot_of k (d_slots s) = Some j"
    by (rule slot_of_unique [OF dma_wfD(4) [OF wf]]) (use Some j dma_wfD(3) [OF wf] in simp_all)
  then show ?thesis using run_unbind [OF wf, of "Some k"] Some by (auto intro!: exI [of _ "\<lparr>b_old = None, b_native = None\<rparr>"])
qed

lemma exit_empties:
  assumes "dma_inv base s"
  shows "wp shim_dma_exit (\<lambda>_ s'. \<forall>i < DMA419_SLOTS. b_old (d_slots s' ! i) = None) s"
proof -
  have "wp (for_each [0..<DMA419_SLOTS] (\<lambda>i. do { old \<leftarrow> gets (\<lambda>s. b_old (d_slots s ! i)); shim_dma_unbind old }))
      (\<lambda>_ s'. \<forall>i < DMA419_SLOTS. b_old (d_slots s' ! i) = None) s"
  proof (rule wp_for_each_inv [where I = "\<lambda>xs s. dma_inv base s \<and> (\<forall>i \<in> set xs. b_old (d_slots s ! i) = None)"])
    fix xs j ys t assume split: "[0..<DMA419_SLOTS] = xs @ j # ys"
      and t: "dma_inv base t \<and> (\<forall>i \<in> set xs. b_old (d_slots t ! i) = None)"
    let ?m = "shim_dma_unbind (b_old (d_slots t ! j))"
    have "j \<in> set [0..<DMA419_SLOTS]" unfolding split by simp
    then have j: "j < DMA419_SLOTS" by simp
    obtain b r where eff: "snd (run_state ?m t) = t\<lparr>d_slots := (d_slots t)[j := b], d_refs := r\<rparr>" "b_old b = None"
      using exit_frees_slot [OF dma_inv_wf [OF conjunct1 [OF t]] j] by blast
    have len: "j < length (d_slots t)" using dma_wfD(3) [OF dma_inv_wf [OF conjunct1 [OF t]]] j by simp
    have "b_old ((d_slots t)[j := b] ! i) = None" if "i \<in> set xs \<or> i = j" for i
      using that t eff(2) len by (cases "i = j") auto
    moreover have "dma_inv base (snd (run_state ?m t))" using keeps_run [OF keeps_unbind_op] t by blast
    ultimately show "wp (do { old \<leftarrow> gets (\<lambda>s. b_old (d_slots s ! j)); shim_dma_unbind old })
        (\<lambda>_ s''. dma_inv base s'' \<and> (\<forall>i \<in> set (xs @ [j]). b_old (d_slots s'' ! i) = None)) t"
      unfolding wp_bind wp_gets using eff(1) by (auto simp: wp_def case_prod_beta)
  qed (use assms in auto)
  then show ?thesis
    unfolding shim_dma_exit_def by (rule wp_seq) (simp add: wp_simps dcall_def split: option.split)
qed

lemma no_slots_no_refs:
  assumes "dma_inv base s" and "\<forall>i < DMA419_SLOTS. b_old (d_slots s ! i) = None"
  shows "d_refs s = base" "dma_lookup s k = None"
proof -
  note wf = dma_inv_wf [OF assms(1)]
  have "b_old b = None" if "b \<in> set (d_slots s)" for b
    using that assms(2) dma_wfD(3) [OF wf] by (auto simp: in_set_conv_nth)
  then have none: "\<forall>b \<in> set (d_slots s). b_old b = None \<and> b_native b = None"
    using wf by (auto simp: dma_wf_def)
  then have "held (d_slots s) d = 0" for d by (auto simp: held_def filter_empty_conv)
  then show "d_refs s = base" using assms(1) by (auto simp: dma_inv_def)
  show "dma_lookup s k = None" using none by (auto simp: dma_lookup_None [OF wf] slot_of_None)
qed

text \<open>
  C29.  After loading the module and any sequence of calls, a device has exactly the references it had
  before plus one for every slot bound to it, keys are unique and the registry lock is free: no operation
  leaks or drops a reference, on any path.  Unloading at any time clears all eight slots and returns
  every reference.
\<close>

theorem dma_history_balance:
  "(let s = fold (dma_exec K) calls (dma_boot base)
    in dma_wf s \<and> (\<forall>d. d_refs s d = base d + held (d_slots s) d))
   \<and> (let s = dma_exec K OpExit (fold (dma_exec K) calls (dma_boot base))
      in (\<forall>k. dma_lookup s k = None) \<and> d_refs s = base)"
proof -
  let ?s = "fold (dma_exec K) calls (dma_boot base)"
  have inv: "dma_inv base ?s" by (rule dma_sys.reachable_inv) (rule refl)
  have "dma_inv base (dma_exec K OpExit ?s)" using keeps_run [OF keeps_exit inv] by simp
  moreover have "\<forall>i < DMA419_SLOTS. b_old (d_slots (dma_exec K OpExit ?s) ! i) = None"
    using exit_empties [OF inv] by (simp add: wp_def case_prod_beta)
  ultimately show ?thesis
    using inv no_slots_no_refs [of base "dma_exec K OpExit ?s"] by (simp add: Let_def dma_inv_def)
qed

section \<open>The self-test\<close>

text \<open>The body of the self-test hands the buffer it allocated, and the handle that goes with it, to the
  clean-up on every path.\<close>

lemma selftest_body_buffer:
  assumes wf: "dma_wf s" and dev: "dma_dev s (Some key) = Some d" and got: "k_alloc K (d_log s) = Some (cpu, h)"
    and run: "run_state (selftest_body K key) s = ((pass, cpu', guard, stream, mapped), s')"
  shows "cpu' = Some cpu \<and> g_handle guard = ucast h"
proof -
  let ?P = "\<lambda>r :: bool \<times> ptr \<times> dma_guard \<times> ptr \<times> u64. fst (snd r) = Some cpu \<and> g_handle (fst (snd (snd r))) = ucast h"
  have alloc: "run_state (dma419_alloc K (Some key) PAGE_SIZE True 0x6080c0 0) s =
      ((Some cpu, Some (ucast h)), dlog [DmaAlloc d PAGE_SIZE (shim_gfp419 K 0x6080c0) 0] s)"
    using run_alloc [OF wf] dev got by (simp add: dma419_args_def)
  have "?P (fst (run_state (selftest_body K key) s))"
    unfolding selftest_body_def Let_def by (rule rets_after [OF alloc]) (intro rets_rules; simp)
  then show ?thesis by (simp add: run)
qed

lemma shim_dma_bind_fail:
  assumes "dma_wf s" and "\<not> (\<exists>d. native = Some d \<and> slot_of k (d_slots s) = None \<and> free_of (d_slots s) \<noteq> None)"
  shows "\<exists>e. run_state (shim_dma_bind (Some k) native) s = (Inl e, s)"
proof (cases native)
  case (Some d)
  then show ?thesis using run_bind [OF assms(1), of k d] assms(2) by (auto split: option.splits)
qed (simp add: shim_dma_bind_def)

text \<open>The clean-up, up to the final unbinding.\<close>

lemma selftest_cleanup:
  assumes wf: "dma_wf u" and dev: "dma_dev u (Some key) = Some d"
  shows "\<exists>evs. run_state (do {
       (if \<not> dma419_mapping_error mapped
        then dma419_unmap_page (Some key) mapped PAGE_SIZE DMA_BIDIRECTIONAL 0 else return ());
       dcall (Kfree stream);
       (if cpu \<noteq> None then dma419_free (Some key) PAGE_SIZE cpu (g_handle guard) 0 else return ());
       shim_dma_unbind (Some key);
       return x }) u = (x, dma_del key (dlog evs u))
     \<and> (\<forall>c h. cpu = Some c \<longrightarrow> g_handle guard = ucast (h :: u32) \<longrightarrow> DmaFree d PAGE_SIZE (Some c) h 0 \<in> set evs)"
proof -
  define m where "m = (if \<not> dma419_mapping_error mapped \<and> dma419_args mapped 0
    then [DmaUnmap d (ucast mapped) PAGE_SIZE DMA_BIDIRECTIONAL 0] else [])"
  define f where "f = (if cpu \<noteq> None \<and> dma419_args (g_handle guard) 0
    then [DmaFree d PAGE_SIZE cpu (ucast (g_handle guard)) 0] else [])"
  have dir: "valid_dma_direction DMA_BIDIRECTIONAL" by (simp add: valid_dma_direction_def)
  have "run_state (if \<not> dma419_mapping_error mapped
        then dma419_unmap_page (Some key) mapped PAGE_SIZE DMA_BIDIRECTIONAL 0 else return ()) u = ((), dlog m u)"
    using run_unmap [OF wf] dev dir by (simp add: m_def)
  moreover have "run_state (if cpu \<noteq> None then dma419_free (Some key) PAGE_SIZE cpu (g_handle guard) 0 else return ())
      (dlog (m @ [Kfree stream]) u) = ((), dlog (m @ [Kfree stream] @ f) u)"
    using run_free [of "dlog (m @ [Kfree stream]) u"] wf dev by (simp add: f_def)
  ultimately show ?thesis
    by (intro exI [of _ "m @ [Kfree stream] @ f"]) (auto simp: dma_del_def f_def split: prod.splits)
qed

text \<open>Unbinding the key that a successful binding put into slot \<open>i\<close>.\<close>

lemma unbind_restores:
  assumes wf: "dma_wf s" and slot: "slot_of key (d_slots s) = None" "free_of (d_slots s) = Some i"
    and u: "dma_wf u" "d_slots u = (d_slots s)[i := \<lparr>b_old = Some key, b_native = Some d\<rparr>]"
      "d_refs u = (d_refs s)(d := d_refs s d + 1)"
  shows "d_slots (dma_del key u) = d_slots s" "d_refs (dma_del key u) = d_refs s" "d_log (dma_del key u) = d_log u"
proof -
  note fi = free_of_Some [OF slot(2)]
  have at: "slot_of key (d_slots u) = Some i"
    by (rule slot_of_unique [OF dma_wfD(4) [OF u(1)]]) (use fi in \<open>simp_all add: u(2)\<close>)
  have "d_slots s ! i = \<lparr>b_old = None, b_native = None\<rparr>"
    using fi dma_wfD(5) [OF wf, of i] by (cases "d_slots s ! i") simp
  then have "(d_slots s)[i := \<lparr>b_old = None, b_native = None\<rparr>] = d_slots s" by (metis list_update_id)
  then show "d_slots (dma_del key u) = d_slots s" "d_refs (dma_del key u) = d_refs s" "d_log (dma_del key u) = d_log u"
    using run_unbind [OF u(1), of "Some key"] at fi by (simp_all add: dma_del_def u(2,3))
qed

lemma dma_dev_cong: "d_slots s' = d_slots s \<Longrightarrow> dma_dev s' = dma_dev s"
  by (simp add: dma_dev_def dma_lookup_def [abs_def] fun_eq_iff split: option.split)

lemma selftest_started:
  assumes wf: "dma_wf s" and d: "d_mlo s = Some d" "slot_of key (d_slots s) = None" "free_of (d_slots s) = Some i"
    and run: "run_state (dma419_selftest K key) s = (r, s')"
  shows "d_slots s' = d_slots s \<and> d_refs s' = d_refs s \<and> dma_wf s'
     \<and> (\<forall>cpu h. k_alloc K (d_log s) = Some (cpu, h) \<longrightarrow> DmaFree d PAGE_SIZE (Some cpu) h 0 \<in> set (d_log s'))"
proof -
  define t where "t = s\<lparr>d_refs := (d_refs s)(d := d_refs s d + 1), d_slots := (d_slots s)[i := \<lparr>b_old = Some key, b_native = Some d\<rparr>]\<rparr>"
  have bind: "run_state (shim_dma_bind (Some key) (d_mlo s)) s = (Inr (), t)"
    using run_bind [OF wf, of key d] d by (simp add: t_def)
  have wft: "dma_wf t" using dma_wf_bound [OF wf d(2)] by (simp add: t_def)
  have dev: "dma_dev t (Some key) = Some d"
    using dma_lookup_bind [OF wf d(2,3), of t d] by (simp add: dma_dev_def t_def)
  obtain pass cpu' guard stream mapped u
    where body: "run_state (selftest_body K key) t = ((pass, cpu', guard, stream, mapped), u)"
    by (metis surj_pair)
  define I where "I = (\<lambda>x. dma_wf x \<and> d_slots x = d_slots t \<and> d_refs x = d_refs t)"
  have "log_blind I" by (simp add: log_blind_def I_def)
  from keepsD [OF keeps_selftest_body [OF this] _ body] wft
  have u: "dma_wf u" "d_slots u = d_slots t" "d_refs u = d_refs t" by (simp_all add: I_def)
  have devu: "dma_dev u (Some key) = Some d" using dev by (simp add: dma_dev_cong [OF u(2)])
  obtain evs where fin: "s' = dma_del key (dlog evs u)"
    and freed: "\<And>c h. cpu' = Some c \<Longrightarrow> g_handle guard = ucast (h :: u32) \<Longrightarrow> DmaFree d PAGE_SIZE (Some c) h 0 \<in> set evs"
    using selftest_cleanup [OF u(1) devu, of mapped stream cpu' guard "if pass then Inr () else Inl EIO"] run bind body
    by (auto simp: dma419_selftest_def bindE_def split: prod.splits)
  have "DmaFree d PAGE_SIZE (Some cpu) h 0 \<in> set evs" if "k_alloc K (d_log s) = Some (cpu, h)" for cpu h
    using freed selftest_body_buffer [OF wft dev _ body, of cpu h] that by (simp add: t_def)
  moreover have "dma_wf s'" unfolding fin using dmas.del_inv [of "dlog evs u" key] u(1) by simp
  ultimately show ?thesis
    unfolding fin using unbind_restores [OF wf d(2,3), of "dlog evs u" d] u by (auto simp: t_def)
qed

text \<open>
  The self-test gives back what it took, whether it passes, fails at any of its checks, or cannot
  start: the bindings and the reference counts are as before, and a coherent buffer the kernel handed out
  is freed on the device, at the address and with the native handle it came with.
\<close>

theorem dma419_selftest_gives_back:
  assumes wf: "dma_wf s" and run: "run_state (dma419_selftest K key) s = (r, s')"
  shows "d_slots s' = d_slots s \<and> d_refs s' = d_refs s \<and> dma_wf s'
     \<and> (\<forall>d cpu h. d_mlo s = Some d \<longrightarrow> dma_lookup s key = None \<longrightarrow> card (dom (dma_lookup s)) \<noteq> DMA419_SLOTS \<longrightarrow>
          k_alloc K (d_log s) = Some (cpu, h) \<longrightarrow> DmaFree d PAGE_SIZE (Some cpu) h 0 \<in> set (d_log s'))"
proof (cases "\<exists>d. d_mlo s = Some d \<and> slot_of key (d_slots s) = None \<and> free_of (d_slots s) \<noteq> None")
  case False
  from shim_dma_bind_fail [OF wf this] obtain e where "run_state (shim_dma_bind (Some key) (d_mlo s)) s = (Inl e, s)" ..
  with run have "s' = s" by (simp add: dma419_selftest_def bindE_def)
  with False wf show ?thesis by (auto simp: dma_lookup_None [OF wf] full_iff [OF wf, symmetric])
next
  case True
  then obtain d i where d: "d_mlo s = Some d" "slot_of key (d_slots s) = None" "free_of (d_slots s) = Some i" by blast
  from selftest_started [OF wf d run] d(1) show ?thesis by auto
qed

section \<open>Concrete instances\<close>

text \<open>A kernel that always has memory, and a device with the number 7 that the module registers.\<close>

definition quiet_kernel :: dma_kernel where
  "quiet_kernel = \<lparr>k_alloc = (\<lambda>_. Some (0x1000, 0x8000)), k_map = (\<lambda>_. 0x9000), k_map_err = (\<lambda>h. h = 0xffffffff),
     k_gfp = (\<lambda>_. 0), k_register = (\<lambda>_. Inr 7), k_set_mask = (\<lambda>_. Inr ()), k_malloc = (\<lambda>_. Some 0x9000),
     k_all_bytes = (\<lambda>_ _ _. True), k_page = (\<lambda>p. p), k_off = (\<lambda>_. 0), k_phys = (\<lambda>_. 0x9000)\<rparr>"

lemma quiet_simps [simp]:
  "k_alloc quiet_kernel l = Some (0x1000, 0x8000)" "k_map quiet_kernel l = 0x9000"
  "k_map_err quiet_kernel h \<longleftrightarrow> h = 0xffffffff"
  by (simp_all add: quiet_kernel_def)

definition dma_bound :: dma where
  "dma_bound = dma_exec quiet_kernel (OpBind (Some 3) (Some 7)) (dma_exec quiet_kernel (OpInit False 0) (dma_boot (\<lambda>_. 0)))"

lemma dma_bound_wf: "dma_wf dma_bound"
proof -
  have "dma_inv (\<lambda>_. 0) (fold (dma_exec quiet_kernel) [OpInit False 0, OpBind (Some 3) (Some 7)] (dma_boot (\<lambda>_. 0)))"
    by (rule dma_sys.reachable_inv) (rule refl)
  then show ?thesis by (simp add: dma_bound_def dma_inv_def)
qed

lemma dma_bound_slots:
  "d_slots dma_bound = (replicate 8 \<lparr>b_old = None, b_native = None\<rparr>)[0 := \<lparr>b_old = Some 3, b_native = Some 7\<rparr>]"
  "d_mlo dma_bound = Some 7"
proof -
  let ?s = "dma_exec quiet_kernel (OpInit False 0) (dma_boot (\<lambda>_. 0))"
  have slots: "d_slots ?s = replicate 8 \<lparr>b_old = None, b_native = None\<rparr>" "d_mlo ?s = Some 7"
    by (simp_all add: shim_dma_init_def modify_def dma_boot_def quiet_kernel_def)
  have wf: "dma_wf ?s"
    using dma_sys.exec_inv [OF dma_sys.start_inv [OF refl]] dma_inv_wf by blast
  have "replicate 8 x = x # replicate 7 x" for x :: dma_binding by (simp add: numeral_eq_Suc)
  then have "slot_of 3 (d_slots ?s) = None" "free_of (d_slots ?s) = Some 0" unfolding slots by (simp_all add: slot_of_None)
  then show "d_slots dma_bound = (replicate 8 \<lparr>b_old = None, b_native = None\<rparr>)[0 := \<lparr>b_old = Some 3, b_native = Some 7\<rparr>]"
    "d_mlo dma_bound = Some 7"
    using run_bind [OF wf, of 3 7] slots by (simp_all add: dma_bound_def)
qed

lemma dma_bound_dev: "dma_dev dma_bound (Some 3) = Some 7"
  by (simp add: dma_dev_def dma_lookup_def dma_bound_slots numeral_eq_Suc)

theorem shim_dma_bind_spec_witness:
  "fst (run_state (shim_dma_bind (Some 3) (Some 7)) dma_bound) = Inl EEXIST
     \<and> snd (run_state (shim_dma_bind (Some 3) (Some 7)) dma_bound) = dma_bound"
  using shim_dma_bind_spec [OF dma_bound_wf surjective_pairing, of 3 7] dma_bound_dev by (simp add: dma_dev_def)

theorem dma419_map_roundtrip_witness:
  "let m = run_state (dma419_map_page quiet_kernel (Some 3) (Some 4) 0 64 DMA_TO_DEVICE 0) dma_bound in
     \<not> dma419_mapping_error (fst m)
     \<and> snd (run_state (dma419_unmap_page (Some 3) (fst m) 64 DMA_TO_DEVICE 0) (snd m)) =
         dlog [DmaUnmap 7 0x9000 64 DMA_TO_DEVICE 0] (snd m)"
proof -
  let ?m = "run_state (dma419_map_page quiet_kernel (Some 3) (Some 4) 0 64 DMA_TO_DEVICE 0) dma_bound"
  let ?u = "run_state (dma419_unmap_page (Some 3) (fst ?m) 64 DMA_TO_DEVICE 0) (snd ?m)"
  have "?u = ((), snd ?u)" by (simp add: prod_eq_iff)
  from dma419_map_roundtrip [OF dma_bound_wf dma_bound_dev _ _ _ surjective_pairing this]
  show ?thesis by (auto simp: valid_dma_direction_def Let_def)
qed

theorem dma419_selftest_gives_back_witness:
  "DmaFree 7 0x1000 (Some 0x1000) 0x8000 0 \<in> set (d_log (snd (run_state (dma419_selftest quiet_kernel 2) dma_bound)))"
proof -
  have "slot_of 2 (d_slots dma_bound) = None" "free_of (d_slots dma_bound) \<noteq> None"
    by (simp_all add: dma_bound_slots numeral_eq_Suc)
  then show ?thesis
    using dma419_selftest_gives_back [OF dma_bound_wf surjective_pairing, of quiet_kernel 2]
    by (simp add: dma_lookup_None [OF dma_bound_wf] full_iff [OF dma_bound_wf, symmetric] dma_bound_slots(2))
qed

end
