(* ===== verification/Skb_Layout.thy ===== *)
theory Skb_Layout
  imports Prelude66
begin

text \<open>
  The byte layout of the old packet descriptor and of its shared info
  (\<^verbatim>\<open>bsp-6.6/compat/shim_skb_layout.h\<close>, \<^verbatim>\<open>shim_skb_meta.h\<close>), and the accessors \<^verbatim>\<open>LOAD\<close>, \<^verbatim>\<open>STORE\<close>,
  \<^verbatim>\<open>BITVAL\<close> and \<^verbatim>\<open>SETBIT\<close> of \<^verbatim>\<open>shim_skb.c\<close> on it.  A descriptor is the list of its 384 bytes, a field an
  offset and a width; a store to one field leaves every field it does not overlap alone.
\<close>

named_theorems layout_simps \<open>loads and stores at the fields of a descriptor\<close>

section \<open>Little-endian words in byte lists\<close>

primrec le_word :: "u8 list \<Rightarrow> 'a::len word" where
  "le_word [] = 0"
| "le_word (b # bs) = ucast b OR push_bit 8 (le_word bs)"

primrec le_bytes :: "nat \<Rightarrow> 'a::len word \<Rightarrow> u8 list" where
  "le_bytes 0 x = []"
| "le_bytes (Suc n) x = ucast x # le_bytes n (drop_bit 8 x)"

lemma length_le_bytes [simp]: "length (le_bytes n x) = n"
  by (induction n arbitrary: x) simp_all

lemma le_word_bytes: "le_word (le_bytes n x) = take_bit (8 * n) x"
proof (induction n arbitrary: x)
  case (Suc n)
  show ?case
    unfolding le_bytes.simps le_word.simps Suc.IH
    by (rule bit_word_eqI) (auto simp: bit_simps)
qed simp

definition slice :: "nat \<Rightarrow> nat \<Rightarrow> 'a list \<Rightarrow> 'a list" where
  "slice off n v = take n (drop off v)"

definition overwrite :: "nat \<Rightarrow> 'a list \<Rightarrow> 'a list \<Rightarrow> 'a list" where
  "overwrite off bs v = take off v @ bs @ drop (off + length bs) v"

lemma length_overwrite [simp]: "off + length bs \<le> length v \<Longrightarrow> length (overwrite off bs v) = length v"
  by (simp add: overwrite_def)

lemma slice_overwrite: "off + length bs \<le> length v \<Longrightarrow> length bs = n \<Longrightarrow> slice off n (overwrite off bs v) = bs"
  by (simp add: slice_def overwrite_def)

lemma nth_overwrite:
  "off + length bs \<le> length v \<Longrightarrow> i < length v \<Longrightarrow>
   overwrite off bs v ! i = (if off \<le> i \<and> i < off + length bs then bs ! (i - off) else v ! i)"
  by (auto simp: overwrite_def nth_append)

lemma slice_overwrite_other:
  "i + n \<le> off \<or> off + length bs \<le> i \<Longrightarrow> off + length bs \<le> length v \<Longrightarrow>
   slice i n (overwrite off bs v) = slice i n v"
  by (rule nth_equalityI) (auto simp: slice_def nth_overwrite)

lemma slice_list_update_other: "k < i \<or> i + n \<le> k \<Longrightarrow> slice i n (v[k := b]) = slice i n v"
  by (rule nth_equalityI) (auto simp: slice_def nth_list_update)

definition ld :: "nat \<Rightarrow> nat \<Rightarrow> u8 list \<Rightarrow> 'a::len word" where
  "ld off w v = le_word (slice off w v)"

definition st :: "nat \<Rightarrow> nat \<Rightarrow> 'a::len word \<Rightarrow> u8 list \<Rightarrow> u8 list" where
  "st off w x v = overwrite off (le_bytes w x) v"

lemma ld_st: "off + w \<le> length v \<Longrightarrow> ld off w (st off w x v) = take_bit (8 * w) x"
  by (simp add: ld_def st_def slice_overwrite le_word_bytes)

lemma ld_st_other: "i + n \<le> off \<or> off + w \<le> i \<Longrightarrow> off + w \<le> length v \<Longrightarrow> ld i n (st off w x v) = ld i n v"
  by (simp add: ld_def st_def slice_overwrite_other)

lemma length_st [simp]: "off + w \<le> length v \<Longrightarrow> length (st off w x v) = length v"
  by (simp add: st_def)

section \<open>The descriptor\<close>

datatype skf =
    F_next | F_prev | F_dev | F_sk | F_tstamp | F_recycle_flags | F_blog_p | F_data | F_len | F_mark
  | F_priority | F_recycle_hook | F_skb_refdst | F_destructor | F_sp | F_nfct | F_nf_bridge | F_data_len
  | F_mac_len | F_hdr_len | F_queue_mapping | F_tc_index | F_csum | F_csum_start | F_csum_offset
  | F_skb_iif | F_hash | F_vlan_proto | F_vlan_tci | F_secmark | F_inner_protocol
  | F_inner_transport_header | F_inner_network_header | F_inner_mac_header | F_protocol
  | F_transport_header | F_network_header | F_mac_header | F_end | F_head | F_truesize | F_tail | F_users

abbreviation (input) SK419_size_sk_buff :: nat where "SK419_size_sk_buff \<equiv> 384"
abbreviation (input) SK419_size_skb_shared_info :: nat where "SK419_size_skb_shared_info \<equiv> 176"
abbreviation (input) SK419_off_sk_buff_bcm_ext :: nat where "SK419_off_sk_buff_bcm_ext \<equiv> 64"
abbreviation (input) SK419_width_sk_buff_bcm_ext :: nat where "SK419_width_sk_buff_bcm_ext \<equiv> 128"
abbreviation (input) SK419_width_bcm_skb_ext_wlan :: nat where "SK419_width_bcm_skb_ext_wlan \<equiv> 24"
abbreviation (input) SK419_off_bcm_skb_ext_wlan :: nat where "SK419_off_bcm_skb_ext_wlan \<equiv> 0"
abbreviation (input) SK419_off_sk_buff_cb :: nat where "SK419_off_sk_buff_cb \<equiv> 280"
abbreviation (input) SK419_width_sk_buff_cb :: nat where "SK419_width_sk_buff_cb \<equiv> 80"
abbreviation (input) SKMETA_offset_bcm_ext_vlan_cfi_save :: nat where "SKMETA_offset_bcm_ext_vlan_cfi_save \<equiv> 96"
abbreviation (input) SKMETA_vlan_present :: "'a::len word" where "SKMETA_vlan_present \<equiv> 4096"

text \<open>The offsets, in the order of the header.\<close>

fun OFF :: "skf \<Rightarrow> nat" where
  "OFF F_nfct = 204" | "OFF F_skb_refdst = 192" | "OFF F_blog_p = 36"
| "OFF F_csum = 232" | "OFF F_csum_offset = 234" | "OFF F_csum_start = 232" | "OFF F_data = 40"
| "OFF F_data_len = 212" | "OFF F_destructor = 196" | "OFF F_dev = 8" | "OFF F_end = 360"
| "OFF F_hash = 240" | "OFF F_hdr_len = 218" | "OFF F_head = 364"
| "OFF F_inner_mac_header = 266" | "OFF F_inner_network_header = 264" | "OFF F_inner_protocol = 260"
| "OFF F_inner_transport_header = 262" | "OFF F_len = 44" | "OFF F_mac_header = 274"
| "OFF F_mac_len = 216" | "OFF F_mark = 48" | "OFF F_network_header = 272" | "OFF F_next = 0"
| "OFF F_nf_bridge = 208" | "OFF F_prev = 4" | "OFF F_priority = 52" | "OFF F_protocol = 268"
| "OFF F_queue_mapping = 220" | "OFF F_recycle_flags = 28" | "OFF F_recycle_hook = 56" | "OFF F_sk = 12"
| "OFF F_skb_iif = 236" | "OFF F_sp = 200" | "OFF F_tail = 372" | "OFF F_transport_header = 270"
| "OFF F_truesize = 368" | "OFF F_tstamp = 16" | "OFF F_users = 376" | "OFF F_vlan_proto = 244"
| "OFF F_vlan_tci = 246" | "OFF F_secmark = 252" | "OFF F_tc_index = 230"

fun WIDTH :: "skf \<Rightarrow> nat" where
  "WIDTH F_nfct = 4" | "WIDTH F_skb_refdst = 4" | "WIDTH F_blog_p = 4"
| "WIDTH F_csum = 4" | "WIDTH F_csum_offset = 2" | "WIDTH F_csum_start = 2" | "WIDTH F_data = 4"
| "WIDTH F_data_len = 4" | "WIDTH F_destructor = 4" | "WIDTH F_dev = 4" | "WIDTH F_end = 4"
| "WIDTH F_hash = 4" | "WIDTH F_hdr_len = 2" | "WIDTH F_head = 4"
| "WIDTH F_inner_mac_header = 2" | "WIDTH F_inner_network_header = 2" | "WIDTH F_inner_protocol = 2"
| "WIDTH F_inner_transport_header = 2" | "WIDTH F_len = 4" | "WIDTH F_mac_header = 2"
| "WIDTH F_mac_len = 2" | "WIDTH F_mark = 4" | "WIDTH F_network_header = 2" | "WIDTH F_next = 4"
| "WIDTH F_nf_bridge = 4" | "WIDTH F_prev = 4" | "WIDTH F_priority = 4" | "WIDTH F_protocol = 2"
| "WIDTH F_queue_mapping = 2" | "WIDTH F_recycle_flags = 4" | "WIDTH F_recycle_hook = 4" | "WIDTH F_sk = 4"
| "WIDTH F_skb_iif = 4" | "WIDTH F_sp = 4" | "WIDTH F_tail = 4" | "WIDTH F_transport_header = 2"
| "WIDTH F_truesize = 4" | "WIDTH F_tstamp = 8" | "WIDTH F_users = 4" | "WIDTH F_vlan_proto = 2"
| "WIDTH F_vlan_tci = 2" | "WIDTH F_secmark = 4" | "WIDTH F_tc_index = 2"

definition LOAD :: "skf \<Rightarrow> u8 list \<Rightarrow> 'a::len word" where
  "LOAD f v = ld (OFF f) (WIDTH f) v"

definition STORE :: "skf \<Rightarrow> 'a::len word \<Rightarrow> u8 list \<Rightarrow> u8 list" where
  "STORE f x v = st (OFF f) (WIDTH f) x v"

definition apart :: "skf \<Rightarrow> skf \<Rightarrow> bool" where
  "apart f g \<longleftrightarrow> OFF f + WIDTH f \<le> OFF g \<or> OFF g + WIDTH g \<le> OFF f"

definition sized :: "u8 list \<Rightarrow> bool" where
  "sized v \<longleftrightarrow> length v = SK419_size_sk_buff"

lemma field_fits: "OFF f + WIDTH f \<le> SK419_size_sk_buff"
  by (cases f) simp_all

lemma sized_STORE [layout_simps]: "sized v \<Longrightarrow> sized (STORE f x v)"
  using field_fits [of f] by (simp add: STORE_def sized_def)

lemma LOAD_STORE [layout_simps]: "sized v \<Longrightarrow> LOAD f (STORE f x v) = take_bit (8 * WIDTH f) x"
  using field_fits [of f] by (simp add: LOAD_def STORE_def ld_st sized_def)

lemma LOAD_STORE_other [layout_simps]: "sized v \<Longrightarrow> apart f g \<Longrightarrow> LOAD f (STORE g x v) = LOAD f v"
  using field_fits [of g] by (simp add: LOAD_def STORE_def ld_st_other sized_def apart_def)

lemma slice_STORE [layout_simps]:
  "sized v \<Longrightarrow> i + n \<le> OFF g \<or> OFF g + WIDTH g \<le> i \<Longrightarrow> slice i n (STORE g x v) = slice i n v"
  using field_fits [of g] by (simp add: STORE_def st_def slice_overwrite_other sized_def)

lemma nth_STORE [layout_simps]:
  "sized v \<Longrightarrow> i < SK419_size_sk_buff \<Longrightarrow> i < OFF g \<or> OFF g + WIDTH g \<le> i \<Longrightarrow> STORE g x v ! i = v ! i"
  using field_fits [of g] by (auto simp: STORE_def st_def nth_overwrite sized_def)

lemma take_bit_32 [simp]: "take_bit 32 (x :: u32) = x"
  by (rule bit_word_eqI) (simp add: bit_take_bit_iff)

lemma take_bit_16 [simp]: "take_bit 16 (x :: u16) = x"
  by (rule bit_word_eqI) (simp add: bit_take_bit_iff)

lemma take_bit_64 [simp]: "take_bit 64 (x :: u64) = x"
  by (rule bit_word_eqI) (simp add: bit_take_bit_iff)

section \<open>Flags\<close>

text \<open>A flag is a mask in one byte.  \<open>flag_at off mask\<close> is what \<^verbatim>\<open>skb419_bit()\<close> tests.\<close>

definition skb419_bit :: "u8 list \<Rightarrow> nat \<Rightarrow> u8 \<Rightarrow> bool" where
  "skb419_bit v off m \<longleftrightarrow> v ! off AND m \<noteq> 0"

definition skb419_setbit :: "u8 list \<Rightarrow> nat \<Rightarrow> u8 \<Rightarrow> bool \<Rightarrow> u8 list" where
  "skb419_setbit v off m b = v[off := (v ! off AND NOT m) OR (if b then m else 0)]"

datatype skbit = B_cloned | B_nohdr | B_fclone | B_head_frag

fun bitoff :: "skbit \<Rightarrow> nat" where "bitoff b = 222"

fun bitmask :: "skbit \<Rightarrow> u8" where
  "bitmask B_cloned = 1" | "bitmask B_nohdr = 2" | "bitmask B_fclone = 12" | "bitmask B_head_frag = 32"

definition BITVAL :: "skbit \<Rightarrow> u8 list \<Rightarrow> bool" where
  "BITVAL b v = skb419_bit v (bitoff b) (bitmask b)"

definition SETBIT :: "skbit \<Rightarrow> bool \<Rightarrow> u8 list \<Rightarrow> u8 list" where
  "SETBIT b x v = skb419_setbit v (bitoff b) (bitmask b) x"

lemma sized_SETBIT [layout_simps]: "sized v \<Longrightarrow> sized (SETBIT b x v)"
  by (simp add: SETBIT_def skb419_setbit_def sized_def)

lemma slice_SETBIT [layout_simps]: "222 < i \<or> i + n \<le> 222 \<Longrightarrow> slice i n (SETBIT b x v) = slice i n v"
  by (simp add: SETBIT_def skb419_setbit_def slice_list_update_other)

lemma nth_SETBIT [layout_simps]: "i \<noteq> 222 \<Longrightarrow> SETBIT b x v ! i = v ! i"
  by (simp add: SETBIT_def skb419_setbit_def)

lemma LOAD_SETBIT [layout_simps]: "LOAD f (SETBIT b x v) = LOAD f v"
  by (cases f) (simp_all add: LOAD_def ld_def slice_SETBIT)

lemma BITVAL_STORE [layout_simps]: "sized v \<Longrightarrow> BITVAL b (STORE f x v) = BITVAL b v"
  by (cases f) (simp_all add: BITVAL_def skb419_bit_def nth_STORE)

lemma set_mask_same: "((w AND NOT m) OR (if x then m else 0)) AND m = (if x then m else 0)" for w m :: u8
  by (rule bit_word_eqI) (auto simp: bit_simps)

lemma set_mask_other:
  fixes w m k :: u8
  assumes "m AND k = 0"
  shows "((w AND NOT m) OR (if x then m else 0)) AND k = w AND k"
proof (rule bit_word_eqI)
  fix n
  have "\<not> (bit m n \<and> bit k n)" using assms by (metis bit_and_iff bit_0_eq bot_apply bot_bool_def)
  then show "bit (((w AND NOT m) OR (if x then m else 0)) AND k) n = bit (w AND k) n"
    by (auto simp: bit_simps dest: bit_imp_le_length)
qed

lemma BITVAL_SETBIT [layout_simps]:
  assumes "sized v"
  shows "BITVAL b (SETBIT c x v) = (if b = c then x else BITVAL b v)"
proof (cases "b = c")
  case True
  moreover have "bitmask c \<noteq> 0" by (cases c) simp_all
  ultimately show ?thesis
    using assms by (simp add: BITVAL_def SETBIT_def skb419_bit_def skb419_setbit_def sized_def set_mask_same)
next
  case False
  then have "bitmask c AND bitmask b = 0" by (cases b; cases c) simp_all
  with False show ?thesis
    using assms by (simp add: BITVAL_def SETBIT_def skb419_bit_def skb419_setbit_def sized_def set_mask_other)
qed

end
