(* ===== verification/Skb419.thy ===== *)
theory Skb419
  imports Skb_Layout Dma419
begin

text \<open>
  The packet buffers of the Wi-Fi shim, \<^verbatim>\<open>bsp-6.6/compat/shim_skb.c\<close>: old-style packet descriptors that
  own linear buffers, shared between clones by a reference count in the buffer.

  \<open>ents\<close> holds the live descriptors by the address of their view, \<open>bufs\<close> the live buffers by the address
  of their first data byte; a buffer is its capacity, its data bytes, the shared info behind them and the
  guard word at the end.  Pointers are 32-bit addresses, 0 is NULL.  \<open>natives\<close> holds the references to
  native packets the shim knows of.  Touching memory that is not live sets \<open>sk_bug\<close>.  Memory, native
  packets and the stack are the kernel's: the record \<open>skb_env\<close> says what they answer.  A destructor is
  code of the vendor module; its call is recorded in the log.  Messages are not modelled.
\<close>

section \<open>State\<close>

abbreviation (input) SK419_GUARD :: u64 where "SK419_GUARD \<equiv> 0x4c6567616379534b"
abbreviation (input) SHINFO_SPAN :: nat where "SHINFO_SPAN \<equiv> 192"

record skb419_data =
  capacity :: u32
  dbytes :: "u8 list"
  shinfo :: "u8 list"
  dguard :: u64

record skb419_entry =
  e_before :: u64
  e_view :: "u8 list"
  e_after :: u64
  e_data :: u32
  native_meta :: u32
  native_owner :: u32

text \<open>A native packet: its bytes from the head of the buffer to the tail, and the metadata the shim reads
  or writes.  \<open>n_scal\<close> holds the scalar members, \<open>n_flag\<close> the bit fields.\<close>

datatype skflag =
    G_pkt_type | G_ip_summed | G_csum_level | G_ignore_df | G_ooo_okay | G_dst_pending_confirm
  | G_remcsum_offload | G_csum_complete_sw | G_inner_protocol_type | G_l4_hash | G_sw_hash
  | G_wifi_acked_valid | G_wifi_acked | G_no_fcs | G_encapsulation | G_encap_hdr_csum | G_csum_valid
  | G_offload_fwd_mark | G_pfmemalloc
  | G_nf_trace | G_ipvs_property | G_csum_not_inet | G_decrypted | G_tc_skip_classify | G_tc_at_ingress
  | G_tc_redirected | G_tc_from_ingress | G_offload_mr_fwd_mark

record nskb =
  n_bytes :: "u8 list"
  n_headroom :: nat
  n_dev :: u32
  n_vlan_proto :: u16
  n_vlan_tci :: u16
  n_gso_size :: u16
  n_gso_segs :: u16
  n_gso_type :: u32
  n_tx_flags :: u8
  n_tskey :: u32
  n_zcopy :: bool
  n_hwtstamp :: u64
  n_scal :: "skf \<Rightarrow> u64"
  n_flag :: "skflag \<Rightarrow> u8"

record skb419_head =
  h_next :: u32
  h_prev :: u32
  h_qlen :: u32
  h_lock :: u32

datatype sk_event =
    Destructor u32 u32
  | KfreeSkb u32
  | NetifRx nskb
  | WakeQueue u32 u32

record skb_world =
  ents :: "u32 \<rightharpoonup> skb419_entry"
  bufs :: "u32 \<rightharpoonup> skb419_data"
  heads :: "u32 \<rightharpoonup> skb419_head"
  registry :: "u32 set"
  skb419_headers :: int
  skb419_buffers :: int
  natives :: "u32 \<rightharpoonup> nskb"
  netdev419_views :: "(u32 \<times> u32) list"
  skb_failure_trace :: bool
  skb_failure_stack_done :: bool
  sk_bug :: bool
  sk_log :: "sk_event list"

type_synonym 'a sk = "(skb_world, 'a) state"

text \<open>The kernel.  An allocation answers an address (the one of the view, or of the first data byte), 0
  when it fails; a fresh buffer has arbitrary contents.  A function that makes a native packet answers a
  new reference and the packet.\<close>

record skb_env =
  gk :: dma_kernel
  kzalloc_entry :: "u32 \<Rightarrow> skb_world \<Rightarrow> u32"
  kmalloc_data :: "u32 \<Rightarrow> nat \<Rightarrow> skb_world \<Rightarrow> u32"
  kmalloc_fill :: "skb_world \<Rightarrow> nat \<Rightarrow> u8"
  k_skb_clone :: "u32 \<Rightarrow> nskb \<Rightarrow> skb_world \<Rightarrow> (u32 \<times> nskb) option"
  k_skb_copy_expand :: "u32 \<Rightarrow> nat \<Rightarrow> nskb \<Rightarrow> skb_world \<Rightarrow> (u32 \<times> nskb) option"
  k_alloc_skb :: "u32 \<Rightarrow> nat \<Rightarrow> skb_world \<Rightarrow> (u32 \<times> nskb) option"
  k_skb_copy_header :: "nskb \<Rightarrow> nskb \<Rightarrow> nskb"
  k_skb_vlan_push :: "nskb \<Rightarrow> int \<times> nskb"
  k_eth_type_trans :: "nskb \<Rightarrow> u32 \<Rightarrow> u16 \<times> nskb"
  k_netif_rx :: "nskb \<Rightarrow> skb_world \<Rightarrow> int"
  k_skb_gso_segment :: "nskb \<Rightarrow> skb_world \<Rightarrow> errno + (u32 \<times> nskb) list"
  k_real_num_tx_queues :: "u32 \<Rightarrow> u32"
  k_NET_SKB_PAD :: u32

section \<open>Memory\<close>

definition sk_fault :: "unit sk" where
  "sk_fault = modify (sk_bug_update (\<lambda>_. True))"

definition sk_note :: "sk_event \<Rightarrow> unit sk" where
  "sk_note e = modify (sk_log_update ((#) e))"

definition view_of :: "u32 \<Rightarrow> skb_world \<Rightarrow> u8 list" where
  "view_of skb s = (case ents s skb of Some e \<Rightarrow> e_view e | None \<Rightarrow> [])"

definition data_of :: "u32 \<Rightarrow> skb_world \<Rightarrow> u32" where
  "data_of skb s = (case ents s skb of Some e \<Rightarrow> e_data e | None \<Rightarrow> 0)"

definition buf_of :: "u32 \<Rightarrow> skb_world \<Rightarrow> skb419_data option" where
  "buf_of skb s = bufs s (data_of skb s)"

definition upd_entry :: "u32 \<Rightarrow> (skb419_entry \<Rightarrow> skb419_entry) \<Rightarrow> unit sk" where
  "upd_entry skb f = modify (\<lambda>s. case ents s skb of
     Some e \<Rightarrow> s\<lparr>ents := (ents s)(skb \<mapsto> f e)\<rparr> | None \<Rightarrow> s\<lparr>sk_bug := True\<rparr>)"

definition upd_view :: "u32 \<Rightarrow> (u8 list \<Rightarrow> u8 list) \<Rightarrow> unit sk" where
  "upd_view skb f = upd_entry skb (e_view_update f)"

definition upd_data :: "u32 \<Rightarrow> (skb419_data \<Rightarrow> skb419_data) \<Rightarrow> unit sk" where
  "upd_data a f = modify (\<lambda>s. case bufs s a of
     Some d \<Rightarrow> s\<lparr>bufs := (bufs s)(a \<mapsto> f d)\<rparr> | None \<Rightarrow> s\<lparr>sk_bug := True\<rparr>)"

definition kfree_entry :: "u32 \<Rightarrow> unit sk" where
  "kfree_entry skb = modify (\<lambda>s. s\<lparr>sk_bug := (sk_bug s \<or> ents s skb = None), ents := (ents s)(skb := None)\<rparr>)"

definition kfree_data :: "u32 \<Rightarrow> unit sk" where
  "kfree_data a = modify (\<lambda>s. s\<lparr>sk_bug := (sk_bug s \<or> bufs s a = None), bufs := (bufs s)(a := None)\<rparr>)"

definition zero_entry :: skb419_entry where
  "zero_entry = \<lparr>e_before = 0, e_view = replicate SK419_size_sk_buff 0, e_after = 0, e_data = 0,
     native_meta = 0, native_owner = 0\<rparr>"

text \<open>Native packets: a live reference, a new one, and the release of one.\<close>

definition new_native :: "u32 \<times> nskb \<Rightarrow> unit sk" where
  "new_native p = modify (\<lambda>s. s\<lparr>natives := (natives s)(fst p \<mapsto> snd p)\<rparr>)"

definition dev_kfree_skb_any :: "u32 \<Rightarrow> unit sk" where
  "dev_kfree_skb_any h = (if h = 0 then return () else do {
     modify (\<lambda>s. s\<lparr>sk_bug := (sk_bug s \<or> natives s h = None), natives := (natives s)(h := None)\<rparr>);
     sk_note (KfreeSkb h) })"

text \<open>\<^verbatim>\<open>check_add_overflow()\<close> on 32 bits.\<close>

definition add_overflow :: "u32 \<Rightarrow> u32 \<Rightarrow> bool" where
  "add_overflow a b \<longleftrightarrow> a + b < a"

section \<open>Registry\<close>

definition shim_skb_is_legacy :: "skb_world \<Rightarrow> u32 \<Rightarrow> bool" where
  "shim_skb_is_legacy s ptr \<longleftrightarrow> ptr \<in> registry s"

definition skb419_register :: "u32 \<Rightarrow> unit sk" where
  "skb419_register e = modify (registry_update (insert e))"

definition skb419_unregister :: "u32 \<Rightarrow> unit sk" where
  "skb419_unregister e = modify (registry_update (\<lambda>R. R - {e}))"

section \<open>Shared info and validation\<close>

text \<open>Offsets of the shared info.\<close>

abbreviation (input) SH_nr_frags :: nat where "SH_nr_frags \<equiv> 6"
abbreviation (input) SH_gso_size :: nat where "SH_gso_size \<equiv> 8"
abbreviation (input) SH_gso_segs :: nat where "SH_gso_segs \<equiv> 10"
abbreviation (input) SH_frag_list :: nat where "SH_frag_list \<equiv> 12"
abbreviation (input) SH_hwtstamps :: nat where "SH_hwtstamps \<equiv> 16"
abbreviation (input) SH_gso_type :: nat where "SH_gso_type \<equiv> 24"
abbreviation (input) SH_tskey :: nat where "SH_tskey \<equiv> 28"
abbreviation (input) SH_dataref :: nat where "SH_dataref \<equiv> 32"
abbreviation (input) SH_destructor_arg :: nat where "SH_destructor_arg \<equiv> 36"

definition skb419_dataref :: "skb419_data \<Rightarrow> u32" where
  "skb419_dataref d = ld SH_dataref 4 (shinfo d)"

definition set_dataref :: "u32 \<Rightarrow> skb419_data \<Rightarrow> skb419_data" where
  "set_dataref n = shinfo_update (st SH_dataref 4 n)"

definition all_zero :: "nat \<Rightarrow> nat \<Rightarrow> u8 list \<Rightarrow> bool" where
  "all_zero off n v \<longleftrightarrow> list_all (\<lambda>b. b = 0) (slice off n v)"

abbreviation (input) SKB419_GSO_MASK :: u32 where "SKB419_GSO_MASK \<equiv> 0x3ffff"

definition skb419_gso_check :: "u16 \<Rightarrow> u16 \<Rightarrow> u32 \<Rightarrow> errno + unit" where
  "skb419_gso_check sz segs ty =
     (if sz = 0 then (if ty AND NOT SKB419_GSO_MASK \<noteq> 0 then Inl EOPNOTSUPP else Inr ())
      else if ty = 0 \<or> ty AND NOT SKB419_GSO_MASK \<noteq> 0 then Inl EOPNOTSUPP else Inr ())"

definition skb419_vlan_cfi :: "u8 list \<Rightarrow> errno + u32" where
  "skb419_vlan_cfi v =
     (if SKMETA_offset_bcm_ext_vlan_cfi_save < SK419_off_sk_buff_bcm_ext + SK419_width_bcm_skb_ext_wlan \<or>
         SKMETA_offset_bcm_ext_vlan_cfi_save + 4 > SK419_off_sk_buff_bcm_ext + SK419_width_sk_buff_bcm_ext
      then Inl EUCLEAN
      else let cfi = ld SKMETA_offset_bcm_ext_vlan_cfi_save 4 v :: u32 in
           if cfi AND NOT SKMETA_vlan_present \<noteq> 0 then Inl EOPNOTSUPP else Inr cfi)"

text \<open>A sequence of checks, each with the error it returns.\<close>

fun first_err :: "(bool \<times> errno) list \<Rightarrow> errno + unit" where
  "first_err [] = Inr ()"
| "first_err ((c, e) # cs) = (if c then Inl e else first_err cs)"

definition thenE :: "errno + 'a \<Rightarrow> errno + unit \<Rightarrow> errno + unit" where
  "thenE x y = (case x of Inl e \<Rightarrow> Inl e | Inr _ \<Rightarrow> y)"

definition refs :: "skf list" where
  "refs = [F_skb_refdst, F_nfct, F_sk, F_blog_p, F_recycle_hook, F_sp, F_nf_bridge]"

text \<open>\<open>skb419_checks a d v\<close>: the checks on a descriptor with view \<open>v\<close> and live buffer \<open>d\<close> at address \<open>a\<close>.\<close>

definition skb419_geometry :: "u32 \<Rightarrow> u32 \<Rightarrow> u8 list \<Rightarrow> bool" where
  "skb419_geometry a cap v \<longleftrightarrow>
     (let hd = LOAD F_head v; da = LOAD F_data v; tl = LOAD F_tail v; en = LOAD F_end v; len = LOAD F_len v :: u32 in
      \<not> (hd \<noteq> a \<or> en \<noteq> a + cap \<or> da < hd \<or> tl < da \<or> tl > en \<or> tl - da \<noteq> len))"

definition skb419_checks :: "u32 \<Rightarrow> skb419_data \<Rightarrow> u8 list \<Rightarrow> errno + unit" where
  "skb419_checks a d v =
     thenE (first_err
       [(dguard d \<noteq> SK419_GUARD, EUCLEAN),
        ((LOAD F_users v :: u32) = 0 \<or> skb419_dataref d AND 0xffff = 0, EUCLEAN),
        (\<not> skb419_geometry a (capacity d) v, EINVAL),
        ((LOAD F_data_len v :: u32) \<noteq> 0 \<or> shinfo d ! SH_nr_frags \<noteq> 0, EOPNOTSUPP),
        ((ld SH_frag_list 4 (shinfo d) :: u32) \<noteq> 0 \<or> BITVAL B_head_frag v, EOPNOTSUPP),
        (\<not> all_zero 4 (SH_gso_size - 4) (shinfo d) \<or>
         \<not> all_zero SH_destructor_arg (SK419_size_skb_shared_info - SH_destructor_arg) (shinfo d), EOPNOTSUPP)])
     (thenE (skb419_gso_check (ld SH_gso_size 2 (shinfo d)) (ld SH_gso_segs 2 (shinfo d)) (ld SH_gso_type 4 (shinfo d)))
     (thenE (first_err
       [((ld SH_hwtstamps 8 (shinfo d) :: u64) \<noteq> 0, EOPNOTSUPP),
        ((ld SH_tskey 4 (shinfo d) :: u32) \<noteq> 0, EOPNOTSUPP)])
     (thenE (skb419_vlan_cfi v)
     (first_err
       ([(\<not> all_zero (SK419_off_sk_buff_bcm_ext + SK419_width_bcm_skb_ext_wlan)
             (SKMETA_offset_bcm_ext_vlan_cfi_save - (SK419_off_sk_buff_bcm_ext + SK419_width_bcm_skb_ext_wlan)) v \<or>
          \<not> all_zero (SKMETA_offset_bcm_ext_vlan_cfi_save + 4)
             ((SK419_off_sk_buff_bcm_ext + SK419_width_sk_buff_bcm_ext) - (SKMETA_offset_bcm_ext_vlan_cfi_save + 4)) v, EOPNOTSUPP),
         ((LOAD F_recycle_flags v :: u32) \<noteq> 0, EOPNOTSUPP)] @
        map (\<lambda>f. ((LOAD f v :: u32) \<noteq> 0, EOPNOTSUPP)) refs)))))"

text \<open>A registered view is live and so is its buffer (the invariant of theory \<open>Skb419_Inv\<close>); the two
  branches for memory that is not are never taken.\<close>

definition skb419_validate :: "skb_world \<Rightarrow> u32 \<Rightarrow> errno + unit" where
  "skb419_validate s skb =
     (if \<not> shim_skb_is_legacy s skb then Inl EINVAL
      else case ents s skb of
        None \<Rightarrow> Inl EUCLEAN
      | Some e \<Rightarrow>
          if e_before e \<noteq> SK419_GUARD \<or> e_after e \<noteq> SK419_GUARD \<or> e_data e = 0 then Inl EUCLEAN
          else case bufs s (e_data e) of
            None \<Rightarrow> Inl EUCLEAN
          | Some d \<Rightarrow> skb419_checks (e_data e) d (e_view e))"

section \<open>Allocation, release, clone and copy\<close>

definition fresh_data :: "skb_env \<Rightarrow> skb_world \<Rightarrow> u32 \<Rightarrow> skb419_data" where
  "fresh_data E s cap = \<lparr>capacity = cap, dbytes = map (kmalloc_fill E s) [0..<unat cap],
     shinfo = replicate SHINFO_SPAN 0, dguard = SK419_GUARD\<rparr>"

definition fresh_view :: "u32 \<Rightarrow> u32 \<Rightarrow> u32 \<Rightarrow> u8 list" where
  "fresh_view a cap truesize =
     STORE F_users (1 :: u32) (STORE F_transport_header (0xffff :: u16) (STORE F_mac_header (0xffff :: u16)
     (STORE F_truesize truesize (STORE F_end (a + cap) (STORE F_tail a (STORE F_data a (STORE F_head a
       (replicate SK419_size_sk_buff 0))))))))"

definition shim_skb_alloc :: "skb_env \<Rightarrow> u32 \<Rightarrow> u32 \<Rightarrow> u32 option sk" where
  "shim_skb_alloc E sz fl =
     (if add_overflow sz 63 then return None
      else let cap = (sz + 63) AND NOT 63 in
      if add_overflow cap (64 + 192 + 8) \<or> add_overflow cap (384 + 192) then return None
      else do {
        e \<leftarrow> gets (kzalloc_entry E fl);
        if e = 0 then return None
        else do {
          modify (\<lambda>s. s\<lparr>ents := (ents s)(e \<mapsto> zero_entry)\<rparr>);
          d \<leftarrow> gets (kmalloc_data E fl (unat cap + (64 + 192 + 8)));
          if d = 0 then do { kfree_entry e; return None }
          else do {
            modify (\<lambda>s. s\<lparr>bufs := (bufs s)(d \<mapsto> fresh_data E s cap)\<rparr>);
            upd_entry e (\<lambda>x. x\<lparr>e_data := d, e_before := SK419_GUARD, e_after := SK419_GUARD,
              e_view := fresh_view d cap (cap + (384 + 192))\<rparr>);
            upd_data d (set_dataref 1);
            modify (skb419_headers_update (\<lambda>n. n + 1));
            modify (skb419_buffers_update (\<lambda>n. n + 1));
            skb419_register e;
            return (Some e) } } })"

text \<open>A \<^verbatim>\<open>refcount_t\<close> after a decrement: a count that is not positive saturates.\<close>

definition refcount_dec :: "u32 \<Rightarrow> u32" where
  "refcount_dec r = (if r = 1 then 0 else if sint r \<le> 0 then 0xc0000000 else r - 1)"

definition shim_skb_release :: "u32 \<Rightarrow> unit sk" where
  "shim_skb_release skb = do {
     destructor \<leftarrow> gets (\<lambda>s. LOAD F_destructor (view_of skb s));
     (if destructor \<noteq> 0 then sk_note (Destructor destructor skb) else return ());
     a \<leftarrow> gets (data_of skb);
     cloned \<leftarrow> gets (\<lambda>s. BITVAL B_cloned (view_of skb s));
     nohdr \<leftarrow> gets (\<lambda>s. BITVAL B_nohdr (view_of skb s));
     remain \<leftarrow> (if cloned then do {
         upd_data a (\<lambda>d. set_dataref (skb419_dataref d - (if nohdr then 0x10001 else 1)) d);
         gets (\<lambda>s. case bufs s a of Some d \<Rightarrow> skb419_dataref d | None \<Rightarrow> 0) }
       else return 0);
     (if remain = 0 then do {
         kfree_data a;
         modify (skb419_buffers_update (\<lambda>n. n - 1)) }
       else return ());
     meta \<leftarrow> gets (\<lambda>s. case ents s skb of Some e \<Rightarrow> native_meta e | None \<Rightarrow> 0);
     owner \<leftarrow> gets (\<lambda>s. case ents s skb of Some e \<Rightarrow> native_owner e | None \<Rightarrow> 0);
     dev_kfree_skb_any meta;
     dev_kfree_skb_any owner;
     skb419_unregister skb;
     upd_entry skb (\<lambda>e. e\<lparr>e_before := 0, e_after := 0\<rparr>);
     kfree_entry skb;
     modify (skb419_headers_update (\<lambda>n. n - 1)) }"

definition shim_skb_free :: "u32 \<Rightarrow> (errno + unit) sk" where
  "shim_skb_free skb =
     (if skb = 0 then return (Inr ())
      else do {
        ret \<leftarrow> gets (\<lambda>s. skb419_validate s skb);
        case ret of Inl e \<Rightarrow> return (Inl e) | Inr _ \<Rightarrow> do {
          users \<leftarrow> gets (\<lambda>s. LOAD F_users (view_of skb s));
          upd_view skb (STORE F_users (refcount_dec users));
          if users \<noteq> 1 then return (Inr ())
          else do { shim_skb_release skb; return (Inr ()) } } })"

text \<open>The clone of the native metadata, when there is some: \<open>None\<close> when it fails.\<close>

definition clone_meta :: "skb_env \<Rightarrow> u32 \<Rightarrow> u32 \<Rightarrow> u32 option sk" where
  "clone_meta E fl src = do {
     h \<leftarrow> gets (\<lambda>s. case ents s src of Some e \<Rightarrow> native_meta e | None \<Rightarrow> 0);
     if h = 0 then return (Some 0)
     else do {
         r \<leftarrow> gets (\<lambda>s. case natives s h of Some n \<Rightarrow> k_skb_clone E fl n s | None \<Rightarrow> None);
         case r of
           None \<Rightarrow> return None
         | Some p \<Rightarrow> do { new_native p; return (Some (fst p)) } } }"

definition clone_view :: "u8 list \<Rightarrow> u8 list" where
  "clone_view v =
     (let hdr_len = (if BITVAL B_nohdr v then ucast (LOAD F_data v - LOAD F_head v :: u32) else LOAD F_hdr_len v) :: u16 in
      STORE F_users (1 :: u32) (SETBIT B_fclone False (SETBIT B_nohdr False (SETBIT B_cloned True
        (STORE F_hdr_len hdr_len (STORE F_destructor (0 :: u32) (STORE F_sk (0 :: u32)
        (STORE F_prev (0 :: u32) (STORE F_next (0 :: u32) v)))))))))"

definition shim_skb_clone :: "skb_env \<Rightarrow> u32 \<Rightarrow> u32 \<Rightarrow> u32 option sk" where
  "shim_skb_clone E skb fl = do {
     ret \<leftarrow> gets (\<lambda>s. skb419_validate s skb);
     case ret of Inl _ \<Rightarrow> return None | Inr _ \<Rightarrow> do {
       dst \<leftarrow> gets (kzalloc_entry E fl);
       if dst = 0 then return None
       else do {
         modify (\<lambda>s. s\<lparr>ents := (ents s)(dst \<mapsto> zero_entry)\<rparr>);
         m \<leftarrow> clone_meta E fl skb;
         case m of
           None \<Rightarrow> do { kfree_entry dst; return None }
         | Some meta \<Rightarrow> do {
             a \<leftarrow> gets (data_of skb);
             v \<leftarrow> gets (view_of skb);
             upd_entry dst (\<lambda>e. e\<lparr>native_meta := meta, e_before := SK419_GUARD, e_after := SK419_GUARD,
               e_data := a, e_view := clone_view v\<rparr>);
             upd_data a (\<lambda>d. set_dataref (skb419_dataref d + 1) d);
             upd_view skb (SETBIT B_cloned True);
             modify (skb419_headers_update (\<lambda>n. n + 1));
             skb419_register dst;
             return (Some dst) } } } }"

definition copy_view :: "u32 \<Rightarrow> u32 \<Rightarrow> u32 \<Rightarrow> u8 list \<Rightarrow> u8 list" where
  "copy_view a cap truesize v =
     (let hd = LOAD F_head v; da = LOAD F_data v; tl = LOAD F_tail v :: u32 in
      STORE F_users (1 :: u32) (SETBIT B_fclone False (SETBIT B_nohdr False (SETBIT B_cloned False
        (STORE F_hdr_len (0 :: u16) (STORE F_truesize truesize (STORE F_destructor (0 :: u32) (STORE F_sk (0 :: u32)
        (STORE F_prev (0 :: u32) (STORE F_next (0 :: u32)
        (STORE F_end (a + cap) (STORE F_tail (a + (tl - hd)) (STORE F_data (a + (da - hd)) (STORE F_head a v))))))))))))))"

definition shim_skb_copy :: "skb_env \<Rightarrow> u32 \<Rightarrow> u32 \<Rightarrow> u32 option sk" where
  "shim_skb_copy E skb fl = do {
     ret \<leftarrow> gets (\<lambda>s. skb419_validate s skb);
     case ret of Inl _ \<Rightarrow> return None | Inr _ \<Rightarrow> do {
       d \<leftarrow> gets (buf_of skb);
       case d of None \<Rightarrow> do { sk_fault; return None } | Some src \<Rightarrow> do {
         c \<leftarrow> shim_skb_alloc E (capacity src) fl;
         case c of None \<Rightarrow> return None | Some cp \<Rightarrow> do {
           m \<leftarrow> clone_meta E fl skb;
           case m of
             None \<Rightarrow> do { shim_skb_free cp; return None }
           | Some meta \<Rightarrow> do {
               upd_entry cp (native_meta_update (\<lambda>_. meta));
               truesize \<leftarrow> gets (\<lambda>s. LOAD F_truesize (view_of cp s));
               v \<leftarrow> gets (view_of skb);
               a \<leftarrow> gets (data_of cp);
               cap \<leftarrow> gets (\<lambda>s. case bufs s a of Some d \<Rightarrow> capacity d | None \<Rightarrow> 0);
               upd_data a (dbytes_update (overwrite 0
                 (take (unat (LOAD F_tail v - LOAD F_head v :: u32)) (dbytes src))));
               upd_view cp (\<lambda>_. copy_view a cap truesize v);
               return (Some cp) } } } } }"

definition shim_skb_copy_headroom :: "skb_env \<Rightarrow> u32 \<Rightarrow> int \<Rightarrow> u32 \<Rightarrow> u32 option sk" where
  "shim_skb_copy_headroom E skb headroom fl = do {
     ret \<leftarrow> gets (\<lambda>s. skb419_validate s skb);
     case ret of Inl _ \<Rightarrow> return None | Inr _ \<Rightarrow> do {
       v \<leftarrow> gets (view_of skb);
       if headroom < 0 \<or> headroom \<noteq> sint (LOAD F_data v - LOAD F_head v :: u32) then return None
       else shim_skb_copy E skb fl } }"

section \<open>Operations on the geometry\<close>

definition skb419_mutable :: "skb_world \<Rightarrow> u32 \<Rightarrow> errno + unit" where
  "skb419_mutable s skb =
     (case skb419_validate s skb of
        Inl e \<Rightarrow> Inl e
      | Inr _ \<Rightarrow> if (LOAD F_users (view_of skb s) :: u32) = 1 then Inr () else Inl EBUSY)"

definition shim_skb_pool_reset :: "u32 \<Rightarrow> u32 \<Rightarrow> u32 \<Rightarrow> (errno + unit) sk" where
  "shim_skb_pool_reset skb headroom len = do {
     ret \<leftarrow> gets (\<lambda>s. skb419_mutable s skb);
     case ret of Inl e \<Rightarrow> return (Inl e) | Inr _ \<Rightarrow> do {
       b \<leftarrow> gets (buf_of skb);
       v \<leftarrow> gets (view_of skb);
       a \<leftarrow> gets (data_of skb);
       case b of None \<Rightarrow> do { sk_fault; return (Inl EUCLEAN) } | Some d \<Rightarrow>
         if BITVAL B_cloned v \<or> skb419_dataref d \<noteq> 1 then return (Inl EBUSY)
         else if headroom > capacity d \<or> len > capacity d - headroom then return (Inl ENOSPC)
         else do {
           upd_view skb (\<lambda>v. STORE F_len len (STORE F_tail (a + headroom + len) (STORE F_data (a + headroom) v)));
           return (Inr ()) } } }"

definition shim_skb_reserve :: "u32 \<Rightarrow> u32 \<Rightarrow> (errno + unit) sk" where
  "shim_skb_reserve skb len = do {
     ret \<leftarrow> gets (\<lambda>s. skb419_mutable s skb);
     case ret of Inl e \<Rightarrow> return (Inl e) | Inr _ \<Rightarrow> do {
       v \<leftarrow> gets (view_of skb);
       if (LOAD F_len v :: u32) \<noteq> 0 then return (Inl EINVAL)
       else if len > LOAD F_end v - LOAD F_tail v then return (Inl ENOSPC)
       else do {
         upd_view skb (\<lambda>v. STORE F_tail (LOAD F_tail v + len) (STORE F_data (LOAD F_data v + len) v));
         return (Inr ()) } } }"

text \<open>\<^verbatim>\<open>put\<close>, \<^verbatim>\<open>push\<close> and \<^verbatim>\<open>pull\<close> return an address, or NULL when they refuse.\<close>

definition shim_skb_put :: "u32 \<Rightarrow> u32 \<Rightarrow> u32 option sk" where
  "shim_skb_put skb len = do {
     ret \<leftarrow> gets (\<lambda>s. skb419_mutable s skb);
     case ret of Inl _ \<Rightarrow> return None | Inr _ \<Rightarrow> do {
       v \<leftarrow> gets (view_of skb);
       if len > LOAD F_end v - LOAD F_tail v then return None
       else do {
         upd_view skb (\<lambda>v. STORE F_len (LOAD F_len v + len) (STORE F_tail (LOAD F_tail v + len) v));
         return (Some (LOAD F_tail v)) } } }"

definition shim_skb_push :: "u32 \<Rightarrow> u32 \<Rightarrow> u32 option sk" where
  "shim_skb_push skb len = do {
     ret \<leftarrow> gets (\<lambda>s. skb419_mutable s skb);
     case ret of Inl _ \<Rightarrow> return None | Inr _ \<Rightarrow> do {
       v \<leftarrow> gets (view_of skb);
       if len > LOAD F_data v - LOAD F_head v then return None
       else do {
         upd_view skb (\<lambda>v. STORE F_len (LOAD F_len v + len) (STORE F_data (LOAD F_data v - len) v));
         return (Some (LOAD F_data v - len)) } } }"

definition shim_skb_pull :: "u32 \<Rightarrow> u32 \<Rightarrow> u32 option sk" where
  "shim_skb_pull skb len = do {
     ret \<leftarrow> gets (\<lambda>s. skb419_mutable s skb);
     case ret of Inl _ \<Rightarrow> return None | Inr _ \<Rightarrow> do {
       v \<leftarrow> gets (view_of skb);
       if len > LOAD F_len v then return None
       else do {
         upd_view skb (\<lambda>v. STORE F_len (LOAD F_len v - len) (STORE F_data (LOAD F_data v + len) v));
         return (Some (LOAD F_data v + len)) } } }"

definition shim_skb_trim :: "u32 \<Rightarrow> u32 \<Rightarrow> (errno + unit) sk" where
  "shim_skb_trim skb len = do {
     ret \<leftarrow> gets (\<lambda>s. skb419_mutable s skb);
     case ret of Inl e \<Rightarrow> return (Inl e) | Inr _ \<Rightarrow> do {
       v \<leftarrow> gets (view_of skb);
       if len \<ge> LOAD F_len v then return (Inr ())
       else do {
         upd_view skb (\<lambda>v. STORE F_len len (STORE F_tail (LOAD F_data v + len) v));
         return (Inr ()) } } }"

end
