(* ===== verification/Skb419_Bridge.thy ===== *)
theory Skb419_Bridge
  imports Skb419
begin

text \<open>
  The entry points of \<^verbatim>\<open>bsp-6.6/compat/shim_skb.c\<close> around the packet buffers of theory \<open>Skb419\<close>: the
  wrappers the vendor module calls, queues, VLAN tags, and the conversion between old and native packets
  in both directions.  The words that the target configuration of the kernel does not have
  (\<^verbatim>\<open>secmark\<close>, \<^verbatim>\<open>tc_index\<close>) are those of the build without \<^verbatim>\<open>CONFIG_NETWORK_SECMARK\<close>, \<^verbatim>\<open>CONFIG_NET_SCHED\<close>
  and \<^verbatim>\<open>CONFIG_NET_XGRESS\<close>.
\<close>

section \<open>Allocation wrappers and scratch fields\<close>

definition bcm419_legacy_skb_alloc :: "skb_env \<Rightarrow> u32 \<Rightarrow> u32 \<Rightarrow> u32 option sk" where
  "bcm419_legacy_skb_alloc E sz gfp419 = shim_skb_alloc E sz (shim_gfp419 (gk E) gfp419)"

definition bcm419_legacy_skb_clone :: "skb_env \<Rightarrow> u32 \<Rightarrow> u32 \<Rightarrow> u32 option sk" where
  "bcm419_legacy_skb_clone E skb gfp419 =
     (if skb = 0 then return None else shim_skb_clone E skb (shim_gfp419 (gk E) gfp419))"

definition bcm419_legacy_skb_copy :: "skb_env \<Rightarrow> u32 \<Rightarrow> u32 \<Rightarrow> u32 option sk" where
  "bcm419_legacy_skb_copy E skb gfp419 =
     (if skb = 0 then return None else shim_skb_copy E skb (shim_gfp419 (gk E) gfp419))"

definition bcm419_legacy_netdev_alloc_skb :: "skb_env \<Rightarrow> u32 \<Rightarrow> u32 \<Rightarrow> u32 \<Rightarrow> u32 option sk" where
  "bcm419_legacy_netdev_alloc_skb E dev len gfp419 =
     (if add_overflow len (k_NET_SKB_PAD E) then return None
      else do {
        r \<leftarrow> shim_skb_alloc E (len + k_NET_SKB_PAD E) (shim_gfp419 (gk E) gfp419);
        case r of None \<Rightarrow> return None | Some skb \<Rightarrow> do {
          ret \<leftarrow> shim_skb_reserve skb (k_NET_SKB_PAD E);
          case ret of
            Inl _ \<Rightarrow> do { shim_skb_free skb; return None }
          | Inr _ \<Rightarrow> do { upd_view skb (STORE F_dev dev); return (Some skb) } } })"

text \<open>The light guard of the accessors that do not validate: it reads the words around the view.\<close>

definition skb419_view_intact :: "u32 \<Rightarrow> bool sk" where
  "skb419_view_intact skb =
     (if skb = 0 then return False
      else do {
        e \<leftarrow> gets (\<lambda>s. ents s skb);
        case e of
          None \<Rightarrow> do { sk_fault; return False }
        | Some e \<Rightarrow> return (e_before e = SK419_GUARD \<and> e_after e = SK419_GUARD \<and> e_data e \<noteq> 0) })"

definition zero_range :: "nat \<Rightarrow> nat \<Rightarrow> u8 list \<Rightarrow> u8 list" where
  "zero_range off n = overwrite off (replicate n 0)"

definition bcm419_skb_cb_zero :: "u32 \<Rightarrow> unit sk" where
  "bcm419_skb_cb_zero skb = do {
     ok \<leftarrow> skb419_view_intact skb;
     if \<not> ok then return ()
     else do {
       upd_view skb (zero_range SK419_off_sk_buff_cb SK419_width_sk_buff_cb);
       upd_view skb (zero_range (SK419_off_sk_buff_bcm_ext + SK419_off_bcm_skb_ext_wlan) SK419_width_bcm_skb_ext_wlan) } }"

abbreviation (input) SKB419_BPM_PRISTINE :: u32 where "SKB419_BPM_PRISTINE \<equiv> 0x20"

definition bcm419_skb_bpm_tainted :: "u32 \<Rightarrow> unit sk" where
  "bcm419_skb_bpm_tainted skb = do {
     ok \<leftarrow> skb419_view_intact skb;
     if \<not> ok then return ()
     else do {
       upd_view skb (\<lambda>v. STORE F_recycle_flags (LOAD F_recycle_flags v AND NOT SKB419_BPM_PRISTINE) v);
       a \<leftarrow> gets (data_of skb);
       upd_data a (shinfo_update (zero_range 0 4)) } }"

section \<open>Release paths and queues\<close>

definition skb419_free_one :: "u32 \<Rightarrow> unit sk" where
  "skb419_free_one skb = (if skb = 0 then return () else do { shim_skb_free skb; return () })"

definition bcm419_kfree_skb :: "u32 \<Rightarrow> unit sk" where
  "bcm419_kfree_skb skb = skb419_free_one skb"

definition bcm419_consume_skb :: "u32 \<Rightarrow> unit sk" where
  "bcm419_consume_skb skb = skb419_free_one skb"

definition bcm419___dev_kfree_skb_any :: "u32 \<Rightarrow> unit sk" where
  "bcm419___dev_kfree_skb_any skb = skb419_free_one skb"

text \<open>A read of the link of a packet in a queue.\<close>

definition load_next :: "u32 \<Rightarrow> u32 sk" where
  "load_next cur = do {
     e \<leftarrow> gets (\<lambda>s. ents s cur);
     case e of None \<Rightarrow> do { sk_fault; return 0 } | Some e \<Rightarrow> return (LOAD F_next (e_view e)) }"

text \<open>The loop shared by purge and drain; the fuel is the budget of the source plus one.\<close>

primrec free_chain :: "nat \<Rightarrow> u32 \<Rightarrow> u32 \<Rightarrow> unit sk" where
  "free_chain 0 mark cur = return ()"
| "free_chain (Suc n) mark cur =
     (if cur = 0 \<or> cur = mark then return ()
      else do {
        nxt \<leftarrow> load_next cur;
        ret \<leftarrow> shim_skb_free cur;
        case ret of Inl _ \<Rightarrow> return () | Inr _ \<Rightarrow> free_chain n mark nxt })"

definition bcm419_skb_queue_purge :: "u32 \<Rightarrow> unit sk" where
  "bcm419_skb_queue_purge queue =
     (if queue = 0 then return ()
      else do {
        h \<leftarrow> gets (\<lambda>s. heads s queue);
        case h of None \<Rightarrow> sk_fault | Some h \<Rightarrow> do {
          modify (\<lambda>s. s\<lparr>heads := (heads s)(queue \<mapsto> h\<lparr>h_next := queue, h_prev := queue, h_qlen := 0\<rparr>)\<rparr>);
          free_chain (unat (h_qlen h) + 1) queue (h_next h) } })"

definition bcm419_skb_queue_drain :: "u32 \<Rightarrow> unit sk" where
  "bcm419_skb_queue_drain queue =
     (if queue = 0 then return ()
      else do {
        h \<leftarrow> gets (\<lambda>s. heads s queue);
        case h of None \<Rightarrow> sk_fault | Some h \<Rightarrow> do {
          modify (\<lambda>s. s\<lparr>heads := (heads s)(queue \<mapsto> h\<lparr>h_next := queue, h_prev := queue, h_qlen := 0\<rparr>)\<rparr>);
          free_chain (unat (h_qlen h) + 1) queue (h_next h) } })"

definition skb419_report_failure :: "u32 \<Rightarrow> unit sk" where
  "skb419_report_failure skb = modify (\<lambda>s.
     if \<not> skb_failure_trace s \<or> \<not> shim_skb_is_legacy s skb then s
     else s\<lparr>skb_failure_stack_done := True\<rparr>)"

text \<open>The loop of the bulk release: the packet it stopped at, \<open>None\<close> after a refusal.\<close>

primrec bulk_loop :: "nat \<Rightarrow> u32 \<Rightarrow> u32 \<Rightarrow> u32 option sk" where
  "bulk_loop 0 tail cur = return (Some cur)"
| "bulk_loop (Suc n) tail cur =
     (if cur = 0 \<or> cur = tail then return (Some cur)
      else do {
        nxt \<leftarrow> load_next cur;
        ret \<leftarrow> shim_skb_free cur;
        case ret of
          Inl _ \<Rightarrow> do { skb419_report_failure cur; return None }
        | Inr _ \<Rightarrow> bulk_loop n tail nxt })"

definition bcm419_dev_kfree_skb_thread_bulk :: "u32 \<Rightarrow> u32 \<Rightarrow> u32 \<Rightarrow> unit sk" where
  "bcm419_dev_kfree_skb_thread_bulk first tail len =
     (if first = 0 then return ()
      else do {
        r \<leftarrow> bulk_loop (unat len) tail first;
        case r of None \<Rightarrow> return () | Some cur \<Rightarrow>
          if cur \<noteq> tail then return ()
          else do {
            ret \<leftarrow> shim_skb_free tail;
            case ret of Inl _ \<Rightarrow> skb419_report_failure tail | Inr _ \<Rightarrow> return () } })"

section \<open>Header and data manipulation\<close>

definition skb419_pushpull :: "u32 \<Rightarrow> u32 \<Rightarrow> (u32 \<Rightarrow> u32 \<Rightarrow> u32 option sk) \<Rightarrow> u32 option sk" where
  "skb419_pushpull skb len opr =
     (if skb = 0 then return None
      else do {
        ret \<leftarrow> opr skb len;
        (case ret of None \<Rightarrow> skb419_report_failure skb | Some _ \<Rightarrow> return ());
        return ret })"

definition bcm419_skb_put :: "u32 \<Rightarrow> u32 \<Rightarrow> u32 option sk" where
  "bcm419_skb_put skb len = skb419_pushpull skb len shim_skb_put"

definition bcm419_skb_push :: "u32 \<Rightarrow> u32 \<Rightarrow> u32 option sk" where
  "bcm419_skb_push skb len = skb419_pushpull skb len shim_skb_push"

definition bcm419_skb_pull :: "u32 \<Rightarrow> u32 \<Rightarrow> u32 option sk" where
  "bcm419_skb_pull skb len = skb419_pushpull skb len shim_skb_pull"

definition bcm419_skb_trim :: "u32 \<Rightarrow> u32 \<Rightarrow> unit sk" where
  "bcm419_skb_trim skb len = (if skb = 0 then return () else do { shim_skb_trim skb len; return () })"

definition bcm419____pskb_trim :: "u32 \<Rightarrow> u32 \<Rightarrow> (errno + unit) sk" where
  "bcm419____pskb_trim skb len = (if skb = 0 then return (Inl EINVAL) else shim_skb_trim skb len)"

section \<open>VLAN tags\<close>

definition htons :: "u16 \<Rightarrow> u16" where
  "htons x = push_bit 8 x OR drop_bit 8 x"

abbreviation (input) ETH_P_8021Q :: u16 where "ETH_P_8021Q \<equiv> 0x8100"
abbreviation (input) ETH_P_8021AD :: u16 where "ETH_P_8021AD \<equiv> 0x88a8"
abbreviation (input) ETH_P_PAE :: u16 where "ETH_P_PAE \<equiv> 0x888e"
abbreviation (input) ETH_HLEN :: u32 where "ETH_HLEN \<equiv> 14"
abbreviation (input) VLAN_HLEN :: u32 where "VLAN_HLEN \<equiv> 4"

definition bcm419_vlan_tag_present :: "u32 \<Rightarrow> bool sk" where
  "bcm419_vlan_tag_present skb = do {
     ok \<leftarrow> skb419_view_intact skb;
     if \<not> ok then return False
     else gets (\<lambda>s. (LOAD F_vlan_tci (view_of skb s) :: u16) AND SKMETA_vlan_present \<noteq> 0) }"

text \<open>The result \<open>Inr None\<close> is 0, \<open>Inr (Some (proto, tci))\<close> is 1 with the two out parameters; \<open>outs\<close> says that
  both out pointers were given.\<close>

definition bcm419_vlan_tag_get :: "u32 \<Rightarrow> bool \<Rightarrow> (errno + (u16 \<times> u16) option) sk" where
  "bcm419_vlan_tag_get skb outs = do {
     ok \<leftarrow> skb419_view_intact skb;
     if \<not> ok then return (Inl EINVAL)
     else if \<not> outs then return (Inl EINVAL)
     else do {
       v \<leftarrow> gets (view_of skb);
       return (case skb419_vlan_cfi v of
         Inl e \<Rightarrow> Inl e
       | Inr cfi \<Rightarrow>
           let raw = LOAD F_vlan_tci v :: u16 in
           if raw AND SKMETA_vlan_present = 0 then Inr None
           else Inr (Some (LOAD F_vlan_proto v, (raw AND NOT SKMETA_vlan_present) OR (ucast cfi AND SKMETA_vlan_present)))) } }"

definition store_tag :: "u16 \<Rightarrow> u16 \<Rightarrow> u32 \<Rightarrow> u8 list \<Rightarrow> u8 list" where
  "store_tag raw proto cfi v =
     st SKMETA_offset_bcm_ext_vlan_cfi_save 4 cfi (STORE F_vlan_proto proto (STORE F_vlan_tci raw v))"

definition bcm419_vlan_tag_set :: "u32 \<Rightarrow> u16 \<Rightarrow> u16 \<Rightarrow> (errno + unit) sk" where
  "bcm419_vlan_tag_set skb proto tci = do {
     ok \<leftarrow> skb419_view_intact skb;
     if \<not> ok then return (Inl EINVAL)
     else if proto \<noteq> htons ETH_P_8021Q \<and> proto \<noteq> htons ETH_P_8021AD then return (Inl EINVAL)
     else do {
       v \<leftarrow> gets (view_of skb);
       case skb419_vlan_cfi v of
         Inl e \<Rightarrow> return (Inl e)
       | Inr _ \<Rightarrow> do {
           upd_view skb (store_tag ((tci AND NOT SKMETA_vlan_present) OR SKMETA_vlan_present) proto
             (ucast (tci AND SKMETA_vlan_present)));
           return (Inr ()) } } }"

definition bcm419_vlan_tag_clear :: "u32 \<Rightarrow> unit sk" where
  "bcm419_vlan_tag_clear skb = do {
     ok \<leftarrow> skb419_view_intact skb;
     if \<not> ok then return () else upd_view skb (store_tag 0 0 0) }"

section \<open>Metadata\<close>

definition META_SCALARS :: "skf list" where
  "META_SCALARS =
     [F_tstamp, F_mac_len, F_queue_mapping, F_csum, F_csum_start, F_csum_offset, F_priority, F_skb_iif, F_hash,
      F_mark, F_protocol, F_transport_header, F_network_header, F_mac_header, F_inner_protocol,
      F_inner_transport_header, F_inner_network_header, F_inner_mac_header]"

definition SKMETA_COMMON :: "skflag list" where
  "SKMETA_COMMON =
     [G_pkt_type, G_ip_summed, G_csum_level, G_ignore_df, G_ooo_okay, G_dst_pending_confirm, G_remcsum_offload,
      G_csum_complete_sw, G_inner_protocol_type, G_l4_hash, G_sw_hash, G_wifi_acked_valid, G_wifi_acked, G_no_fcs,
      G_encapsulation, G_encap_hdr_csum, G_csum_valid, G_offload_fwd_mark, G_pfmemalloc]"

definition SKMETA_UNSUPPORTED :: "skflag list" where
  "SKMETA_UNSUPPORTED =
     [G_nf_trace, G_ipvs_property, G_csum_not_inet, G_decrypted, G_tc_skip_classify, G_tc_at_ingress,
      G_tc_redirected, G_tc_from_ingress, G_offload_mr_fwd_mark]"

fun SKMETA_offset :: "skflag \<Rightarrow> nat" where
  "SKMETA_offset G_offload_mr_fwd_mark = 227" | "SKMETA_offset G_tc_from_ingress = 227"
| "SKMETA_offset G_tc_redirected = 227" | "SKMETA_offset G_tc_at_ingress = 227"
| "SKMETA_offset G_tc_skip_classify = 227" | "SKMETA_offset G_decrypted = 228"
| "SKMETA_offset G_csum_not_inet = 226" | "SKMETA_offset G_ipvs_property = 226"
| "SKMETA_offset G_nf_trace = 224" | "SKMETA_offset G_pfmemalloc = 222"
| "SKMETA_offset G_offload_fwd_mark = 227" | "SKMETA_offset G_csum_valid = 225"
| "SKMETA_offset G_encap_hdr_csum = 225" | "SKMETA_offset G_encapsulation = 225"
| "SKMETA_offset G_no_fcs = 225" | "SKMETA_offset G_wifi_acked = 225"
| "SKMETA_offset G_wifi_acked_valid = 225" | "SKMETA_offset G_sw_hash = 225"
| "SKMETA_offset G_l4_hash = 225" | "SKMETA_offset G_inner_protocol_type = 227"
| "SKMETA_offset G_csum_complete_sw = 226" | "SKMETA_offset G_remcsum_offload = 227"
| "SKMETA_offset G_dst_pending_confirm = 226" | "SKMETA_offset G_ooo_okay = 224"
| "SKMETA_offset G_ignore_df = 224" | "SKMETA_offset G_csum_level = 226"
| "SKMETA_offset G_ip_summed = 224" | "SKMETA_offset G_pkt_type = 224"

fun SKMETA_mask :: "skflag \<Rightarrow> u8" where
  "SKMETA_mask G_offload_mr_fwd_mark = 8" | "SKMETA_mask G_tc_from_ingress = 128"
| "SKMETA_mask G_tc_redirected = 64" | "SKMETA_mask G_tc_at_ingress = 32"
| "SKMETA_mask G_tc_skip_classify = 16" | "SKMETA_mask G_decrypted = 1"
| "SKMETA_mask G_csum_not_inet = 8" | "SKMETA_mask G_ipvs_property = 128"
| "SKMETA_mask G_nf_trace = 16" | "SKMETA_mask G_pfmemalloc = 128"
| "SKMETA_mask G_offload_fwd_mark = 4" | "SKMETA_mask G_csum_valid = 128"
| "SKMETA_mask G_encap_hdr_csum = 64" | "SKMETA_mask G_encapsulation = 32"
| "SKMETA_mask G_no_fcs = 16" | "SKMETA_mask G_wifi_acked = 8"
| "SKMETA_mask G_wifi_acked_valid = 4" | "SKMETA_mask G_sw_hash = 2"
| "SKMETA_mask G_l4_hash = 1" | "SKMETA_mask G_inner_protocol_type = 1"
| "SKMETA_mask G_csum_complete_sw = 1" | "SKMETA_mask G_remcsum_offload = 2"
| "SKMETA_mask G_dst_pending_confirm = 16" | "SKMETA_mask G_ooo_okay = 128"
| "SKMETA_mask G_ignore_df = 8" | "SKMETA_mask G_csum_level = 6"
| "SKMETA_mask G_ip_summed = 96" | "SKMETA_mask G_pkt_type = 7"

fun SKMETA_shift :: "skflag \<Rightarrow> nat" where
  "SKMETA_shift G_offload_mr_fwd_mark = 3" | "SKMETA_shift G_tc_from_ingress = 7"
| "SKMETA_shift G_tc_redirected = 6" | "SKMETA_shift G_tc_at_ingress = 5"
| "SKMETA_shift G_tc_skip_classify = 4" | "SKMETA_shift G_decrypted = 0"
| "SKMETA_shift G_csum_not_inet = 3" | "SKMETA_shift G_ipvs_property = 7"
| "SKMETA_shift G_nf_trace = 4" | "SKMETA_shift G_pfmemalloc = 7"
| "SKMETA_shift G_offload_fwd_mark = 2" | "SKMETA_shift G_csum_valid = 7"
| "SKMETA_shift G_encap_hdr_csum = 6" | "SKMETA_shift G_encapsulation = 5"
| "SKMETA_shift G_no_fcs = 4" | "SKMETA_shift G_wifi_acked = 3"
| "SKMETA_shift G_wifi_acked_valid = 2" | "SKMETA_shift G_sw_hash = 1"
| "SKMETA_shift G_l4_hash = 0" | "SKMETA_shift G_inner_protocol_type = 0"
| "SKMETA_shift G_csum_complete_sw = 0" | "SKMETA_shift G_remcsum_offload = 1"
| "SKMETA_shift G_dst_pending_confirm = 4" | "SKMETA_shift G_ooo_okay = 7"
| "SKMETA_shift G_ignore_df = 3" | "SKMETA_shift G_csum_level = 1"
| "SKMETA_shift G_ip_summed = 5" | "SKMETA_shift G_pkt_type = 0"

text \<open>The scalar members of a native packet.  The two halves of the checksum word are a union with it.\<close>

definition n_get :: "nskb \<Rightarrow> skf \<Rightarrow> u64" where
  "n_get n f = (if f = F_csum_start then n_scal n F_csum AND 0xffff
     else if f = F_csum_offset then drop_bit 16 (n_scal n F_csum) AND 0xffff else n_scal n f)"

definition n_set :: "skf \<Rightarrow> u64 \<Rightarrow> nskb \<Rightarrow> nskb" where
  "n_set f x n = n\<lparr>n_scal := (if f = F_csum_start then (n_scal n)(F_csum := (n_scal n F_csum AND NOT 0xffff) OR (x AND 0xffff))
     else if f = F_csum_offset then (n_scal n)(F_csum := (n_scal n F_csum AND 0xffff) OR push_bit 16 (x AND 0xffff))
     else (n_scal n)(f := x))\<rparr>"

definition flag_in :: "skflag \<Rightarrow> u8 \<Rightarrow> u8 list \<Rightarrow> u8 list" where
  "flag_in g x v = v[SKMETA_offset g := (v ! SKMETA_offset g AND NOT (SKMETA_mask g)) OR push_bit (SKMETA_shift g) x]"

definition flag_out :: "skflag \<Rightarrow> u8 list \<Rightarrow> u8" where
  "flag_out g v = drop_bit (SKMETA_shift g) (v ! SKMETA_offset g AND SKMETA_mask g)"

definition skb419_metadata_in :: "nskb \<Rightarrow> u8 list \<Rightarrow> u8 list" where
  "skb419_metadata_in n v =
     fold (\<lambda>g. flag_in g (n_flag n g)) SKMETA_COMMON (fold (\<lambda>f. STORE f (n_get n f)) META_SCALARS v)"

definition skb419_tc_secmark_out :: "u8 list \<Rightarrow> errno + unit" where
  "skb419_tc_secmark_out v =
     (if (LOAD F_secmark v :: u32) \<noteq> 0 then Inl EOPNOTSUPP
      else if (LOAD F_tc_index v :: u16) \<noteq> 0 then Inl EOPNOTSUPP else Inr ())"

definition vlan_hwaccel_clear_tag :: "nskb \<Rightarrow> nskb" where
  "vlan_hwaccel_clear_tag n = n\<lparr>n_vlan_proto := 0, n_vlan_tci := 0\<rparr>"

definition vlan_hwaccel_put_tag :: "u16 \<Rightarrow> u16 \<Rightarrow> nskb \<Rightarrow> nskb" where
  "vlan_hwaccel_put_tag proto tci n = n\<lparr>n_vlan_proto := proto, n_vlan_tci := tci\<rparr>"

definition gso_out :: "skb419_data \<Rightarrow> nskb \<Rightarrow> nskb" where
  "gso_out d n =
     (if (ld SH_gso_size 2 (shinfo d) :: u16) \<noteq> 0
      then n\<lparr>n_gso_size := ld SH_gso_size 2 (shinfo d), n_gso_segs := ld SH_gso_segs 2 (shinfo d),
             n_gso_type := ld SH_gso_type 4 (shinfo d)\<rparr>
      else n)"

definition skb419_metadata_out :: "u8 list \<Rightarrow> skb419_data \<Rightarrow> nskb \<Rightarrow> errno + nskb" where
  "skb419_metadata_out v d n =
     (case skb419_vlan_cfi v of Inl e \<Rightarrow> Inl e | Inr cfi_save \<Rightarrow>
      if list_ex (\<lambda>g. v ! SKMETA_offset g AND SKMETA_mask g \<noteq> 0) SKMETA_UNSUPPORTED then Inl EOPNOTSUPP
      else
        let n = fold (\<lambda>f. n_set f (LOAD f v)) META_SCALARS n;
            n = fold (\<lambda>g. n_flag_update (\<lambda>fl. fl(g := flag_out g v))) SKMETA_COMMON n;
            n = gso_out d n in
        case skb419_tc_secmark_out v of Inl e \<Rightarrow> Inl e | Inr _ \<Rightarrow>
          let tci = LOAD F_vlan_tci v :: u16; proto = LOAD F_vlan_proto v :: u16; n = vlan_hwaccel_clear_tag n in
          if tci AND SKMETA_vlan_present \<noteq> 0 then
            (if proto \<noteq> htons ETH_P_8021Q \<and> proto \<noteq> htons ETH_P_8021AD then Inl EINVAL
             else Inr (vlan_hwaccel_put_tag proto
               ((tci AND NOT SKMETA_vlan_present) OR (ucast cfi_save AND SKMETA_vlan_present)) n))
          else Inr n)"

section \<open>Import and export\<close>

definition shim_netdev_native :: "skb_world \<Rightarrow> u32 \<Rightarrow> u32" where
  "shim_netdev_native s old = (case find (\<lambda>(o', n). o' = old) (netdev419_views s) of Some (_, n) \<Rightarrow> n | None \<Rightarrow> 0)"

definition shim_netdev_legacy :: "skb_world \<Rightarrow> u32 \<Rightarrow> u32" where
  "shim_netdev_legacy s native = (case find (\<lambda>(_, n). n = native) (netdev419_views s) of Some (old, _) \<Rightarrow> old | None \<Rightarrow> 0)"

definition n_len :: "nskb \<Rightarrow> nat" where
  "n_len n = length (n_bytes n) - n_headroom n"

definition skb_vlan_tag_present :: "nskb \<Rightarrow> bool" where
  "skb_vlan_tag_present n \<longleftrightarrow> n_vlan_proto n \<noteq> 0 \<or> n_vlan_tci n \<noteq> 0"

definition skb_mac_header_was_set :: "nskb \<Rightarrow> bool" where
  "skb_mac_header_was_set n \<longleftrightarrow> n_scal n F_mac_header \<noteq> 0xffff"

definition skb_mac_offset :: "nskb \<Rightarrow> int" where
  "skb_mac_offset n = uint (n_scal n F_mac_header) - int (n_headroom n)"

definition import_refused :: "nskb \<Rightarrow> bool" where
  "import_refused n \<longleftrightarrow> n_gso_size n \<noteq> 0 \<or> n_gso_type n AND NOT SKB419_GSO_MASK \<noteq> 0 \<or> n_tx_flags n \<noteq> 0 \<or>
     n_tskey n \<noteq> 0 \<or> n_zcopy n \<or> n_hwtstamp n \<noteq> 0"

abbreviation (input) INT_MAX :: u32 where "INT_MAX \<equiv> 0x7fffffff"

text \<open>The second half of the import: the working copy becomes an old packet.\<close>

definition import_work :: "skb_env \<Rightarrow> u32 \<Rightarrow> u32 \<Rightarrow> u32 \<Rightarrow> u32 \<Rightarrow> nskb \<Rightarrow> (errno + u32) sk" where
  "import_work E fl native old_dev work wn =
     (let headroom = of_nat (n_headroom wn) :: u32; len = of_nat (n_len wn) :: u32 in
      if add_overflow headroom len then do { dev_kfree_skb_any work; return (Inl EOVERFLOW) }
      else do {
        r \<leftarrow> shim_skb_alloc E (headroom + len) fl;
        case r of None \<Rightarrow> do { dev_kfree_skb_any work; return (Inl ENOMEM) } | Some old \<Rightarrow> do {
          a \<leftarrow> gets (data_of old);
          upd_data a (dbytes_update (overwrite 0 (take (unat (headroom + len)) (n_bytes wn))));
          upd_view old (\<lambda>v. STORE F_dev old_dev (STORE F_len len (STORE F_tail (a + headroom + len) (STORE F_data (a + headroom) v))));
          upd_view old (skb419_metadata_in wn);
          upd_entry old (\<lambda>e. e\<lparr>native_meta := work, native_owner := native\<rparr>);
          return (Inr old) } })"

definition shim_skb_import :: "skb_env \<Rightarrow> u32 \<Rightarrow> u32 \<Rightarrow> (errno + u32) sk" where
  "shim_skb_import E native fl =
     (if native = 0 then return (Inl EINVAL)
      else do {
        s \<leftarrow> gets (\<lambda>s. s);
        case natives s native of None \<Rightarrow> do { sk_fault; return (Inl EINVAL) } | Some n \<Rightarrow>
        let vlan = skb_vlan_tag_present n; old_dev = (if n_dev n \<noteq> 0 then shim_netdev_legacy s (n_dev n) else 0);
            len = of_nat (n_len n) :: u32;
            headroom = max (of_nat (n_headroom n)) (if vlan then VLAN_HLEN else 0) :: u32 in
        if import_refused n then return (Inl EOPNOTSUPP)
        else if n_dev n \<noteq> 0 \<and> old_dev = 0 then return (Inl EXDEV)
        else if vlan \<and> (len < ETH_HLEN \<or> \<not> skb_mac_header_was_set n \<or> skb_mac_offset n \<noteq> 0) then return (Inl EINVAL)
        else if add_overflow headroom len \<or> headroom + len > INT_MAX - VLAN_HLEN then return (Inl EOVERFLOW)
        else case k_skb_copy_expand E fl (unat headroom) n s of None \<Rightarrow> return (Inl ENOMEM) | Some (work, wn) \<Rightarrow>
        let wn = wn\<lparr>n_flag := (n_flag wn)(G_pfmemalloc := n_flag n G_pfmemalloc),
                    n_scal := (n_scal wn)(F_mac_len := n_scal n F_mac_len)\<rparr> in
        if vlan then (case k_skb_vlan_push E wn of (ret, wv) \<Rightarrow> do {
          new_native (work, vlan_hwaccel_clear_tag wv);
          if ret \<noteq> 0 then do { dev_kfree_skb_any work; return (Inl (Kerr ret)) }
          else import_work E fl native old_dev work (vlan_hwaccel_clear_tag wv) })
        else do {
          new_native (work, wn);
          import_work E fl native old_dev work wn } })"

definition skb_reserve :: "nat \<Rightarrow> nskb \<Rightarrow> nskb" where
  "skb_reserve k n = n\<lparr>n_headroom := n_headroom n + k, n_bytes := n_bytes n @ replicate k 0\<rparr>"

definition skb_put :: "nat \<Rightarrow> nskb \<Rightarrow> nskb" where
  "skb_put k n = n\<lparr>n_bytes := n_bytes n @ replicate k 0\<rparr>"

text \<open>The native packet an export hands to \<^verbatim>\<open>skb419_metadata_out()\<close>, from the one the kernel allocated.\<close>

definition export_base :: "skb_env \<Rightarrow> skb_world \<Rightarrow> skb419_entry \<Rightarrow> skb419_data \<Rightarrow> u32 \<Rightarrow> nskb \<Rightarrow> nskb" where
  "export_base E s e d dev n0 =
     (let v = e_view e; hd = LOAD F_head v :: u32; da = LOAD F_data v; tl = LOAD F_tail v; len = LOAD F_len v :: u32;
          n = skb_put (unat len) (skb_reserve (unat (da - hd)) n0);
          n = n\<lparr>n_bytes := overwrite 0 (take (unat (tl - hd)) (dbytes d)) (n_bytes n)\<rparr>;
          n = (case natives s (native_meta e) of Some m \<Rightarrow> if native_meta e \<noteq> 0 then k_skb_copy_header E n m else n | None \<Rightarrow> n) in
      n\<lparr>n_dev := dev\<rparr>)"

definition shim_skb_export :: "skb_env \<Rightarrow> u32 \<Rightarrow> u32 \<Rightarrow> (errno + u32) sk" where
  "shim_skb_export E old fl =
     (if old = 0 then return (Inl EINVAL)
      else do {
        s \<leftarrow> gets (\<lambda>s. s);
        case skb419_validate s old of Inl e \<Rightarrow> return (Inl e) | Inr _ \<Rightarrow>
        let v = view_of old s; old_dev = LOAD F_dev v; dev = (if old_dev \<noteq> 0 then shim_netdev_native s old_dev else 0) in
        if old_dev \<noteq> 0 \<and> dev = 0 then return (Inl EXDEV)
        else case (ents s old, buf_of old s) of
          (Some e, Some d) \<Rightarrow> (case k_alloc_skb E fl (unat (capacity d)) s of
            None \<Rightarrow> return (Inl ENOMEM)
          | Some (h, n) \<Rightarrow>
              let n = export_base E s e d dev n in
              (case skb419_metadata_out v d n of
                 Inl er \<Rightarrow> do { new_native (h, n); dev_kfree_skb_any h; return (Inl er) }
               | Inr n' \<Rightarrow> do { new_native (h, n'); return (Inr h) }))
        | _ \<Rightarrow> do { sk_fault; return (Inl EUCLEAN) } })"

section \<open>Delivery and transmission\<close>

abbreviation (input) NET_RX_DROP :: int where "NET_RX_DROP \<equiv> 1"

text \<open>\<^verbatim>\<open>netif_rx()\<close> takes the packet over.\<close>

definition netif_rx :: "skb_env \<Rightarrow> u32 \<Rightarrow> int sk" where
  "netif_rx E h = do {
     s \<leftarrow> gets (\<lambda>s. s);
     case natives s h of
       None \<Rightarrow> do { sk_fault; return NET_RX_DROP }
     | Some n \<Rightarrow> do {
         modify (\<lambda>s. s\<lparr>natives := (natives s)(h := None)\<rparr>);
         sk_note (NetifRx n);
         return (k_netif_rx E n s) } }"

definition eth_type_trans :: "skb_env \<Rightarrow> u32 \<Rightarrow> u32 \<Rightarrow> u16 sk" where
  "eth_type_trans E h dev = do {
     s \<leftarrow> gets (\<lambda>s. s);
     case natives s h of
       None \<Rightarrow> do { sk_fault; return 0 }
     | Some n \<Rightarrow> (case k_eth_type_trans E n dev of (p, n') \<Rightarrow> do { new_native (h, n'); return p }) }"

definition native_len :: "u32 \<Rightarrow> skb_world \<Rightarrow> nat" where
  "native_len h s = (case natives s h of Some n \<Rightarrow> n_len n | None \<Rightarrow> 0)"

definition native_dev :: "u32 \<Rightarrow> skb_world \<Rightarrow> u32" where
  "native_dev h s = (case natives s h of Some n \<Rightarrow> n_dev n | None \<Rightarrow> 0)"

definition bcm419_mixed_eth_type_trans :: "skb_env \<Rightarrow> u32 \<Rightarrow> u32 \<Rightarrow> u32 \<Rightarrow> u16 sk" where
  "bcm419_mixed_eth_type_trans E atomic arg devarg = do {
     legacy \<leftarrow> gets (\<lambda>s. shim_skb_is_legacy s arg);
     if \<not> legacy then eth_type_trans E arg devarg
     else do {
       dev \<leftarrow> gets (\<lambda>s. shim_netdev_native s devarg);
       if dev = 0 then return 0
       else do {
         upd_view arg (STORE F_dev devarg);
         r \<leftarrow> shim_skb_export E arg atomic;
         case r of Inl _ \<Rightarrow> return 0 | Inr native \<Rightarrow> do {
           len \<leftarrow> gets (native_len native);
           if len < unat ETH_HLEN then do { dev_kfree_skb_any native; return 0 }
           else do {
             protocol \<leftarrow> eth_type_trans E native dev;
             p \<leftarrow> shim_skb_pull arg ETH_HLEN;
             case p of None \<Rightarrow> do { dev_kfree_skb_any native; return 0 } | Some _ \<Rightarrow> do {
               n \<leftarrow> gets (\<lambda>s. natives s native);
               (case n of None \<Rightarrow> sk_fault | Some n \<Rightarrow> upd_view arg (skb419_metadata_in n));
               dev_kfree_skb_any native;
               return protocol } } } } } }"

definition bcm419_mixed_netif_rx :: "skb_env \<Rightarrow> u32 \<Rightarrow> u32 \<Rightarrow> int sk" where
  "bcm419_mixed_netif_rx E atomic arg = do {
     legacy \<leftarrow> gets (\<lambda>s. shim_skb_is_legacy s arg);
     if \<not> legacy then netif_rx E arg
     else do {
       r \<leftarrow> shim_skb_export E arg atomic;
       case r of
         Inl _ \<Rightarrow> do { skb419_report_failure arg; bcm419_kfree_skb arg; return NET_RX_DROP }
       | Inr native \<Rightarrow> do { bcm419_kfree_skb arg; netif_rx E native } } }"

definition bcm419_rx_deliver :: "skb_env \<Rightarrow> u32 \<Rightarrow> u32 \<Rightarrow> (errno + int) sk" where
  "bcm419_rx_deliver E old gfp419 =
     (if old = 0 then return (Inl EINVAL)
      else do {
        r \<leftarrow> shim_skb_export E old (shim_gfp419 (gk E) gfp419);
        case r of
          Inl e \<Rightarrow> do { skb419_report_failure old; return (Inl e) }
        | Inr native \<Rightarrow> do {
            dev \<leftarrow> gets (native_dev native);
            len \<leftarrow> gets (native_len native);
            if dev = 0 then do { dev_kfree_skb_any native; shim_skb_free old; return (Inl ENODEV) }
            else if len < unat ETH_HLEN then do { dev_kfree_skb_any native; shim_skb_free old; return (Inl EINVAL) }
            else do {
              eth_type_trans E native dev;
              rc \<leftarrow> netif_rx E native;
              shim_skb_free old;
              return (Inr rc) } } })"

definition bcm419_tx_import :: "skb_env \<Rightarrow> u32 \<Rightarrow> u32 \<Rightarrow> u32 option sk" where
  "bcm419_tx_import E native gfp419 =
     (if native = 0 then return None
      else do {
        r \<leftarrow> shim_skb_import E native (shim_gfp419 (gk E) gfp419);
        return (case r of Inl _ \<Rightarrow> None | Inr old \<Rightarrow> Some old) })"

definition bcm419_netif_tx_wake_queue :: "skb_env \<Rightarrow> u32 \<Rightarrow> u32 \<Rightarrow> unit sk" where
  "bcm419_netif_tx_wake_queue E old qidx =
     (if old = 0 then return ()
      else do {
        dev \<leftarrow> gets (\<lambda>s. shim_netdev_native s old);
        if dev = 0 then return ()
        else if qidx \<ge> k_real_num_tx_queues E dev then return ()
        else sk_note (WakeQueue dev qidx) })"

definition bcm419_tx_eapol :: "skb_env \<Rightarrow> u32 \<Rightarrow> u32 \<Rightarrow> u32 option sk" where
  "bcm419_tx_eapol E native gfp419 =
     (if native = 0 then return None
      else do {
        q \<leftarrow> gets (\<lambda>s. natives s native);
        case q of None \<Rightarrow> do { sk_fault; return None } | Some n \<Rightarrow>
          if n_len n < unat ETH_HLEN + 4 then return None
          else if (le_word (slice (n_headroom n + 12) 2 (n_bytes n)) :: u16) \<noteq> htons ETH_P_PAE then return None
          else bcm419_tx_import E native gfp419 })"

section \<open>Segmentation\<close>

definition upd_head :: "u32 \<Rightarrow> (skb419_head \<Rightarrow> skb419_head) \<Rightarrow> unit sk" where
  "upd_head queue f = modify (\<lambda>s. case heads s queue of
     Some h \<Rightarrow> s\<lparr>heads := (heads s)(queue \<mapsto> f h)\<rparr> | None \<Rightarrow> s\<lparr>sk_bug := True\<rparr>)"

text \<open>Appending a view behind \<open>tail\<close>; the result is the new tail.\<close>

definition skb419_list_append :: "u32 \<Rightarrow> u32 \<Rightarrow> u32 \<Rightarrow> u32 sk" where
  "skb419_list_append queue view tail = do {
     upd_view view (STORE F_next queue);
     upd_view view (STORE F_prev tail);
     (if tail = queue then upd_head queue (h_next_update (\<lambda>_. view)) else upd_view tail (STORE F_next view));
     upd_head queue (\<lambda>h. h\<lparr>h_prev := view, h_qlen := h_qlen h + 1\<rparr>);
     return view }"

text \<open>The loop over the segments, which the segmenter has handed over as new references.\<close>

primrec import_segs :: "skb_env \<Rightarrow> u32 \<Rightarrow> u32 \<Rightarrow> u32 list \<Rightarrow> u32 \<Rightarrow> nat \<Rightarrow> (errno + nat) sk" where
  "import_segs E fl queue [] tail count = return (Inr count)"
| "import_segs E fl queue (cur # rest) tail count = do {
     r \<leftarrow> shim_skb_import E cur fl;
     case r of
       Inl e \<Rightarrow> do {
         for_each (cur # rest) dev_kfree_skb_any;
         bcm419_skb_queue_drain queue;
         return (Inl e) }
     | Inr old \<Rightarrow> do {
         tail \<leftarrow> skb419_list_append queue old tail;
         import_segs E fl queue rest tail (count + 1) } }"

definition import_one :: "skb_env \<Rightarrow> u32 \<Rightarrow> u32 \<Rightarrow> u32 \<Rightarrow> (errno + nat) sk" where
  "import_one E fl queue native = do {
     r \<leftarrow> shim_skb_import E native fl;
     case r of Inl e \<Rightarrow> return (Inl e) | Inr one \<Rightarrow> do { skb419_list_append queue one queue; return (Inr 1) } }"

definition shim_skb_import_gso :: "skb_env \<Rightarrow> u32 \<Rightarrow> u32 \<Rightarrow> u32 \<Rightarrow> (errno + nat) sk" where
  "shim_skb_import_gso E native fl queue =
     (if native = 0 \<or> queue = 0 then return (Inl EINVAL)
      else do {
        upd_head queue (\<lambda>h. h\<lparr>h_next := queue, h_prev := queue, h_qlen := 0, h_lock := 0\<rparr>);
        s \<leftarrow> gets (\<lambda>s. s);
        case natives s native of None \<Rightarrow> do { sk_fault; return (Inl EINVAL) } | Some n \<Rightarrow>
        if n_gso_size n = 0 \<and> n_gso_type n AND NOT SKB419_GSO_MASK = 0 then import_one E fl queue native
        else case k_skb_gso_segment E n s of
          Inl e \<Rightarrow> return (Inl e)
        | Inr [] \<Rightarrow> import_one E fl queue native
        | Inr segs \<Rightarrow> do {
            for_each segs new_native;
            r \<leftarrow> import_segs E fl queue (map fst segs) queue 0;
            (case r of Inl e \<Rightarrow> return () | Inr _ \<Rightarrow> dev_kfree_skb_any native);
            return r } })"

definition bcm419_tx_import_gso :: "skb_env \<Rightarrow> u32 \<Rightarrow> u32 \<Rightarrow> u32 \<Rightarrow> (errno + nat) sk" where
  "bcm419_tx_import_gso E native gfp419 queue =
     (if native = 0 \<or> queue = 0 then return (Inl EINVAL)
      else shim_skb_import_gso E native (shim_gfp419 (gk E) gfp419) queue)"

definition shim_skb_exit :: "skb_world \<Rightarrow> bool" where
  "shim_skb_exit s \<longleftrightarrow> skb419_headers s \<noteq> 0 \<or> skb419_buffers s \<noteq> 0"

end
