(* ===== verification/Skb419_Inv.thy ===== *)
theory Skb419_Inv
  imports Skb419_Bridge
begin

text \<open>
  The invariant of the packet buffers: every live descriptor is well-formed and has a live buffer, the
  reference count of a buffer is the number of descriptors that share it, and the counters of the module
  are the numbers of live descriptors and buffers.
\<close>

section \<open>Geometry\<close>

definition span :: "u32 \<Rightarrow> u32 \<Rightarrow> bool" where
  "span a cap \<longleftrightarrow> unat a + unat cap < 2 ^ 32"

definition placed :: "u32 \<Rightarrow> u32 \<Rightarrow> nat \<Rightarrow> nat \<Rightarrow> u8 list \<Rightarrow> bool" where
  "placed a cap x l v \<longleftrightarrow> x + l \<le> unat cap \<and> LOAD F_head v = a \<and> LOAD F_end v = a + cap \<and>
     LOAD F_data v = a + of_nat x \<and> LOAD F_tail v = a + of_nat (x + l) \<and> LOAD F_len v = (of_nat l :: u32)"

lemma unat_in_span: "span a cap \<Longrightarrow> x \<le> unat cap \<Longrightarrow> unat (a + of_nat x) = unat a + x"
  by (simp add: span_def unat_word_ariths unat_of_nat)

lemma u32_of_nat_unat: "of_nat (unat (x :: u32)) = x" by simp

lemma geometry_placed:
  assumes "span a cap"
  shows "skb419_geometry a cap v \<longleftrightarrow> (\<exists>x l. placed a cap x l v)"
proof
  assume g: "skb419_geometry a cap v"
  let ?d = "LOAD F_data v :: u32" and ?t = "LOAD F_tail v :: u32"
  have g': "LOAD F_head v = a" "LOAD F_end v = a + cap" "a \<le> ?d" "?d \<le> ?t" "?t \<le> a + cap" "?t - ?d = LOAD F_len v"
    using g by (auto simp: skb419_geometry_def Let_def)
  define x where "x = unat (?d - a)"
  define l where "l = unat (?t - ?d)"
  have e: "unat (a + cap) = unat a + unat cap" using assms by (simp add: span_def unat_word_ariths)
  have x: "x = unat ?d - unat a" and l: "l = unat ?t - unat ?d"
    using g'(3,4) by (simp_all add: x_def l_def unat_sub word_le_nat_alt)
  have "x + l \<le> unat cap" using g'(3-5) e by (simp add: x l word_le_nat_alt)
  moreover have "of_nat x = ?d - a" "of_nat l = ?t - ?d" unfolding x_def l_def by (rule u32_of_nat_unat)+
  moreover from this have "?d = a + of_nat x" "?t = a + of_nat (x + l)" by simp_all
  ultimately have "placed a cap x l v" using g' unfolding placed_def by simp
  then show "\<exists>x l. placed a cap x l v" by blast
next
  assume "\<exists>x l. placed a cap x l v"
  then obtain x l where p: "placed a cap x l v" by blast
  then have "x \<le> unat cap" "x + l \<le> unat cap" by (simp_all add: placed_def)
  then have u: "unat (a + of_nat x) = unat a + x" "unat (a + of_nat (x + l)) = unat a + (x + l)"
    using unat_in_span [OF assms] by blast+
  have e: "unat (a + cap) = unat a + unat cap" using assms by (simp add: span_def unat_word_ariths)
  have "a + of_nat (x + l) - (a + of_nat x) = (of_nat l :: u32)" by simp
  with p u e show "skb419_geometry a cap v"
    by (auto simp: skb419_geometry_def Let_def placed_def word_less_nat_alt not_less word_le_nat_alt)
qed

section \<open>Well-formed views and buffers\<close>

definition plain :: "u8 list \<Rightarrow> bool" where
  "plain v \<longleftrightarrow> sized v \<and> (LOAD F_users v :: u32) \<noteq> 0 \<and> (LOAD F_data_len v :: u32) = 0 \<and>
     \<not> BITVAL B_head_frag v \<and> \<not> BITVAL B_nohdr v \<and>
     (ld 96 4 v :: u32) AND NOT SKMETA_vlan_present = 0 \<and> all_zero 88 8 v \<and> all_zero 100 92 v \<and>
     (LOAD F_recycle_flags v :: u32) = 0 \<and> list_all (\<lambda>f. (LOAD f v :: u32) = 0) refs"

definition view_ok :: "u32 \<Rightarrow> u32 \<Rightarrow> u8 list \<Rightarrow> bool" where
  "view_ok a cap v \<longleftrightarrow> plain v \<and> (\<exists>x l. placed a cap x l v)"

definition buf_ok :: "u32 \<Rightarrow> skb419_data \<Rightarrow> bool" where
  "buf_ok a d \<longleftrightarrow> a \<noteq> 0 \<and> span a (capacity d) \<and> length (dbytes d) = unat (capacity d) \<and>
     length (shinfo d) = SHINFO_SPAN \<and> dguard d = SK419_GUARD \<and> shinfo d ! SH_nr_frags = 0 \<and>
     (ld SH_frag_list 4 (shinfo d) :: u32) = 0 \<and> all_zero 4 4 (shinfo d) \<and> all_zero 36 140 (shinfo d) \<and>
     skb419_gso_check (ld SH_gso_size 2 (shinfo d)) (ld SH_gso_segs 2 (shinfo d)) (ld SH_gso_type 4 (shinfo d)) = Inr () \<and>
     (ld SH_hwtstamps 8 (shinfo d) :: u64) = 0 \<and> (ld SH_tskey 4 (shinfo d) :: u32) = 0"

lemma vlan_cfi_eq:
  "skb419_vlan_cfi v = (if (ld 96 4 v :: u32) AND NOT SKMETA_vlan_present \<noteq> 0 then Inl EOPNOTSUPP else Inr (ld 96 4 v))"
  by (simp add: skb419_vlan_cfi_def Let_def)

lemma checks_ok:
  assumes "view_ok a (capacity d) v" and "buf_ok a d" and "skb419_dataref d AND 0xffff \<noteq> 0"
  shows "skb419_checks a d v = Inr ()"
proof -
  from assms have "skb419_geometry a (capacity d) v"
    by (auto simp: view_ok_def buf_ok_def geometry_placed)
  with assms show ?thesis
    by (simp add: skb419_checks_def view_ok_def buf_ok_def plain_def thenE_def vlan_cfi_eq refs_def)
qed

text \<open>Stores that leave a view well-formed.\<close>

definition crit :: "skf list" where
  "crit = [F_users, F_data_len, F_recycle_flags] @ refs"

lemma plain_STORE: "plain v \<Longrightarrow> f \<notin> set crit \<Longrightarrow> plain (STORE f x v)"
  by (cases f)
    (simp_all add: plain_def crit_def refs_def layout_simps apart_def all_zero_def ld_def)

lemma plain_users: "plain v \<Longrightarrow> x \<noteq> 0 \<Longrightarrow> plain (STORE F_users (x :: u32) v)"
  by (simp add: plain_def refs_def layout_simps apart_def all_zero_def ld_def)

lemma plain_zero: "plain v \<Longrightarrow> f \<in> set refs \<Longrightarrow> plain (STORE f (0 :: u32) v)"
  by (auto simp: plain_def refs_def layout_simps apart_def all_zero_def ld_def)

lemma plain_SETBIT: "plain v \<Longrightarrow> b \<noteq> B_head_frag \<Longrightarrow> b \<noteq> B_nohdr \<or> \<not> x \<Longrightarrow> plain (SETBIT b x v)"
  by (auto simp: plain_def refs_def layout_simps all_zero_def ld_def)

lemma plain_sized: "plain v \<Longrightarrow> sized v" by (simp add: plain_def)

lemma placed_STORE:
  "sized v \<Longrightarrow> f \<notin> {F_head, F_end, F_data, F_tail, F_len} \<Longrightarrow>
   placed a cap x l (STORE f y v) = placed a cap x l v"
  by (cases f) (simp_all add: placed_def layout_simps apart_def)

lemma placed_SETBIT: "placed a cap x l (SETBIT b y v) = placed a cap x l v"
  by (simp add: placed_def layout_simps)

section \<open>The invariant\<close>

definition sharers :: "skb_world \<Rightarrow> u32 \<Rightarrow> u32 set" where
  "sharers s a = {ea. \<exists>e. ents s ea = Some e \<and> e_data e = a}"

definition entry_ok :: "skb_world \<Rightarrow> u32 \<Rightarrow> skb419_entry \<Rightarrow> bool" where
  "entry_ok s ea e \<longleftrightarrow> ea \<noteq> 0 \<and> e_before e = SK419_GUARD \<and> e_after e = SK419_GUARD \<and>
     (\<exists>d. bufs s (e_data e) = Some d \<and> view_ok (e_data e) (capacity d) (e_view e)) \<and>
     (BITVAL B_cloned (e_view e) \<or> sharers s (e_data e) = {ea})"

definition buf_inv :: "skb_world \<Rightarrow> u32 \<Rightarrow> skb419_data \<Rightarrow> bool" where
  "buf_inv s a d \<longleftrightarrow> buf_ok a d \<and> sharers s a \<noteq> {} \<and> card (sharers s a) < 65536 \<and>
     skb419_dataref d = of_nat (card (sharers s a))"

definition mem_inv :: "skb_world \<Rightarrow> bool" where
  "mem_inv s \<longleftrightarrow> \<not> sk_bug s \<and> registry s = dom (ents s) \<and> finite (dom (ents s)) \<and> finite (dom (bufs s)) \<and>
     skb419_headers s = int (card (dom (ents s))) \<and> skb419_buffers s = int (card (dom (bufs s))) \<and>
     (\<forall>ea e. ents s ea = Some e \<longrightarrow> entry_ok s ea e) \<and> (\<forall>a d. bufs s a = Some d \<longrightarrow> buf_inv s a d)"

text \<open>The native references a descriptor owns are live and owned once.\<close>

definition owns :: "skb419_entry \<Rightarrow> u32 list" where
  "owns e = filter (\<lambda>h. h \<noteq> 0) [native_meta e, native_owner e]"

definition natives_ok :: "skb_world \<Rightarrow> bool" where
  "natives_ok s \<longleftrightarrow>
     (\<forall>ea e. ents s ea = Some e \<longrightarrow> distinct (owns e) \<and> set (owns e) \<subseteq> dom (natives s)) \<and>
     (\<forall>h ea eb e f. ents s ea = Some e \<longrightarrow> ents s eb = Some f \<longrightarrow> h \<in> set (owns e) \<longrightarrow> h \<in> set (owns f) \<longrightarrow> ea = eb)"

definition skb_inv :: "skb_world \<Rightarrow> bool" where
  "skb_inv s \<longleftrightarrow> mem_inv s \<and> natives_ok s"

lemma mem_invD:
  assumes "mem_inv s"
  shows "\<not> sk_bug s" "registry s = dom (ents s)" "finite (dom (ents s))" "finite (dom (bufs s))"
    "skb419_headers s = int (card (dom (ents s)))" "skb419_buffers s = int (card (dom (bufs s)))"
    "ents s ea = Some e \<Longrightarrow> entry_ok s ea e" "bufs s a = Some d \<Longrightarrow> buf_inv s a d"
  using assms by (auto simp: mem_inv_def)

lemma mem_invI:
  assumes "\<not> sk_bug s" "registry s = dom (ents s)" "finite (dom (ents s))" "finite (dom (bufs s))"
    "skb419_headers s = int (card (dom (ents s)))" "skb419_buffers s = int (card (dom (bufs s)))"
    "\<And>ea e. ents s ea = Some e \<Longrightarrow> entry_ok s ea e" "\<And>a d. bufs s a = Some d \<Longrightarrow> buf_inv s a d"
  shows "mem_inv s"
  using assms by (simp add: mem_inv_def)

lemma mem_inv_cong:
  assumes "ents t = ents s" "bufs t = bufs s" "registry t = registry s" "sk_bug t = sk_bug s"
    "skb419_headers t = skb419_headers s" "skb419_buffers t = skb419_buffers s"
  shows "mem_inv t = mem_inv s"
  using assms by (simp add: mem_inv_def entry_ok_def buf_inv_def sharers_def)

lemma finite_sharers: "mem_inv s \<Longrightarrow> finite (sharers s a)"
  by (rule finite_subset [OF _ mem_invD(3)]) (auto simp: sharers_def)

lemma inv_entry:
  assumes "mem_inv s" and "ents s ea = Some e"
  obtains d where "bufs s (e_data e) = Some d" "view_ok (e_data e) (capacity d) (e_view e)" "buf_inv s (e_data e) d"
  using mem_invD(7) [OF assms] mem_invD(8) [OF assms(1)] by (auto simp: entry_ok_def)

lemma low16_of_nat:
  assumes "0 < n" and "n < 65536"
  shows "(of_nat n :: u32) AND 0xffff \<noteq> 0"
proof -
  have m: "(0xffff :: u32) = mask 16" by (simp add: mask_eq_exp_minus_1)
  have "unat ((of_nat n :: u32) AND mask 16) = n"
    using assms by (simp add: unat_of_nat unsigned_take_bit_eq take_bit_nat_eq_self flip: take_bit_eq_mask)
  with assms(1) show ?thesis unfolding m by auto
qed

lemma inv_validate:
  assumes "mem_inv s"
  shows "skb419_validate s skb = (if skb \<in> dom (ents s) then Inr () else Inl EINVAL)"
proof (cases "ents s skb")
  case None
  then show ?thesis using mem_invD(2) [OF assms] by (auto simp: skb419_validate_def shim_skb_is_legacy_def)
next
  case (Some e)
  from assms Some obtain d where d: "bufs s (e_data e) = Some d" "view_ok (e_data e) (capacity d) (e_view e)"
    "buf_inv s (e_data e) d" by (rule inv_entry)
  have "skb419_dataref d AND 0xffff \<noteq> 0"
    using d(3) finite_sharers [OF assms] low16_of_nat [of "card (sharers s (e_data e))"]
    by (simp add: buf_inv_def card_gt_0_iff)
  with d have "skb419_checks (e_data e) d (e_view e) = Inr ()" "e_data e \<noteq> 0"
    by (auto intro: checks_ok simp: buf_inv_def buf_ok_def)
  with Some d show ?thesis
    using mem_invD(2,7) [OF assms] by (auto simp: skb419_validate_def shim_skb_is_legacy_def entry_ok_def)
qed

section \<open>Replacing, adding and removing descriptors\<close>

lemma sharers_same: "ents s ea = Some e \<Longrightarrow> e_data e' = e_data e \<Longrightarrow>
    sharers (s\<lparr>ents := (ents s)(ea \<mapsto> e')\<rparr>) a = sharers s a"
  by (auto simp: sharers_def)

text \<open>Replacing a descriptor by a well-formed one on the same buffer.\<close>

lemma inv_update:
  assumes inv: "mem_inv s" and e: "ents s ea = Some e" and d: "bufs s (e_data e) = Some d"
    and v: "view_ok (e_data e) (capacity d) (e_view e')" and c: "BITVAL B_cloned (e_view e) \<longrightarrow> BITVAL B_cloned (e_view e')"
    and same: "e_data e' = e_data e" "e_before e' = e_before e" "e_after e' = e_after e"
  shows "mem_inv (s\<lparr>ents := (ents s)(ea \<mapsto> e')\<rparr>)" (is "mem_inv ?t")
proof -
  note sh = sharers_same [OF e same(1)]
  have D: "dom (ents ?t) = dom (ents s)" using e by auto
  have "entry_ok ?t x f" if "ents ?t x = Some f" for x f
  proof (cases "x = ea")
    case True
    with that have f: "f = e'" by simp
    have ok: "entry_ok s ea e" by (rule mem_invD(7) [OF inv e])
    then have "BITVAL B_cloned (e_view e') \<or> sharers s (e_data e) = {ea}" using c unfolding entry_ok_def by blast
    with ok v d show ?thesis unfolding f True entry_ok_def sh same by simp
  next
    case False
    then show ?thesis using that mem_invD(7) [OF inv, of x f] by (simp add: entry_ok_def sh)
  qed
  moreover have "buf_inv ?t a b" if "bufs ?t a = Some b" for a b
    using that mem_invD(8) [OF inv, of a b] by (simp add: buf_inv_def sh)
  ultimately show ?thesis using mem_invD(1-6) [OF inv] D by (intro mem_invI) auto
qed

text \<open>Replacing a buffer by a well-formed one of the same capacity and count.\<close>

lemma inv_update_buf:
  assumes inv: "mem_inv s" and d: "bufs s a = Some d" and d': "buf_ok a d'" "capacity d' = capacity d"
    "skb419_dataref d' = skb419_dataref d"
  shows "mem_inv (s\<lparr>bufs := (bufs s)(a \<mapsto> d')\<rparr>)" (is "mem_inv ?t")
proof -
  have sh: "sharers ?t b = sharers s b" for b by (simp add: sharers_def)
  have D: "dom (bufs ?t) = dom (bufs s)" using d by auto
  have "entry_ok ?t x f" if "ents ?t x = Some f" for x f
    using that mem_invD(7) [OF inv, of x f] d d'(2) by (auto simp: entry_ok_def sh)
  moreover have "buf_inv ?t b c" if "bufs ?t b = Some c" for b c
    using that mem_invD(8) [OF inv, of b] d d' by (auto simp: buf_inv_def sh split: if_splits)
  ultimately show ?thesis using mem_invD(1-6) [OF inv] D by (intro mem_invI) auto
qed

text \<open>A new descriptor on a new buffer.\<close>

lemma inv_new:
  assumes inv: "mem_inv s" and ea: "ents s ea = None" "ea \<noteq> 0" and a: "bufs s a = None"
    and d: "buf_ok a d" "skb419_dataref d = 1" and e: "e_data e = a" "e_before e = SK419_GUARD" "e_after e = SK419_GUARD"
    and v: "view_ok a (capacity d) (e_view e)"
  shows "mem_inv (s\<lparr>ents := (ents s)(ea \<mapsto> e), bufs := (bufs s)(a \<mapsto> d), registry := insert ea (registry s),
     skb419_headers := skb419_headers s + 1, skb419_buffers := skb419_buffers s + 1\<rparr>)" (is "mem_inv ?t")
proof -
  have no: "e_data f \<noteq> a" if "ents s x = Some f" for x f
    using mem_invD(7) [OF inv that] a by (auto simp: entry_ok_def)
  have sa: "sharers ?t a = {ea}" using no e(1) by (auto simp: sharers_def)
  have sb: "sharers ?t b = sharers s b" if "b \<noteq> a" for b using that ea(1) e(1) by (auto simp: sharers_def)
  have "entry_ok ?t x f" if "ents ?t x = Some f" for x f
  proof (cases "x = ea")
    case True
    then show ?thesis using that ea e v sa by (auto simp: entry_ok_def)
  next
    case False
    with that have s: "ents s x = Some f" by simp
    with mem_invD(7) [OF inv s] no [OF s] sb show ?thesis by (auto simp: entry_ok_def)
  qed
  moreover have "buf_inv ?t b c" if "bufs ?t b = Some c" for b c
    using that mem_invD(8) [OF inv, of b c] d sa sb by (cases "b = a") (auto simp: buf_inv_def)
  ultimately show ?thesis using mem_invD(1-6) [OF inv] ea a by (intro mem_invI) (auto simp: card_insert_if domIff)
qed

section \<open>Operations on one descriptor\<close>

lemma wp_upd_entry [wp_simps]: "wp (upd_entry skb f) Q s = (case ents s skb of
    Some e \<Rightarrow> Q () (s\<lparr>ents := (ents s)(skb \<mapsto> f e)\<rparr>) | None \<Rightarrow> Q () (s\<lparr>sk_bug := True\<rparr>))"
  by (simp add: upd_entry_def wp_modify split: option.splits)

lemma wp_upd_view [wp_simps]: "wp (upd_view skb f) Q s = (case ents s skb of
    Some e \<Rightarrow> Q () (s\<lparr>ents := (ents s)(skb \<mapsto> e_view_update f e)\<rparr>) | None \<Rightarrow> Q () (s\<lparr>sk_bug := True\<rparr>))"
  by (simp add: upd_view_def wp_upd_entry)

lemma wp_upd_data [wp_simps]: "wp (upd_data a f) Q s = (case bufs s a of
    Some d \<Rightarrow> Q () (s\<lparr>bufs := (bufs s)(a \<mapsto> f d)\<rparr>) | None \<Rightarrow> Q () (s\<lparr>sk_bug := True\<rparr>))"
  by (simp add: upd_data_def wp_modify split: option.splits)

text \<open>\<open>safe_view a cap v w\<close>: the view \<open>w\<close> may take the place of \<open>v\<close>.\<close>

definition safe_view :: "u32 \<Rightarrow> u32 \<Rightarrow> u8 list \<Rightarrow> u8 list \<Rightarrow> bool" where
  "safe_view a cap v w \<longleftrightarrow> view_ok a cap w \<and> (BITVAL B_cloned v \<longrightarrow> BITVAL B_cloned w)"

lemma inv_view:
  assumes "mem_inv s" and "ents s skb = Some e" and "bufs s (e_data e) = Some d"
    and "safe_view (e_data e) (capacity d) (e_view e) (f (e_view e))"
  shows "mem_inv (s\<lparr>ents := (ents s)(skb \<mapsto> e_view_update f e)\<rparr>)"
  by (rule inv_update [OF assms(1-3)]) (use assms(4) in \<open>auto simp: safe_view_def\<close>)

lemma natives_update:
  assumes "natives_ok s" and "ents s skb = Some e" and "owns e' = owns e"
  shows "natives_ok (s\<lparr>ents := (ents s)(skb \<mapsto> e')\<rparr>)"
  using assms unfolding natives_ok_def by (auto split: if_splits)

lemma owns_view [simp]: "owns (e_view_update f e) = owns e"
  by (simp add: owns_def)

lemma skb_inv_view:
  assumes "skb_inv s" and "ents s skb = Some e" and "bufs s (e_data e) = Some d"
    and "safe_view (e_data e) (capacity d) (e_view e) (f (e_view e))"
  shows "skb_inv (s\<lparr>ents := (ents s)(skb \<mapsto> e_view_update f e)\<rparr>)"
  using assms inv_view [of s skb e d f] natives_update [of s skb e] by (simp add: skb_inv_def)

end
