(* ===== verification/Skb419_Keep.thy ===== *)
theory Skb419_Keep
  imports Skb419_Inv
begin

text \<open>
  Every operation of the packet buffers keeps the invariant of theory \<open>Skb419_Inv\<close>, whatever the kernel
  answers.
\<close>

section \<open>Sharing and dropping a buffer\<close>

lemma dataref_set [simp]:
  "length (shinfo d) = SHINFO_SPAN \<Longrightarrow> skb419_dataref (set_dataref n d) = n"
  "capacity (set_dataref n d) = capacity d" "dbytes (set_dataref n d) = dbytes d"
  by (simp_all add: skb419_dataref_def set_dataref_def ld_st)

lemma nth_st_other: "i < off \<or> off + w \<le> i \<Longrightarrow> i < length v \<Longrightarrow> off + w \<le> length v \<Longrightarrow> st off w x v ! i = v ! i"
  by (auto simp: st_def nth_overwrite)

lemma slice_st_other: "i + n \<le> off \<or> off + w \<le> i \<Longrightarrow> off + w \<le> length v \<Longrightarrow> slice i n (st off w x v) = slice i n v"
  by (simp add: st_def slice_overwrite_other)

lemma buf_ok_dataref: "buf_ok a d \<Longrightarrow> buf_ok a (set_dataref n d)"
  by (simp add: buf_ok_def set_dataref_def ld_st_other nth_st_other all_zero_def slice_st_other)

lemma view_ok_cloned: "view_ok a cap v \<Longrightarrow> view_ok a cap (SETBIT B_cloned x v)"
  by (simp add: view_ok_def plain_SETBIT placed_SETBIT)

text \<open>A new descriptor on a live buffer: the count goes up and the source is marked as shared.\<close>

lemma inv_share:
  assumes inv: "mem_inv s" and src: "ents s src = Some e" and ea: "ents s ea = None" "ea \<noteq> 0"
    and d: "bufs s (e_data e) = Some d" and few: "card (dom (ents s)) < 65535"
    and f: "e_data f = e_data e" "e_before f = SK419_GUARD" "e_after f = SK419_GUARD"
      "view_ok (e_data e) (capacity d) (e_view f)" "BITVAL B_cloned (e_view f)"
  shows "mem_inv (s\<lparr>ents := (ents s)(ea \<mapsto> f, src \<mapsto> e_view_update (SETBIT B_cloned True) e),
     bufs := (bufs s)(e_data e \<mapsto> set_dataref (skb419_dataref d + 1) d), registry := insert ea (registry s),
     skb419_headers := skb419_headers s + 1\<rparr>)" (is "mem_inv ?t")
proof -
  let ?a = "e_data e"
  have ne: "src \<noteq> ea" using src ea by auto
  from mem_invD(7) [OF inv src] d have e: "entry_ok s src e" "view_ok ?a (capacity d) (e_view e)" by (auto simp: entry_ok_def)
  have b: "buf_ok ?a d" "skb419_dataref d = of_nat (card (sharers s ?a))"
    using mem_invD(8) [OF inv d] by (simp_all add: buf_inv_def)
  have len: "length (shinfo d) = SHINFO_SPAN" using b(1) by (simp add: buf_ok_def)
  have sz: "sized (e_view e)" using e(2) by (auto simp: view_ok_def plain_sized)
  have sa: "sharers ?t ?a = insert ea (sharers s ?a)" using src f(1) ne by (auto simp: sharers_def)
  have sb: "sharers ?t b = sharers s b" if "b \<noteq> ?a" for b using that src ea(1) f(1) ne by (auto simp: sharers_def)
  have fin: "finite (sharers s ?a)" "ea \<notin> sharers s ?a" using finite_sharers [OF inv] ea(1) by (auto simp: sharers_def)
  have "card (sharers s ?a) \<le> card (dom (ents s))"
    by (rule card_mono [OF mem_invD(3) [OF inv]]) (auto simp: sharers_def)
  with few fin have card: "card (sharers ?t ?a) < 65536" "card (sharers ?t ?a) = Suc (card (sharers s ?a))" by (simp_all add: sa)
  have "entry_ok ?t x g" if "ents ?t x = Some g" for x g
  proof -
    consider "x = src" | "x = ea" | "x \<noteq> src" "x \<noteq> ea" by blast
    then show ?thesis
    proof cases
      case 1
      with that have g: "g = e_view_update (SETBIT B_cloned True) e" by simp
      show ?thesis using e view_ok_cloned [OF e(2)] sz unfolding g 1 by (auto simp: entry_ok_def layout_simps)
    next
      case 2
      with that ne f ea show ?thesis by (auto simp: entry_ok_def)
    next
      case 3
      with that have s: "ents s x = Some g" by simp
      have ok: "entry_ok s x g" by (rule mem_invD(7) [OF inv s])
      moreover have "src \<in> sharers s ?a" using src by (auto simp: sharers_def)
      ultimately have "BITVAL B_cloned (e_view g) \<or> e_data g \<noteq> ?a" using 3(1) by (auto simp: entry_ok_def)
      with ok d sb show ?thesis by (auto simp: entry_ok_def)
    qed
  qed
  moreover have "buf_inv ?t c k" if "bufs ?t c = Some k" for c k
  proof (cases "c = ?a")
    case True
    with that have k: "k = set_dataref (skb419_dataref d + 1) d" by simp
    show ?thesis unfolding True k buf_inv_def using b card sa buf_ok_dataref [OF b(1)] by (simp add: len)
  next
    case False
    with that mem_invD(8) [OF inv, of c k] sb [OF False] show ?thesis by (simp add: buf_inv_def)
  qed
  moreover have "dom (ents ?t) = insert ea (dom (ents s))" "dom (bufs ?t) = dom (bufs s)" using src d by auto
  ultimately show ?thesis using mem_invD(1-6) [OF inv] ea by (intro mem_invI) (auto simp: domIff)
qed

text \<open>Dropping a descriptor that is not the last on its buffer, and one that is.\<close>

lemma inv_drop_shared:
  assumes inv: "mem_inv s" and e: "ents s ea = Some e" and d: "bufs s (e_data e) = Some d"
    and more: "sharers s (e_data e) \<noteq> {ea}"
  shows "mem_inv (s\<lparr>ents := (ents s)(ea := None), bufs := (bufs s)(e_data e \<mapsto> set_dataref (skb419_dataref d - 1) d),
     registry := registry s - {ea}, skb419_headers := skb419_headers s - 1\<rparr>)" (is "mem_inv ?t")
proof -
  let ?a = "e_data e"
  have b: "buf_ok ?a d" "skb419_dataref d = of_nat (card (sharers s ?a))" "card (sharers s ?a) < 65536"
    using mem_invD(8) [OF inv d] by (simp_all add: buf_inv_def)
  have len: "length (shinfo d) = SHINFO_SPAN" using b(1) by (simp add: buf_ok_def)
  have mem: "ea \<in> sharers s ?a" "finite (sharers s ?a)" using e finite_sharers [OF inv] by (auto simp: sharers_def)
  have sa: "sharers ?t ?a = sharers s ?a - {ea}" by (auto simp: sharers_def)
  have sb: "sharers ?t b = sharers s b" if "b \<noteq> ?a" for b using that e by (auto simp: sharers_def)
  define R where "R = sharers s ?a - {ea}"
  have card: "card (sharers s ?a) = Suc (card R)" unfolding R_def by (rule card.remove [OF mem(2,1)])
  have R: "R \<noteq> {}" using more mem(1) by (auto simp: R_def)
  have "entry_ok ?t x g" if "ents ?t x = Some g" for x g
  proof -
    from that have s: "ents s x = Some g" and x: "x \<noteq> ea" by (auto split: if_splits)
    have ok: "entry_ok s x g" by (rule mem_invD(7) [OF inv s])
    then have "BITVAL B_cloned (e_view g) \<or> e_data g \<noteq> ?a" using mem(1) x by (auto simp: entry_ok_def)
    with ok d sb show ?thesis by (auto simp: entry_ok_def)
  qed
  moreover have "buf_inv ?t c k" if "bufs ?t c = Some k" for c k
  proof (cases "c = ?a")
    case True
    with that have k: "k = set_dataref (skb419_dataref d - 1) d" by simp
    show ?thesis
      unfolding True k buf_inv_def sa R_def [symmetric] using b card R buf_ok_dataref [OF b(1)] by (simp add: len)
  next
    case False
    with that mem_invD(8) [OF inv, of c k] sb [OF False] show ?thesis by (simp add: buf_inv_def)
  qed
  moreover have "dom (bufs ?t) = dom (bufs s)" using d by auto
  moreover have "card (dom (ents s)) > 0" using e mem_invD(3) [OF inv] by (auto simp: card_gt_0_iff)
  ultimately show ?thesis using mem_invD(1-6) [OF inv] e
    by (intro mem_invI) (auto simp: card_Diff_singleton domIff)
qed

lemma inv_drop_last:
  assumes inv: "mem_inv s" and e: "ents s ea = Some e" and d: "bufs s (e_data e) = Some d"
    and last: "sharers s (e_data e) = {ea}"
  shows "mem_inv (s\<lparr>ents := (ents s)(ea := None), bufs := (bufs s)(e_data e := None),
     registry := registry s - {ea}, skb419_headers := skb419_headers s - 1, skb419_buffers := skb419_buffers s - 1\<rparr>)"
    (is "mem_inv ?t")
proof -
  let ?a = "e_data e"
  have no: "e_data g \<noteq> ?a" if "ents s x = Some g" "x \<noteq> ea" for x g
    using that last by (auto simp: sharers_def)
  have sb: "sharers ?t b = sharers s b" if "b \<noteq> ?a" for b using that e by (auto simp: sharers_def)
  have "entry_ok ?t x g" if "ents ?t x = Some g" for x g
  proof -
    from that have s: "ents s x = Some g" and x: "x \<noteq> ea" by (auto split: if_splits)
    with mem_invD(7) [OF inv s] no sb show ?thesis by (auto simp: entry_ok_def)
  qed
  moreover have "buf_inv ?t c k" if "bufs ?t c = Some k" for c k
    using that mem_invD(8) [OF inv, of c k] sb by (auto simp: buf_inv_def split: if_splits)
  moreover have "card (dom (ents s)) > 0" "card (dom (bufs s)) > 0"
    using e d mem_invD(3,4) [OF inv] by (auto simp: card_gt_0_iff)
  ultimately show ?thesis using mem_invD(1-6) [OF inv] e d
    by (intro mem_invI) (auto simp: card_Diff_singleton domIff)
qed

section \<open>What the kernel promises\<close>

text \<open>Memory that is handed out is not in use and does not wrap around; a new native reference is new; at
  most 65535 descriptors are live, so that the 16 bits that validation looks at hold the number of
  descriptors of a buffer.\<close>

definition kernel_ok :: "skb_env \<Rightarrow> bool" where
  "kernel_ok E \<longleftrightarrow>
     (\<forall>fl s. kzalloc_entry E fl s \<noteq> 0 \<longrightarrow> ents s (kzalloc_entry E fl s) = None \<and> card (dom (ents s)) < 65535) \<and>
     (\<forall>fl n s. kmalloc_data E fl n s \<noteq> 0 \<longrightarrow>
        bufs s (kmalloc_data E fl n s) = None \<and> unat (kmalloc_data E fl n s) + n \<le> 2 ^ 32 + 64) \<and>
     (\<forall>fl n s h m. k_skb_clone E fl n s = Some (h, m) \<longrightarrow> h \<noteq> 0 \<and> natives s h = None) \<and>
     (\<forall>fl n s k h m. k_skb_copy_expand E fl k n s = Some (h, m) \<longrightarrow> h \<noteq> 0 \<and> natives s h = None) \<and>
     (\<forall>fl n s h m. k_alloc_skb E fl n s = Some (h, m) \<longrightarrow> h \<noteq> 0 \<and> natives s h = None)"

lemma kernel_okD:
  assumes "kernel_ok E"
  shows "kzalloc_entry E fl s \<noteq> 0 \<Longrightarrow> ents s (kzalloc_entry E fl s) = None"
    "kzalloc_entry E fl s \<noteq> 0 \<Longrightarrow> card (dom (ents s)) < 65535"
    "kmalloc_data E fl k s \<noteq> 0 \<Longrightarrow> bufs s (kmalloc_data E fl k s) = None"
    "kmalloc_data E fl k s \<noteq> 0 \<Longrightarrow> unat (kmalloc_data E fl k s) + k \<le> 2 ^ 32 + 64"
    "k_skb_clone E fl n s = Some (h, m) \<Longrightarrow> h \<noteq> 0 \<and> natives s h = None"
    "k_skb_copy_expand E fl k n s = Some (h, m) \<Longrightarrow> h \<noteq> 0 \<and> natives s h = None"
    "k_alloc_skb E fl k s = Some (h, m) \<Longrightarrow> h \<noteq> 0 \<and> natives s h = None"
  using assms unfolding kernel_ok_def by - (elim conjE, metis)+

section \<open>Allocation\<close>

abbreviation (input) zero_bytes :: "u8 list" where "zero_bytes \<equiv> replicate 384 0"

lemma le_word_zero [simp]: "le_word (replicate n 0) = 0"
  by (induction n) simp_all

lemma slice_replicate: "i + n \<le> k \<Longrightarrow> slice i n (replicate k x) = replicate n x"
  by (simp add: slice_def)

lemma zero_view:
  "sized zero_bytes" "LOAD f zero_bytes = 0" "\<not> BITVAL b zero_bytes" "i + n \<le> 384 \<Longrightarrow> slice i n zero_bytes = replicate n 0"
  using field_fits [of f]
  by (simp_all add: sized_def LOAD_def ld_def slice_replicate BITVAL_def skb419_bit_def)

lemma list_all_replicate [simp]: "list_all P (replicate n x) \<longleftrightarrow> n = 0 \<or> P x"
  by (induction n) auto

lemma fresh_view_ok: "view_ok a cap (fresh_view a cap ts)"
proof -
  have "plain (fresh_view a cap ts)"
    unfolding fresh_view_def plain_def
    by (simp add: layout_simps apart_def zero_view refs_def all_zero_def ld_def)
  moreover have "placed a cap 0 0 (fresh_view a cap ts)"
    unfolding fresh_view_def placed_def by (simp add: layout_simps apart_def zero_view)
  ultimately show ?thesis by (auto simp: view_ok_def)
qed

lemma fresh_view_cloned: "\<not> BITVAL B_cloned (fresh_view a cap ts)"
  unfolding fresh_view_def by (simp add: layout_simps zero_view)

definition fresh_entry :: "u32 \<Rightarrow> u32 \<Rightarrow> skb419_entry" where
  "fresh_entry a cap = zero_entry\<lparr>e_data := a, e_before := SK419_GUARD, e_after := SK419_GUARD,
     e_view := fresh_view a cap (cap + (384 + 192))\<rparr>"

definition with_skb :: "u32 \<Rightarrow> skb419_entry \<Rightarrow> u32 \<Rightarrow> skb419_data \<Rightarrow> skb_world \<Rightarrow> skb_world" where
  "with_skb ea e a d s = s\<lparr>ents := (ents s)(ea \<mapsto> e), bufs := (bufs s)(a \<mapsto> d), registry := insert ea (registry s),
     skb419_headers := skb419_headers s + 1, skb419_buffers := skb419_buffers s + 1\<rparr>"

definition empty_buf :: "u32 \<Rightarrow> skb419_data \<Rightarrow> bool" where
  "empty_buf cap d \<longleftrightarrow> capacity d = cap \<and> length (dbytes d) = unat cap \<and> shinfo d = st SH_dataref 4 (1 :: u32) (replicate SHINFO_SPAN 0) \<and>
     dguard d = SK419_GUARD"

lemma empty_buf_ok: "empty_buf cap d \<Longrightarrow> a \<noteq> 0 \<Longrightarrow> span a cap \<Longrightarrow> buf_ok a d \<and> skb419_dataref d = 1"
  unfolding buf_ok_def empty_buf_def skb419_dataref_def
  by (simp add: ld_st ld_st_other nth_st_other all_zero_def slice_st_other slice_replicate ld_def [of _ _ "replicate _ _"]
      skb419_gso_check_def)

lemma round_up_64:
  assumes "\<not> add_overflow sz 63"
  shows "unat sz \<le> unat ((sz + 63) AND NOT 63)"
proof -
  let ?x = "sz + 63"
  have no: "unat ?x = unat sz + 63"
    using assms unat_add_lem [of sz 63] no_olen_add_nat [of sz 63] by (simp add: add_overflow_def not_less)
  have "(?x AND NOT 63) AND (?x AND 63) = 0" "(?x AND NOT 63) OR (?x AND 63) = ?x"
    by (rule bit_word_eqI; auto simp: bit_simps)+
  then have x: "(?x AND NOT 63) + (?x AND 63) = ?x" using word_plus_and_or [of "?x AND NOT 63" "?x AND 63"] by simp
  have "?x AND NOT 63 \<le> ?x" by (rule word_and_le2)
  then have "unat ?x = unat (?x AND 63) + unat (?x AND NOT 63)"
    using unat_plus_simple [of "?x AND NOT 63" "?x AND 63"] unfolding x by simp
  moreover have "unat (?x AND 63) \<le> 63" using unat_and_le [of ?x 63] by simp
  ultimately show ?thesis using no by linarith
qed

lemma alloc_spec:
  assumes K: "kernel_ok E" and inv: "mem_inv s"
  shows "wp (shim_skb_alloc E sz fl) (\<lambda>r t. case r of None \<Rightarrow> t = s
     | Some ea \<Rightarrow> \<exists>a cap d. t = with_skb ea (fresh_entry a cap) a d s \<and> mem_inv t \<and> ea \<noteq> 0 \<and> ents s ea = None \<and>
         bufs s a = None \<and> a \<noteq> 0 \<and> span a cap \<and> empty_buf cap d \<and> unat sz \<le> unat cap) s"
proof -
  define cap where "cap = (sz + 63) AND NOT 63"
  define ea where "ea = kzalloc_entry E fl s"
  define s1 where "s1 = s\<lparr>ents := (ents s)(ea \<mapsto> zero_entry)\<rparr>"
  define a where "a = kmalloc_data E fl (unat cap + (64 + 192 + 8)) s1"
  define d where "d = set_dataref 1 (fresh_data E s1 cap)"
  let ?Q = "\<lambda>r t. case r of None \<Rightarrow> t = s
     | Some ea \<Rightarrow> \<exists>a cap d. t = with_skb ea (fresh_entry a cap) a d s \<and> mem_inv t \<and> ea \<noteq> 0 \<and> ents s ea = None \<and>
         bufs s a = None \<and> a \<noteq> 0 \<and> span a cap \<and> empty_buf cap d \<and> unat sz \<le> unat cap"
  have no_e: "ea \<noteq> 0 \<Longrightarrow> ents s ea = None" unfolding ea_def by (rule kernel_okD(1) [OF K])
  have undo: "ea \<noteq> 0 \<Longrightarrow> s1\<lparr>sk_bug := (sk_bug s1 \<or> ents s1 ea = None), ents := (ents s1)(ea := None)\<rparr> = s"
    using no_e by (cases s) (simp add: s1_def fun_upd_idem)
  have d_ok: "empty_buf cap d" by (simp add: d_def empty_buf_def fresh_data_def set_dataref_def)
  have new: "?Q (Some ea) (with_skb ea (fresh_entry a cap) a d s)"
    if "ea \<noteq> 0" "a \<noteq> 0" "\<not> add_overflow sz 63"
  proof -
    have b: "bufs s a = None" using kernel_okD(3) [OF K, of fl _ s1] that(2) by (simp add: a_def s1_def)
    have "unat a + (unat cap + 264) \<le> 2 ^ 32 + 64" using kernel_okD(4) [OF K, of fl "unat cap + (64 + 192 + 8)" s1] that(2) by (simp add: a_def)
    then have sp: "span a cap" by (simp add: span_def)
    have "mem_inv (with_skb ea (fresh_entry a cap) a d s)"
      unfolding with_skb_def using empty_buf_ok [OF d_ok that(2) sp] d_ok fresh_view_ok [of a cap]
      by (intro inv_new [OF inv no_e [OF that(1)] that(1) b])
        (simp_all add: fresh_entry_def empty_buf_def)
    moreover have "unat sz \<le> unat cap" unfolding cap_def by (rule round_up_64 [OF that(3)])
    ultimately show ?thesis using b sp d_ok that no_e by auto
  qed
  have last: "wp (do {
      modify (\<lambda>s. s\<lparr>bufs := (bufs s)(a \<mapsto> fresh_data E s cap)\<rparr>);
      upd_entry ea (\<lambda>x. x\<lparr>e_data := a, e_before := SK419_GUARD, e_after := SK419_GUARD,
        e_view := fresh_view a cap (cap + (384 + 192))\<rparr>);
      upd_data a (set_dataref 1);
      modify (skb419_headers_update (\<lambda>n. n + 1));
      modify (skb419_buffers_update (\<lambda>n. n + 1));
      skb419_register ea;
      return (Some ea) }) (\<lambda>r t. r = Some ea \<and> t = with_skb ea (fresh_entry a cap) a d s) s1"
    by (simp add: wp_simps wp_upd_entry wp_upd_data skb419_register_def s1_def with_skb_def d_def fresh_entry_def)
  show ?thesis
    unfolding shim_skb_alloc_def Let_def cap_def [symmetric]
    apply (rule wp_ifI, simp add: wp_return, rule wp_ifI, simp add: wp_return)
    apply (unfold wp_bind [of "gets _"] wp_gets ea_def [symmetric], rule wp_ifI, simp add: wp_return)
    apply (unfold wp_bind [of "modify (\<lambda>s. s\<lparr>ents := _ s\<rparr>)"] wp_modify wp_bind [of "gets _"] wp_gets s1_def [symmetric] a_def [symmetric])
    apply (rule wp_ifI)
     apply (simp add: wp_simps kfree_entry_def undo)
    apply (rule wp_mono [OF last])
    using new apply auto
    done
qed

section \<open>Release\<close>

definition drop_natives :: "skb419_entry \<Rightarrow> skb_world \<Rightarrow> skb_world" where
  "drop_natives e s = s\<lparr>natives := natives s |` (- set (owns e)), sk_log := map KfreeSkb (rev (owns e)) @ sk_log s\<rparr>"

definition note_destructor :: "u32 \<Rightarrow> u8 list \<Rightarrow> skb_world \<Rightarrow> skb_world" where
  "note_destructor ea v s =
     (if (LOAD F_destructor v :: u32) \<noteq> 0 then s\<lparr>sk_log := Destructor (LOAD F_destructor v) ea # sk_log s\<rparr> else s)"

definition drop_mem :: "u32 \<Rightarrow> skb419_entry \<Rightarrow> skb419_data \<Rightarrow> skb_world \<Rightarrow> skb_world" where
  "drop_mem ea e d s =
     (if \<not> BITVAL B_cloned (e_view e) \<or> skb419_dataref d = 1
      then s\<lparr>ents := (ents s)(ea := None), bufs := (bufs s)(e_data e := None),
             registry := registry s - {ea}, skb419_headers := skb419_headers s - 1, skb419_buffers := skb419_buffers s - 1\<rparr>
      else s\<lparr>ents := (ents s)(ea := None), bufs := (bufs s)(e_data e \<mapsto> set_dataref (skb419_dataref d - 1) d),
             registry := registry s - {ea}, skb419_headers := skb419_headers s - 1\<rparr>)"

lemma wp_kfree_skb:
  assumes "h \<noteq> 0 \<Longrightarrow> natives s h \<noteq> None"
  shows "wp (dev_kfree_skb_any h) Q s = (if h = 0 then Q () s
     else Q () (s\<lparr>natives := (natives s)(h := None), sk_log := KfreeSkb h # sk_log s\<rparr>))"
  using assms by (cases s) (auto simp: dev_kfree_skb_any_def sk_note_def wp_simps)

lemma wp_seq2: "wp (State_Monad.bind A B) P s \<Longrightarrow> (\<And>r t. P r t \<Longrightarrow> wp C Q t) \<Longrightarrow>
    wp (State_Monad.bind A (\<lambda>r. State_Monad.bind (B r) (\<lambda>_. C))) Q s"
  by (auto simp: wp_bind elim!: wp_mono)

lemma release_spec:
  assumes e: "ents s ea = Some e" and d: "bufs s (e_data e) = Some d" "length (shinfo d) = SHINFO_SPAN"
    and nohdr: "\<not> BITVAL B_nohdr (e_view e)" and n: "distinct (owns e)" "set (owns e) \<subseteq> dom (natives s)"
  shows "wp (shim_skb_release ea) (\<lambda>_ t. t = drop_mem ea e d (drop_natives e (note_destructor ea (e_view e) s))) s"
proof -
  let ?m = "native_meta e" and ?o = "native_owner e"
  have m: "?m \<noteq> 0 \<Longrightarrow> natives s ?m \<noteq> None" "?o \<noteq> 0 \<Longrightarrow> natives s ?o \<noteq> None" "?m \<noteq> 0 \<Longrightarrow> ?m \<noteq> ?o"
    using n by (auto simp: owns_def split: if_splits)
  have r: "(natives s)(?m := None, ?o := None) = natives s |` (- {?m, ?o})" by (auto simp: restrict_map_def)
  have dr: "skb419_dataref d - 1 = 0 \<longleftrightarrow> skb419_dataref d = 1" by auto
  have tail: "wp (do { dev_kfree_skb_any ?m; dev_kfree_skb_any ?o; skb419_unregister ea;
        upd_entry ea (\<lambda>e. e\<lparr>e_before := 0, e_after := 0\<rparr>); kfree_entry ea;
        modify (skb419_headers_update (\<lambda>n. n - 1)) })
      (\<lambda>_ u. u = (drop_natives e t)\<lparr>ents := (ents t)(ea := None), registry := registry t - {ea}, skb419_headers := skb419_headers t - 1\<rparr>) t"
    if "natives t = natives s" "ents t = ents s" for t
    using that m e r unfolding drop_natives_def owns_def
    by (cases t; cases "?m = 0"; cases "?o = 0")
      (auto simp: wp_simps wp_kfree_skb skb419_unregister_def kfree_entry_def restrict_map_def fun_eq_iff)
  have mid: "wp (do {
       remain \<leftarrow> (if c then do {
           upd_data (e_data e) (\<lambda>d. set_dataref (skb419_dataref d - (if False then 0x10001 else 1)) d);
           gets (\<lambda>s. case bufs s (e_data e) of Some d \<Rightarrow> skb419_dataref d | None \<Rightarrow> 0) }
         else return 0);
       (if remain = 0 then do { kfree_data (e_data e); modify (skb419_buffers_update (\<lambda>n. n - 1)) } else return ()) })
      (\<lambda>_ u. u = (if \<not> c \<or> skb419_dataref d = 1
         then t\<lparr>bufs := (bufs t)(e_data e := None), skb419_buffers := skb419_buffers t - 1\<rparr>
         else t\<lparr>bufs := (bufs t)(e_data e \<mapsto> set_dataref (skb419_dataref d - 1) d)\<rparr>)) t"
    if "bufs t = bufs s" for t c
    using that d by (cases t) (auto simp: wp_simps kfree_data_def)
  have dn: "wp (if LOAD F_destructor (view_of ea s) \<noteq> (0 :: u32) then sk_note (Destructor (LOAD F_destructor (view_of ea s)) ea)
      else return ()) (\<lambda>_ t. t = note_destructor ea (e_view e) s) s"
    by (simp add: wp_simps sk_note_def note_destructor_def view_of_def e)
  let ?t = "note_destructor ea (e_view e) s"
  have t: "natives ?t = natives s" "ents ?t = ents s" "bufs ?t = bufs s" by (simp_all add: note_destructor_def)
  have nh: "BITVAL B_nohdr (e_view e) = False" using nohdr by simp
  have V: "view_of ea ?t = e_view e" "data_of ea ?t = e_data e" by (simp_all add: view_of_def data_of_def t e)
  show ?thesis
    unfolding shim_skb_release_def wp_bind [of "gets _"] wp_gets
    apply (rule wp_seq [OF dn])
    apply (unfold wp_bind [of "gets _"] wp_gets, erule ssubst, unfold V nh)
    apply (rule wp_seq2 [OF mid [OF t(3)]])
    apply (unfold wp_bind [of "gets _"] wp_gets)
    apply (rename_tac u, subgoal_tac "ents u = ents s \<and> natives u = natives s")
     apply (simp only: e option.case)
     apply (rule wp_mono [OF tail])
       apply (auto simp: drop_mem_def drop_natives_def t split: if_splits)
    done
qed

definition dropped :: "u32 \<Rightarrow> skb419_entry \<Rightarrow> skb419_data \<Rightarrow> skb_world \<Rightarrow> skb_world" where
  "dropped ea e d s = drop_mem ea e d (drop_natives e (note_destructor ea (e_view e) s))"

lemma last_sharer:
  assumes inv: "mem_inv s" and e: "ents s ea = Some e" and d: "bufs s (e_data e) = Some d"
  shows "\<not> BITVAL B_cloned (e_view e) \<or> skb419_dataref d = 1 \<longleftrightarrow> sharers s (e_data e) = {ea}"
proof -
  let ?S = "sharers s (e_data e)"
  have mem: "ea \<in> ?S" "finite ?S" using e finite_sharers [OF inv] by (auto simp: sharers_def)
  have d: "skb419_dataref d = of_nat (card ?S)" "card ?S < 65536" using mem_invD(8) [OF inv d] by (simp_all add: buf_inv_def)
  have "skb419_dataref d = 1 \<longleftrightarrow> card ?S = 1"
    using d unat_of_nat [of "card ?S", where 'a = 32] by (auto dest: arg_cong [where f = unat])
  also have "\<dots> \<longleftrightarrow> ?S = {ea}" using mem by (auto simp: card_1_singleton_iff)
  finally show ?thesis using mem_invD(7) [OF inv e] by (auto simp: entry_ok_def)
qed

lemma dropped_inv:
  assumes inv: "skb_inv s" and e: "ents s ea = Some e" and d: "bufs s (e_data e) = Some d"
  shows "skb_inv (dropped ea e d s)"
proof -
  let ?u = "drop_natives e (note_destructor ea (e_view e) s)"
  have u: "ents ?u = ents s" "bufs ?u = bufs s" by (simp_all add: drop_natives_def note_destructor_def)
  have "mem_inv ?u = mem_inv s" by (rule mem_inv_cong) (simp_all add: drop_natives_def note_destructor_def)
  then have m: "mem_inv ?u" using inv by (simp add: skb_inv_def)
  note ue = e [folded u(1)] and ud = d [folded u(2)]
  have "mem_inv (dropped ea e d s)"
    unfolding dropped_def drop_mem_def
    using last_sharer [OF m ue ud] inv_drop_last [OF m ue ud] inv_drop_shared [OF m ue ud] by simp
  moreover have "natives_ok (dropped ea e d s)"
  proof -
    have n: "natives_ok s" using inv by (simp add: skb_inv_def)
    have "ents (dropped ea e d s) = (ents s)(ea := None)" "natives (dropped ea e d s) = natives s |` (- set (owns e))"
      by (simp_all add: dropped_def drop_mem_def drop_natives_def note_destructor_def)
    moreover have "h \<notin> set (owns e)" if "ents s x = Some f" "x \<noteq> ea" "h \<in> set (owns f)" for x f h
      using n that e unfolding natives_ok_def by blast
    moreover have "distinct (owns f) \<and> set (owns f) \<subseteq> dom (natives s)" if "ents s x = Some f" for x f
      using n that unfolding natives_ok_def by blast
    ultimately show ?thesis using n unfolding natives_ok_def
      by (simp add: subset_iff)
  qed
  ultimately show ?thesis by (simp add: skb_inv_def)
qed

definition put_users :: "u32 \<Rightarrow> u32 \<Rightarrow> skb_world \<Rightarrow> skb_world" where
  "put_users ea n s = (case ents s ea of None \<Rightarrow> s
     | Some e \<Rightarrow> s\<lparr>ents := (ents s)(ea \<mapsto> e_view_update (STORE F_users n) e)\<rparr>)"

lemma safe_users: "view_ok a cap v \<Longrightarrow> n \<noteq> 0 \<Longrightarrow> safe_view a cap v (STORE F_users (n :: u32) v)"
  by (auto simp: safe_view_def view_ok_def plain_users placed_STORE plain_sized BITVAL_STORE)

lemma refcount_dec_pos: "r \<noteq> 0 \<Longrightarrow> r \<noteq> 1 \<Longrightarrow> refcount_dec r \<noteq> 0"
  by (simp add: refcount_dec_def)

lemma free_spec:
  assumes inv: "skb_inv s" and e: "ents s ea = Some e" and d: "bufs s (e_data e) = Some d"
  shows "wp (shim_skb_free ea) (\<lambda>r t. r = Inr () \<and> skb_inv t \<and>
     t = (if LOAD F_users (e_view e) = (1 :: u32) then dropped ea e d s
          else put_users ea (refcount_dec (LOAD F_users (e_view e))) s)) s"
proof -
  let ?n = "LOAD F_users (e_view e) :: u32"
  let ?e = "e_view_update (STORE F_users (refcount_dec ?n)) e"
  let ?s = "s\<lparr>ents := (ents s)(ea \<mapsto> ?e)\<rparr>"
  from inv have m: "mem_inv s" by (simp add: skb_inv_def)
  from mem_invD(7) [OF m e] d have v: "view_ok (e_data e) (capacity d) (e_view e)" and ea: "ea \<noteq> 0" by (auto simp: entry_ok_def)
  from v have p: "plain (e_view e)" by (simp add: view_ok_def)
  then have sz: "sized (e_view e)" and n0: "?n \<noteq> 0" and nh: "\<not> BITVAL B_nohdr (e_view e)" by (simp_all add: plain_def)
  have val: "skb419_validate s ea = Inr ()" using inv_validate [OF m] e by auto
  have same: "drop_mem ea ?e d (drop_natives ?e (note_destructor ea (e_view ?e) ?s)) = dropped ea e d s"
    using sz by (cases s) (simp add: dropped_def drop_mem_def drop_natives_def note_destructor_def layout_simps apart_def owns_def)
  have rel: "wp (shim_skb_release ea) (\<lambda>_ t. t = dropped ea e d s) ?s"
  proof -
    have "length (shinfo d) = SHINFO_SPAN" using mem_invD(8) [OF m d] by (simp add: buf_inv_def buf_ok_def)
    moreover have "distinct (owns e)" "set (owns e) \<subseteq> dom (natives s)" using inv e by (auto simp: skb_inv_def natives_ok_def)
    ultimately show ?thesis
      using release_spec [of ?s ea ?e d] d nh sz unfolding same by (simp add: layout_simps owns_def)
  qed
  have keep: "skb_inv ?s" if "?n \<noteq> 1"
    by (rule skb_inv_view [OF inv e d], rule safe_users [OF v refcount_dec_pos [OF n0 that]])
  show ?thesis
  proof (cases "?n = 1")
    case True
    then show ?thesis using ea val e wp_mono [OF rel] dropped_inv [OF inv e d]
      by (simp add: shim_skb_free_def wp_simps view_of_def)
  next
    case False
    then show ?thesis using ea val e keep by (simp add: shim_skb_free_def wp_simps view_of_def put_users_def)
  qed
qed

lemma free_refused:
  "mem_inv s \<Longrightarrow> ents s ea = None \<Longrightarrow> wp (shim_skb_free ea) (\<lambda>r t. t = s) s"
  by (simp add: shim_skb_free_def wp_simps inv_validate domIff)

lemma free_inv: "skb_inv s \<Longrightarrow> wp (shim_skb_free ea) (\<lambda>_. skb_inv) s"
proof (cases "ents s ea")
  case None
  then show "skb_inv s \<Longrightarrow> ?thesis" by (intro wp_mono [OF free_refused]) (auto simp: skb_inv_def)
next
  case (Some e)
  assume inv: "skb_inv s"
  then obtain d where "bufs s (e_data e) = Some d" using inv_entry [OF _ Some] by (auto simp: skb_inv_def)
  from free_spec [OF inv Some this] show ?thesis by (rule wp_mono) blast
qed

end
