(* ===== verification/Skb419_Pkt.thy ===== *)
theory Skb419_Pkt
  imports Skb419_Keep
begin

text \<open>
  The packet a descriptor stands for: the bytes before, in and behind its payload.  The operations on the
  geometry (\<^verbatim>\<open>shim_skb_reserve\<close>, \<^verbatim>\<open>put\<close>, \<^verbatim>\<open>push\<close>, \<^verbatim>\<open>pull\<close>, \<^verbatim>\<open>trim\<close>, \<^verbatim>\<open>pool_reset\<close>) are shown to be operations on
  this triple of byte lists.
\<close>

section \<open>Packets\<close>

type_synonym packet = "u8 list \<times> u8 list \<times> u8 list"

definition pkt_at :: "nat \<Rightarrow> nat \<Rightarrow> u8 list \<Rightarrow> packet" where
  "pkt_at x l bs = (take x bs, take l (drop x bs), drop (x + l) bs)"

definition packet :: "skb_world \<Rightarrow> u32 \<Rightarrow> packet option" where
  "packet s skb = (case buf_of skb s of None \<Rightarrow> None
     | Some d \<Rightarrow> let v = view_of skb s in
         Some (pkt_at (unat (LOAD F_data v - LOAD F_head v :: u32)) (unat (LOAD F_len v :: u32)) (dbytes d)))"

lemma packet_cong:
  assumes v: "view_of skb t = view_of skb s" and b: "buf_of skb t = buf_of skb s"
  shows "packet t skb = packet s skb"
  unfolding packet_def v b by (rule refl)

fun pkt_put :: "nat \<Rightarrow> packet \<Rightarrow> packet option" where
  "pkt_put n (h, p, t) = (if n \<le> length t then Some (h, p @ take n t, drop n t) else None)"

fun pkt_push :: "nat \<Rightarrow> packet \<Rightarrow> packet option" where
  "pkt_push n (h, p, t) =
     (if n \<le> length h then Some (take (length h - n) h, drop (length h - n) h @ p, t) else None)"

fun pkt_pull :: "nat \<Rightarrow> packet \<Rightarrow> packet option" where
  "pkt_pull n (h, p, t) = (if n \<le> length p then Some (h @ take n p, drop n p, t) else None)"

fun pkt_trim :: "nat \<Rightarrow> packet \<Rightarrow> packet option" where
  "pkt_trim n (h, p, t) = Some (h, take n p, drop n p @ t)"

fun pkt_reserve :: "nat \<Rightarrow> packet \<Rightarrow> packet option" where
  "pkt_reserve n (h, p, t) = (if p = [] \<and> n \<le> length t then Some (h @ take n t, [], drop n t) else None)"

fun pkt_reset :: "nat \<Rightarrow> nat \<Rightarrow> packet \<Rightarrow> packet option" where
  "pkt_reset x l (h, p, t) = (let bs = h @ p @ t in if x + l \<le> length bs then Some (pkt_at x l bs) else None)"

lemma pkt_at_app: "length h = x \<Longrightarrow> length p = l \<Longrightarrow> pkt_at x l (h @ p @ t) = (h, p, t)"
  by (simp add: pkt_at_def)

lemma pkt_at_split:
  assumes "x + l \<le> length bs"
  obtains h p t where "bs = h @ p @ t" "length h = x" "length p = l"
proof -
  have "bs = take x bs @ take l (drop x bs) @ drop l (drop x bs)" by (simp only: append_take_drop_id)
  then show thesis using assms that [of "take x bs" "take l (drop x bs)" "drop l (drop x bs)"] by simp
qed

lemma pkt_put_at: "x + l \<le> length bs \<Longrightarrow>
    pkt_put n (pkt_at x l bs) = (if n \<le> length bs - (x + l) then Some (pkt_at x (l + n) bs) else None)"
  by (erule pkt_at_split) (auto simp: pkt_at_app, simp add: pkt_at_def)

lemma pkt_push_at: "x + l \<le> length bs \<Longrightarrow>
    pkt_push n (pkt_at x l bs) = (if n \<le> x then Some (pkt_at (x - n) (l + n) bs) else None)"
  by (erule pkt_at_split) (auto simp: pkt_at_app, auto simp: pkt_at_def)

lemma pkt_pull_at: "x + l \<le> length bs \<Longrightarrow>
    pkt_pull n (pkt_at x l bs) = (if n \<le> l then Some (pkt_at (x + n) (l - n) bs) else None)"
  by (erule pkt_at_split) (auto simp: pkt_at_app, auto simp: pkt_at_def)

lemma pkt_trim_at: "x + l \<le> length bs \<Longrightarrow> n \<le> l \<Longrightarrow> pkt_trim n (pkt_at x l bs) = Some (pkt_at x n bs)"
  by (erule pkt_at_split) (auto simp: pkt_at_app, auto simp: pkt_at_def)

lemma pkt_trim_all: "x + l \<le> length bs \<Longrightarrow> l \<le> n \<Longrightarrow> pkt_trim n (pkt_at x l bs) = Some (pkt_at x l bs)"
  by (erule pkt_at_split) (auto simp: pkt_at_app)

lemma pkt_reserve_at: "x + l \<le> length bs \<Longrightarrow>
    pkt_reserve n (pkt_at x l bs) = (if l = 0 \<and> n \<le> length bs - x then Some (pkt_at (x + n) 0 bs) else None)"
  by (erule pkt_at_split) (auto simp: pkt_at_app, auto simp: pkt_at_def)

lemma pkt_reset_at: "x + l \<le> length bs \<Longrightarrow>
    pkt_reset y m (pkt_at x l bs) = (if y + m \<le> length bs then Some (pkt_at y m bs) else None)"
  by (erule pkt_at_split) (auto simp: pkt_at_app Let_def)

section \<open>The geometry of a live descriptor\<close>

lemma placed_rooms:
  assumes "span a cap" and "placed a cap x l v"
  shows "unat (LOAD F_end v - LOAD F_tail v :: u32) = unat cap - (x + l)"
    "unat (LOAD F_data v - LOAD F_head v :: u32) = x" "unat (LOAD F_len v :: u32) = l"
proof -
  have x: "x + l \<le> unat cap" using assms(2) by (simp add: placed_def)
  have c: "unat cap < 2 ^ 32" using unsigned_less [of cap] by simp
  define k where "k = x + l"
  have k: "k \<le> unat cap" "LOAD F_tail v = a + (of_nat k :: u32)" using assms(2) x by (simp_all add: placed_def k_def)
  have "LOAD F_end v - LOAD F_tail v = cap - (of_nat k :: u32)" using assms(2) k by (simp add: placed_def)
  moreover have "of_nat k \<le> cap" using k(1) c by (simp add: word_le_nat_alt unat_of_nat)
  ultimately show "unat (LOAD F_end v - LOAD F_tail v :: u32) = unat cap - (x + l)"
    using k(1) c by (simp add: unat_sub unat_of_nat flip: k_def)
  show "unat (LOAD F_data v - LOAD F_head v :: u32) = x" "unat (LOAD F_len v :: u32) = l"
    using assms(2) x c by (simp_all add: placed_def unat_of_nat)
qed

lemma live_skb:
  assumes "mem_inv s" and "ents s skb = Some e"
  obtains d x l where "bufs s (e_data e) = Some d" "span (e_data e) (capacity d)" "plain (e_view e)"
    "placed (e_data e) (capacity d) x l (e_view e)" "length (dbytes d) = unat (capacity d)"
    "packet s skb = Some (pkt_at x l (dbytes d))" "x + l \<le> length (dbytes d)"
proof -
  obtain d where d: "bufs s (e_data e) = Some d" "view_ok (e_data e) (capacity d) (e_view e)" "buf_inv s (e_data e) d"
    by (rule inv_entry [OF assms])
  from d(2) obtain x l where x: "placed (e_data e) (capacity d) x l (e_view e)" "plain (e_view e)" by (auto simp: view_ok_def)
  from d(3) have b: "span (e_data e) (capacity d)" "length (dbytes d) = unat (capacity d)" by (simp_all add: buf_inv_def buf_ok_def)
  have "packet s skb = Some (pkt_at x l (dbytes d))"
    using placed_rooms [OF b(1) x(1)] d(1) assms(2) by (simp add: packet_def buf_of_def data_of_def view_of_def Let_def)
  moreover have "x + l \<le> length (dbytes d)" using x(1) b(2) by (simp add: placed_def)
  ultimately show ?thesis using that d(1) b x by blast
qed

text \<open>A step of a descriptor to a new place in its buffer.\<close>

definition only_views :: "skb_world \<Rightarrow> skb_world \<Rightarrow> bool" where
  "only_views s t \<longleftrightarrow> t = s\<lparr>ents := ents t\<rparr> \<and>
     (\<forall>x. map_option (e_view_update (\<lambda>_. [])) (ents t x) = map_option (e_view_update (\<lambda>_. [])) (ents s x))"

definition moved :: "skb_world \<Rightarrow> u32 \<Rightarrow> packet \<Rightarrow> skb_world \<Rightarrow> bool" where
  "moved s skb p t \<longleftrightarrow> skb_inv t \<and> packet t skb = Some p \<and> (\<forall>other. other \<noteq> skb \<longrightarrow> packet t other = packet s other) \<and>
     only_views s t"

lemma moved_to:
  assumes inv: "skb_inv s" and e: "ents s skb = Some e" and d: "bufs s (e_data e) = Some d"
    and sp: "span (e_data e) (capacity d)" and p: "plain (f (e_view e))" "placed (e_data e) (capacity d) x l (f (e_view e))"
    and c: "BITVAL B_cloned (f (e_view e)) = BITVAL B_cloned (e_view e)"
  shows "moved s skb (pkt_at x l (dbytes d)) (s\<lparr>ents := (ents s)(skb \<mapsto> e_view_update f e)\<rparr>)" (is "moved _ _ _ ?t")
proof -
  have "skb_inv ?t"
    by (rule skb_inv_view [OF inv e d]) (use p c in \<open>auto simp: safe_view_def view_ok_def\<close>)
  moreover have "packet ?t skb = Some (pkt_at x l (dbytes d))"
    using placed_rooms [OF sp p(2)] d by (simp add: packet_def buf_of_def data_of_def view_of_def Let_def)
  moreover have "packet ?t other = packet s other" if "other \<noteq> skb" for other
  proof -
    have "view_of other ?t = view_of other s" "buf_of other ?t = buf_of other s"
      using that by (simp_all add: view_of_def buf_of_def data_of_def)
    then show ?thesis by (rule packet_cong)
  qed
  moreover have "only_views s ?t" using e by (simp add: only_views_def)
  ultimately show ?thesis by (simp add: moved_def)
qed

section \<open>The operations refine those on packets\<close>

lemma placed_moves:
  fixes n h :: u32
  assumes v: "sized v" and p: "placed a cap x l v"
  shows "x + (l + unat n) \<le> unat cap \<Longrightarrow>
      placed a cap x (l + unat n) (STORE F_len (LOAD F_len v + n) (STORE F_tail (LOAD F_tail v + n) v))"
    "unat n \<le> x \<Longrightarrow> placed a cap (x - unat n) (l + unat n) (STORE F_len (LOAD F_len v + n) (STORE F_data (LOAD F_data v - n) v))"
    "unat n \<le> l \<Longrightarrow> placed a cap (x + unat n) (l - unat n) (STORE F_len (LOAD F_len v - n) (STORE F_data (LOAD F_data v + n) v))"
    "unat n \<le> l \<Longrightarrow> placed a cap x (unat n) (STORE F_len n (STORE F_tail (LOAD F_data v + n) v))"
    "l = 0 \<Longrightarrow> x + unat n \<le> unat cap \<Longrightarrow>
      placed a cap (x + unat n) 0 (STORE F_tail (LOAD F_tail v + n) (STORE F_data (LOAD F_data v + n) v))"
    "unat h + unat n \<le> unat cap \<Longrightarrow>
      placed a cap (unat h) (unat n) (STORE F_len n (STORE F_tail (a + h + n) (STORE F_data (a + h) v)))"
  using p v unfolding placed_def by (auto simp: layout_simps apart_def of_nat_diff)

lemma plain_moves:
  assumes "plain v"
  shows "plain (STORE F_len (n :: u32) (STORE F_tail (m :: u32) v))" "plain (STORE F_len (n :: u32) (STORE F_data (m :: u32) v))"
    "plain (STORE F_tail (n :: u32) (STORE F_data (m :: u32) v))"
    "plain (STORE F_len (n :: u32) (STORE F_tail (m :: u32) (STORE F_data (k :: u32) v)))"
  using assms by (simp_all add: plain_STORE crit_def refs_def)

lemma mutable_iff:
  assumes "mem_inv s"
  shows "skb419_mutable s skb = (case ents s skb of None \<Rightarrow> Inl EINVAL
     | Some e \<Rightarrow> if LOAD F_users (e_view e) = (1 :: u32) then Inr () else Inl EBUSY)"
  using inv_validate [OF assms, of skb] by (auto simp: skb419_mutable_def view_of_def domIff split: option.splits)

text \<open>Who may change a packet: the only user of a live descriptor.\<close>

definition sole :: "skb_world \<Rightarrow> u32 \<Rightarrow> bool" where
  "sole s skb \<longleftrightarrow> (\<exists>e. ents s skb = Some e \<and> LOAD F_users (e_view e) = (1 :: u32))"

text \<open>\<open>pkt_step bad f skb m s\<close>: the program \<open>m\<close> does to the packet of \<open>skb\<close> what \<open>f\<close> does, for its only user, and
  otherwise refuses with a result that is \<open>bad\<close> and no effect.\<close>

definition pkt_step :: "('a \<Rightarrow> bool) \<Rightarrow> (packet \<Rightarrow> packet option) \<Rightarrow> u32 \<Rightarrow> 'a sk \<Rightarrow> skb_world \<Rightarrow> bool" where
  "pkt_step bad f skb m s \<longleftrightarrow> wp m (\<lambda>r t. case if sole s skb then Option.bind (packet s skb) f else None of
      None \<Rightarrow> bad r \<and> t = s | Some p \<Rightarrow> \<not> bad r \<and> moved s skb p t) s"

definition live_at :: "skb_world \<Rightarrow> u32 \<Rightarrow> skb419_entry \<Rightarrow> skb419_data \<Rightarrow> nat \<Rightarrow> nat \<Rightarrow> bool" where
  "live_at s skb e d x l \<longleftrightarrow> ents s skb = Some e \<and> LOAD F_users (e_view e) = (1 :: u32) \<and> bufs s (e_data e) = Some d \<and>
     span (e_data e) (capacity d) \<and> plain (e_view e) \<and> placed (e_data e) (capacity d) x l (e_view e) \<and>
     length (dbytes d) = unat (capacity d) \<and> x + l \<le> unat (capacity d)"

lemma pkt_stepI:
  assumes inv: "skb_inv s" and none: "\<And>er. skb419_mutable s skb = Inl er \<Longrightarrow> wp m (\<lambda>r t. bad r \<and> t = s) s"
    and live: "\<And>e d x l. skb419_mutable s skb = Inr () \<Longrightarrow> live_at s skb e d x l \<Longrightarrow>
      wp m (\<lambda>r t. case f (pkt_at x l (dbytes d)) of None \<Rightarrow> bad r \<and> t = s | Some p \<Rightarrow> \<not> bad r \<and> moved s skb p t) s"
  shows "pkt_step bad f skb m s"
proof (cases "sole s skb")
  case False
  from inv have "mem_inv s" by (simp add: skb_inv_def)
  with False obtain er where "skb419_mutable s skb = Inl er" by (cases "ents s skb") (auto simp: mutable_iff sole_def)
  with none False show ?thesis by (simp add: pkt_step_def)
next
  case True
  then obtain e where e: "ents s skb = Some e" "LOAD F_users (e_view e) = (1 :: u32)" by (auto simp: sole_def)
  from inv have m: "mem_inv s" by (simp add: skb_inv_def)
  obtain d x l where L: "bufs s (e_data e) = Some d" "span (e_data e) (capacity d)" "plain (e_view e)"
    "placed (e_data e) (capacity d) x l (e_view e)" "length (dbytes d) = unat (capacity d)"
    "packet s skb = Some (pkt_at x l (dbytes d))" "x + l \<le> length (dbytes d)"
    by (rule live_skb [OF m e(1)])
  have "skb419_mutable s skb = Inr ()" using e m by (simp add: mutable_iff)
  with live [of e d x l] e L True show ?thesis by (simp add: pkt_step_def live_at_def)
qed

lemma moved_live:
  assumes "skb_inv s" and "live_at s skb e d x l" and "plain (f (e_view e))" "placed (e_data e) (capacity d) y m (f (e_view e))"
    and "BITVAL B_cloned (f (e_view e)) = BITVAL B_cloned (e_view e)"
  shows "moved s skb (pkt_at y m (dbytes d)) (s\<lparr>ents := (ents s)(skb \<mapsto> e_view_update f e)\<rparr>)"
  using assms moved_to [of s skb e d f y m] by (simp add: live_at_def)

lemma live_rooms:
  assumes "live_at s skb e d x l"
  shows "view_of skb s = e_view e" "data_of skb s = e_data e" "buf_of skb s = Some d" "ents s skb = Some e"
    "unat (LOAD F_end (e_view e) - LOAD F_tail (e_view e) :: u32) = unat (capacity d) - (x + l)"
    "unat (LOAD F_data (e_view e) - LOAD F_head (e_view e) :: u32) = x" "unat (LOAD F_len (e_view e) :: u32) = l"
    "length (dbytes d) = unat (capacity d)" "x + l \<le> unat (capacity d)" "x \<le> unat (capacity d)"
    "sized (e_view e)" "plain (e_view e)" "placed (e_data e) (capacity d) x l (e_view e)"
    "LOAD F_len (e_view e) = (0 :: u32) \<longleftrightarrow> l = 0"
  using assms placed_rooms [of "e_data e" "capacity d" x l "e_view e"]
  by (auto simp: live_at_def view_of_def data_of_def buf_of_def plain_sized unsigned_eq_0_iff)

lemma moved_refl:
  assumes "skb_inv s" and "live_at s skb e d x l"
  shows "moved s skb (pkt_at x l (dbytes d)) s"
  using assms placed_rooms [of "e_data e" "capacity d" x l "e_view e"]
  by (simp add: moved_def only_views_def live_at_def packet_def buf_of_def data_of_def view_of_def Let_def)

lemmas op_simps = wp_simps word_less_nat_alt word_le_nat_alt not_less not_le

text \<open>The moves of a live descriptor, one for each operation.\<close>

lemma live_moves:
  fixes n h :: u32
  assumes inv: "skb_inv s" and L: "live_at s skb e d x l"
  shows "unat n \<le> unat (capacity d) - (x + l) \<Longrightarrow> moved s skb (pkt_at x (l + unat n) (dbytes d)) (s\<lparr>ents := (ents s)(skb \<mapsto>
      e_view_update (\<lambda>v. STORE F_len (LOAD F_len v + n) (STORE F_tail (LOAD F_tail v + n) v)) e)\<rparr>)"
    "unat n \<le> x \<Longrightarrow> moved s skb (pkt_at (x - unat n) (l + unat n) (dbytes d)) (s\<lparr>ents := (ents s)(skb \<mapsto>
      e_view_update (\<lambda>v. STORE F_len (LOAD F_len v + n) (STORE F_data (LOAD F_data v - n) v)) e)\<rparr>)"
    "unat n \<le> l \<Longrightarrow> moved s skb (pkt_at (x + unat n) (l - unat n) (dbytes d)) (s\<lparr>ents := (ents s)(skb \<mapsto>
      e_view_update (\<lambda>v. STORE F_len (LOAD F_len v - n) (STORE F_data (LOAD F_data v + n) v)) e)\<rparr>)"
    "unat n \<le> l \<Longrightarrow> moved s skb (pkt_at x (unat n) (dbytes d)) (s\<lparr>ents := (ents s)(skb \<mapsto>
      e_view_update (\<lambda>v. STORE F_len n (STORE F_tail (LOAD F_data v + n) v)) e)\<rparr>)"
    "l = 0 \<Longrightarrow> unat n \<le> unat (capacity d) - x \<Longrightarrow> moved s skb (pkt_at (x + unat n) 0 (dbytes d)) (s\<lparr>ents := (ents s)(skb \<mapsto>
      e_view_update (\<lambda>v. STORE F_tail (LOAD F_tail v + n) (STORE F_data (LOAD F_data v + n) v)) e)\<rparr>)"
    "unat h + unat n \<le> unat (capacity d) \<Longrightarrow> moved s skb (pkt_at (unat h) (unat n) (dbytes d)) (s\<lparr>ents := (ents s)(skb \<mapsto>
      e_view_update (\<lambda>v. STORE F_len n (STORE F_tail (e_data e + h + n) (STORE F_data (e_data e + h) v))) e)\<rparr>)"
  by (rule moved_live [OF inv L], rule plain_moves [OF live_rooms(12) [OF L]],
      rule placed_moves [OF live_rooms(11,13) [OF L]]; (use live_rooms(9-11) [OF L] in \<open>simp add: layout_simps\<close>))+

lemma put_step: "skb_inv s \<Longrightarrow> pkt_step Option.is_none (pkt_put (unat n)) skb (shim_skb_put skb n) s"
  by (rule pkt_stepI) (auto simp: shim_skb_put_def op_simps live_rooms pkt_put_at live_moves)

lemma push_step: "skb_inv s \<Longrightarrow> pkt_step Option.is_none (pkt_push (unat n)) skb (shim_skb_push skb n) s"
  by (rule pkt_stepI) (auto simp: shim_skb_push_def op_simps live_rooms pkt_push_at live_moves)

lemma pull_step: "skb_inv s \<Longrightarrow> pkt_step Option.is_none (pkt_pull (unat n)) skb (shim_skb_pull skb n) s"
  by (rule pkt_stepI) (auto simp: shim_skb_pull_def op_simps live_rooms pkt_pull_at live_moves)

lemma trim_step: "skb_inv s \<Longrightarrow> pkt_step isl (pkt_trim (unat n)) skb (shim_skb_trim skb n) s"
  by (rule pkt_stepI) (auto simp: shim_skb_trim_def op_simps live_rooms pkt_trim_at live_moves pkt_trim_all moved_refl)

lemma reserve_step: "skb_inv s \<Longrightarrow> pkt_step isl (pkt_reserve (unat n)) skb (shim_skb_reserve skb n) s"
  by (rule pkt_stepI) (auto simp: shim_skb_reserve_def op_simps live_rooms pkt_reserve_at live_moves)

text \<open>\<^verbatim>\<open>pool_reset\<close> also wants a buffer that no clone shares.\<close>

lemma reset_step:
  assumes inv: "skb_inv s" and alone: "\<And>e d. ents s skb = Some e \<Longrightarrow> bufs s (e_data e) = Some d \<Longrightarrow>
      \<not> BITVAL B_cloned (e_view e) \<and> skb419_dataref d = 1"
  shows "pkt_step isl (pkt_reset (unat h) (unat n)) skb (shim_skb_pool_reset skb h n) s"
  using inv
proof (rule pkt_stepI)
  fix e d x l
  assume m: "skb419_mutable s skb = Inr ()" and L: "live_at s skb e d x l"
  have a: "\<not> BITVAL B_cloned (e_view e) \<and> skb419_dataref d = 1" using alone L by (simp add: live_at_def)
  have room: "capacity d < h \<or> capacity d - h < n \<longleftrightarrow> \<not> unat h + unat n \<le> unat (capacity d)"
    by (auto simp: word_less_nat_alt unat_sub_if')
  show "wp (shim_skb_pool_reset skb h n) (\<lambda>r t. case pkt_reset (unat h) (unat n) (pkt_at x l (dbytes d)) of
      None \<Rightarrow> isl r \<and> t = s | Some p \<Rightarrow> \<not> isl r \<and> moved s skb p t) s"
    using m a live_rooms [OF L] live_moves(6) [OF inv L, of h n]
    by (simp add: shim_skb_pool_reset_def wp_simps room pkt_reset_at)
qed (simp add: shim_skb_pool_reset_def wp_simps)

lemma reset_shared:
  assumes inv: "skb_inv s" and e: "ents s skb = Some e" and c: "BITVAL B_cloned (e_view e)"
  shows "wp (shim_skb_pool_reset skb h n) (\<lambda>r t. r = Inl EBUSY \<and> t = s) s"
proof -
  from inv have m: "mem_inv s" by (simp add: skb_inv_def)
  obtain d where d: "bufs s (e_data e) = Some d" by (rule inv_entry [OF m e])
  show ?thesis using mutable_iff [OF m, of skb] e d c
    by (auto simp: shim_skb_pool_reset_def wp_simps view_of_def buf_of_def data_of_def split: sum.splits)
qed

end
