(* ===== verification/Skb419_Ops.thy ===== *)
theory Skb419_Ops
  imports Skb419_Pkt
begin

text \<open>
  Clone, copy, import and export of packets: what they do to the packets, and that they keep the invariant.
\<close>

section \<open>Native references\<close>

definition unowned :: "skb_world \<Rightarrow> u32 \<Rightarrow> bool" where
  "unowned s h \<longleftrightarrow> h \<noteq> 0 \<and> natives s h \<noteq> None \<and> (\<forall>x f. ents s x = Some f \<longrightarrow> h \<notin> set (owns f))"

lemma natives_cong: "ents t = ents s \<Longrightarrow> natives t = natives s \<Longrightarrow> natives_ok t = natives_ok s"
  by (simp add: natives_ok_def)

lemma natives_entry:
  assumes "natives_ok s" and "distinct (owns e)" "set (owns e) \<subseteq> dom (natives s)"
    and "\<And>x f h. x \<noteq> ea \<Longrightarrow> ents s x = Some f \<Longrightarrow> h \<in> set (owns f) \<Longrightarrow> h \<notin> set (owns e)"
  shows "natives_ok (s\<lparr>ents := (ents s)(ea \<mapsto> e)\<rparr>)"
  using assms unfolding natives_ok_def by (simp split: if_splits) metis

lemma natives_new:
  assumes "natives_ok s" and "natives s h = None"
  shows "natives_ok (s\<lparr>natives := (natives s)(h \<mapsto> n)\<rparr>)"
  using assms unfolding natives_ok_def by (auto simp: subset_iff)

lemma natives_change:
  assumes "skb_inv s" and "natives s h = None \<or> unowned s h"
  shows "skb_inv (s\<lparr>natives := (natives s)(h \<mapsto> n)\<rparr>)" "unowned s h \<Longrightarrow> skb_inv (s\<lparr>natives := (natives s)(h := None)\<rparr>)"
proof -
  have "mem_inv (s\<lparr>natives := N\<rparr>) = mem_inv s" for N by (rule mem_inv_cong) simp_all
  with assms show "skb_inv (s\<lparr>natives := (natives s)(h \<mapsto> n)\<rparr>)" "unowned s h \<Longrightarrow> skb_inv (s\<lparr>natives := (natives s)(h := None)\<rparr>)"
    unfolding skb_inv_def natives_ok_def unowned_def by (auto simp: subset_iff)
qed

lemma fresh_unowned:
  assumes "skb_inv s" and "natives s h = None" and "ents s x = Some f"
  shows "h \<notin> set (owns f)"
  using assms by (auto simp: skb_inv_def natives_ok_def)

section \<open>Clone\<close>

definition took_meta :: "skb_world \<Rightarrow> u32 \<Rightarrow> skb_world \<Rightarrow> bool" where
  "took_meta s h t \<longleftrightarrow> h = 0 \<and> t = s \<or> (\<exists>n. h \<noteq> 0 \<and> natives s h = None \<and> t = s\<lparr>natives := (natives s)(h \<mapsto> n)\<rparr>)"

lemma took_meta_inv:
  assumes "skb_inv s" and "took_meta s h t"
  shows "skb_inv t" "ents t = ents s" "bufs t = bufs s" "h = 0 \<or> unowned t h"
  using assms natives_change(1) [OF assms(1)] fresh_unowned [OF assms(1), of h] by (auto simp: took_meta_def unowned_def)

lemma clone_meta_spec:
  assumes K: "kernel_ok E"
  shows "wp (clone_meta E fl src) (\<lambda>r t. case r of None \<Rightarrow> t = s | Some h \<Rightarrow> took_meta s h t) s"
  using kernel_okD(5) [OF K] by (auto simp: clone_meta_def new_native_def took_meta_def wp_simps split: option.splits)

lemma clone_view_ok: "view_ok a cap v \<Longrightarrow> view_ok a cap (clone_view v)"
  unfolding view_ok_def clone_view_def Let_def
  by (auto simp: plain_users plain_SETBIT plain_STORE plain_zero crit_def refs_def placed_STORE placed_SETBIT
      layout_simps plain_sized)

lemma clone_view_fields:
  assumes "sized v"
  shows "BITVAL B_cloned (clone_view v)" "LOAD F_head (clone_view v) = (LOAD F_head v :: u32)"
    "LOAD F_data (clone_view v) = (LOAD F_data v :: u32)" "LOAD F_len (clone_view v) = (LOAD F_len v :: u32)"
  using assms unfolding clone_view_def Let_def by (simp_all add: layout_simps apart_def)

definition shared_with :: "u32 \<Rightarrow> u32 \<Rightarrow> u32 \<Rightarrow> skb419_entry \<Rightarrow> skb419_data \<Rightarrow> skb_world \<Rightarrow> skb_world" where
  "shared_with dst meta skb e d s = s\<lparr>
     ents := (ents s)(dst \<mapsto> zero_entry\<lparr>native_meta := meta, e_before := SK419_GUARD, e_after := SK419_GUARD,
                               e_data := e_data e, e_view := clone_view (e_view e)\<rparr>,
                      skb \<mapsto> e_view_update (SETBIT B_cloned True) e),
     bufs := (bufs s)(e_data e \<mapsto> set_dataref (skb419_dataref d + 1) d), registry := insert dst (registry s),
     skb419_headers := skb419_headers s + 1\<rparr>"

lemma shared_inv:
  assumes inv: "skb_inv s" and e: "ents s skb = Some e" "bufs s (e_data e) = Some d" and dst: "ents s dst = None" "dst \<noteq> 0"
    and few: "card (dom (ents s)) < 65535" and meta: "meta = 0 \<or> unowned s meta"
  shows "skb_inv (shared_with dst meta skb e d s)"
proof -
  from inv have m: "mem_inv s" by (simp add: skb_inv_def)
  obtain d' where "bufs s (e_data e) = Some d'" "view_ok (e_data e) (capacity d') (e_view e)" by (rule inv_entry [OF m e(1)])
  then have v: "view_ok (e_data e) (capacity d) (e_view e)" using e(2) by simp
  then have sz: "sized (e_view e)" by (simp add: view_ok_def plain_sized)
  have ne: "skb \<noteq> dst" using e(1) dst(1) by auto
  have "mem_inv (shared_with dst meta skb e d s)"
    unfolding shared_with_def
    by (rule inv_share [OF m e(1) dst e(2) few]) (use v sz in \<open>simp_all add: clone_view_ok clone_view_fields\<close>)
  moreover have "natives_ok (shared_with dst meta skb e d s)"
  proof -
    let ?f = "zero_entry\<lparr>native_meta := meta, e_before := SK419_GUARD, e_after := SK419_GUARD,
       e_data := e_data e, e_view := clone_view (e_view e)\<rparr>"
    have o: "owns ?f = (if meta = 0 then [] else [meta])" by (simp add: owns_def zero_entry_def)
    have n: "natives_ok s" using inv by (simp add: skb_inv_def)
    have "natives_ok (s\<lparr>ents := (ents s)(dst \<mapsto> ?f)\<rparr>)"
      by (rule natives_entry [OF n]; unfold o) (use meta in \<open>auto simp: unowned_def split: if_splits\<close>)
    then have "natives_ok (s\<lparr>ents := (ents s)(dst \<mapsto> ?f, skb \<mapsto> e_view_update (SETBIT B_cloned True) e)\<rparr>)"
      using natives_update [of "s\<lparr>ents := (ents s)(dst \<mapsto> ?f)\<rparr>" skb e "e_view_update (SETBIT B_cloned True) e"] ne e(1) by simp
    then show ?thesis by (rule iffD1 [OF natives_cong, rotated 2]) (simp_all add: shared_with_def)
  qed
  ultimately show ?thesis by (simp add: skb_inv_def)
qed

lemma clone_spec:
  assumes K: "kernel_ok E" and inv: "skb_inv s"
  shows "wp (shim_skb_clone E skb fl) (\<lambda>r t. case r of None \<Rightarrow> t = s
     | Some dst \<Rightarrow> \<exists>u meta e d. t = shared_with dst meta skb e d u \<and> took_meta s meta u \<and>
         ents s skb = Some e \<and> bufs s (e_data e) = Some d \<and> ents s dst = None \<and> dst \<noteq> 0 \<and> card (dom (ents s)) < 65535) s"
proof (cases "ents s skb")
  case None
  then show ?thesis using inv by (simp add: shim_skb_clone_def wp_simps inv_validate skb_inv_def domIff)
next
  case (Some e)
  define dst where "dst = kzalloc_entry E fl s"
  define s1 where "s1 = s\<lparr>ents := (ents s)(dst \<mapsto> zero_entry)\<rparr>"
  from inv have m: "mem_inv s" by (simp add: skb_inv_def)
  obtain d where d: "bufs s (e_data e) = Some d" by (rule inv_entry [OF m Some])
  have val: "skb419_validate s skb = Inr ()" using inv_validate [OF m] Some by auto
  have new: "dst \<noteq> 0 \<Longrightarrow> ents s dst = None" "dst \<noteq> 0 \<Longrightarrow> card (dom (ents s)) < 65535"
    unfolding dst_def by (simp_all add: kernel_okD [OF K])
  have undo: "dst \<noteq> 0 \<Longrightarrow> s1\<lparr>sk_bug := (sk_bug s1 \<or> ents s1 dst = None), ents := (ents s1)(dst := None)\<rparr> = s"
    using new by (cases s) (simp add: s1_def fun_upd_idem)
  let ?Q = "\<lambda>r t. case r of None \<Rightarrow> t = s
     | Some dst \<Rightarrow> \<exists>u meta e d. t = shared_with dst meta skb e d u \<and> took_meta s meta u \<and>
         ents s skb = Some e \<and> bufs s (e_data e) = Some d \<and> ents s dst = None \<and> dst \<noteq> 0 \<and> card (dom (ents s)) < 65535"
  have fin: "wp (do {
      a \<leftarrow> gets (data_of skb);
      v \<leftarrow> gets (view_of skb);
      upd_entry dst (\<lambda>e. e\<lparr>native_meta := meta, e_before := SK419_GUARD, e_after := SK419_GUARD,
        e_data := a, e_view := clone_view v\<rparr>);
      upd_data a (\<lambda>d. set_dataref (skb419_dataref d + 1) d);
      upd_view skb (SETBIT B_cloned True);
      modify (skb419_headers_update (\<lambda>n. n + 1));
      skb419_register dst;
      return (Some dst) }) ?Q t" (is "wp ?fin _ _")
    if nz: "dst \<noteq> 0" and t: "took_meta s1 meta t" for meta t
  proof -
    obtain N where tN: "t = s1\<lparr>natives := N\<rparr>" and u: "took_meta s meta (s\<lparr>natives := N\<rparr>)"
      by (rule that [of "natives t"]) (use t in \<open>auto simp: took_meta_def s1_def\<close>)
    have ne: "skb \<noteq> dst" using Some new nz by auto
    have "?Q (Some dst) (shared_with dst meta skb e d (s\<lparr>natives := N\<rparr>))" using Some d new nz u by auto
    moreover have "wp ?fin (\<lambda>r t. r = Some dst \<and> t = shared_with dst meta skb e d (s\<lparr>natives := N\<rparr>)) t"
      using ne Some d unfolding tN
      by (simp add: wp_simps data_of_def view_of_def skb419_register_def s1_def shared_with_def)
    ultimately show ?thesis by (elim wp_mono) simp
  qed
  show ?thesis
    unfolding shim_skb_clone_def wp_bind [of "gets _"] wp_gets val sum.case
    apply (fold dst_def, rule wp_ifI, simp add: wp_return)
    apply (unfold wp_bind [of "modify (\<lambda>s. s\<lparr>ents := _ s\<rparr>)"] wp_modify s1_def [symmetric])
    apply (rule wp_seq [OF clone_meta_spec [OF K, of fl skb s1]], rule wp_optionI)
     apply (simp add: kfree_entry_def wp_simps undo)
    using fin by simp
qed

text \<open>What a clone is: the same packet on the same buffer, under a new descriptor with one user.\<close>

lemma shared_packets:
  assumes inv: "skb_inv s" and e: "ents s skb = Some e" "bufs s (e_data e) = Some d" and dst: "ents s dst = None"
  shows "packet (shared_with dst meta skb e d s) dst = packet s skb"
    "ents s x \<noteq> None \<Longrightarrow> packet (shared_with dst meta skb e d s) x = packet s x"
    "data_of dst (shared_with dst meta skb e d s) = data_of skb s"
proof -
  let ?t = "shared_with dst meta skb e d s"
  from inv have m: "mem_inv s" by (simp add: skb_inv_def)
  have ne: "skb \<noteq> dst" using e(1) dst by auto
  have "plain (e_view e)" using inv_entry [OF m e(1)] by (auto simp: view_ok_def)
  then have sz: "sized (e_view e)" by (rule plain_sized)
  show "packet ?t dst = packet s skb" "data_of dst ?t = data_of skb s"
    using ne e sz by (simp_all add: packet_def shared_with_def view_of_def data_of_def buf_of_def Let_def clone_view_fields)
  show "packet ?t x = packet s x" if "ents s x \<noteq> None"
  proof -
    have "x \<noteq> dst" using that dst by auto
    then show ?thesis using e
      by (cases "x = skb"; cases "bufs s (data_of x s)")
        (auto simp: packet_def shared_with_def view_of_def data_of_def buf_of_def Let_def layout_simps split: option.splits)
  qed
qed

lemma clone_inv: "kernel_ok E \<Longrightarrow> skb_inv s \<Longrightarrow> wp (shim_skb_clone E skb fl) (\<lambda>_. skb_inv) s"
proof (rule wp_mono [OF clone_spec], assumption, assumption)
  fix r t
  assume inv: "skb_inv s" and Q: "case r of None \<Rightarrow> t = s
     | Some dst \<Rightarrow> \<exists>u meta e d. t = shared_with dst meta skb e d u \<and> took_meta s meta u \<and>
         ents s skb = Some e \<and> bufs s (e_data e) = Some d \<and> ents s dst = None \<and> dst \<noteq> 0 \<and> card (dom (ents s)) < 65535"
  show "skb_inv t"
  proof (cases r)
    case None
    with Q inv show ?thesis by simp
  next
    case (Some dst)
    with Q obtain u meta e d where t: "t = shared_with dst meta skb e d u" and u: "took_meta s meta u"
      and e: "ents s skb = Some e" "bufs s (e_data e) = Some d" "ents s dst = None" "dst \<noteq> 0" "card (dom (ents s)) < 65535"
      by auto
    note U = took_meta_inv [OF inv u]
    show ?thesis unfolding t by (rule shared_inv [OF U(1)]) (use U e in simp_all)
  qed
qed

section \<open>Copy\<close>

text \<open>A descriptor and its buffer are replaced together.\<close>

lemma inv_rewrite:
  assumes inv: "skb_inv s" and e: "ents s ea = Some e" and d: "bufs s (e_data e) = Some d"
    and d': "buf_ok (e_data e) d'" "capacity d' = capacity d" "skb419_dataref d' = skb419_dataref d"
    and e': "safe_view (e_data e) (capacity d) (e_view e) (e_view e')"
      "e_data e' = e_data e" "e_before e' = e_before e" "e_after e' = e_after e"
    and n: "distinct (owns e')" "\<And>h. h \<in> set (owns e') \<Longrightarrow> unowned s h"
  shows "skb_inv (s\<lparr>bufs := (bufs s)(e_data e \<mapsto> d'), ents := (ents s)(ea \<mapsto> e')\<rparr>)" (is "skb_inv ?t")
proof -
  let ?s = "s\<lparr>bufs := (bufs s)(e_data e \<mapsto> d')\<rparr>"
  from inv have "mem_inv s" "natives_ok s" by (simp_all add: skb_inv_def)
  have m: "mem_inv ?s" by (rule inv_update_buf [OF \<open>mem_inv s\<close> d d'])
  have "mem_inv (?s\<lparr>ents := (ents ?s)(ea \<mapsto> e')\<rparr>)"
    by (rule inv_update [OF m, of ea e d']) (use e d' e' in \<open>auto simp: safe_view_def\<close>)
  moreover have "natives_ok (s\<lparr>ents := (ents s)(ea \<mapsto> e')\<rparr>)"
    by (rule natives_entry [OF \<open>natives_ok s\<close> n(1)]) (use n(2) in \<open>auto simp: unowned_def\<close>)
  then have "natives_ok ?t" by (rule iffD1 [OF natives_cong, rotated 2]) simp_all
  ultimately show ?thesis by (simp add: skb_inv_def)
qed

lemma with_skb_inv:
  assumes "skb_inv s" and "mem_inv (with_skb ea (fresh_entry a cap) a d s)"
  shows "skb_inv (with_skb ea (fresh_entry a cap) a d s)"
proof -
  have "owns (fresh_entry a cap) = []" by (simp add: owns_def fresh_entry_def zero_entry_def)
  with assms have "natives_ok (s\<lparr>ents := (ents s)(ea \<mapsto> fresh_entry a cap)\<rparr>)"
    by (intro natives_entry) (auto simp: skb_inv_def)
  then have "natives_ok (with_skb ea (fresh_entry a cap) a d s)"
    by (rule iffD1 [OF natives_cong, rotated 2]) (simp_all add: with_skb_def)
  with assms show ?thesis by (simp add: skb_inv_def)
qed

lemma copy_view_place:
  assumes v: "plain v" "placed b c x l v" and c: "unat c \<le> unat cap"
  shows "plain (copy_view a cap ts v)" "placed a cap x l (copy_view a cap ts v)" "\<not> BITVAL B_cloned (copy_view a cap ts v)"
proof -
  note sz = plain_sized [OF v(1)]
  show "plain (copy_view a cap ts v)"
    unfolding copy_view_def Let_def
    by (simp add: v plain_users plain_SETBIT plain_STORE plain_zero crit_def refs_def)
  show "placed a cap x l (copy_view a cap ts v)"
    using v(2) c sz unfolding copy_view_def Let_def placed_def by (simp add: layout_simps apart_def)
  show "\<not> BITVAL B_cloned (copy_view a cap ts v)"
    using sz unfolding copy_view_def Let_def by (simp add: layout_simps)
qed

lemma placed_tail: "placed a cap x l v \<Longrightarrow> unat (LOAD F_tail v - LOAD F_head v :: u32) = x + l"
proof -
  assume p: "placed a cap x l v"
  have "unat cap < 2 ^ 32" using unsigned_less [of cap] by simp
  with p show ?thesis by (simp add: placed_def unat_of_nat flip: of_nat_add)
qed

lemma undo_alloc:
  assumes inv: "mem_inv s" and new: "ents s ea = None" "bufs s a = None"
  shows "dropped ea (fresh_entry a cap) d (with_skb ea (fresh_entry a cap) a d s) = s"
proof -
  have "ea \<notin> registry s" using mem_invD(2) [OF inv] new(1) by auto
  moreover have "owns (fresh_entry a cap) = []" "natives s |` UNIV = natives s"
    by (simp_all add: owns_def fresh_entry_def zero_entry_def restrict_map_def)
  moreover have "(LOAD F_destructor (e_view (fresh_entry a cap)) :: u32) = 0" "e_data (fresh_entry a cap) = a"
    "\<not> BITVAL B_cloned (e_view (fresh_entry a cap))"
    by (simp_all add: fresh_entry_def fresh_view_def layout_simps apart_def zero_view)
  ultimately show ?thesis using new
    by (cases s) (simp add: dropped_def drop_mem_def drop_natives_def note_destructor_def with_skb_def fun_upd_idem)
qed

text \<open>The result of a copy, from the world with the new descriptor.\<close>

definition copied :: "u32 \<Rightarrow> u32 \<Rightarrow> u32 \<Rightarrow> skb419_data \<Rightarrow> u32 \<Rightarrow> u8 list \<Rightarrow> u8 list \<Rightarrow> skb_world \<Rightarrow> skb_world" where
  "copied cp a cap d meta v bs u = u\<lparr>
     bufs := (bufs u)(a \<mapsto> dbytes_update (overwrite 0 bs) d),
     ents := (ents u)(cp \<mapsto> (fresh_entry a cap)\<lparr>native_meta := meta, e_view := copy_view a cap (cap + 576) v\<rparr>)\<rparr>"

lemma fresh_entry_sel [simp]:
  "e_data (fresh_entry a cap) = a" "e_before (fresh_entry a cap) = SK419_GUARD" "e_after (fresh_entry a cap) = SK419_GUARD"
  "e_view (fresh_entry a cap) = fresh_view a cap (cap + 576)" "native_owner (fresh_entry a cap) = 0" "native_meta (fresh_entry a cap) = 0"
  by (simp_all add: fresh_entry_def zero_entry_def)

lemma buf_ok_bytes: "buf_ok a d \<Longrightarrow> length bs \<le> length (dbytes d) \<Longrightarrow> buf_ok a (dbytes_update (overwrite 0 bs) d)"
  by (simp add: buf_ok_def)

lemma copied_inv:
  assumes inv: "skb_inv u" and cp: "ents u cp = Some (fresh_entry a cap)" "bufs u a = Some d" and d: "buf_ok a d" "capacity d = cap"
    and v: "plain v" "placed b c x l v" "unat c \<le> unat cap" and bs: "length bs \<le> unat cap" and meta: "meta = 0 \<or> unowned u meta"
  shows "skb_inv (copied cp a cap d meta v bs u)"
proof -
  note C = copy_view_place [OF v, of a "cap + 576"]
  have e: "owns ((fresh_entry a cap)\<lparr>native_meta := meta, e_view := copy_view a cap (cap + 576) v\<rparr>) = (if meta = 0 then [] else [meta])"
    by (simp add: owns_def)
  have "skb_inv (u\<lparr>bufs := (bufs u)(e_data (fresh_entry a cap) \<mapsto> dbytes_update (overwrite 0 bs) d),
      ents := (ents u)(cp \<mapsto> (fresh_entry a cap)\<lparr>native_meta := meta, e_view := copy_view a cap (cap + 576) v\<rparr>)\<rparr>)"
    by (rule inv_rewrite [OF inv cp(1), of d]; (unfold e)?)
      (use cp d C bs meta in \<open>auto simp: safe_view_def view_ok_def fresh_view_cloned skb419_dataref_def buf_ok_def split: if_splits\<close>)
  then show ?thesis by (simp add: copied_def)
qed

lemma copied_packets:
  assumes sp: "span a cap" and d: "length (dbytes d) = unat cap" and v: "plain v" "placed b c x l v" "unat c \<le> unat cap"
    and bs: "bs = take (x + l) ds" "x + l \<le> length ds"
  shows "\<exists>r. packet (copied cp a cap d meta v bs u) cp = Some (take x ds, take l (drop x ds), r)"
    "ents u y \<noteq> None \<Longrightarrow> y \<noteq> cp \<Longrightarrow> data_of y u \<noteq> a \<Longrightarrow> packet (copied cp a cap d meta v bs u) y = packet u y"
proof -
  note C = copy_view_place [OF v, of a "cap + 576"] and P = placed_rooms [OF sp copy_view_place(2) [OF v], of "cap + 576"]
  have b: "overwrite 0 bs (dbytes d) = take x ds @ take l (drop x ds) @ drop (x + l) (dbytes d)"
    using bs by (simp add: overwrite_def take_add)
  have "pkt_at x l (overwrite 0 bs (dbytes d)) = (take x ds, take l (drop x ds), drop (x + l) (dbytes d))"
    unfolding b by (rule pkt_at_app) (use bs in simp_all)
  then show "\<exists>r. packet (copied cp a cap d meta v bs u) cp = Some (take x ds, take l (drop x ds), r)"
    using P by (simp add: packet_def copied_def view_of_def data_of_def buf_of_def Let_def)
  show "packet (copied cp a cap d meta v bs u) y = packet u y" if "ents u y \<noteq> None" "y \<noteq> cp" "data_of y u \<noteq> a"
    using that by (intro packet_cong) (auto simp: copied_def view_of_def data_of_def buf_of_def)
qed

text \<open>A copy has the head room and the payload of its source on a buffer of its own.\<close>

definition same_head :: "packet option \<Rightarrow> packet option \<Rightarrow> bool" where
  "same_head p q \<longleftrightarrow> (\<exists>h b r r'. p = Some (h, b, r) \<and> q = Some (h, b, r'))"

definition copy_post :: "skb_world \<Rightarrow> u32 \<Rightarrow> u32 option \<Rightarrow> skb_world \<Rightarrow> bool" where
  "copy_post s skb r t \<longleftrightarrow> skb_inv t \<and> (case r of None \<Rightarrow> t = s
     | Some cp \<Rightarrow> cp \<noteq> 0 \<and> ents s cp = None \<and> same_head (packet s skb) (packet t cp) \<and>
         (\<forall>y. ents s y \<noteq> None \<longrightarrow> packet t y = packet s y \<and> ents t y = ents s y \<and> data_of cp t \<noteq> data_of y t))"

lemma copy_spec:
  assumes K: "kernel_ok E" and inv: "skb_inv s"
  shows "wp (shim_skb_copy E skb fl) (copy_post s skb) s"
proof (cases "ents s skb")
  case None
  then show ?thesis using inv by (simp add: shim_skb_copy_def wp_simps inv_validate skb_inv_def domIff copy_post_def)
next
  case (Some e)
  from inv have m: "mem_inv s" by (simp add: skb_inv_def)
  obtain src x l where src: "bufs s (e_data e) = Some src" "span (e_data e) (capacity src)" "plain (e_view e)"
    "placed (e_data e) (capacity src) x l (e_view e)" "length (dbytes src) = unat (capacity src)"
    "packet s skb = Some (pkt_at x l (dbytes src))" "x + l \<le> length (dbytes src)"
    by (rule live_skb [OF m Some])
  have val: "skb419_validate s skb = Inr ()" using inv_validate [OF m] Some by auto
  have B: "buf_of skb s = Some src" by (simp add: buf_of_def data_of_def Some src)
  have len: "unat (LOAD F_tail (e_view e) - LOAD F_head (e_view e) :: u32) = x + l"
    by (rule placed_tail [OF src(4)])
  let ?fin = "\<lambda>cp. do {
      m \<leftarrow> clone_meta E fl skb;
      case m of
        None \<Rightarrow> do { shim_skb_free cp; return None }
      | Some meta \<Rightarrow> do {
          upd_entry cp (native_meta_update (\<lambda>_. meta));
          truesize \<leftarrow> gets (\<lambda>s. LOAD F_truesize (view_of cp s));
          v \<leftarrow> gets (view_of skb);
          a \<leftarrow> gets (data_of cp);
          cap \<leftarrow> gets (\<lambda>s. case bufs s a of Some d \<Rightarrow> capacity d | None \<Rightarrow> 0);
          upd_data a (dbytes_update (overwrite 0 (take (unat (LOAD F_tail v - LOAD F_head v :: u32)) (dbytes src))));
          upd_view cp (\<lambda>_. copy_view a cap truesize v);
          return (Some cp) } }"
  have fin: "wp (?fin cp) (copy_post s skb) t"
    if t: "t = with_skb cp (fresh_entry a cap) a d s" "mem_inv t" and cp: "cp \<noteq> 0" "ents s cp = None"
      and a: "bufs s a = None" "a \<noteq> 0" "span a cap" and d: "empty_buf cap d" "unat (capacity src) \<le> unat cap" for cp a cap d t
  proof -
    have it: "skb_inv t" using with_skb_inv [OF inv] t by simp
    have bd: "buf_ok a d" "capacity d = cap" "length (dbytes d) = unat cap"
      using empty_buf_ok [OF d(1) a(2,3)] d(1) by (simp_all add: empty_buf_def)
    have et: "ents t cp = Some (fresh_entry a cap)" "bufs t a = Some d" using t(1) by (simp_all add: with_skb_def)
    have ne: "skb \<noteq> cp" "e_data e \<noteq> a" using Some cp a src by auto
    have failed: "wp (do { shim_skb_free cp; return None }) (copy_post s skb) t"
    proof (rule wp_seq [OF free_spec [OF it et(1)]])
      show "bufs t (e_data (fresh_entry a cap)) = Some d" by (simp add: et)
      have one: "LOAD F_users (e_view (fresh_entry a cap)) = (1 :: u32)"
        by (simp add: fresh_view_def layout_simps apart_def zero_view)
      have "dropped cp (fresh_entry a cap) d t = s" unfolding t(1) by (rule undo_alloc [OF m cp(2) a(1)])
      then show "r = Inr () \<and> skb_inv u \<and> u = (if LOAD F_users (e_view (fresh_entry a cap)) = (1 :: u32)
          then dropped cp (fresh_entry a cap) d t else put_users cp (refcount_dec (LOAD F_users (e_view (fresh_entry a cap)))) t) \<Longrightarrow>
        wp (return None) (copy_post s skb) u" for r u
        using one inv by (simp add: wp_return copy_post_def)
    qed
    have cpd: "copy_post s skb (Some cp) (copied cp a cap d meta (e_view e) (take (x + l) (dbytes src)) u)"
      if u: "took_meta t meta u" for meta u
    proof -
      note U = took_meta_inv [OF it u]
      let ?w = "copied cp a cap d meta (e_view e) (take (x + l) (dbytes src)) u"
      have "skb_inv ?w"
        by (rule copied_inv [OF U(1) _ _ bd(1,2) src(3,4) d(2)]) (use et U src(5,7) d(2) in simp_all)
      moreover have "same_head (packet s skb) (packet ?w cp)"
        using copied_packets(1) [OF a(3) bd(3) src(3,4) d(2) refl src(7), of cp meta u] src(6)
        by (auto simp: same_head_def pkt_at_def)
      moreover have "packet ?w y = packet s y \<and> ents ?w y = ents s y \<and> data_of cp ?w \<noteq> data_of y ?w" if y: "ents s y \<noteq> None" for y
      proof -
        obtain f where f: "ents s y = Some f" using y by auto
        obtain df where "bufs s (e_data f) = Some df" by (rule inv_entry [OF m f])
        then have n: "y \<noteq> cp" "e_data f \<noteq> a" using f cp a by auto
        have w: "ents ?w y = ents s y" "bufs ?w (e_data f) = bufs s (e_data f)"
          using n U(2,3) t(1) by (simp_all add: copied_def with_skb_def)
        then have "packet ?w y = packet s y" by (intro packet_cong) (simp_all add: view_of_def buf_of_def data_of_def f)
        moreover have "data_of cp ?w = a" by (simp add: data_of_def copied_def)
        ultimately show ?thesis using w(1) f n(2) by (simp add: data_of_def)
      qed
      ultimately show ?thesis using cp by (simp add: copy_post_def)
    qed
    show ?thesis
    proof (rule wp_seq [OF clone_meta_spec [OF K, of fl skb t]], rule wp_optionI)
      fix r u meta
      assume "case r of None \<Rightarrow> u = t | Some h \<Rightarrow> took_meta t h u" and r: "r = Some meta"
      then have u: "took_meta t meta u" by simp
      have eu: "ents u cp = Some (fresh_entry a cap)" "bufs u a = Some d" "ents u skb = Some e"
        using took_meta_inv [OF it u] et t(1) ne(1) Some by (simp_all add: with_skb_def)
      have ts: "LOAD F_truesize (fresh_view a cap (cap + 576)) = cap + 576"
        by (simp add: fresh_view_def layout_simps apart_def zero_view)
      show "wp (do {
          upd_entry cp (native_meta_update (\<lambda>_. meta));
          truesize \<leftarrow> gets (\<lambda>s. LOAD F_truesize (view_of cp s));
          v \<leftarrow> gets (view_of skb);
          a \<leftarrow> gets (data_of cp);
          cap \<leftarrow> gets (\<lambda>s. case bufs s a of Some d \<Rightarrow> capacity d | None \<Rightarrow> 0);
          upd_data a (dbytes_update (overwrite 0 (take (unat (LOAD F_tail v - LOAD F_head v :: u32)) (dbytes src))));
          upd_view cp (\<lambda>_. copy_view a cap truesize v);
          return (Some cp) }) (copy_post s skb) u"
        using cpd [OF u] eu ne bd ts
        by (simp add: wp_simps view_of_def data_of_def len copied_def)
    qed (use failed in simp)
  qed
  show ?thesis
    unfolding shim_skb_copy_def wp_bind [of "gets _"] wp_gets val B sum.case option.case
    by (rule wp_seq [OF alloc_spec [OF K m]], rule wp_optionI)
      (use fin inv in \<open>auto simp: wp_return copy_post_def\<close>)
qed

end
