(* ===== verification/Skb419_Conv.thy ===== *)
theory Skb419_Conv
  imports Skb419_Ops
begin

text \<open>
  The conversions between old and native packets: import makes an old packet with the bytes of the native
  one and takes over its reference, export makes a native packet and changes nothing else.
\<close>

section \<open>Metadata\<close>

lemma sized_flag_in: "sized v \<Longrightarrow> sized (flag_in g x v)"
  by (simp add: sized_def flag_in_def)

lemma LOAD_flag_in: "LOAD f (flag_in g x v) = LOAD f v"
  by (cases f; cases g) (simp_all add: LOAD_def ld_def flag_in_def slice_list_update_other)

lemma slice_flag_in: "i + n \<le> 222 \<or> 229 \<le> i \<Longrightarrow> slice i n (flag_in g x v) = slice i n v"
  by (cases g) (auto simp: flag_in_def slice_list_update_other)

lemma BITVAL_flag_in:
  assumes "sized v"
  shows "BITVAL b (flag_in g x v) = BITVAL b v"
proof (cases "g = G_pfmemalloc")
  case False
  then have "SKMETA_offset g \<noteq> 222" by (cases g) simp_all
  then show ?thesis by (simp add: BITVAL_def skb419_bit_def flag_in_def)
next
  case True
  have "((w AND NOT 128) OR push_bit 7 x) AND m = w AND m" if "m \<in> {1, 2, 12, 32}" for w m :: u8
  proof (rule bit_word_eqI)
    fix n
    assume "n < LENGTH(8)"
    then have "n \<in> {0, 1, 2, 3, 4, 5, 6, 7}" by auto
    then show "bit (((w AND NOT 128) OR push_bit 7 x) AND m) n = bit (w AND m) n"
      using that by (auto simp: bit_simps)
  qed
  with True assms show ?thesis by (cases b) (simp_all add: BITVAL_def skb419_bit_def flag_in_def sized_def)
qed

lemma plain_flag_in: "plain v \<Longrightarrow> plain (flag_in g x v)"
  by (simp add: plain_def sized_flag_in LOAD_flag_in BITVAL_flag_in refs_def all_zero_def slice_flag_in ld_def)

lemma placed_flag_in: "placed a cap x l (flag_in g y v) = placed a cap x l v"
  by (simp add: placed_def LOAD_flag_in)

text \<open>\<open>same_frame v w\<close>: the view \<open>w\<close> is as well-formed as \<open>v\<close>, at the same place, and shared if \<open>v\<close> is.\<close>

definition same_frame :: "u8 list \<Rightarrow> u8 list \<Rightarrow> bool" where
  "same_frame v w \<longleftrightarrow> plain w \<and> (\<forall>a cap x l. placed a cap x l w = placed a cap x l v) \<and> BITVAL B_cloned w = BITVAL B_cloned v \<and>
     LOAD F_users w = (LOAD F_users v :: u32)"

lemma same_frame_trans: "same_frame u v \<Longrightarrow> same_frame v w \<Longrightarrow> same_frame u w"
  by (simp add: same_frame_def)

lemma same_frame_fold:
  assumes "plain v" and "\<And>y w. y \<in> set ys \<Longrightarrow> plain w \<Longrightarrow> same_frame w (f y w)"
  shows "same_frame v (fold f ys v)"
  using assms
proof (induction ys arbitrary: v)
  case Nil
  then show ?case by (simp add: same_frame_def)
next
  case (Cons y ys)
  then have h: "same_frame v (f y v)" by simp
  then have "plain (f y v)" by (simp add: same_frame_def)
  with Cons have "same_frame (f y v) (fold f ys (f y v))" by simp
  with h show ?case by (simp add: same_frame_trans)
qed

lemma metadata_in_frame:
  assumes "plain v"
  shows "same_frame v (skb419_metadata_in n v)"
proof -
  have "same_frame w (STORE f (n_get n f) w)" if "f \<in> set META_SCALARS" "plain w" for f w
    using that plain_STORE [OF that(2), of f "n_get n f"] plain_sized [OF that(2)]
    by (auto simp: same_frame_def META_SCALARS_def crit_def refs_def placed_STORE BITVAL_STORE layout_simps apart_def)
  then have s: "same_frame v (fold (\<lambda>f. STORE f (n_get n f)) META_SCALARS v)" (is "same_frame v ?w")
    using assms by (intro same_frame_fold)
  then have "plain ?w" by (simp add: same_frame_def)
  moreover have "same_frame w (flag_in g x w)" if "plain w" for g x w
    using that by (simp add: same_frame_def plain_flag_in placed_flag_in BITVAL_flag_in plain_sized LOAD_flag_in)
  ultimately have "same_frame ?w (skb419_metadata_in n v)"
    unfolding skb419_metadata_in_def by (intro same_frame_fold)
  with s show ?thesis by (rule same_frame_trans)
qed

section \<open>Import\<close>

text \<open>The view and the world after a successful import.\<close>

definition import_view :: "u32 \<Rightarrow> u32 \<Rightarrow> u32 \<Rightarrow> u32 \<Rightarrow> u32 \<Rightarrow> nskb \<Rightarrow> u8 list" where
  "import_view a cap headroom len dev wn = skb419_metadata_in wn (STORE F_dev dev (STORE F_len len
     (STORE F_tail (a + headroom + len) (STORE F_data (a + headroom) (fresh_view a cap (cap + 576))))))"

definition imported :: "u32 \<Rightarrow> u32 \<Rightarrow> u32 \<Rightarrow> skb419_data \<Rightarrow> u32 \<Rightarrow> u32 \<Rightarrow> u32 \<Rightarrow> nskb \<Rightarrow> skb_world \<Rightarrow> skb_world" where
  "imported old a cap d native work dev wn u =
     (let w = with_skb old (fresh_entry a cap) a d u; hr = of_nat (n_headroom wn); len = of_nat (n_len wn) in
      w\<lparr>bufs := (bufs w)(a \<mapsto> dbytes_update (overwrite 0 (take (unat (hr + len)) (n_bytes wn))) d),
        ents := (ents w)(old \<mapsto> (fresh_entry a cap)\<lparr>e_view := import_view a cap hr len dev wn,
          native_meta := work, native_owner := native\<rparr>)\<rparr>)"

lemma no_overflow: "\<not> add_overflow a b \<Longrightarrow> unat (a + b) = unat a + unat b"
  using unat_add_lem [of a b] no_olen_add_nat [of a b] by (simp add: add_overflow_def not_less)

lemma import_view_frame:
  assumes "unat hr + unat len \<le> unat cap"
  shows "plain (import_view a cap hr len dev wn)" "placed a cap (unat hr) (unat len) (import_view a cap hr len dev wn)"
    "LOAD F_users (import_view a cap hr len dev wn) = (1 :: u32)"
proof -
  let ?v = "fresh_view a cap (cap + 576)"
  let ?w = "STORE F_dev dev (STORE F_len len (STORE F_tail (a + hr + len) (STORE F_data (a + hr) ?v)))"
  have ok: "plain ?v" "placed a cap 0 0 ?v"
    using fresh_view_ok [of a cap "cap + 576"] unfolding view_ok_def
    by (simp_all add: placed_def fresh_view_def layout_simps apart_def zero_view)
  note sz = plain_sized [OF ok(1)]
  have w: "plain ?w" by (simp add: ok plain_STORE crit_def refs_def)
  moreover have "placed a cap (unat hr) (unat len) ?w"
    using placed_moves(6) [OF sz ok(2) assms] sz by (simp add: placed_STORE layout_simps)
  moreover have "LOAD F_users ?w = (1 :: u32)"
    using sz by (simp add: fresh_view_def layout_simps apart_def zero_view)
  ultimately show "plain (import_view a cap hr len dev wn)" "placed a cap (unat hr) (unat len) (import_view a cap hr len dev wn)"
    "LOAD F_users (import_view a cap hr len dev wn) = (1 :: u32)"
    using metadata_in_frame [OF w, of wn] by (simp_all add: import_view_def same_frame_def)
qed

lemma import_view_built: "\<exists>v. sized v \<and> import_view a cap hr len dev wn = skb419_metadata_in wn v"
proof -
  have "sized (fresh_view a cap ts)" for ts using fresh_view_ok [of a cap ts] by (simp add: view_ok_def plain_sized)
  then show ?thesis unfolding import_view_def by (blast intro: sized_STORE)
qed

lemma imported_inv:
  assumes inv: "skb_inv u" and t: "mem_inv (with_skb old (fresh_entry a cap) a d u)"
    and a: "a \<noteq> 0" "span a cap" "empty_buf cap d" and fit: "unat (of_nat (n_headroom wn) :: u32) + unat (of_nat (n_len wn) :: u32) \<le> unat cap"
    and no: "\<not> add_overflow (of_nat (n_headroom wn)) (of_nat (n_len wn))"
    and n: "unowned u native" "unowned u work" "native \<noteq> work"
  shows "skb_inv (imported old a cap d native work dev wn u)"
proof -
  let ?w = "with_skb old (fresh_entry a cap) a d u"
  have w: "skb_inv ?w" by (rule with_skb_inv [OF inv t])
  have bd: "buf_ok a d" "capacity d = cap" "length (dbytes d) = unat cap"
    using empty_buf_ok [OF a(3,1,2)] a(3) by (simp_all add: empty_buf_def)
  have e: "ents ?w old = Some (fresh_entry a cap)" "bufs ?w (e_data (fresh_entry a cap)) = Some d" by (simp_all add: with_skb_def)
  have un: "unowned ?w h" if "unowned u h" for h
    using that by (auto simp: unowned_def with_skb_def owns_def split: if_splits)
  note V = import_view_frame [OF fit, of a dev wn] and L = no_overflow [OF no]
  show ?thesis
    unfolding imported_def Let_def
    by (rule inv_rewrite [OF w e, simplified fresh_entry_sel])
      (use bd V fit L n un in \<open>auto simp: safe_view_def view_ok_def fresh_view_cloned skb419_dataref_def buf_ok_def owns_def split: if_splits\<close>)
qed

text \<open>What an import leaves: an error frees what it took, success gives a new descriptor that owns both references.\<close>

definition import_post :: "(u32 \<Rightarrow> nskb \<Rightarrow> bool) \<Rightarrow> skb_world \<Rightarrow> u32 \<Rightarrow> errno + u32 \<Rightarrow> skb_world \<Rightarrow> bool" where
  "import_post W s native r t \<longleftrightarrow> skb_inv t \<and> (case r of
     Inl _ \<Rightarrow> t\<lparr>sk_log := sk_log s\<rparr> = s
   | Inr old \<Rightarrow> \<exists>a cap d work dev wn. t = imported old a cap d native work dev wn (s\<lparr>natives := (natives s)(work \<mapsto> wn)\<rparr>) \<and>
       old \<noteq> 0 \<and> ents s old = None \<and> W work wn \<and> natives s work = None \<and> work \<noteq> 0 \<and> bufs s a = None \<and> span a cap \<and> empty_buf cap d \<and>
       unat (of_nat (n_headroom wn) :: u32) + unat (of_nat (n_len wn) :: u32) \<le> unat cap)"

lemma inv_log: "skb_inv s \<Longrightarrow> skb_inv (s\<lparr>sk_log := L\<rparr>)"
  using mem_inv_cong [of "s\<lparr>sk_log := L\<rparr>" s] natives_cong [of "s\<lparr>sk_log := L\<rparr>" s]
  by (simp add: skb_inv_def)

lemma native_undo:
  assumes "natives s h = None" and "h \<noteq> 0"
  shows "wp (dev_kfree_skb_any h) (\<lambda>_ t. t = s\<lparr>sk_log := KfreeSkb h # sk_log s\<rparr>)
    (s\<lparr>natives := (natives s)(h \<mapsto> n)\<rparr>)"
  using assms by (simp add: wp_kfree_skb fun_upd_idem)

lemma import_undo:
  assumes inv: "skb_inv s" and work: "natives s work = None" "work \<noteq> 0"
  shows "wp (do { dev_kfree_skb_any work; return (Inl er) }) (import_post W s native) (s\<lparr>natives := (natives s)(work \<mapsto> wn)\<rparr>)"
  by (rule wp_seq [OF native_undo [OF work]]) (simp add: wp_return import_post_def inv_log [OF inv])

lemma import_work_spec:
  assumes K: "kernel_ok E" and inv: "skb_inv s" and n: "unowned s native" and work: "natives s work = None" "work \<noteq> 0"
    and W: "W work wn"
  shows "wp (import_work E fl native dev work wn) (import_post W s native) (s\<lparr>natives := (natives s)(work \<mapsto> wn)\<rparr>)"
proof -
  let ?u = "s\<lparr>natives := (natives s)(work \<mapsto> wn)\<rparr>"
  let ?hr = "of_nat (n_headroom wn) :: u32" and ?len = "of_nat (n_len wn) :: u32"
  have u: "skb_inv ?u" using natives_change(1) [OF inv] work by blast
  then have mu: "mem_inv ?u" by (simp add: skb_inv_def)
  have ne: "native \<noteq> work" using n work by (auto simp: unowned_def)
  have un: "unowned ?u native" "unowned ?u work" using n ne work fresh_unowned [OF inv work(1)] by (auto simp: unowned_def)
  note free = import_undo [OF inv work]
  have fin: "wp (do {
      a \<leftarrow> gets (data_of old);
      upd_data a (dbytes_update (overwrite 0 (take (unat (?hr + ?len)) (n_bytes wn))));
      upd_view old (\<lambda>v. STORE F_dev dev (STORE F_len ?len (STORE F_tail (a + ?hr + ?len) (STORE F_data (a + ?hr) v))));
      upd_view old (skb419_metadata_in wn);
      upd_entry old (\<lambda>e. e\<lparr>native_meta := work, native_owner := native\<rparr>);
      return (Inr old) }) (import_post W s native) t"
    if no: "\<not> add_overflow ?hr ?len" and t: "t = with_skb old (fresh_entry a cap) a d ?u" "mem_inv t" and old: "old \<noteq> 0" "ents s old = None"
      and a: "bufs s a = None" "a \<noteq> 0" "span a cap" "empty_buf cap d" "unat (?hr + ?len) \<le> unat cap" for old a cap d t
  proof -
    have fit: "unat ?hr + unat ?len \<le> unat cap" using a(5) no_overflow [OF no] by simp
    have "skb_inv (imported old a cap d native work dev wn ?u)"
      by (rule imported_inv [OF u t(2) [unfolded t(1)] a(2-4) fit no un ne])
    then have "import_post W s native (Inr old) (imported old a cap d native work dev wn ?u)"
      unfolding import_post_def sum.case using old a fit work W by blast
    then show ?thesis unfolding t(1)
      by (simp add: wp_simps data_of_def with_skb_def imported_def import_view_def Let_def fresh_entry_def zero_entry_def)
  qed
  show ?thesis
    unfolding import_work_def Let_def
    apply (rule wp_ifI, rule free)
    apply (rule wp_seq [OF alloc_spec [OF K mu]], rule wp_optionI)
    using free fin by auto
qed

text \<open>The working copy is the answer of \<^verbatim>\<open>skb_copy_expand()\<close>, with the bytes as they are unless a VLAN tag is put into them.\<close>

definition work_of :: "skb_env \<Rightarrow> u32 \<Rightarrow> skb_world \<Rightarrow> u32 \<Rightarrow> u32 \<Rightarrow> nskb \<Rightarrow> bool" where
  "work_of E fl s native work wn \<longleftrightarrow> (\<exists>nn k m. natives s native = Some nn \<and> k_skb_copy_expand E fl k nn s = Some (work, m) \<and>
     (\<not> skb_vlan_tag_present nn \<longrightarrow> n_bytes wn = n_bytes m \<and> n_headroom wn = n_headroom m))"

lemma import_spec:
  assumes K: "kernel_ok E" and inv: "skb_inv s" and n: "unowned s native"
  shows "wp (shim_skb_import E native fl) (import_post (work_of E fl s native) s native) s"
proof -
  let ?P = "import_post (work_of E fl s native) s native"
  obtain nn where nn: "natives s native = Some nn" "native \<noteq> 0" using n by (auto simp: unowned_def)
  have refuse: "?P (Inl er) s" for er using inv by (simp add: import_post_def)
  have go: "wp (do { new_native (work, wn); import_work E fl native dev work wn }) ?P s"
    if "k_skb_copy_expand E fl k nn s = Some (work, m)" and "skb_vlan_tag_present nn \<or> n_bytes wn = n_bytes m \<and> n_headroom wn = n_headroom m"
    for work wn dev k m
  proof -
    have "work_of E fl s native work wn" unfolding work_of_def using nn that by blast
    then show ?thesis
      using import_work_spec [OF K inv n, of work "work_of E fl s native" wn fl dev] kernel_okD(6) [OF K that(1)] by (simp add: new_native_def wp_simps)
  qed
  have bad: "wp (do { new_native (work, wn); dev_kfree_skb_any work; return (Inl er) }) ?P s"
    if "k_skb_copy_expand E fl k nn s = Some (work, m)" for work wn k m er
    using import_undo [OF inv, of work er "work_of E fl s native" native wn] kernel_okD(6) [OF K that] by (simp add: new_native_def wp_simps)
  show ?thesis
    using nn refuse go bad unfolding shim_skb_import_def Let_def
    by (auto simp: wp_return nn wp_bind [of "gets _"] wp_gets split: option.splits prod.splits)
qed

lemma imported_packet:
  assumes sp: "span a cap" "empty_buf cap d" and fit: "unat (of_nat (n_headroom wn) :: u32) + unat (of_nat (n_len wn) :: u32) \<le> unat cap"
    and wn: "n_headroom wn \<le> length (n_bytes wn)" "length (n_bytes wn) < 2 ^ 32"
  shows "\<exists>r. packet (imported old a cap d native work dev wn u) old = Some (take (n_headroom wn) (n_bytes wn), drop (n_headroom wn) (n_bytes wn), r)"
proof -
  let ?x = "n_headroom wn" and ?l = "n_len wn"
  have sum: "?x + ?l = length (n_bytes wn)" using wn(1) by (simp add: n_len_def)
  then have un: "unat (of_nat ?x :: u32) = ?x" "unat (of_nat ?l :: u32) = ?l" "unat (of_nat ?x + of_nat ?l :: u32) = length (n_bytes wn)"
    using wn(2) by (simp_all add: unat_of_nat flip: of_nat_add)
  note R = placed_rooms [OF sp(1) import_view_frame(2) [OF fit, of a dev wn]]
  have b: "overwrite 0 (n_bytes wn) (dbytes d) = take ?x (n_bytes wn) @ drop ?x (n_bytes wn) @ drop (length (n_bytes wn)) (dbytes d)"
    by (simp add: overwrite_def)
  have "pkt_at ?x ?l (overwrite 0 (n_bytes wn) (dbytes d)) = (take ?x (n_bytes wn), drop ?x (n_bytes wn), drop (length (n_bytes wn)) (dbytes d))"
    unfolding b by (rule pkt_at_app) (use wn in \<open>simp_all add: n_len_def\<close>)
  then show ?thesis using R un
    by (simp add: packet_def imported_def with_skb_def view_of_def data_of_def buf_of_def Let_def)
qed

lemma imported_packets:
  assumes inv: "skb_inv s" and "import_post W s native (Inr old) t"
  shows "ents s y \<noteq> None \<Longrightarrow> packet t y = packet s y \<and> ents t y = ents s y"
    "\<exists>e wn. ents t old = Some e \<and> native_owner e = native \<and> natives t (native_meta e) = Some wn \<and> natives s (native_meta e) = None \<and>
     W (native_meta e) wn \<and> (\<exists>v. sized v \<and> e_view e = skb419_metadata_in wn v) \<and> LOAD F_users (e_view e) = (1 :: u32) \<and> (n_headroom wn \<le> length (n_bytes wn) \<longrightarrow> length (n_bytes wn) < 2 ^ 32 \<longrightarrow>
       (\<exists>r. packet t old = Some (take (n_headroom wn) (n_bytes wn), drop (n_headroom wn) (n_bytes wn), r)))"
proof -
  obtain a cap d work dev wn where t: "t = imported old a cap d native work dev wn (s\<lparr>natives := (natives s)(work \<mapsto> wn)\<rparr>)"
    and n: "old \<noteq> 0" "ents s old = None" "natives s work = None" "bufs s a = None" "work \<noteq> 0" "span a cap" "empty_buf cap d"
    and fit: "unat (of_nat (n_headroom wn) :: u32) + unat (of_nat (n_len wn) :: u32) \<le> unat cap" and W: "W work wn"
    using assms by (auto simp: import_post_def)
  show "packet t y = packet s y \<and> ents t y = ents s y" if y: "ents s y \<noteq> None"
  proof -
    obtain f where f: "ents s y = Some f" using y by auto
    obtain df where "bufs s (e_data f) = Some df" using inv f by (auto simp: skb_inv_def elim: inv_entry)
    then have ne: "y \<noteq> old" "e_data f \<noteq> a" using f n by auto
    have w: "ents t y = ents s y" "bufs t (e_data f) = bufs s (e_data f)"
      using ne unfolding t by (simp_all add: imported_def with_skb_def Let_def)
    then have "packet t y = packet s y" by (intro packet_cong) (simp_all add: view_of_def buf_of_def data_of_def f)
    with w show ?thesis by simp
  qed
  show "\<exists>e wn. ents t old = Some e \<and> native_owner e = native \<and> natives t (native_meta e) = Some wn \<and> natives s (native_meta e) = None \<and>
     W (native_meta e) wn \<and> (\<exists>v. sized v \<and> e_view e = skb419_metadata_in wn v) \<and> LOAD F_users (e_view e) = (1 :: u32) \<and> (n_headroom wn \<le> length (n_bytes wn) \<longrightarrow> length (n_bytes wn) < 2 ^ 32 \<longrightarrow>
       (\<exists>r. packet t old = Some (take (n_headroom wn) (n_bytes wn), drop (n_headroom wn) (n_bytes wn), r)))"
  proof -
    let ?e = "(fresh_entry a cap)\<lparr>e_view := import_view a cap (of_nat (n_headroom wn)) (of_nat (n_len wn)) dev wn, native_meta := work, native_owner := native\<rparr>"
    have "ents t old = Some ?e" "natives t work = Some wn" unfolding t by (simp_all add: imported_def with_skb_def Let_def)
    with imported_packet [OF n(6,7) fit, of old native work dev "s\<lparr>natives := (natives s)(work \<mapsto> wn)\<rparr>", folded t]
      n W import_view_frame(3) [OF fit, of a dev wn]
      import_view_built [of a cap "of_nat (n_headroom wn)" "of_nat (n_len wn)" dev wn]
    show ?thesis by (intro exI [of _ ?e] exI [of _ wn]) simp
  qed
qed

section \<open>Export\<close>

definition export_of :: "skb_env \<Rightarrow> u32 \<Rightarrow> skb_world \<Rightarrow> u32 \<Rightarrow> u32 \<Rightarrow> nskb \<Rightarrow> bool" where
  "export_of E fl s old h n \<longleftrightarrow> (\<exists>e d n0 dev. ents s old = Some e \<and> bufs s (e_data e) = Some d \<and>
     k_alloc_skb E fl (unat (capacity d)) s = Some (h, n0) \<and> skb419_metadata_out (e_view e) d (export_base E s e d dev n0) = Inr n)"

definition export_post :: "(u32 \<Rightarrow> nskb \<Rightarrow> bool) \<Rightarrow> skb_world \<Rightarrow> errno + u32 \<Rightarrow> skb_world \<Rightarrow> bool" where
  "export_post X s r t \<longleftrightarrow> skb_inv t \<and> (case r of
     Inl _ \<Rightarrow> t\<lparr>sk_log := sk_log s\<rparr> = s
   | Inr h \<Rightarrow> \<exists>n. t = s\<lparr>natives := (natives s)(h \<mapsto> n)\<rparr> \<and> h \<noteq> 0 \<and> natives s h = None \<and> X h n)"

lemma export_spec:
  assumes K: "kernel_ok E" and inv: "skb_inv s"
  shows "wp (shim_skb_export E old fl) (export_post (export_of E fl s old) s) s"
proof (cases "ents s old")
  case None
  then show ?thesis using inv
    by (simp add: shim_skb_export_def wp_simps inv_validate skb_inv_def domIff export_post_def)
next
  case (Some e)
  let ?P = "export_post (export_of E fl s old) s"
  from inv have m: "mem_inv s" by (simp add: skb_inv_def)
  obtain d where d: "bufs s (e_data e) = Some d" by (rule inv_entry [OF m Some])
  have val: "skb419_validate s old = Inr ()" using inv_validate [OF m] Some by auto
  have B: "buf_of old s = Some d" "view_of old s = e_view e" "old \<noteq> 0"
    using mem_invD(7) [OF m Some] by (simp_all add: buf_of_def data_of_def view_of_def Some d entry_ok_def)
  have refuse: "?P (Inl er) s" for er using inv by (simp add: export_post_def)
  have new: "natives s h = None" "h \<noteq> 0" if "k_alloc_skb E fl k s = Some (h, n)" for h n k
    using kernel_okD(7) [OF K that] by auto
  have made: "?P (Inr h) (s\<lparr>natives := (natives s)(h \<mapsto> w)\<rparr>)"
    if k: "k_alloc_skb E fl (unat (capacity d)) s = Some (h, n)" and w: "skb419_metadata_out (e_view e) d (export_base E s e d dev n) = Inr w" for h n w dev
  proof -
    have "export_of E fl s old h w" unfolding export_of_def using Some d k w by blast
    then show ?thesis using new [OF k] natives_change(1) [OF inv, of h w] by (auto simp: export_post_def)
  qed
  have undo: "wp (do { new_native (h, w); dev_kfree_skb_any h; return (Inl er) }) ?P s"
    if "k_alloc_skb E fl k s = Some (h, n)" for h n w k er
    using wp_seq [OF native_undo [OF new(1,2) [OF that]], of "\<lambda>_. return (Inl er)" ?P w] inv_log [OF inv]
    by (simp add: new_native_def wp_simps export_post_def)
  have fin: "wp (case skb419_metadata_out (e_view e) d (export_base E s e d dev n) of
        Inl er \<Rightarrow> do { new_native (h, w); dev_kfree_skb_any h; return (Inl er) }
      | Inr n' \<Rightarrow> do { new_native (h, n'); return (Inr h) }) ?P s"
    if "k_alloc_skb E fl (unat (capacity d)) s = Some (h, n)" for h n dev w
    using undo [OF that] made [OF that] by (auto simp: new_native_def wp_simps split: sum.splits)
  show ?thesis
    using fin refuse unfolding shim_skb_export_def Let_def
    by (auto simp: wp_return B val Some wp_bind [of "gets _"] wp_gets split: option.splits prod.splits)
qed

end
