(* ===== verification/Skb419_Hist.thy ===== *)
theory Skb419_Hist
  imports Skb419_Conv
begin

text \<open>
  Every operation keeps the invariant of the packet buffers, and so does every history of operations,
  with any arguments.
\<close>

section \<open>Operations on views\<close>

lemma only_views_unowned:
  assumes "only_views s t" and "unowned s h"
  shows "unowned t h"
proof -
  have "owns f = owns (e_view_update (\<lambda>_. []) f)" for f by simp
  moreover have "map_option (e_view_update (\<lambda>_. [])) (ents t x) = map_option (e_view_update (\<lambda>_. [])) (ents s x)" for x
    using assms(1) by (simp add: only_views_def)
  moreover have "natives t = natives s" using assms(1) by (metis only_views_def skb_world.select_convs(7) skb_world.surjective skb_world.update_convs(1))
  ultimately show ?thesis using assms(2) unfolding unowned_def by (metis map_option_eq_Some)
qed

lemma pkt_step_keeps:
  assumes "skb_inv s" and "pkt_step bad f skb m s"
  shows "wp m (\<lambda>_ t. skb_inv t \<and> only_views s t) s"
  by (rule wp_mono [OF assms(2) [unfolded pkt_step_def]])
    (use assms(1) in \<open>auto simp: moved_def only_views_def split: option.splits\<close>)

lemma reset_keeps:
  assumes inv: "skb_inv s"
  shows "wp (shim_skb_pool_reset skb h n) (\<lambda>_ t. skb_inv t \<and> only_views s t) s"
proof (cases "\<exists>e. ents s skb = Some e \<and> BITVAL B_cloned (e_view e)")
  case True
  then obtain e where e: "ents s skb = Some e" "BITVAL B_cloned (e_view e)" by blast
  show ?thesis by (rule wp_mono [OF reset_shared [OF inv e]]) (use inv in \<open>simp add: only_views_def\<close>)
next
  case False
  have m: "mem_inv s" using inv by (simp add: skb_inv_def)
  have "\<not> BITVAL B_cloned (e_view e) \<and> skb419_dataref d = 1" if "ents s skb = Some e" "bufs s (e_data e) = Some d" for e d
    using that False last_sharer [OF m that] mem_invD(8) [OF m that(2)] by (auto simp: buf_inv_def)
  then show ?thesis by (intro pkt_step_keeps [OF inv reset_step [OF inv]])
qed

lemma same_frame_safe: "view_ok a cap v \<Longrightarrow> same_frame v w \<Longrightarrow> safe_view a cap v w"
  by (auto simp: safe_view_def same_frame_def view_ok_def)

lemma view_keeps:
  assumes inv: "skb_inv s" and e: "ents s skb = Some e" and f: "\<And>v. plain v \<Longrightarrow> same_frame v (f v)"
  shows "wp (upd_view skb f) (\<lambda>_ t. skb_inv t \<and> only_views s t) s"
proof -
  from inv have m: "mem_inv s" by (simp add: skb_inv_def)
  obtain d where d: "bufs s (e_data e) = Some d" "view_ok (e_data e) (capacity d) (e_view e)" by (rule inv_entry [OF m e])
  have "same_frame (e_view e) (f (e_view e))" using d(2) f by (simp add: view_ok_def)
  then have "skb_inv (s\<lparr>ents := (ents s)(skb \<mapsto> e_view_update f e)\<rparr>)"
    by (intro skb_inv_view [OF inv e d(1)] same_frame_safe [OF d(2)])
  then show ?thesis using e by (simp add: wp_simps only_views_def)
qed

lemma frame_STORE: "f \<notin> set crit \<union> {F_head, F_end, F_data, F_tail, F_len} \<Longrightarrow> plain v \<Longrightarrow> same_frame v (STORE f x v)"
  by (cases f) (simp_all add: same_frame_def plain_STORE placed_STORE plain_sized BITVAL_STORE layout_simps apart_def crit_def refs_def)

text \<open>The ranges that are cleared as a whole hold no field of the frame.\<close>

lemma frame_zero:
  assumes v: "plain v" and r: "off = 280 \<and> n = 80 \<or> off = 64 \<and> n = 24"
  shows "same_frame v (zero_range off n v)"
proof -
  have sz: "length v = 384" using plain_sized [OF v] by (simp add: sized_def)
  have sl: "slice i k (zero_range off n v) = slice i k v" if "i + k \<le> off \<or> off + n \<le> i" for i k
    using that sz r by (auto simp: zero_range_def slice_overwrite_other)
  have "OFF f + WIDTH f \<le> off \<or> off + n \<le> OFF f" for f using r by (cases f) auto
  then have ld: "LOAD f (zero_range off n v) = LOAD f v" for f by (simp add: LOAD_def ld_def sl)
  have ext: "slice 88 8 (zero_range off n v) = slice 88 8 v" "slice 96 4 (zero_range off n v) = slice 96 4 v"
    "slice 100 92 (zero_range off n v) = slice 100 92 v"
    using r by - (rule sl, fastforce)+
  have "zero_range off n v ! 222 = v ! 222" using sz r by (auto simp: zero_range_def nth_overwrite)
  then have bv: "BITVAL b (zero_range off n v) = BITVAL b v" for b by (simp add: BITVAL_def skb419_bit_def)
  have "sized (zero_range off n v)" using sz r by (auto simp: zero_range_def sized_def)
  then have "plain (zero_range off n v)"
    using v unfolding plain_def by (simp add: ld bv refs_def all_zero_def ext ld_def)
  then show ?thesis by (simp add: same_frame_def ld bv placed_def)
qed

lemma frame_recycle:
  assumes v: "plain v"
  shows "same_frame v (STORE F_recycle_flags (LOAD F_recycle_flags v AND NOT SKB419_BPM_PRISTINE) v)"
proof -
  have z: "(LOAD F_recycle_flags v :: u32) = 0" using v by (simp add: plain_def)
  have "plain (STORE F_recycle_flags (0 :: u32) v)"
    using v by (simp add: plain_def refs_def layout_simps apart_def all_zero_def ld_def)
  then show ?thesis using plain_sized [OF v] by (simp add: z same_frame_def placed_STORE BITVAL_STORE layout_simps apart_def)
qed

lemma frame_tag:
  assumes v: "plain v" and cfi: "cfi AND NOT SKMETA_vlan_present = 0"
  shows "same_frame v (store_tag raw proto cfi v)"
proof -
  let ?w = "STORE F_vlan_proto proto (STORE F_vlan_tci raw v)"
  have w: "same_frame v ?w"
    using frame_STORE [OF _ v, of F_vlan_tci raw] frame_STORE [of F_vlan_proto "STORE F_vlan_tci raw v" proto]
    by (auto simp: same_frame_def crit_def refs_def)
  then have sz: "length ?w = 384" and p: "plain ?w" by (auto simp: same_frame_def sized_def dest: plain_sized)
  have sl: "slice i k (st 96 4 cfi ?w) = slice i k ?w" if "i + k \<le> 96 \<or> 100 \<le> i" for i k
    using that sz by (simp add: slice_st_other)
  have ld: "LOAD f (st 96 4 cfi ?w) = LOAD f ?w" for f by (cases f) (simp_all add: LOAD_def ld_def sl)
  have bv: "BITVAL b (st 96 4 cfi ?w) = BITVAL b ?w" for b using sz by (simp add: BITVAL_def skb419_bit_def nth_st_other)
  have "plain (st 96 4 cfi ?w)"
    using p cfi sz unfolding plain_def by (simp add: ld bv sized_def refs_def all_zero_def sl ld_st)
  with w show ?thesis by (simp add: store_tag_def same_frame_def ld bv placed_def)
qed

section \<open>Native packets\<close>

lemma inv_fields:
  assumes "skb_inv s" and "ents t = ents s" "bufs t = bufs s" "registry t = registry s" "sk_bug t = sk_bug s"
    "skb419_headers t = skb419_headers s" "skb419_buffers t = skb419_buffers s" "natives t = natives s"
  shows "skb_inv t"
  using assms mem_inv_cong [of t s] natives_cong [of t s] by (simp add: skb_inv_def)

lemma kfree_keeps:
  assumes inv: "skb_inv s" and h: "h = 0 \<or> unowned s h"
  shows "wp (dev_kfree_skb_any h) (\<lambda>_. skb_inv) s"
proof (cases "h = 0")
  case False
  then have u: "unowned s h" using h by simp
  have "skb_inv (s\<lparr>natives := (natives s)(h := None)\<rparr>)" using natives_change(2) [OF inv] u by blast
  then have "skb_inv (s\<lparr>natives := (natives s)(h := None), sk_log := L\<rparr>)" for L by (rule inv_fields) simp_all
  moreover have "natives s h \<noteq> None" using u by (simp add: unowned_def)
  ultimately show ?thesis using False by (simp add: wp_kfree_skb)
qed (use inv in \<open>simp add: wp_kfree_skb\<close>)

lemma eth_keeps:
  assumes inv: "skb_inv s" and h: "unowned s h"
  shows "wp (eth_type_trans E h dev) (\<lambda>_ t. skb_inv t \<and> unowned t h \<and> ents t = ents s) s"
proof -
  obtain n where n: "natives s h = Some n" using h by (auto simp: unowned_def)
  obtain p m where pm: "k_eth_type_trans E n dev = (p, m)" by (cases "k_eth_type_trans E n dev")
  have "skb_inv (s\<lparr>natives := (natives s)(h \<mapsto> m)\<rparr>)" using natives_change(1) [OF inv] h by blast
  then show ?thesis using n h by (simp add: eth_type_trans_def new_native_def wp_simps pm unowned_def)
qed

lemma netif_rx_keeps:
  assumes inv: "skb_inv s" and h: "unowned s h"
  shows "wp (netif_rx E h) (\<lambda>_. skb_inv) s"
proof -
  obtain n where n: "natives s h = Some n" using h by (auto simp: unowned_def)
  have "skb_inv (s\<lparr>natives := (natives s)(h := None)\<rparr>)" using natives_change(2) [OF inv] h by blast
  then have "skb_inv (sk_log_update L (s\<lparr>natives := (natives s)(h := None)\<rparr>))" for L by (rule inv_fields) simp_all
  then show ?thesis by (simp add: netif_rx_def sk_note_def wp_simps n)
qed

lemma free_unowned:
  assumes inv: "skb_inv s" and h: "unowned s h"
  shows "wp (shim_skb_free ea) (\<lambda>_ t. skb_inv t \<and> unowned t h) s"
proof (cases "ents s ea")
  case None
  then show ?thesis using assms by (intro wp_mono [OF free_refused]) (auto simp: skb_inv_def)
next
  case (Some e)
  then obtain d where d: "bufs s (e_data e) = Some d" using inv inv_entry [OF _ Some] by (auto simp: skb_inv_def)
  have "h \<notin> set (owns e)" using h Some by (simp add: unowned_def)
  then have "unowned (dropped ea e d s) h"
    using h by (auto simp: unowned_def dropped_def drop_mem_def drop_natives_def note_destructor_def split: if_splits)
  moreover have "unowned (put_users ea n s) h" for n using h Some by (auto simp: unowned_def put_users_def split: if_splits)
  ultimately show ?thesis by (intro wp_mono [OF free_spec [OF inv Some d]]) auto
qed

lemma export_keeps:
  assumes "kernel_ok E" and inv: "skb_inv s"
  shows "wp (shim_skb_export E old fl) (\<lambda>r t. skb_inv t \<and> ents t = ents s \<and> (\<forall>h. r = Inr h \<longrightarrow> unowned t h)) s"
proof (rule wp_mono [OF export_spec [OF assms]])
  fix r t
  assume t: "export_post (export_of E fl s old) s r t"
  have "ents t = ents s \<and> (\<forall>h. r = Inr h \<longrightarrow> unowned t h)"
  proof (cases r)
    case (Inl er)
    with t have "t\<lparr>sk_log := sk_log s\<rparr> = s" by (simp add: export_post_def)
    then have "ents (t\<lparr>sk_log := sk_log s\<rparr>) = ents s" by simp
    with Inl show ?thesis by simp
  next
    case (Inr h)
    with t show ?thesis using fresh_unowned [OF inv, of h] by (auto simp: export_post_def unowned_def)
  qed
  with t show "skb_inv t \<and> ents t = ents s \<and> (\<forall>h. r = Inr h \<longrightarrow> unowned t h)" by (simp add: export_post_def)
qed

lemma report_keeps: "skb_inv s \<Longrightarrow> wp (skb419_report_failure skb) (\<lambda>_ t. skb_inv t \<and> ents t = ents s) s"
  by (auto simp: skb419_report_failure_def wp_modify intro: inv_fields)

section \<open>The operations\<close>

lemma intact_keeps:
  assumes "skb_inv s" and "skb = 0 \<or> ents s skb \<noteq> None" and "wp n P s" and "\<And>e. ents s skb = Some e \<Longrightarrow> wp m P s"
  shows "wp (do { ok \<leftarrow> skb419_view_intact skb; if \<not> ok then n else m }) P s"
  using assms by (auto simp: skb419_view_intact_def wp_simps)

lemma wp_then_return: "wp m (\<lambda>_. P) s \<Longrightarrow> wp (do { r \<leftarrow> m; return (g r) }) (\<lambda>_. P) s"
  by (auto simp: wp_bind wp_return elim!: wp_mono)

lemma wp_both: "wp m (\<lambda>r t. P t \<and> R r t) s \<Longrightarrow> wp m (\<lambda>_. P) s"
  by (erule wp_mono) simp

lemma view_live:
  assumes "skb_inv s" and "ents s skb = Some e" and "\<And>v. plain v \<Longrightarrow> same_frame v (f v)"
  shows "wp (upd_view skb f) (\<lambda>_ t. skb_inv t \<and> (\<exists>e'. ents t skb = Some e')) s"
  using view_keeps [OF assms] assms(2) by (simp add: wp_simps)

lemma cb_zero_keeps:
  assumes inv: "skb_inv s" and l: "skb = 0 \<or> ents s skb \<noteq> None"
  shows "wp (bcm419_skb_cb_zero skb) (\<lambda>_. skb_inv) s"
  unfolding bcm419_skb_cb_zero_def
proof (rule intact_keeps [OF assms])
  fix e
  assume e: "ents s skb = Some e"
  show "wp (do {
       upd_view skb (zero_range SK419_off_sk_buff_cb SK419_width_sk_buff_cb);
       upd_view skb (zero_range (SK419_off_sk_buff_bcm_ext + SK419_off_bcm_skb_ext_wlan) SK419_width_bcm_skb_ext_wlan) }) (\<lambda>_. skb_inv) s"
    by (rule wp_seq [OF view_live [OF inv e frame_zero]], assumption, simp, elim conjE exE, rule wp_both [OF view_live])
      (auto intro: frame_zero)
qed (use inv in \<open>simp add: wp_return\<close>)

lemma buf_keeps:
  assumes inv: "skb_inv s" and d: "bufs s a = Some d" and f: "buf_ok a d \<Longrightarrow> buf_ok a (f d)" "capacity (f d) = capacity d"
    "skb419_dataref (f d) = skb419_dataref d"
  shows "wp (upd_data a f) (\<lambda>_. skb_inv) s"
proof -
  from inv have m: "mem_inv s" by (simp add: skb_inv_def)
  then have "buf_ok a d" using mem_invD(8) [OF m d] by (simp add: buf_inv_def)
  then have "mem_inv (s\<lparr>bufs := (bufs s)(a \<mapsto> f d)\<rparr>)" using f by (intro inv_update_buf [OF m d]) simp_all
  moreover have "natives_ok (s\<lparr>bufs := (bufs s)(a \<mapsto> f d)\<rparr>)" using inv natives_cong [of "s\<lparr>bufs := (bufs s)(a \<mapsto> f d)\<rparr>" s] by (simp add: skb_inv_def)
  ultimately show ?thesis using d by (simp add: wp_simps skb_inv_def)
qed

lemma buf_ok_head: "buf_ok a d \<Longrightarrow> buf_ok a (shinfo_update (zero_range 0 4) d)"
  "length (shinfo d) = SHINFO_SPAN \<Longrightarrow> skb419_dataref (shinfo_update (zero_range 0 4) d) = skb419_dataref d"
  by (simp_all add: buf_ok_def skb419_dataref_def zero_range_def ld_def all_zero_def slice_overwrite_other nth_overwrite)

lemma bpm_keeps:
  assumes inv: "skb_inv s" and l: "skb = 0 \<or> ents s skb \<noteq> None"
  shows "wp (bcm419_skb_bpm_tainted skb) (\<lambda>_. skb_inv) s"
  unfolding bcm419_skb_bpm_tainted_def
proof (rule intact_keeps [OF assms])
  fix e
  assume e: "ents s skb = Some e"
  have tail: "wp (do { a \<leftarrow> gets (data_of skb); upd_data a (shinfo_update (zero_range 0 4)) }) (\<lambda>_. skb_inv) t"
    if t: "skb_inv t" "ents t skb = Some f" for t f
  proof -
    from t(1) have m: "mem_inv t" by (simp add: skb_inv_def)
    obtain d where d: "bufs t (e_data f) = Some d" "buf_inv t (e_data f) d" by (rule inv_entry [OF m t(2)])
    then have "length (shinfo d) = SHINFO_SPAN" by (simp add: buf_inv_def buf_ok_def)
    with buf_keeps [OF t(1) d(1), of "shinfo_update (zero_range 0 4)"] buf_ok_head show ?thesis
      using t(2) by (simp add: wp_bind wp_gets data_of_def)
  qed
  show "wp (do {
       upd_view skb (\<lambda>v. STORE F_recycle_flags (LOAD F_recycle_flags v AND NOT SKB419_BPM_PRISTINE) v);
       a \<leftarrow> gets (data_of skb);
       upd_data a (shinfo_update (zero_range 0 4)) }) (\<lambda>_. skb_inv) s"
    by (rule wp_seq [OF view_live [OF inv e frame_recycle]], assumption) (auto intro: tail)
qed (use inv in \<open>simp add: wp_return\<close>)

lemma tag_mask: "ucast (x AND SKMETA_vlan_present :: u16) AND NOT SKMETA_vlan_present = (0 :: u32)"
  by (rule bit_word_eqI) (auto simp: bit_simps)

lemma vlan_keeps:
  assumes inv: "skb_inv s" and l: "skb = 0 \<or> ents s skb \<noteq> None"
  shows "wp (bcm419_vlan_tag_set skb proto tci) (\<lambda>_. skb_inv) s" "wp (bcm419_vlan_tag_clear skb) (\<lambda>_. skb_inv) s"
proof -
  have u: "wp (upd_view skb (store_tag raw p cfi)) (\<lambda>_. skb_inv) s" if "ents s skb = Some e" "cfi AND NOT SKMETA_vlan_present = 0" for raw p cfi e
    by (rule wp_both [OF view_live [OF inv that(1) frame_tag [OF _ that(2)]]])
  show "wp (bcm419_vlan_tag_set skb proto tci) (\<lambda>_. skb_inv) s"
    unfolding bcm419_vlan_tag_set_def
    by (rule intact_keeps [OF assms])
      (use inv u [OF _ tag_mask [of tci]] in \<open>auto simp: wp_return wp_bind [of "gets _"] wp_gets intro!: wp_then_return split: sum.splits\<close>)
  show "wp (bcm419_vlan_tag_clear skb) (\<lambda>_. skb_inv) s"
    unfolding bcm419_vlan_tag_clear_def by (rule intact_keeps [OF assms]) (use inv u in \<open>auto simp: wp_return\<close>)
qed

lemma alloc_keeps:
  assumes K: "kernel_ok E" and inv: "skb_inv s"
  shows "wp (shim_skb_alloc E sz fl) (\<lambda>r t. skb_inv t \<and> (\<forall>ea. r = Some ea \<longrightarrow> (\<exists>e. ents t ea = Some e))) s"
proof -
  from inv have m: "mem_inv s" by (simp add: skb_inv_def)
  show ?thesis
    by (rule wp_mono [OF alloc_spec [OF K m]])
      (use inv with_skb_inv [OF inv] in \<open>auto simp: with_skb_def split: option.splits\<close>)
qed

lemma frame_dev: "plain v \<Longrightarrow> same_frame v (STORE F_dev dev v)"
  by (rule frame_STORE) (simp_all add: crit_def refs_def)

lemma netdev_alloc_keeps:
  assumes K: "kernel_ok E" and inv: "skb_inv s"
  shows "wp (bcm419_legacy_netdev_alloc_skb E dev len fl4) (\<lambda>_. skb_inv) s"
  unfolding bcm419_legacy_netdev_alloc_skb_def
proof (rule wp_ifI)
  show "wp (do {
        r \<leftarrow> shim_skb_alloc E (len + k_NET_SKB_PAD E) (shim_gfp419 (gk E) fl4);
        case r of None \<Rightarrow> return None | Some skb \<Rightarrow> do {
          ret \<leftarrow> shim_skb_reserve skb (k_NET_SKB_PAD E);
          case ret of
            Inl _ \<Rightarrow> do { shim_skb_free skb; return None }
          | Inr _ \<Rightarrow> do { upd_view skb (STORE F_dev dev); return (Some skb) } } }) (\<lambda>_. skb_inv) s"
  proof (rule wp_seq [OF alloc_keeps [OF K inv]], rule wp_optionI)
    fix r t ea
    assume "skb_inv t \<and> (\<forall>ea. r = Some ea \<longrightarrow> (\<exists>e. ents t ea = Some e))" "r = Some ea"
    then obtain e where t: "skb_inv t" "ents t ea = Some e" by auto
    show "wp (do {
          ret \<leftarrow> shim_skb_reserve ea (k_NET_SKB_PAD E);
          case ret of
            Inl _ \<Rightarrow> do { shim_skb_free ea; return None }
          | Inr _ \<Rightarrow> do { upd_view ea (STORE F_dev dev); return (Some ea) } }) (\<lambda>_. skb_inv) t"
    proof (rule wp_seq [OF pkt_step_keeps [OF t(1) reserve_step [OF t(1)]]], rule wp_sumI)
      fix r u
      assume u: "skb_inv u \<and> only_views t u"
      then have "map_option (e_view_update (\<lambda>_. [])) (ents u ea) = map_option (e_view_update (\<lambda>_. [])) (ents t ea)"
        by (simp add: only_views_def)
      then obtain f where f: "ents u ea = Some f" using t(2) by auto
      show "wp (do { upd_view ea (STORE F_dev dev); return (Some ea) }) (\<lambda>_. skb_inv) u"
        by (rule wp_then_return, rule wp_both [OF view_live [OF _ f frame_dev]]) (use u in simp_all)
      show "wp (do { shim_skb_free ea; return None }) (\<lambda>_. skb_inv) u" by (rule wp_then_return, rule free_inv) (use u in simp)
    qed
  qed (simp add: wp_return)
qed (use inv in \<open>simp add: wp_return\<close>)

lemma copy_keeps:
  assumes K: "kernel_ok E" and inv: "skb_inv s"
  shows "wp (shim_skb_copy E skb fl) (\<lambda>_. skb_inv) s" "wp (shim_skb_copy_headroom E skb headroom fl) (\<lambda>_. skb_inv) s"
proof -
  show c: "wp (shim_skb_copy E skb fl) (\<lambda>_. skb_inv) s"
    by (rule wp_mono [OF copy_spec [OF K inv]]) (simp add: copy_post_def)
  show "wp (shim_skb_copy_headroom E skb headroom fl) (\<lambda>_. skb_inv) s"
    using inv c by (auto simp: shim_skb_copy_headroom_def wp_return wp_bind [of "gets _"] wp_gets split: sum.splits)
qed

lemma import_keeps:
  assumes K: "kernel_ok E" and inv: "skb_inv s" and n: "native = 0 \<or> unowned s native"
  shows "wp (bcm419_tx_import E native fl4) (\<lambda>_. skb_inv) s"
  using n unfolding bcm419_tx_import_def
  by (intro wp_ifI wp_then_return, use inv in \<open>simp add: wp_return\<close>)
    (auto simp: wp_bind wp_return intro: wp_mono [OF import_spec [OF K inv]] simp: import_post_def)

lemma pushpull_keeps:
  assumes "skb_inv s" and "wp (opr skb len) (\<lambda>_ t. skb_inv t \<and> only_views s t) s"
  shows "wp (skb419_pushpull skb len opr) (\<lambda>_. skb_inv) s"
  unfolding skb419_pushpull_def
  by (rule wp_ifI, use assms(1) in \<open>simp add: wp_return\<close>)
    (auto intro!: wp_seq [OF assms(2)] wp_then_return wp_optionI wp_both [OF report_keeps] simp: wp_return)

section \<open>Delivery\<close>

lemma free_one_keeps: "skb_inv s \<Longrightarrow> wp (skb419_free_one skb) (\<lambda>_. skb_inv) s"
  by (auto simp: skb419_free_one_def wp_return intro!: wp_ifI wp_then_return free_inv)

lemma free_one_unowned:
  "skb_inv s \<Longrightarrow> unowned s h \<Longrightarrow> wp (skb419_free_one skb) (\<lambda>_ t. skb_inv t \<and> unowned t h) s"
  unfolding skb419_free_one_def
  by (rule wp_ifI, simp add: wp_return, rule wp_seq [OF free_unowned]) (simp_all add: wp_return)

lemma mixed_rx_keeps:
  assumes K: "kernel_ok E" and inv: "skb_inv s" and a: "arg \<in> dom (ents s) \<or> unowned s arg"
  shows "wp (bcm419_mixed_netif_rx E atomic arg) (\<lambda>_. skb_inv) s"
proof -
  have reg: "registry s = dom (ents s)" using inv by (simp add: skb_inv_def mem_invD)
  have old: "wp (do {
       r \<leftarrow> shim_skb_export E arg atomic;
       case r of
         Inl _ \<Rightarrow> do { skb419_report_failure arg; bcm419_kfree_skb arg; return NET_RX_DROP }
       | Inr native \<Rightarrow> do { bcm419_kfree_skb arg; netif_rx E native } }) (\<lambda>_. skb_inv) s"
  proof (rule wp_seq [OF export_keeps [OF K inv]], rule wp_sumI)
    fix r t native
    assume t: "skb_inv t \<and> ents t = ents s \<and> (\<forall>h. r = Inr h \<longrightarrow> unowned t h)" and r: "r = Inr native"
    show "wp (do { bcm419_kfree_skb arg; netif_rx E native }) (\<lambda>_. skb_inv) t"
      unfolding bcm419_kfree_skb_def using t r
      by (auto intro!: wp_seq [OF free_one_unowned [of t native]] netif_rx_keeps)
  next
    fix r t er
    assume "skb_inv t \<and> ents t = ents s \<and> (\<forall>h. r = Inr h \<longrightarrow> unowned t h)"
    then show "wp (do { skb419_report_failure arg; bcm419_kfree_skb arg; return NET_RX_DROP }) (\<lambda>_. skb_inv) t"
      unfolding bcm419_kfree_skb_def by (auto intro!: wp_seq [OF report_keeps] wp_then_return free_one_keeps)
  qed
  show ?thesis
    unfolding bcm419_mixed_netif_rx_def wp_bind [of "gets _"] wp_gets
    by (rule wp_ifI, rule netif_rx_keeps [OF inv], use a in \<open>simp add: shim_skb_is_legacy_def reg domIff\<close>, rule old)
qed

lemma deliver_keeps:
  assumes K: "kernel_ok E" and inv: "skb_inv s"
  shows "wp (bcm419_rx_deliver E old fl4) (\<lambda>_. skb_inv) s"
proof -
  have drop: "wp (do { dev_kfree_skb_any h; shim_skb_free old; return x }) (\<lambda>_. skb_inv) t" if "skb_inv t" "unowned t h" for t h and x :: "errno + int"
    using that by (auto intro!: wp_seq [OF kfree_keeps] wp_then_return free_inv)
  have rx: "wp (do { eth_type_trans E h dev; rc \<leftarrow> netif_rx E h; shim_skb_free old; return (Inr rc) }) (\<lambda>_. skb_inv) t"
    if "skb_inv t" "unowned t h" for t h dev
    using that by (auto intro!: wp_seq [OF eth_keeps] wp_seq [OF netif_rx_keeps] wp_then_return free_inv)
  show ?thesis
    unfolding bcm419_rx_deliver_def
  proof (rule wp_ifI)
    show "wp (do {
        r \<leftarrow> shim_skb_export E old (shim_gfp419 (gk E) fl4);
        case r of
          Inl e \<Rightarrow> do { skb419_report_failure old; return (Inl e) }
        | Inr native \<Rightarrow> do {
            dev \<leftarrow> gets (native_dev native);
            len \<leftarrow> gets (native_len native);
            if dev = 0 then do { dev_kfree_skb_any native; shim_skb_free old; return (Inl ENODEV) }
            else if len < unat ETH_HLEN then do { dev_kfree_skb_any native; shim_skb_free old; return (Inl EINVAL) }
            else do {
              eth_type_trans E native dev;
              rc \<leftarrow> netif_rx E native;
              shim_skb_free old;
              return (Inr rc) } } }) (\<lambda>_. skb_inv) s"
      by (rule wp_seq [OF export_keeps [OF K inv]], rule wp_sumI)
        (auto simp: wp_bind [of "gets _"] wp_gets intro!: wp_then_return wp_both [OF report_keeps] wp_ifI drop rx)
  qed (use inv in \<open>simp add: wp_return\<close>)
qed

lemma metadata_in_keeps:
  assumes "skb_inv s" and "ents s skb = Some e"
  shows "wp (upd_view skb (skb419_metadata_in n)) (\<lambda>_ t. skb_inv t \<and> only_views s t) s"
  by (rule view_keeps [OF assms metadata_in_frame])

lemma only_views_live: "only_views s t \<Longrightarrow> ents s x = Some e \<Longrightarrow> \<exists>f. ents t x = Some f"
  unfolding only_views_def by (metis not_Some_eq option.map_disc_iff)

lemma mixed_eth_keeps:
  assumes K: "kernel_ok E" and inv: "skb_inv s" and a: "arg \<in> dom (ents s) \<or> unowned s arg"
  shows "wp (bcm419_mixed_eth_type_trans E atomic arg devarg) (\<lambda>_. skb_inv) s"
proof -
  have reg: "registry s = dom (ents s)" using inv by (simp add: skb_inv_def mem_invD)
  have drop: "wp (do { dev_kfree_skb_any h; return x }) (\<lambda>_. skb_inv) t" if "skb_inv t" "unowned t h" for t h and x :: u16
    using that by (intro wp_then_return kfree_keeps) auto
  have meta: "wp (do {
      n \<leftarrow> gets (\<lambda>s. natives s native);
      (case n of None \<Rightarrow> sk_fault | Some n \<Rightarrow> upd_view arg (skb419_metadata_in n));
      dev_kfree_skb_any native;
      return (x :: u16) }) (\<lambda>_. skb_inv) t" if t: "skb_inv t" "unowned t native" "ents t arg = Some e" for t native e x
  proof -
    obtain n where n: "natives t native = Some n" using t(2) by (auto simp: unowned_def)
    show ?thesis unfolding wp_bind [of "gets _"] wp_gets n option.case
      by (rule wp_seq [OF metadata_in_keeps [OF t(1,3)]]) (use drop only_views_unowned [OF _ t(2)] in blast)
  qed
  have pull: "wp (do {
      protocol \<leftarrow> eth_type_trans E native dev;
      p \<leftarrow> shim_skb_pull arg ETH_HLEN;
      case p of None \<Rightarrow> do { dev_kfree_skb_any native; return 0 } | Some _ \<Rightarrow> do {
        n \<leftarrow> gets (\<lambda>s. natives s native);
        (case n of None \<Rightarrow> sk_fault | Some n \<Rightarrow> upd_view arg (skb419_metadata_in n));
        dev_kfree_skb_any native;
        return protocol } }) (\<lambda>_. skb_inv) t"
    if t: "skb_inv t" "unowned t native" "ents t arg = Some e" for t native e dev
  proof (rule wp_seq [OF eth_keeps [OF t(1,2)]])
    fix r :: u16 and u
    assume u: "skb_inv u \<and> unowned u native \<and> ents u = ents t"
    then have iu: "skb_inv u" by simp
    show "wp (do {
      p \<leftarrow> shim_skb_pull arg ETH_HLEN;
      case p of None \<Rightarrow> do { dev_kfree_skb_any native; return 0 } | Some _ \<Rightarrow> do {
        n \<leftarrow> gets (\<lambda>s. natives s native);
        (case n of None \<Rightarrow> sk_fault | Some n \<Rightarrow> upd_view arg (skb419_metadata_in n));
        dev_kfree_skb_any native;
        return r } }) (\<lambda>_. skb_inv) u"
    proof (rule wp_seq [OF pkt_step_keeps [OF iu pull_step [OF iu]]], rule wp_optionI)
      fix q w
      assume w: "skb_inv w \<and> only_views u w"
      then have un: "unowned w native" using u only_views_unowned by blast
      obtain f where f: "ents w arg = Some f" using only_views_live [of u w arg e] w u t(3) by auto
      show "wp (do { dev_kfree_skb_any native; return (0 :: u16) }) (\<lambda>_. skb_inv) w" using w un by (intro drop) auto
      show "wp (do {
        n \<leftarrow> gets (\<lambda>s. natives s native);
        (case n of None \<Rightarrow> sk_fault | Some n \<Rightarrow> upd_view arg (skb419_metadata_in n));
        dev_kfree_skb_any native;
        return r }) (\<lambda>_. skb_inv) w" using w un f by (intro meta) auto
    qed
  qed
  have legacy: "wp (do {
      upd_view arg (STORE F_dev devarg);
      r \<leftarrow> shim_skb_export E arg atomic;
      case r of Inl _ \<Rightarrow> return 0 | Inr native \<Rightarrow> do {
        len \<leftarrow> gets (native_len native);
        if len < unat ETH_HLEN then do { dev_kfree_skb_any native; return 0 }
        else do {
          protocol \<leftarrow> eth_type_trans E native dev;
          p \<leftarrow> shim_skb_pull arg ETH_HLEN;
          case p of None \<Rightarrow> do { dev_kfree_skb_any native; return 0 } | Some _ \<Rightarrow> do {
            n \<leftarrow> gets (\<lambda>s. natives s native);
            (case n of None \<Rightarrow> sk_fault | Some n \<Rightarrow> upd_view arg (skb419_metadata_in n));
            dev_kfree_skb_any native;
            return protocol } } } }) (\<lambda>_. skb_inv) s" if l: "shim_skb_is_legacy s arg" for dev
  proof -
    obtain e where e: "ents s arg = Some e" using l by (auto simp: shim_skb_is_legacy_def reg)
    show ?thesis
      by (rule wp_seq [OF view_live [OF inv e frame_dev]], assumption, elim conjE exE, rule wp_seq [OF export_keeps [OF K]], assumption, rule wp_sumI)
        (auto simp: wp_bind [of "gets _"] wp_gets wp_return intro!: wp_ifI drop pull)
  qed
  have direct: "unowned s arg" if "\<not> shim_skb_is_legacy s arg" using that a by (simp add: shim_skb_is_legacy_def reg)
  show ?thesis
    unfolding bcm419_mixed_eth_type_trans_def wp_bind [of "gets _"] wp_gets
    apply (rule wp_ifI, rule wp_both [OF eth_keeps [OF inv direct]], assumption)
    apply (unfold wp_bind [of "gets _"] wp_gets, rule wp_ifI)
    using inv legacy by (auto simp: wp_return)
qed

section \<open>Histories\<close>

text \<open>The operations of a history.  \<open>KernelGives\<close> is a packet the kernel hands to the driver; \<open>ModuleView\<close> and \<open>ModuleData\<close>
  are the stores of the vendor module into a descriptor of its own and into its bytes.\<close>

datatype sk_op =
    Alloc u32 u32 | NetdevAlloc u32 u32 u32 | Clone u32 u32 | CopySkb u32 u32 | CopyHeadroom u32 int u32 | Kfree u32
  | Put u32 u32 | Push u32 u32 | Pull u32 u32 | Trim u32 u32 | Reserve u32 u32 | PoolReset u32 u32 u32
  | CbZero u32 | BpmTainted u32 | TagSet u32 u16 u16 | TagClear u32
  | TxImport u32 u32 | RxDeliver u32 u32 | MixedRx u32 u32 | MixedEth u32 u32 u32
  | KernelGives u32 nskb | ModuleView u32 "u8 list" | ModuleData u32 "u8 list"

text \<open>What the callers keep to: the accessors without validation get a live descriptor or NULL, a native packet
  is passed by who holds its reference, and the stores of the module leave the frame of a descriptor alone.\<close>

fun sk_allowed :: "sk_op \<Rightarrow> skb_world \<Rightarrow> bool" where
  "sk_allowed (CbZero skb) s = (skb = 0 \<or> ents s skb \<noteq> None)"
| "sk_allowed (BpmTainted skb) s = (skb = 0 \<or> ents s skb \<noteq> None)"
| "sk_allowed (TagSet skb _ _) s = (skb = 0 \<or> ents s skb \<noteq> None)"
| "sk_allowed (TagClear skb) s = (skb = 0 \<or> ents s skb \<noteq> None)"
| "sk_allowed (TxImport native _) s = (native = 0 \<or> unowned s native)"
| "sk_allowed (MixedRx _ arg) s = (arg \<in> dom (ents s) \<or> unowned s arg)"
| "sk_allowed (MixedEth _ arg _) s = (arg \<in> dom (ents s) \<or> unowned s arg)"
| "sk_allowed (KernelGives h _) s = (h \<noteq> 0 \<and> natives s h = None)"
| "sk_allowed (ModuleView skb w) s = (case ents s skb of None \<Rightarrow> False
     | Some e \<Rightarrow> case bufs s (e_data e) of None \<Rightarrow> False | Some d \<Rightarrow> safe_view (e_data e) (capacity d) (e_view e) w)"
| "sk_allowed (ModuleData skb bs) s = (case buf_of skb s of None \<Rightarrow> False | Some d \<Rightarrow> length bs = length (dbytes d))"
| "sk_allowed _ s = True"

fun sk_run :: "skb_env \<Rightarrow> sk_op \<Rightarrow> unit sk" where
  "sk_run E (Alloc sz fl) = do { bcm419_legacy_skb_alloc E sz fl; return () }"
| "sk_run E (NetdevAlloc dev len fl) = do { bcm419_legacy_netdev_alloc_skb E dev len fl; return () }"
| "sk_run E (Clone skb fl) = do { bcm419_legacy_skb_clone E skb fl; return () }"
| "sk_run E (CopySkb skb fl) = do { bcm419_legacy_skb_copy E skb fl; return () }"
| "sk_run E (CopyHeadroom skb hr fl) = do { shim_skb_copy_headroom E skb hr fl; return () }"
| "sk_run E (Kfree skb) = bcm419_kfree_skb skb"
| "sk_run E (Put skb n) = do { bcm419_skb_put skb n; return () }"
| "sk_run E (Push skb n) = do { bcm419_skb_push skb n; return () }"
| "sk_run E (Pull skb n) = do { bcm419_skb_pull skb n; return () }"
| "sk_run E (Trim skb n) = bcm419_skb_trim skb n"
| "sk_run E (Reserve skb n) = do { shim_skb_reserve skb n; return () }"
| "sk_run E (PoolReset skb hr n) = do { shim_skb_pool_reset skb hr n; return () }"
| "sk_run E (CbZero skb) = bcm419_skb_cb_zero skb"
| "sk_run E (BpmTainted skb) = bcm419_skb_bpm_tainted skb"
| "sk_run E (TagSet skb proto tci) = do { bcm419_vlan_tag_set skb proto tci; return () }"
| "sk_run E (TagClear skb) = bcm419_vlan_tag_clear skb"
| "sk_run E (TxImport native fl) = do { bcm419_tx_import E native fl; return () }"
| "sk_run E (RxDeliver old fl) = do { bcm419_rx_deliver E old fl; return () }"
| "sk_run E (MixedRx atomic arg) = do { bcm419_mixed_netif_rx E atomic arg; return () }"
| "sk_run E (MixedEth atomic arg dev) = do { bcm419_mixed_eth_type_trans E atomic arg dev; return () }"
| "sk_run E (KernelGives h n) = new_native (h, n)"
| "sk_run E (ModuleView skb w) = upd_view skb (\<lambda>_. w)"
| "sk_run E (ModuleData skb bs) = do { a \<leftarrow> gets (data_of skb); upd_data a (dbytes_update (\<lambda>_. bs)) }"

definition sk_exec :: "skb_env \<Rightarrow> sk_op \<Rightarrow> skb_world \<Rightarrow> skb_world" where
  "sk_exec E op s = (if sk_allowed op s then snd (run_state (sk_run E op) s) else s)"

definition sk_start :: "skb_world \<Rightarrow> bool" where
  "sk_start s \<longleftrightarrow> ents s = Map.empty \<and> bufs s = Map.empty \<and> registry s = {} \<and> skb419_headers s = 0 \<and> skb419_buffers s = 0 \<and> \<not> sk_bug s"

lemma sk_start_inv: "sk_start s \<Longrightarrow> skb_inv s"
  by (simp add: sk_start_def skb_inv_def mem_inv_def natives_ok_def)

lemma module_keeps:
  assumes inv: "skb_inv s"
  shows "sk_allowed (ModuleView skb w) s \<Longrightarrow> wp (sk_run E (ModuleView skb w)) (\<lambda>_. skb_inv) s"
    "sk_allowed (ModuleData skb bs) s \<Longrightarrow> wp (sk_run E (ModuleData skb bs)) (\<lambda>_. skb_inv) s"
    "sk_allowed (KernelGives h n) s \<Longrightarrow> wp (sk_run E (KernelGives h n)) (\<lambda>_. skb_inv) s"
proof -
  show "wp (sk_run E (ModuleView skb w)) (\<lambda>_. skb_inv) s" if "sk_allowed (ModuleView skb w) s"
    using that skb_inv_view [OF inv, of skb _ _ "\<lambda>_. w"] by (auto simp: wp_simps split: option.splits)
  show "wp (sk_run E (ModuleData skb bs)) (\<lambda>_. skb_inv) s" if a: "sk_allowed (ModuleData skb bs) s"
  proof -
    from a obtain d where d: "bufs s (data_of skb s) = Some d" "length bs = length (dbytes d)"
      by (auto simp: buf_of_def split: option.splits)
    have "wp (upd_data (data_of skb s) (dbytes_update (\<lambda>_. bs))) (\<lambda>_. skb_inv) s"
      by (rule buf_keeps [OF inv d(1)]) (use d(2) in \<open>simp_all add: buf_ok_def skb419_dataref_def\<close>)
    then show ?thesis by (simp add: wp_bind wp_gets)
  qed
  show "wp (sk_run E (KernelGives h n)) (\<lambda>_. skb_inv) s" if "sk_allowed (KernelGives h n) s"
    using that natives_change(1) [OF inv, of h n] by (simp add: new_native_def wp_modify)
qed

lemma geometry_keeps:
  assumes inv: "skb_inv s"
  shows "wp (bcm419_skb_put skb n) (\<lambda>_. skb_inv) s" "wp (bcm419_skb_push skb n) (\<lambda>_. skb_inv) s" "wp (bcm419_skb_pull skb n) (\<lambda>_. skb_inv) s"
    "wp (bcm419_skb_trim skb n) (\<lambda>_. skb_inv) s" "wp (shim_skb_reserve skb n) (\<lambda>_. skb_inv) s" "wp (shim_skb_pool_reset skb h n) (\<lambda>_. skb_inv) s"
proof -
  note keeps = pkt_step_keeps [OF inv]
  show "wp (bcm419_skb_put skb n) (\<lambda>_. skb_inv) s" "wp (bcm419_skb_push skb n) (\<lambda>_. skb_inv) s" "wp (bcm419_skb_pull skb n) (\<lambda>_. skb_inv) s"
    unfolding bcm419_skb_put_def bcm419_skb_push_def bcm419_skb_pull_def
    by (rule pushpull_keeps [OF inv keeps [OF put_step [OF inv]]], rule pushpull_keeps [OF inv keeps [OF push_step [OF inv]]],
        rule pushpull_keeps [OF inv keeps [OF pull_step [OF inv]]])
  show "wp (bcm419_skb_trim skb n) (\<lambda>_. skb_inv) s"
    unfolding bcm419_skb_trim_def
    by (rule wp_ifI, use inv in \<open>simp add: wp_return\<close>) (rule wp_then_return, rule wp_both [OF keeps [OF trim_step [OF inv]]])
  show "wp (shim_skb_reserve skb n) (\<lambda>_. skb_inv) s" by (rule wp_both [OF keeps [OF reserve_step [OF inv]]])
  show "wp (shim_skb_pool_reset skb h n) (\<lambda>_. skb_inv) s" by (rule wp_both [OF reset_keeps [OF inv]])
qed

lemma legacy_keeps:
  assumes K: "kernel_ok E" and inv: "skb_inv s"
  shows "wp (bcm419_legacy_skb_alloc E sz fl4) (\<lambda>_. skb_inv) s" "wp (bcm419_legacy_skb_clone E skb fl4) (\<lambda>_. skb_inv) s"
    "wp (bcm419_legacy_skb_copy E skb fl4) (\<lambda>_. skb_inv) s"
  using inv wp_both [OF alloc_keeps [OF assms]] clone_inv [OF assms] copy_keeps(1) [OF assms]
  by (auto simp: bcm419_legacy_skb_alloc_def bcm419_legacy_skb_clone_def bcm419_legacy_skb_copy_def wp_return)

lemma run_keeps:
  assumes K: "kernel_ok E" and inv: "skb_inv s" and a: "sk_allowed op s"
  shows "wp (sk_run E op) (\<lambda>_. skb_inv) s"
  using a module_keeps [OF inv] geometry_keeps [OF inv] legacy_keeps [OF K inv] copy_keeps(2) [OF K inv] netdev_alloc_keeps [OF K inv]
    free_one_keeps [OF inv] cb_zero_keeps [OF inv] bpm_keeps [OF inv] vlan_keeps [OF inv] import_keeps [OF K inv]
    deliver_keeps [OF K inv] mixed_rx_keeps [OF K inv] mixed_eth_keeps [OF K inv]
  by (cases op) (simp_all add: wp_then_return bcm419_kfree_skb_def del: sk_allowed.simps(9,10))

lemma exec_keeps: "kernel_ok E \<Longrightarrow> skb_inv s \<Longrightarrow> skb_inv (sk_exec E op s)"
  using run_keeps [of E s op] by (simp add: sk_exec_def wp_def split_def)

end
