(* ===== verification/Skb419_Meta.thy ===== *)
theory Skb419_Meta
  imports Skb419_Conv
begin

text \<open>
  The metadata of a packet survive the way from a native packet into a descriptor and back: the scalar
  fields do not clobber each other, nor do the bit fields, and every field is read back where it was stored.
\<close>

section \<open>Bit fields\<close>

definition flag_fits :: "skflag \<Rightarrow> u8 \<Rightarrow> bool" where
  "flag_fits g x \<longleftrightarrow> push_bit (SKMETA_shift g) x AND NOT (SKMETA_mask g) = 0 \<and> drop_bit (SKMETA_shift g) (push_bit (SKMETA_shift g) x) = x"

lemma put_field:
  fixes w m p :: u8
  assumes "p AND NOT m = 0"
  shows "((w AND NOT m) OR p) AND m = p"
proof (rule bit_word_eqI)
  fix n
  assume n: "n < LENGTH(8)"
  have "bit (p AND NOT m) n = False" using assms by simp
  then show "bit (((w AND NOT m) OR p) AND m) n = bit p n" using n by (auto simp: bit_simps)
qed

lemma other_field:
  fixes w m p k :: u8
  assumes "p AND NOT m = 0" and "m AND k = 0"
  shows "((w AND NOT m) OR p) AND k = w AND k"
proof (rule bit_word_eqI)
  fix n
  assume n: "n < LENGTH(8)"
  have "bit (p AND NOT m) n = False" "bit (m AND k) n = False" using assms by simp_all
  then show "bit (((w AND NOT m) OR p) AND k) n = bit (w AND k) n" using n by (auto simp: bit_simps)
qed

lemma SKMETA_offset_fits: "SKMETA_offset g < SK419_size_sk_buff"
  by (cases g) simp_all

lemma flag_out_in: "sized v \<Longrightarrow> flag_fits g x \<Longrightarrow> flag_out g (flag_in g x v) = x"
  using SKMETA_offset_fits [of g] by (simp add: flag_out_def flag_in_def flag_fits_def put_field sized_def)

lemma fields_apart: "g \<noteq> h \<Longrightarrow> SKMETA_offset g \<noteq> SKMETA_offset h \<or> SKMETA_mask h AND SKMETA_mask g = 0"
  by (cases g; cases h) simp_all

lemma flag_out_other:
  assumes "sized v" and "g \<noteq> h" and "flag_fits h x"
  shows "flag_out g (flag_in h x v) = flag_out g v"
  using assms fields_apart [of g h] SKMETA_offset_fits [of h]
  by (cases "SKMETA_offset g = SKMETA_offset h") (auto simp: flag_out_def flag_in_def flag_fits_def other_field sized_def)

lemma flags_stored:
  assumes "sized v" and "distinct gs" and "\<And>g. g \<in> set gs \<Longrightarrow> flag_fits g (x g)"
  shows "sized (fold (\<lambda>g. flag_in g (x g)) gs v)"
    "flag_out h (fold (\<lambda>g. flag_in g (x g)) gs v) = (if h \<in> set gs then x h else flag_out h v)"
  using assms by (induction gs arbitrary: v) (auto simp: sized_flag_in flag_out_in flag_out_other)

lemma LOAD_flags: "LOAD f (fold (\<lambda>g. flag_in g (x g)) gs v) = LOAD f v"
  by (induction gs arbitrary: v) (simp_all add: LOAD_flag_in)

section \<open>Scalar fields\<close>

lemma le_word_append: "le_word (as @ bs) = (le_word as OR push_bit (8 * length as) (le_word bs) :: 'a::len word)"
proof (induction as)
  case (Cons a as)
  show ?case unfolding append_Cons le_word.simps Cons.IH by (rule bit_word_eqI) (auto simp: bit_simps)
qed simp

lemma LOAD_csum: "sized v \<Longrightarrow> LOAD F_csum v = (LOAD F_csum_start v OR push_bit 16 (LOAD F_csum_offset v) :: u64)"
proof -
  assume "sized v"
  then have "slice 232 4 v = slice 232 2 v @ slice 234 2 v" "length (slice 232 2 v) = 2"
    by (simp_all add: slice_def sized_def take_add [of 2 2, simplified])
  then show ?thesis by (simp add: LOAD_def ld_def le_word_append)
qed

lemma scalars_sized: "sized v \<Longrightarrow> sized (fold (\<lambda>f. STORE f (x f :: u64)) fs v)"
  by (induction fs arbitrary: v) (simp_all add: sized_STORE)

lemma scalars_kept:
  "sized v \<Longrightarrow> \<forall>g \<in> set fs. apart f g \<Longrightarrow> LOAD f (fold (\<lambda>g. STORE g (x g :: u64)) fs v) = LOAD f v"
  by (induction fs arbitrary: v) (simp_all add: sized_STORE LOAD_STORE_other)

lemma scalars_stored:
  assumes "sized v" and "\<forall>g \<in> set fs. apart f g"
  shows "LOAD f (fold (\<lambda>g. STORE g (x g :: u64)) fs (STORE f (x f) v)) = take_bit (8 * WIDTH f) (x f)"
  using assms by (simp add: scalars_kept sized_STORE LOAD_STORE)

lemma META_stored:
  fixes x :: "skf \<Rightarrow> u64"
  assumes v: "sized v" and f: "f \<in> set META_SCALARS" and c: "f \<noteq> F_csum"
  shows "LOAD f (fold (\<lambda>g. STORE g (x g)) META_SCALARS v) = take_bit (8 * WIDTH f) (x f)"
proof -
  obtain as bs where ab: "META_SCALARS = as @ f # bs" using split_list [OF f] by blast
  have "\<forall>g \<in> set bs. apart f g"
    using f c ab unfolding META_SCALARS_def by (auto simp: Cons_eq_append_conv apart_def)
  then show ?thesis unfolding ab using scalars_stored [of "fold (\<lambda>g. STORE g (x g)) as v" bs f x] scalars_sized [OF v] by simp
qed

lemma union_halves:
  fixes c :: u64
  shows "take_bit 16 (c AND 0xffff) OR push_bit 16 (take_bit 16 (drop_bit 16 c AND 0xffff)) = take_bit 32 c"
proof -
  have m: "(0xffff :: u64) = mask 16" by (simp add: mask_eq_exp_minus_1)
  show ?thesis unfolding m by (rule bit_word_eqI) (auto simp: bit_simps)
qed

lemma META_loaded:
  assumes v: "sized v" and f: "f \<in> set META_SCALARS"
  shows "LOAD f (fold (\<lambda>g. STORE g (n_get n g)) META_SCALARS v) = take_bit (8 * WIDTH f) (n_get n f)"
proof (cases "f = F_csum")
  case True
  let ?w = "fold (\<lambda>g. STORE g (n_get n g)) META_SCALARS v"
  have l: "LOAD F_csum_start ?w = take_bit 16 (n_get n F_csum_start)" "LOAD F_csum_offset ?w = take_bit 16 (n_get n F_csum_offset)"
    using META_stored [OF v, of _ "n_get n"] by (simp_all add: META_SCALARS_def)
  have g: "n_get n F_csum_start = n_get n F_csum AND 0xffff" "n_get n F_csum_offset = drop_bit 16 (n_get n F_csum) AND 0xffff"
    by (simp_all add: n_get_def)
  show ?thesis unfolding True LOAD_csum [OF scalars_sized [OF v]] l g by (subst union_halves) simp
qed (simp add: META_stored [OF v f])

text \<open>Reading the scalars into a native packet.\<close>

lemma n_get_set:
  "g \<notin> {F_csum, F_csum_start, F_csum_offset} \<Longrightarrow> n_get (n_set f x n) g = (if f = g then x else n_get n g)"
  by (simp add: n_get_def n_set_def)

lemma n_get_fold:
  "g \<notin> {F_csum, F_csum_start, F_csum_offset} \<Longrightarrow> distinct fs \<Longrightarrow>
   n_get (fold (\<lambda>f. n_set f (x f)) fs n) g = (if g \<in> set fs then x g else n_get n g)"
  by (induction fs arbitrary: n) (auto simp: n_get_set)

lemma n_csum_fold:
  "set fs \<inter> {F_csum, F_csum_start, F_csum_offset} = {} \<Longrightarrow> n_scal (fold (\<lambda>f. n_set f (x f)) fs n) F_csum = n_scal n F_csum"
  by (induction fs arbitrary: n) (auto simp: n_set_def)

lemma halves_set:
  fixes c a b :: u64
  assumes "a AND 0xffff = a" and "b AND 0xffff = b"
  shows "(((c AND NOT 0xffff) OR a) AND 0xffff) OR push_bit 16 b = a OR push_bit 16 b"
    "(a OR push_bit 16 b) AND 0xffff = a" "drop_bit 16 (a OR push_bit 16 b) AND 0xffff = b"
proof -
  have m: "(0xffff :: u64) = mask 16" by (simp add: mask_eq_exp_minus_1)
  have A: "bit a n \<Longrightarrow> n < 16" "bit b n \<Longrightarrow> n < 16" for n
    using assms [unfolded m] by (metis bit_and_iff bit_mask_iff)+
  show "(((c AND NOT 0xffff) OR a) AND 0xffff) OR push_bit 16 b = a OR push_bit 16 b"
    "(a OR push_bit 16 b) AND 0xffff = a" "drop_bit 16 (a OR push_bit 16 b) AND 0xffff = b"
    unfolding m by (rule bit_word_eqI; auto simp: bit_simps dest: A)+
qed

lemma META_read:
  assumes "x F_csum_start AND 0xffff = x F_csum_start" and "x F_csum_offset AND 0xffff = x F_csum_offset"
    and "x F_csum = x F_csum_start OR push_bit 16 (x F_csum_offset)" and f: "f \<in> set META_SCALARS"
  shows "n_get (fold (\<lambda>f. n_set f (x f)) META_SCALARS n) f = x f"
proof (cases "f \<in> {F_csum, F_csum_start, F_csum_offset}")
  case False
  then show ?thesis using f n_get_fold [of f META_SCALARS x n] by (simp add: META_SCALARS_def)
next
  case True
  let ?as = "[F_tstamp, F_mac_len, F_queue_mapping]"
  let ?bs = "[F_priority, F_skb_iif, F_hash, F_mark, F_protocol, F_transport_header, F_network_header, F_mac_header, F_inner_protocol,
      F_inner_transport_header, F_inner_network_header, F_inner_mac_header]"
  have M: "META_SCALARS = ?as @ [F_csum, F_csum_start, F_csum_offset] @ ?bs" by (simp add: META_SCALARS_def)
  define m where "m = fold (\<lambda>f. n_set f (x f)) ?as n"
  have "fold (\<lambda>f. n_set f (x f)) META_SCALARS n =
      fold (\<lambda>f. n_set f (x f)) ?bs (n_set F_csum_offset (x F_csum_offset) (n_set F_csum_start (x F_csum_start) (n_set F_csum (x F_csum) m)))"
    unfolding M m_def by simp
  then have "n_scal (fold (\<lambda>f. n_set f (x f)) META_SCALARS n) F_csum =
      (((x F_csum AND NOT 0xffff) OR x F_csum_start) AND 0xffff) OR push_bit 16 (x F_csum_offset)"
    using assms(1,2) n_csum_fold [of ?bs x "n_set F_csum_offset (x F_csum_offset) (n_set F_csum_start (x F_csum_start) (n_set F_csum (x F_csum) m))"]
    by (simp add: n_set_def)
  then have "n_scal (fold (\<lambda>f. n_set f (x f)) META_SCALARS n) F_csum = x F_csum_start OR push_bit 16 (x F_csum_offset)"
    unfolding halves_set(1) [OF assms(1,2)] .
  then show ?thesis using True assms(3) halves_set(2,3) [OF assms(1,2)] by (auto simp: n_get_def)
qed

section \<open>The round trip\<close>

definition meta_fits :: "nskb \<Rightarrow> bool" where
  "meta_fits n \<longleftrightarrow> list_all (\<lambda>f. take_bit (8 * WIDTH f) (n_get n f) = n_get n f) META_SCALARS \<and>
     list_all (\<lambda>g. flag_fits g (n_flag n g)) SKMETA_COMMON"

definition same_meta :: "nskb \<Rightarrow> nskb \<Rightarrow> bool" where
  "same_meta n m \<longleftrightarrow> list_all (\<lambda>f. n_get n f = n_get m f) META_SCALARS \<and> list_all (\<lambda>g. n_flag n g = n_flag m g) SKMETA_COMMON"

lemma metadata_in_scalars:
  assumes "sized v" and "f \<in> set META_SCALARS" and "meta_fits n"
  shows "LOAD f (skb419_metadata_in n v) = n_get n f"
  using assms META_loaded [OF assms(1,2), of n]
  by (simp add: skb419_metadata_in_def LOAD_flags meta_fits_def list_all_iff)

lemma metadata_in_flags:
  assumes "sized v" and "g \<in> set SKMETA_COMMON" and "meta_fits n"
  shows "flag_out g (skb419_metadata_in n v) = n_flag n g"
proof -
  have "distinct SKMETA_COMMON" by (simp add: SKMETA_COMMON_def)
  then show ?thesis unfolding skb419_metadata_in_def
    using assms flags_stored(2) [of "fold (\<lambda>f. STORE f (n_get n f)) META_SCALARS v" SKMETA_COMMON "n_flag n" g] scalars_sized [OF assms(1)]
    by (simp add: meta_fits_def list_all_iff)
qed

lemma flags_read:
  "n_flag (fold (\<lambda>g. n_flag_update (\<lambda>fl. fl(g := y g))) gs n) h = (if h \<in> set gs then y h else n_flag n h)"
  "n_get (fold (\<lambda>g. n_flag_update (\<lambda>fl. fl(g := y g))) gs n) f = n_get n f"
  by (induction gs arbitrary: n) (auto simp: n_get_def)

lemma reads_keep:
  "n_bytes (fold (\<lambda>g. n_flag_update (\<lambda>fl. fl(g := y g))) gs n) = n_bytes n"
  "n_headroom (fold (\<lambda>g. n_flag_update (\<lambda>fl. fl(g := y g))) gs n) = n_headroom n"
  "n_bytes (fold (\<lambda>f. n_set f (x f)) fs n) = n_bytes n" "n_headroom (fold (\<lambda>f. n_set f (x f)) fs n) = n_headroom n"
  by (induction gs arbitrary: n, simp_all) (induction fs arbitrary: n, simp_all add: n_set_def)+

lemma metadata_out_same:
  assumes "skb419_metadata_out v d n = Inr m"
  shows "\<exists>k. m = k\<lparr>n_vlan_proto := n_vlan_proto m, n_vlan_tci := n_vlan_tci m\<rparr> \<and>
     k = gso_out d (fold (\<lambda>g. n_flag_update (\<lambda>fl. fl(g := flag_out g v))) SKMETA_COMMON (fold (\<lambda>f. n_set f (LOAD f v)) META_SCALARS n))"
  using assms unfolding skb419_metadata_out_def Let_def vlan_hwaccel_clear_tag_def vlan_hwaccel_put_tag_def
  by (auto split: sum.splits if_splits)

lemma metadata_out_keeps:
  assumes "skb419_metadata_out v d n = Inr m"
  shows "n_bytes m = n_bytes n" "n_headroom m = n_headroom n"
proof -
  obtain k where k: "m = k\<lparr>n_vlan_proto := n_vlan_proto m, n_vlan_tci := n_vlan_tci m\<rparr>"
    "k = gso_out d (fold (\<lambda>g. n_flag_update (\<lambda>fl. fl(g := flag_out g v))) SKMETA_COMMON (fold (\<lambda>f. n_set f (LOAD f v)) META_SCALARS n))"
    using metadata_out_same [OF assms] by blast
  show "n_bytes m = n_bytes n" "n_headroom m = n_headroom n"
    by (subst k(1), unfold k(2) gso_out_def, simp add: reads_keep)+
qed

lemma metadata_roundtrip:
  assumes v: "sized v" and fit: "meta_fits n" and ld: "\<And>f. f \<in> set META_SCALARS \<Longrightarrow> LOAD f v = n_get n f"
    and fl: "\<And>g. g \<in> set SKMETA_COMMON \<Longrightarrow> flag_out g v = n_flag n g" and out: "skb419_metadata_out v d w = Inr m"
  shows "same_meta m n"
proof -
  let ?k = "fold (\<lambda>g. n_flag_update (\<lambda>fl. fl(g := flag_out g v))) SKMETA_COMMON (fold (\<lambda>f. n_set f (LOAD f v)) META_SCALARS w)"
  obtain k where k: "m = k\<lparr>n_vlan_proto := n_vlan_proto m, n_vlan_tci := n_vlan_tci m\<rparr>" "k = gso_out d ?k"
    using metadata_out_same [OF out] by blast
  have mk: "n_scal m = n_scal ?k" "n_flag m = n_flag ?k"
    by (subst k(1), unfold k(2) gso_out_def, simp)+
  have s: "n_get (fold (\<lambda>f. n_set f (LOAD f v)) META_SCALARS w) f = n_get n f" if "f \<in> set META_SCALARS" for f
  proof -
    have c: "LOAD F_csum_start v = n_get n F_csum_start" "LOAD F_csum_offset v = n_get n F_csum_offset" "LOAD F_csum v = n_get n F_csum"
      by (rule ld, simp add: META_SCALARS_def)+
    have "n_get n F_csum = LOAD F_csum_start v OR push_bit 16 (LOAD F_csum_offset v)" using LOAD_csum [OF v] c(3) by simp
    then have "n_get (fold (\<lambda>f. n_set f (LOAD f v)) META_SCALARS w) f = LOAD f v"
      using that c by (intro META_read) (simp_all add: n_get_def [of n F_csum_start] n_get_def [of n F_csum_offset])
    then show ?thesis using ld [OF that] by simp
  qed
  show "same_meta m n"
    unfolding same_meta_def list_all_iff n_get_def mk
    using s fl by (simp add: flags_read flip: n_get_def)
qed

section \<open>What an imported packet holds\<close>

text \<open>An import leaves the flags clear that the export does not support, so that they never stop the way back.\<close>

lemma nth_scalars:
  "sized v \<Longrightarrow> i < SK419_size_sk_buff \<Longrightarrow> \<forall>f \<in> set fs. i < OFF f \<or> OFF f + WIDTH f \<le> i \<Longrightarrow> fold (\<lambda>f. STORE f (x f :: u64)) fs v ! i = v ! i"
  by (induction fs arbitrary: v) (simp_all add: sized_STORE nth_STORE)

lemma byte_flag_in:
  assumes "sized v" and "g \<noteq> h" and "flag_fits h x"
  shows "flag_in h x v ! SKMETA_offset g AND SKMETA_mask g = v ! SKMETA_offset g AND SKMETA_mask g"
  using assms fields_apart [of g h] SKMETA_offset_fits [of h]
  by (cases "SKMETA_offset g = SKMETA_offset h") (auto simp: flag_in_def flag_fits_def other_field sized_def)

lemma byte_flags:
  "sized v \<Longrightarrow> g \<notin> set gs \<Longrightarrow> \<forall>h \<in> set gs. flag_fits h (x h) \<Longrightarrow>
   fold (\<lambda>h. flag_in h (x h)) gs v ! SKMETA_offset g AND SKMETA_mask g = v ! SKMETA_offset g AND SKMETA_mask g"
  by (induction gs arbitrary: v) (simp_all add: sized_flag_in byte_flag_in)

lemma metadata_in_unsupported:
  assumes "sized v" and "meta_fits n" and "g \<in> set SKMETA_UNSUPPORTED"
  shows "skb419_metadata_in n v ! SKMETA_offset g AND SKMETA_mask g = v ! SKMETA_offset g AND SKMETA_mask g"
proof -
  have "g \<notin> set SKMETA_COMMON" using assms(3) by (auto simp: SKMETA_UNSUPPORTED_def SKMETA_COMMON_def)
  moreover have "\<forall>f \<in> set META_SCALARS. SKMETA_offset g < OFF f \<or> OFF f + WIDTH f \<le> SKMETA_offset g"
    using assms(3) by (auto simp: SKMETA_UNSUPPORTED_def META_SCALARS_def)
  ultimately show ?thesis
    unfolding skb419_metadata_in_def using assms SKMETA_offset_fits [of g]
    by (simp add: byte_flags scalars_sized nth_scalars meta_fits_def list_all_iff)
qed

lemma import_exportable:
  assumes fit: "unat hr + unat len \<le> unat cap" and n: "meta_fits wn"
  shows "\<exists>m. skb419_metadata_out (import_view a cap hr len dev wn) d w = Inr m"
proof -
  let ?f = "STORE F_dev dev (STORE F_len len (STORE F_tail (a + hr + len) (STORE F_data (a + hr) (fresh_view a cap (cap + 576)))))"
  let ?v = "import_view a cap hr len dev wn"
  have sz: "sized ?f" by (simp add: sized_STORE fresh_view_def zero_view)
  have v: "?v = skb419_metadata_in wn ?f" by (simp add: import_view_def)
  have "plain ?v" by (rule import_view_frame(1) [OF fit])
  then have cfi: "\<exists>c. skb419_vlan_cfi ?v = Inr c" by (simp add: vlan_cfi_eq plain_def)
  have "?f ! SKMETA_offset g = 0" if "g \<in> set SKMETA_UNSUPPORTED" for g
    using that by (auto simp: SKMETA_UNSUPPORTED_def fresh_view_def nth_STORE sized_STORE zero_view)
  then have flags: "\<not> list_ex (\<lambda>g. ?v ! SKMETA_offset g AND SKMETA_mask g \<noteq> 0) SKMETA_UNSUPPORTED"
    using metadata_in_unsupported [OF sz n] by (auto simp: list_ex_iff v)
  have ld: "LOAD f ?v = LOAD f ?f" if "f \<in> {F_secmark, F_tc_index, F_vlan_tci}" for f
    using that sz unfolding v skb419_metadata_in_def LOAD_flags by (intro scalars_kept) (auto simp: META_SCALARS_def apart_def)
  have "(LOAD F_secmark ?f :: u32) = 0" "(LOAD F_tc_index ?f :: u16) = 0" "(LOAD F_vlan_tci ?f :: u16) = 0"
    by (simp_all add: fresh_view_def layout_simps apart_def zero_view)
  then have "(LOAD F_secmark ?v :: u32) = 0" "(LOAD F_tc_index ?v :: u16) = 0" "(LOAD F_vlan_tci ?v :: u16) = 0" by (simp_all add: ld)
  with cfi flags show ?thesis by (auto simp: skb419_metadata_out_def Let_def skb419_tc_secmark_out_def)
qed

end
