(* ===== verification/Skb419_Props.thy ===== *)
theory Skb419_Props
  imports Skb419_Hist Skb419_Meta Dma419_Props
begin

text \<open>
  The properties of the packet buffers, and a kernel that satisfies what they assume of it.
\<close>

section \<open>Histories\<close>

interpretation skbs: inv_system
  "\<lambda>(E, s). kernel_ok E \<and> sk_start s" "\<lambda>op (E, s). (E, sk_exec E op s)" "\<lambda>(E, s). kernel_ok E \<and> skb_inv s"
  by unfold_locales (auto intro: sk_start_inv exec_keeps)

lemma skb_fold: "fold (\<lambda>op (E, s). (E, sk_exec E op s)) ops (E, s) = (E, fold (sk_exec E) ops s)"
  by (induction ops arbitrary: s) simp_all

lemma skb_reachable: "kernel_ok E \<Longrightarrow> sk_start s \<Longrightarrow> skb_inv (fold (sk_exec E) ops s)"
  using skbs.reachable_inv [of "(E, s)" ops] by (simp add: skb_fold)

text \<open>What the invariant says of a descriptor, of a buffer and of the counters.\<close>

lemma inv_descriptor:
  assumes inv: "skb_inv t" and e: "ents t x = Some e"
  shows "\<exists>d. bufs t (e_data e) = Some d \<and> skb419_geometry (e_data e) (capacity d) (e_view e) \<and>
     unat (skb419_dataref d) = card {y. \<exists>f. ents t y = Some f \<and> e_data f = e_data e} \<and>
     (\<forall>h \<in> {native_meta e, native_owner e}. h \<noteq> 0 \<longrightarrow> natives t h \<noteq> None)"
proof -
  from inv have m: "mem_inv t" and n: "natives_ok t" by (simp_all add: skb_inv_def)
  obtain d where d: "bufs t (e_data e) = Some d" "view_ok (e_data e) (capacity d) (e_view e)" "buf_inv t (e_data e) d"
    by (rule inv_entry [OF m e])
  have "span (e_data e) (capacity d)" using d(3) by (simp add: buf_inv_def buf_ok_def)
  then have "skb419_geometry (e_data e) (capacity d) (e_view e)" using d(2) by (simp add: geometry_placed view_ok_def)
  moreover have "unat (skb419_dataref d) = card {y. \<exists>f. ents t y = Some f \<and> e_data f = e_data e}"
    using d(3) by (simp add: buf_inv_def sharers_def unat_of_nat)
  moreover have "set (owns e) \<subseteq> dom (natives t)" using n e unfolding natives_ok_def by blast
  then have "h \<in> {native_meta e, native_owner e} \<Longrightarrow> h \<noteq> 0 \<Longrightarrow> natives t h \<noteq> None" for h by (auto simp: owns_def split: if_splits)
  ultimately show ?thesis using d(1) by blast
qed

lemma inv_buffer: "skb_inv t \<Longrightarrow> bufs t a \<noteq> None \<Longrightarrow> \<exists>y f. ents t y = Some f \<and> e_data f = a"
  using mem_invD(8) [of t a] by (auto simp: skb_inv_def buf_inv_def sharers_def)

lemma inv_exit:
  assumes "skb_inv t"
  shows "shim_skb_exit t \<longleftrightarrow> ents t \<noteq> Map.empty"
proof (cases "ents t = Map.empty")
  case True
  then have "bufs t = Map.empty" using inv_buffer [OF assms] by fastforce
  then show ?thesis using True assms by (simp add: shim_skb_exit_def skb_inv_def mem_invD)
next
  case False
  then have "card (dom (ents t)) \<noteq> 0" using assms by (simp add: skb_inv_def mem_invD)
  then show ?thesis using False assms by (simp add: shim_skb_exit_def skb_inv_def mem_invD)
qed


section \<open>Geometry\<close>

text \<open>C21: The checks of the four pointers and the length on 32-bit addresses accept a descriptor exactly when
  its payload is an interval of its buffer, at some offset and of some length, whatever the words hold;
  no wrap-around slips through for a buffer that does not wrap itself.\<close>

theorem geometry_check_exact:
  assumes "unat a + unat cap < 2 ^ 32"
  shows "skb419_geometry a cap v \<longleftrightarrow> (\<exists>x l. x + l \<le> unat cap \<and> LOAD F_head v = a \<and> LOAD F_end v = a + cap \<and>
     unat (LOAD F_data v :: u32) = unat a + x \<and> unat (LOAD F_tail v :: u32) = unat a + x + l \<and> unat (LOAD F_len v :: u32) = l)"
    (is "_ \<longleftrightarrow> (\<exists>x l. ?R x l)")
proof -
  have sp: "span a cap" using assms by (simp add: span_def)
  have "placed a cap x l v \<longleftrightarrow> ?R x l" for x l
  proof (cases "x + l \<le> unat cap")
    case True
    have u: "unat (of_nat l :: u32) = l" "unat (a + of_nat x) = unat a + x" "unat (a + of_nat (x + l)) = unat a + x + l"
      using True assms unat_in_span [OF sp, of x] unat_in_span [OF sp, of "x + l"] by (simp_all add: unat_of_nat)
    have eq: "(w = z) = (unat w = unat z)" for w z :: u32 by (rule word_unat_eq_iff)
    show ?thesis using True by (simp add: placed_def u eq [of "LOAD F_data v"] eq [of "LOAD F_tail v"] eq [of "LOAD F_len v"] del: of_nat_add)
  qed (simp add: placed_def)
  then show ?thesis by (simp add: geometry_placed [OF sp])
qed

section \<open>Packets\<close>


section \<open>Clone, copy and release\<close>

lemma clone_runs:
  assumes K: "kernel_ok E" and inv: "skb_inv s" and run: "run_state (shim_skb_clone E skb fl) s = (Some dst, t)"
  obtains u meta e d where "t = shared_with dst meta skb e d u" "took_meta s meta u" "ents s skb = Some e" "bufs s (e_data e) = Some d"
    "ents s dst = None" "skb_inv t" "skb_inv u" "ents u = ents s" "bufs u = bufs s"
proof -
  from wpD [OF clone_spec [OF K inv] run] obtain u meta e d where t: "t = shared_with dst meta skb e d u" "took_meta s meta u"
    "ents s skb = Some e" "bufs s (e_data e) = Some d" "ents s dst = None" by auto
  show thesis by (rule that [OF t wpD [OF clone_inv [OF K inv] run] took_meta_inv(1-3) [OF inv t(2)]])
qed

text \<open>Releasing a clone gives back what the clone took.\<close>

lemma unshare:
  assumes inv: "skb_inv s" and e: "ents s skb = Some e" "bufs s (e_data e) = Some d" and u: "took_meta s meta u" and dst: "ents s dst = None"
    and t: "t = shared_with dst meta skb e d u" "skb_inv t" and run: "run_state (shim_skb_free dst) t = (r, w)"
  shows "r = Inr () \<and> dom (ents w) = dom (ents s) \<and> natives w = natives s \<and> dom (bufs w) = dom (bufs s) \<and>
     (\<forall>y. ents s y \<noteq> None \<longrightarrow> packet w y = packet s y)"
proof -
  note U = took_meta_inv [OF inv u]
  from inv have m: "mem_inv s" by (simp add: skb_inv_def)
  have ne: "skb \<noteq> dst" using e(1) dst by auto
  obtain d' where d': "bufs s (e_data e) = Some d'" "plain (e_view e)" "buf_inv s (e_data e) d'"
    using inv_entry [OF m e(1)] by (auto simp: view_ok_def)
  then have sz: "sized (e_view e)" and dd: "d' = d" using e(2) by (auto dest: plain_sized)
  let ?f = "zero_entry\<lparr>native_meta := meta, e_before := SK419_GUARD, e_after := SK419_GUARD, e_data := e_data e, e_view := clone_view (e_view e)\<rparr>"
  let ?g = "set_dataref (skb419_dataref d + 1) d"
  have f: "ents t dst = Some ?f" "bufs t (e_data ?f) = Some ?g" using ne unfolding t(1) by (simp_all add: shared_with_def)
  have one: "LOAD F_users (clone_view (e_view e)) = (1 :: u32)"
    using sz by (simp add: clone_view_def Let_def layout_simps apart_def)
  have c: "BITVAL B_cloned (clone_view (e_view e))" by (rule clone_view_fields(1) [OF sz])
  have span: "length (shinfo d) = SHINFO_SPAN" "skb419_dataref d \<noteq> 0"
    using d'(3) dd low16_of_nat [of "card (sharers s (e_data e))"] finite_sharers [OF m] by (auto simp: buf_inv_def buf_ok_def card_gt_0_iff)
  from wpD [OF free_spec [OF t(2) f] run] one have w: "r = Inr ()" "w = dropped dst ?f ?g t" by simp_all
  have D: "w = drop_mem dst ?f ?g (drop_natives ?f (note_destructor dst (clone_view (e_view e)) t))"
    unfolding w(2) dropped_def by simp
  have "(LOAD F_destructor (clone_view (e_view e)) :: u32) = 0" using sz by (simp add: clone_view_def Let_def layout_simps apart_def)
  then have W: "ents w = (ents t)(dst := None)" "bufs w = (bufs t)(e_data e \<mapsto> set_dataref (skb419_dataref d) ?g)"
    "natives w = natives t |` (- set (owns ?f))"
    unfolding D using c span by (simp_all add: drop_mem_def drop_natives_def note_destructor_def)
  have o: "set (owns ?f) = {meta} - {0}" by (auto simp: owns_def zero_entry_def)
  have "natives w = natives s"
  proof
    fix h
    show "natives w h = natives s h" unfolding W(3) o t(1) using u
      by (auto simp: shared_with_def took_meta_def restrict_map_def)
  qed
  moreover have "dom (ents w) = dom (ents s)" "dom (bufs w) = dom (bufs s)"
    using e dst U unfolding W t(1) by (auto simp: shared_with_def)
  moreover have "packet w y = packet s y" if "ents s y \<noteq> None" for y
  proof -
    have "y \<noteq> dst" using that dst by auto
    then show ?thesis using e U(2,3) unfolding packet_def view_of_def buf_of_def data_of_def W t(1)
      by (cases "y = skb") (auto simp: shared_with_def Let_def layout_simps split: option.splits)
  qed
  ultimately show ?thesis using w(1) by blast
qed


section \<open>Round trips\<close>

text \<open>The documented behaviour of the native packet functions that the round trip rests on: a new packet is empty, the
  copy of a header leaves the bytes alone, an expanded copy has the payload of its source behind the new head room.\<close>

definition native_laws :: "skb_env \<Rightarrow> bool" where
  "native_laws E \<longleftrightarrow>
     (\<forall>fl k s h n. k_alloc_skb E fl k s = Some (h, n) \<longrightarrow> n_bytes n = [] \<and> n_headroom n = 0) \<and>
     (\<forall>n m. n_bytes (k_skb_copy_header E n m) = n_bytes n \<and> n_headroom (k_skb_copy_header E n m) = n_headroom n) \<and>
     (\<forall>fl k n s h m. k_skb_copy_expand E fl k n s = Some (h, m) \<longrightarrow>
        n_headroom m = k \<and> k \<le> length (n_bytes m) \<and> length (n_bytes m) < 2 ^ 32 \<and> drop k (n_bytes m) = drop (n_headroom n) (n_bytes n))"

lemma native_lawsD:
  assumes "native_laws E"
  shows "k_alloc_skb E fl k s = Some (h, n) \<Longrightarrow> n_bytes n = [] \<and> n_headroom n = 0"
    "n_bytes (k_skb_copy_header E n m) = n_bytes n" "n_headroom (k_skb_copy_header E n m) = n_headroom n"
    "k_skb_copy_expand E fl k n s = Some (h, m) \<Longrightarrow>
      n_headroom m = k \<and> k \<le> length (n_bytes m) \<and> length (n_bytes m) < 2 ^ 32 \<and> drop k (n_bytes m) = drop (n_headroom n) (n_bytes n)"
  using assms unfolding native_laws_def by blast+

lemma export_bytes:
  assumes L: "native_laws E" and inv: "skb_inv s" and e: "ents s old = Some e" and d: "bufs s (e_data e) = Some d"
    and k: "k_alloc_skb E fl k s = Some (h, n0)" and pk: "packet s old = Some (p, b, r)"
  shows "n_bytes (export_base E s e d dev n0) = p @ b" "n_headroom (export_base E s e d dev n0) = length p"
proof -
  from inv have m: "mem_inv s" by (simp add: skb_inv_def)
  obtain d' x l where A: "bufs s (e_data e) = Some d'" "span (e_data e) (capacity d')" "placed (e_data e) (capacity d') x l (e_view e)"
    "packet s old = Some (pkt_at x l (dbytes d'))" "x + l \<le> length (dbytes d')"
    by (rule live_skb [OF m e])
  then have dd: "d' = d" using d by simp
  note R = placed_rooms [OF A(2,3)] placed_tail [OF A(3)]
  have pb: "p = take x (dbytes d)" "b = take l (drop x (dbytes d))" using pk A(4) by (simp_all add: pkt_at_def dd)
  have len: "length p = x" "p @ b = take (x + l) (dbytes d)" "length (p @ b) = x + l" using A(5) by (simp_all add: pb dd take_add)
  have ov: "overwrite 0 (p @ b) (replicate (x + l) 0) = p @ b" using len(3) by (simp add: overwrite_def)
  have "n_bytes n0 = []" "n_headroom n0 = 0" using native_lawsD(1) [OF L k] by auto
  then show "n_bytes (export_base E s e d dev n0) = p @ b" "n_headroom (export_base E s e d dev n0) = length p"
    using ov len R unfolding export_base_def Let_def
    by (simp_all add: skb_put_def skb_reserve_def native_lawsD(2,3) [OF L] replicate_add split: option.splits)
qed

text \<open>C13: A native packet that goes to the old driver and back keeps its payload: import puts it into a descriptor
  that owns the packet and a working copy of it, and the packet an export makes of that descriptor has the
  bytes, the head room, the scalar metadata and the flags of the working copy, whose payload is that of
  the original unless a VLAN tag was put into it.\<close>

theorem import_export_roundtrip:
  assumes "kernel_ok E" and "native_laws E" and "sk_start s0" and "s = fold (sk_exec E) ops s0" and "unowned s native"
    and imp: "run_state (shim_skb_import E native fl) s = (Inr old, t)" and out: "run_state (shim_skb_export E old fl') t = (Inr h, u)"
  shows "\<exists>e nn wn n. ents t old = Some e \<and> native_owner e = native \<and> natives s native = Some nn \<and> natives t (native_meta e) = Some wn \<and>
     natives u h = Some n \<and> ents u = ents t \<and> bufs u = bufs t \<and>
     (\<not> skb_vlan_tag_present nn \<longrightarrow> n_bytes n = n_bytes wn \<and> n_headroom n = n_headroom wn \<and>
        drop (n_headroom n) (n_bytes n) = drop (n_headroom nn) (n_bytes nn)) \<and>
     (meta_fits wn \<longrightarrow> same_meta n wn)"
proof -
  note K = assms(1) and L = assms(2)
  have inv: "skb_inv s" unfolding assms(4) by (rule skb_reachable [OF assms(1,3)])
  have I: "import_post (work_of E fl s native) s native (Inr old) t" by (rule wpD [OF import_spec [OF K inv assms(5)] imp])
  then have it: "skb_inv t" by (simp add: import_post_def)
  from imported_packets(2) [OF inv I] obtain e wn v where e: "ents t old = Some e" "native_owner e = native"
    "natives t (native_meta e) = Some wn" "work_of E fl s native (native_meta e) wn" "sized v" "e_view e = skb419_metadata_in wn v"
    and pk: "n_headroom wn \<le> length (n_bytes wn) \<longrightarrow> length (n_bytes wn) < 2 ^ 32 \<longrightarrow>
       (\<exists>r. packet t old = Some (take (n_headroom wn) (n_bytes wn), drop (n_headroom wn) (n_bytes wn), r))"
    by blast
  from e(4) obtain nn k m where w: "natives s native = Some nn" "k_skb_copy_expand E fl k nn s = Some (native_meta e, m)"
    "\<not> skb_vlan_tag_present nn \<Longrightarrow> n_bytes wn = n_bytes m \<and> n_headroom wn = n_headroom m"
    unfolding work_of_def by blast
  have X: "export_post (export_of E fl' t old) t (Inr h) u" by (rule wpD [OF export_spec [OF K it] out])
  then obtain n where n: "u = t\<lparr>natives := (natives t)(h \<mapsto> n)\<rparr>" "export_of E fl' t old h n" by (auto simp: export_post_def)
  from n(2) e(1) obtain d n0 dev where d: "bufs t (e_data e) = Some d" "k_alloc_skb E fl' (unat (capacity d)) t = Some (h, n0)"
    "skb419_metadata_out (e_view e) d (export_base E t e d dev n0) = Inr n"
    unfolding export_of_def by auto
  note B = export_bytes [OF L it e(1) d(1,2), of _ _ _ dev]
  have md: "n_bytes n = n_bytes (export_base E t e d dev n0)" "n_headroom n = n_headroom (export_base E t e d dev n0)"
    using metadata_out_keeps [OF d(3)] by simp_all
  have A: "n_bytes n = n_bytes wn \<and> n_headroom n = n_headroom wn \<and> drop (n_headroom n) (n_bytes n) = drop (n_headroom nn) (n_bytes nn)"
    if nv: "\<not> skb_vlan_tag_present nn"
  proof -
    note law = native_lawsD(4) [OF L w(2)] and wn = w(3) [OF nv]
    then obtain r where "packet t old = Some (take (n_headroom wn) (n_bytes wn), drop (n_headroom wn) (n_bytes wn), r)" using pk by auto
    from B [OF this] have "n_bytes n = n_bytes wn" "n_headroom n = min (length (n_bytes wn)) (n_headroom wn)" by (simp_all add: md)
    then show ?thesis using law wn by simp
  qed
  have M: "same_meta n wn" if fit: "meta_fits wn"
  proof -
    have "sized (e_view e)" using it e(1) inv_entry [of t old e] by (auto simp: skb_inv_def view_ok_def dest: plain_sized)
    then show ?thesis
      using metadata_roundtrip [OF _ fit _ _ d(3)] metadata_in_scalars [OF e(5) _ fit] metadata_in_flags [OF e(5) _ fit] e(6) by simp
  qed
  show ?thesis
    by (rule exI [of _ e], rule exI [of _ nn], rule exI [of _ wn], rule exI [of _ n])
      (intro conjI impI A M; simp add: e w(1) n(1))
qed

section \<open>A kernel and a history\<close>

text \<open>A kernel with eight places for each kind of object, that hands packets through unchanged.\<close>

definition free_slot :: "u32 list \<Rightarrow> (u32 \<rightharpoonup> 'a) \<Rightarrow> u32" where
  "free_slot as m = (case find (\<lambda>a. m a = None) as of Some a \<Rightarrow> a | None \<Rightarrow> 0)"

definition blank_native :: nskb where
  "blank_native = \<lparr>n_bytes = [], n_headroom = 0, n_dev = 0, n_vlan_proto = 0, n_vlan_tci = 0, n_gso_size = 0, n_gso_segs = 0,
     n_gso_type = 0, n_tx_flags = 0, n_tskey = 0, n_zcopy = False, n_hwtstamp = 0, n_scal = (\<lambda>_. 0), n_flag = (\<lambda>_. 0)\<rparr>"

definition give :: "nskb \<Rightarrow> skb_world \<Rightarrow> (u32 \<times> nskb) option" where
  "give n s = (let h = free_slot [0x5000, 0x5100, 0x5200, 0x5300] (natives s) in if h = 0 then None else Some (h, n))"

definition demo_env :: skb_env where
  "demo_env = \<lparr>gk = quiet_kernel,
     kzalloc_entry = (\<lambda>_ s. if card (dom (ents s)) < 65535 then free_slot [0x1000, 0x1200, 0x1400, 0x1600] (ents s) else 0),
     kmalloc_data = (\<lambda>_ n s. if n \<le> 4096 then free_slot [0x10000, 0x12000, 0x14000, 0x16000] (bufs s) else 0),
     kmalloc_fill = (\<lambda>_ _. 0xaa),
     k_skb_clone = (\<lambda>_ n s. give n s),
     k_skb_copy_expand = (\<lambda>_ k n s. if k + n_len n < 2 ^ 32
        then give (n\<lparr>n_headroom := k, n_bytes := replicate k 0 @ drop (n_headroom n) (n_bytes n)\<rparr>) s else None),
     k_alloc_skb = (\<lambda>_ _ s. give blank_native s),
     k_skb_copy_header = (\<lambda>n _. n), k_skb_vlan_push = (\<lambda>n. (0, n)), k_eth_type_trans = (\<lambda>n _. (0, n)), k_netif_rx = (\<lambda>_ _. 0),
     k_skb_gso_segment = (\<lambda>_ _. Inr []), k_real_num_tx_queues = (\<lambda>_. 1), k_NET_SKB_PAD = 64\<rparr>"

definition demo_world :: skb_world where
  "demo_world = \<lparr>ents = Map.empty, bufs = Map.empty, heads = Map.empty, registry = {}, skb419_headers = 0, skb419_buffers = 0,
     natives = Map.empty, netdev419_views = [], skb_failure_trace = False, skb_failure_stack_done = False, sk_bug = False, sk_log = []\<rparr>"

lemma free_slot_free: "free_slot as m \<noteq> 0 \<Longrightarrow> m (free_slot as m) = None \<and> free_slot as m \<in> set as"
  by (induction as) (auto simp: free_slot_def)

lemma give_new: "give n s = Some (h, m) \<Longrightarrow> h \<noteq> 0 \<and> natives s h = None \<and> m = n"
  using free_slot_free [of "[0x5000, 0x5100, 0x5200, 0x5300]" "natives s"] by (auto simp: give_def Let_def split: if_splits)

lemma demo_ok: "kernel_ok demo_env"
proof -
  have "unat (free_slot [0x10000, 0x12000, 0x14000, 0x16000] m) + n \<le> 2 ^ 32 + 64" if "n \<le> 4096" for m :: "u32 \<rightharpoonup> skb419_data" and n
    using that free_slot_free [of "[0x10000, 0x12000, 0x14000, 0x16000]" m] by (cases "free_slot [0x10000, 0x12000, 0x14000, 0x16000] m = 0") auto
  then show ?thesis
    unfolding kernel_ok_def using free_slot_free [of "[0x1000, 0x1200, 0x1400, 0x1600]"] free_slot_free [of "[0x10000, 0x12000, 0x14000, 0x16000]"]
    by (auto simp: demo_env_def dest: give_new split: if_splits)
qed

lemma demo_start: "sk_start demo_world"
  by (simp add: sk_start_def demo_world_def)

lemma demo_laws: "native_laws demo_env"
  unfolding native_laws_def by (auto simp: demo_env_def blank_native_def n_len_def dest!: give_new split: if_splits)

text \<open>A descriptor of 100 bytes, and a native packet of four.\<close>

definition demo_buf :: skb419_data where
  "demo_buf = set_dataref 1 \<lparr>capacity = 128, dbytes = map (\<lambda>_. 0xaa) [0..<128], shinfo = replicate SHINFO_SPAN 0, dguard = SK419_GUARD\<rparr>"

definition demo_one :: skb_world where
  "demo_one = fold (sk_exec demo_env) [Alloc 100 0] demo_world"

lemma demo_alloc:
  "run_state (shim_skb_alloc demo_env 100 fl) demo_world = (Some 0x1000, with_skb 0x1000 (fresh_entry 0x10000 128) 0x10000 demo_buf demo_world)"
proof -
  have "wp (shim_skb_alloc demo_env 100 fl) (\<lambda>r t. r = Some 0x1000 \<and> t = with_skb 0x1000 (fresh_entry 0x10000 128) 0x10000 demo_buf demo_world) demo_world"
    by (simp add: shim_skb_alloc_def Let_def add_overflow_def wp_simps demo_env_def demo_world_def free_slot_def kfree_entry_def
        skb419_register_def with_skb_def fresh_entry_def demo_buf_def fresh_data_def)
  then show ?thesis by (cases "run_state (shim_skb_alloc demo_env 100 fl) demo_world") (simp add: wp_def)
qed

lemma demo_one_eq: "demo_one = with_skb 0x1000 (fresh_entry 0x10000 128) 0x10000 demo_buf demo_world"
  by (simp add: demo_one_def sk_exec_def bcm419_legacy_skb_alloc_def demo_alloc)

lemma demo_packet: "packet demo_one 0x1000 = Some ([], [], map (\<lambda>_. 0xaa) [0..<128])" "sole demo_one 0x1000"
  by (simp_all add: demo_one_eq with_skb_def packet_def sole_def buf_of_def data_of_def view_of_def Let_def demo_buf_def pkt_at_def
      fresh_view_def layout_simps apart_def zero_view)


theorem geometry_check_exact_witness: "skb419_geometry 0x10000 128 (fresh_view 0x10000 128 0)"
proof -
  have "unat (0x10000 :: u32) + unat (128 :: u32) < 2 ^ 32" by simp
  note exact = geometry_check_exact [OF this, of "fresh_view 0x10000 128 0"]
  show ?thesis unfolding exact
    by (rule exI [of _ 0], rule exI [of _ 0]) (simp add: fresh_view_def layout_simps apart_def zero_view)
qed


lemma demo_inv: "skb_inv demo_one"
  unfolding demo_one_def by (rule skb_reachable [OF demo_ok demo_start])

lemma demo_clone: "fst (run_state (shim_skb_clone demo_env 0x1000 0) demo_one) = Some 0x1200"
proof -
  have v: "skb419_validate demo_one 0x1000 = Inr ()"
    using inv_validate [of demo_one "0x1000"] demo_inv by (simp add: skb_inv_def demo_one_eq with_skb_def)
  have "wp (shim_skb_clone demo_env 0x1000 0) (\<lambda>r _. r = Some 0x1200) demo_one"
    unfolding shim_skb_clone_def wp_bind [of "gets _"] wp_gets v sum.case
    by (simp add: demo_one_eq demo_env_def with_skb_def demo_world_def free_slot_def wp_simps clone_meta_def data_of_def skb419_register_def)
  then show ?thesis by (simp add: wp_def split_def)
qed


definition demo_native :: nskb where
  "demo_native = blank_native\<lparr>n_bytes := [1, 2, 3, 4]\<rparr>"

definition demo_two :: skb_world where
  "demo_two = fold (sk_exec demo_env) [KernelGives 0x5000 demo_native] demo_world"

lemma demo_two_eq: "demo_two = demo_world\<lparr>natives := [0x5000 \<mapsto> demo_native]\<rparr>"
  by (simp add: demo_two_def sk_exec_def new_native_def demo_world_def modify_def)

lemma demo_import:
  "wp (shim_skb_import demo_env 0x5000 0) (\<lambda>r t. r = Inr 0x1000 \<and>
     ents t = [0x1000 \<mapsto> (fresh_entry 0x10000 64)\<lparr>e_view := import_view 0x10000 64 0 4 0 demo_native, native_meta := 0x5100, native_owner := 0x5000\<rparr>] \<and>
     natives t = [0x5000 \<mapsto> demo_native, 0x5100 \<mapsto> demo_native] \<and> bufs t 0x10000 \<noteq> None) demo_two"
  by (simp add: shim_skb_import_def import_work_def shim_skb_alloc_def demo_two_eq demo_env_def demo_world_def Let_def wp_simps
      demo_native_def blank_native_def import_refused_def skb_vlan_tag_present_def add_overflow_def n_len_def give_def free_slot_def
      new_native_def skb419_register_def data_of_def import_view_def fresh_entry_def zero_entry_def fun_upd_idem)

lemma demo_meta: "meta_fits demo_native"
  by (simp add: meta_fits_def demo_native_def blank_native_def n_get_def flag_fits_def META_SCALARS_def SKMETA_COMMON_def)

lemma demo_unowned: "unowned demo_two 0x5000"
  by (simp add: unowned_def demo_two_eq demo_world_def)

lemma demo_export:
  assumes inv: "skb_inv t" and n: "natives t = [0x5000 \<mapsto> demo_native, 0x5100 \<mapsto> demo_native]" and b: "bufs t 0x10000 \<noteq> None"
    and e: "ents t = [0x1000 \<mapsto> (fresh_entry 0x10000 64)\<lparr>e_view := import_view 0x10000 64 0 4 0 demo_native, native_meta := 0x5100, native_owner := 0x5000\<rparr>]"
  shows "\<exists>u. run_state (shim_skb_export demo_env 0x1000 0) t = (Inr 0x5200, u)"
proof -
  let ?v = "import_view 0x10000 64 0 4 0 demo_native"
  obtain d where d: "bufs t 0x10000 = Some d" using b by blast
  have val: "skb419_validate t 0x1000 = Inr ()" using inv_validate [of t "0x1000"] inv e by (simp add: skb_inv_def)
  have dev: "(LOAD F_dev ?v :: u32) = 0"
  proof -
    have "(LOAD F_dev ?v :: u32) = LOAD F_dev (STORE F_dev (0 :: u32) (STORE F_len (4 :: u32) (STORE F_tail (0x10004 :: u32) (STORE F_data (0x10000 :: u32) (fresh_view 0x10000 64 640)))))"
      unfolding import_view_def skb419_metadata_in_def LOAD_flags
      by (subst scalars_kept) (auto simp: META_SCALARS_def apart_def fresh_view_def sized_STORE zero_view)
    then show ?thesis by (simp add: fresh_view_def layout_simps apart_def zero_view)
  qed
  obtain m where "skb419_metadata_out ?v d (export_base demo_env t ((fresh_entry 0x10000 64)\<lparr>e_view := ?v, native_meta := 0x5100, native_owner := 0x5000\<rparr>) d 0 blank_native) = Inr m"
    using import_exportable [of 0 4 64 demo_native "0x10000" 0 d] demo_meta by auto
  moreover have "k_alloc_skb demo_env 0 k t = Some (0x5200, blank_native)" for k
    by (simp add: demo_env_def give_def free_slot_def n Let_def)
  ultimately have "wp (shim_skb_export demo_env 0x1000 0) (\<lambda>r _. r = Inr 0x5200) t"
    using d val dev by (simp add: shim_skb_export_def Let_def wp_simps view_of_def buf_of_def data_of_def e new_native_def)
  then show ?thesis by (cases "run_state (shim_skb_export demo_env 0x1000 0) t") (simp add: wp_def)
qed

theorem import_export_roundtrip_witness:
  "\<exists>t u n. run_state (shim_skb_import demo_env 0x5000 0) demo_two = (Inr 0x1000, t) \<and>
     run_state (shim_skb_export demo_env 0x1000 0) t = (Inr 0x5200, u) \<and> natives u 0x5200 = Some n \<and>
     n_bytes n = [1, 2, 3, 4] \<and> n_headroom n = 0 \<and> same_meta n demo_native"
proof -
  obtain t where imp: "run_state (shim_skb_import demo_env 0x5000 0) demo_two = (Inr 0x1000, t)" and t: "natives t = [0x5000 \<mapsto> demo_native, 0x5100 \<mapsto> demo_native]"
    "bufs t 0x10000 \<noteq> None" "ents t = [0x1000 \<mapsto> (fresh_entry 0x10000 64)\<lparr>e_view := import_view 0x10000 64 0 4 0 demo_native, native_meta := 0x5100, native_owner := 0x5000\<rparr>]"
    using wp_run [OF demo_import] by blast
  have inv: "skb_inv demo_two" unfolding demo_two_def by (rule skb_reachable [OF demo_ok demo_start])
  have "skb_inv t" using wpD [OF import_spec [OF demo_ok inv demo_unowned] imp] by (simp add: import_post_def)
  from demo_export [OF this t] obtain u where out: "run_state (shim_skb_export demo_env 0x1000 0) t = (Inr 0x5200, u)" by blast
  have nt: "natives demo_two 0x5000 = Some demo_native" "\<not> skb_vlan_tag_present demo_native"
    by (simp_all add: demo_two_eq skb_vlan_tag_present_def demo_native_def blank_native_def)
  from import_export_roundtrip [OF demo_ok demo_laws demo_start demo_two_def demo_unowned imp out] obtain n where
    "natives u 0x5200 = Some n" "n_bytes n = n_bytes demo_native" "n_headroom n = n_headroom demo_native" "same_meta n demo_native"
    using t nt demo_meta by auto
  then show ?thesis using imp out by (auto simp: demo_native_def blank_native_def)
qed

end
