(* ===== verification/Ubi_Write.thy ===== *)
theory Ubi_Write
  imports Prelude66
begin

text \<open>
  \<^verbatim>\<open>tools/ubiwrite.c\<close>, the volume-update tool: \<^verbatim>\<open>main\<close> with its \<^verbatim>\<open>--wipe\<close> mode, the copy loop and the
  inner write loop.  The operating system is the record \<open>ub_os\<close>: what each system call answers, given
  all calls before it.  The log records the calls with their answers.  Both loops may run forever
  (a device that never accepts a byte, an input that never ends), so they are partial functions: \<open>None\<close>
  is a run that does not return.  Messages are not modelled.
\<close>

section \<open>System calls\<close>

datatype ub_call =
    UStat string
  | UOpen string bool int
  | UVolUp int int int
  | UMalloc
  | URead int "u8 list option"
  | UWrite int "u8 list" int
  | UFsync int bool
  | UClose int bool

text \<open>\<open>os_stat\<close>: \<open>None\<close> when \<^verbatim>\<open>stat\<close> fails or the path is no regular file, else the size.  \<open>os_read\<close>:
  \<open>None\<close> is an error, \<open>Some []\<close> the end of the file.  \<open>os_fsync\<close>: the result and whether errno is
  \<^verbatim>\<open>EINVAL\<close>.  \<open>os_close\<close>: whether it succeeds.\<close>

record ub_os =
  os_stat :: "ub_call list \<Rightarrow> string \<Rightarrow> int option"
  os_open :: "ub_call list \<Rightarrow> string \<Rightarrow> int"
  os_volup :: "ub_call list \<Rightarrow> int \<Rightarrow> int"
  os_malloc :: "ub_call list \<Rightarrow> bool"
  os_read :: "ub_call list \<Rightarrow> u8 list option"
  os_write :: "ub_call list \<Rightarrow> u8 list \<Rightarrow> int"
  os_fsync :: "ub_call list \<Rightarrow> bool \<times> bool"
  os_close :: "ub_call list \<Rightarrow> int \<Rightarrow> bool"

section \<open>The loops\<close>

partial_function (option) write_loop ::
    "ub_os \<Rightarrow> int \<Rightarrow> u8 list \<Rightarrow> ub_call list \<Rightarrow> (bool \<times> ub_call list) option" where
  "write_loop E fdout buf log =
     (if buf = [] then Some (True, log)
      else if os_write E log buf < 0 then Some (False, log @ [UWrite fdout buf (os_write E log buf)])
      else write_loop E fdout (drop (nat (os_write E log buf)) buf) (log @ [UWrite fdout buf (os_write E log buf)]))"

datatype copy_end = WriteFailed | ReadFailed | Copied int

partial_function (option) copy_loop ::
    "ub_os \<Rightarrow> int \<Rightarrow> int \<Rightarrow> int \<Rightarrow> ub_call list \<Rightarrow> (copy_end \<times> ub_call list) option" where
  "copy_loop E fdin fdout tot log =
     (case os_read E log of
        None \<Rightarrow> Some (ReadFailed, log @ [URead fdin None])
      | Some buf \<Rightarrow>
          if buf = [] then Some (Copied tot, log @ [URead fdin (Some [])])
          else Option.bind (write_loop E fdout buf (log @ [URead fdin (Some buf)]))
                 (\<lambda>(ok, log'). if ok then copy_loop E fdin fdout (tot + int (length buf)) log'
                               else Some (WriteFailed, log')))"

section \<open>main\<close>

definition ubiwrite_wipe :: "ub_os \<Rightarrow> string \<Rightarrow> (nat \<times> ub_call list)" where
  "ubiwrite_wipe E dev =
     (let fdout = os_open E [] dev; log = [UOpen dev True fdout] in
      if fdout < 0 then (1, log)
      else let r = os_volup E log 0; log = log @ [UVolUp fdout 0 r] in
        if r < 0 then (1, log @ [UClose fdout (os_close E log fdout)])
        else let c = os_close E log fdout; log = log @ [UClose fdout c] in
          if \<not> c then (1, log) else (0, log))"

text \<open>The part after the copy loop.\<close>

definition ubiwrite_finish :: "ub_os \<Rightarrow> int \<Rightarrow> int \<Rightarrow> int \<Rightarrow> copy_end \<times> ub_call list \<Rightarrow> nat \<times> ub_call list" where
  "ubiwrite_finish E fdin fdout bytes res =
     (case res of
        (WriteFailed, log) \<Rightarrow> (1, log)
      | (ReadFailed, log) \<Rightarrow> (1, log)
      | (Copied tot, log) \<Rightarrow>
          if tot \<noteq> bytes then (1, log)
          else let f = os_fsync E log; log = log @ [UFsync fdout (fst f)] in
            if \<not> fst f \<and> \<not> snd f then (1, log)
            else let c = os_close E log fdout; log = log @ [UClose fdout c] in
              if \<not> c then (1, log)
              else let ci = os_close E log fdin; log = log @ [UClose fdin ci] in
                if \<not> ci then (1, log) else (0, log))"

definition ubiwrite_main :: "ub_os \<Rightarrow> string list \<Rightarrow> (nat \<times> ub_call list) option" where
  "ubiwrite_main E argv =
     (if length argv = 3 \<and> argv ! 1 = ''--wipe'' then Some (ubiwrite_wipe E (argv ! 2))
      else if length argv \<noteq> 3 then Some (2, [])
      else let dev = argv ! 1; path = argv ! 2; log = [UStat path] in
        (case os_stat E [] path of
           None \<Rightarrow> Some (1, log)
         | Some bytes \<Rightarrow>
             if bytes \<le> 0 then Some (1, log)
             else let fdin = os_open E log path; log = log @ [UOpen path False fdin] in
               if fdin < 0 then Some (1, log)
               else let fdout = os_open E log dev; log = log @ [UOpen dev True fdout] in
                 if fdout < 0 then Some (1, log)
                 else let r = os_volup E log bytes; log = log @ [UVolUp fdout bytes r] in
                   if r < 0 then Some (1, log)
                   else let m = os_malloc E log; log = log @ [UMalloc] in
                     if \<not> m then Some (1, log)
                     else map_option (ubiwrite_finish E fdin fdout bytes) (copy_loop E fdin fdout 0 log)))"

section \<open>What was read and written\<close>

text \<open>The bytes the input delivered and the bytes the volume accepted.\<close>

fun read_of :: "ub_call \<Rightarrow> u8 list" where
  "read_of (URead fd (Some bs)) = bs"
| "read_of _ = []"

fun written_of :: "ub_call \<Rightarrow> u8 list" where
  "written_of (UWrite fd bs w) = take (nat w) bs"
| "written_of _ = []"

definition reads :: "ub_call list \<Rightarrow> u8 list" where
  "reads log = concat (map read_of log)"

definition written :: "ub_call list \<Rightarrow> u8 list" where
  "written log = concat (map written_of log)"

lemma reads_append [simp]: "reads (a @ b) = reads a @ reads b" and reads_Nil [simp]: "reads [] = []"
  and reads_Cons [simp]: "reads (c # a) = read_of c @ reads a"
  by (simp_all add: reads_def)

lemma written_append [simp]: "written (a @ b) = written a @ written b" and written_Nil [simp]: "written [] = []"
  and written_Cons [simp]: "written (c # a) = written_of c @ written a"
  by (simp_all add: written_def)

section \<open>Partial correctness\<close>

lemma write_loop_result:
  assumes "write_loop E fd buf log = Some r"
  shows "reads (snd r) = reads log \<and> (fst r \<longrightarrow> written (snd r) = written log @ buf)"
proof (rule write_loop.raw_induct [where P = "\<lambda>E fd buf log r. reads (snd r) = reads log
      \<and> (fst r \<longrightarrow> written (snd r) = written log @ buf)", OF _ assms])
  fix wl E fd buf log r
  assume IH: "\<And>E fd buf log r. wl E fd buf log = Some r \<Longrightarrow>
      reads (snd r) = reads log \<and> (fst r \<longrightarrow> written (snd r) = written log @ buf)"
    and body: "(if buf = [] then Some (True, log)
      else if os_write E log buf < 0 then Some (False, log @ [UWrite fd buf (os_write E log buf)])
      else wl E fd (drop (nat (os_write E log buf)) buf) (log @ [UWrite fd buf (os_write E log buf)])) = Some r"
  show "reads (snd r) = reads log \<and> (fst r \<longrightarrow> written (snd r) = written log @ buf)"
  proof (cases "buf = [] \<or> os_write E log buf < 0")
    case False
    with body have "wl E fd (drop (nat (os_write E log buf)) buf) (log @ [UWrite fd buf (os_write E log buf)]) = Some r"
      by simp
    from IH [OF this] show ?thesis by simp
  next
    case True
    with body show ?thesis by (auto split: if_splits)
  qed
qed

definition copied_all :: "copy_end \<times> ub_call list \<Rightarrow> bool" where
  "copied_all r \<longleftrightarrow> (\<forall>n. fst r = Copied n \<longrightarrow> written (snd r) = reads (snd r) \<and> n = int (length (reads (snd r))))"

lemma copy_loop_result:
  assumes "copy_loop E fdin fdout tot log = Some r" and "written log = reads log" and "tot = int (length (reads log))"
  shows "copied_all r"
proof -
  have "written log = reads log \<longrightarrow> tot = int (length (reads log)) \<longrightarrow> copied_all r"
  proof (rule copy_loop.raw_induct [where P = "\<lambda>E fdin fdout tot log r. written log = reads log \<longrightarrow>
      tot = int (length (reads log)) \<longrightarrow> copied_all r", OF _ assms(1)], intro impI)
    fix cl E fdin fdout tot log r
    assume IH: "\<And>E fdin fdout tot log r. cl E fdin fdout tot log = Some r \<Longrightarrow>
        written log = reads log \<longrightarrow> tot = int (length (reads log)) \<longrightarrow> copied_all r"
      and body: "(case os_read E log of None \<Rightarrow> Some (ReadFailed, log @ [URead fdin None])
        | Some buf \<Rightarrow> if buf = [] then Some (Copied tot, log @ [URead fdin (Some [])])
          else Option.bind (write_loop E fdout buf (log @ [URead fdin (Some buf)]))
            (\<lambda>(ok, log'). if ok then cl E fdin fdout (tot + int (length buf)) log' else Some (WriteFailed, log'))) = Some r"
      and log: "written log = reads log" "tot = int (length (reads log))"
    show "copied_all r"
    proof (cases "\<exists>buf. os_read E log = Some buf \<and> buf \<noteq> []")
      case False
      then show ?thesis using body log by (auto simp: copied_all_def split: option.splits if_splits)
    next
      case True
      then obtain buf ok log' where buf: "os_read E log = Some buf" "buf \<noteq> []"
        and wl: "write_loop E fdout buf (log @ [URead fdin (Some buf)]) = Some (ok, log')"
        and rest: "(if ok then cl E fdin fdout (tot + int (length buf)) log' else Some (WriteFailed, log')) = Some r"
        using body by (auto simp: bind_eq_Some_conv)
      show ?thesis
        using rest IH [of E fdin fdout "tot + int (length buf)" log' r] write_loop_result [OF wl] log
        by (cases ok) (auto simp: copied_all_def)
    qed
  qed
  with assms(2,3) show ?thesis by blast
qed

lemma write_loop_prefix:
  assumes "write_loop E fd buf log = Some r"
  shows "\<exists>more. snd r = log @ more"
proof (rule write_loop.raw_induct [where P = "\<lambda>E fd buf log r. \<exists>more. snd r = log @ more", OF _ assms])
  fix wl E fd buf log r
  assume IH: "\<And>E fd buf log r. wl E fd buf log = Some r \<Longrightarrow> \<exists>more. snd r = log @ more"
    and body: "(if buf = [] then Some (True, log)
      else if os_write E log buf < 0 then Some (False, log @ [UWrite fd buf (os_write E log buf)])
      else wl E fd (drop (nat (os_write E log buf)) buf) (log @ [UWrite fd buf (os_write E log buf)])) = Some r"
  show "\<exists>more. snd r = log @ more"
    using body IH [of E fd "drop (nat (os_write E log buf)) buf" "log @ [UWrite fd buf (os_write E log buf)]" r]
    by (auto split: if_splits)
qed

lemma copy_loop_prefix:
  assumes "copy_loop E fdin fdout tot log = Some r"
  shows "\<exists>more. snd r = log @ more"
proof (rule copy_loop.raw_induct [where P = "\<lambda>E fdin fdout tot log r. \<exists>more. snd r = log @ more", OF _ assms])
  fix cl E fdin fdout tot log r
  assume IH: "\<And>E fdin fdout tot log r. cl E fdin fdout tot log = Some r \<Longrightarrow> \<exists>more. snd r = log @ more"
    and body: "(case os_read E log of None \<Rightarrow> Some (ReadFailed, log @ [URead fdin None])
      | Some buf \<Rightarrow> if buf = [] then Some (Copied tot, log @ [URead fdin (Some [])])
        else Option.bind (write_loop E fdout buf (log @ [URead fdin (Some buf)]))
          (\<lambda>(ok, log'). if ok then cl E fdin fdout (tot + int (length buf)) log' else Some (WriteFailed, log'))) = Some r"
  show "\<exists>more. snd r = log @ more"
  proof (cases "\<exists>buf. os_read E log = Some buf \<and> buf \<noteq> []")
    case False
    then show ?thesis using body by (auto split: option.splits if_splits)
  next
    case True
    then obtain buf ok log' where wl: "write_loop E fdout buf (log @ [URead fdin (Some buf)]) = Some (ok, log')"
      and rest: "(if ok then cl E fdin fdout (tot + int (length buf)) log' else Some (WriteFailed, log')) = Some r"
      using body by (auto simp: bind_eq_Some_conv)
    with write_loop_prefix [OF wl] IH [of E fdin fdout "tot + int (length buf)" log' r]
    show ?thesis by (cases ok) auto
  qed
qed

text \<open>An orderly end: synced, volume closed, input closed, in this order.\<close>

lemma ubiwrite_finish_ok:
  assumes "ubiwrite_finish E fdin fdout bytes res = (0, log)"
  obtains l f where "res = (Copied bytes, l)" "log = l @ [UFsync fdout f, UClose fdout True, UClose fdin True]"
  using assms
  by (cases res; cases "fst res")
    (auto simp: ubiwrite_finish_def Let_def split: if_splits)


section \<open>Completion\<close>

text \<open>An input that delivers \<open>content\<close> in pieces of any size, and a volume that accepts at least one byte
  of every write.\<close>

definition feeds :: "ub_os \<Rightarrow> u8 list \<Rightarrow> bool" where
  "feeds E content \<longleftrightarrow> (\<forall>log. \<exists>k \<ge> 1. os_read E log = Some (take k (drop (length (reads log)) content)))"

definition accepts :: "ub_os \<Rightarrow> bool" where
  "accepts E \<longleftrightarrow> (\<forall>log buf. buf \<noteq> [] \<longrightarrow> os_write E log buf \<ge> 1)"

lemma write_loop_completes:
  assumes "accepts E"
  shows "\<exists>log'. write_loop E fd buf log = Some (True, log')"
proof (induction buf arbitrary: log rule: length_induct)
  case (1 buf)
  show ?case
  proof (cases "buf = []")
    case False
    with assms have "os_write E log buf \<ge> 1" by (simp add: accepts_def)
    with False 1 show ?thesis by (subst write_loop.simps) (simp add: nat_less_iff)
  qed (simp add: write_loop.simps)
qed

lemma copy_loop_completes:
  assumes E: "feeds E content" "accepts E" and log: "reads log = take (length (reads log)) content"
  shows "\<exists>n log'. copy_loop E fdin fdout tot log = Some (Copied n, log') \<and> reads log' = content"
  using log
proof (induction "length content - length (reads log)" arbitrary: tot log rule: less_induct)
  case less
  obtain k where k: "k \<ge> 1" "os_read E log = Some (take k (drop (length (reads log)) content))"
    using E(1) unfolding feeds_def by blast
  let ?buf = "take k (drop (length (reads log)) content)"
  show ?case
  proof (cases "?buf = []")
    case True
    then have "length content \<le> length (reads log)" using k(1) by auto
    then have "reads log = content" using less.prems by simp
    then show ?thesis using k True by (subst copy_loop.simps) simp
  next
    case False
    obtain log' where wl: "write_loop E fdout ?buf (log @ [URead fdin (Some ?buf)]) = Some (True, log')"
      using write_loop_completes [OF E(2)] by blast
    have rd: "reads log' = reads log @ ?buf" using write_loop_result [OF wl] by simp
    have le: "length (reads log) \<le> length content" using False by auto
    have "reads log' = take (length (reads log) + k) content"
      unfolding rd using less.prems by (simp add: take_add)
    then have pre: "reads log' = take (length (reads log')) content" by (metis append_take_drop_id append_eq_conv_conj)
    have "length content - length (reads log') < length content - length (reads log)"
      unfolding rd using False k(1) le by auto
    from less.hyps [OF this pre] show ?thesis
      using False k wl by (subst copy_loop.simps) simp
  qed
qed

lemma ubiwrite_terminates:
  assumes E: "feeds E content" "accepts E" and size: "os_stat E [] path = Some (int (length content))" "content \<noteq> []"
    and calls: "\<And>log p. os_open E log p \<ge> 0" "\<And>log n. os_volup E log n \<ge> 0" "\<And>log. os_malloc E log"
      "\<And>log. fst (os_fsync E log)" "\<And>log fd. os_close E log fd"
    and dev: "dev \<noteq> ''--wipe''"
  shows "\<exists>log. ubiwrite_main E [prog, dev, path] = Some (0, log) \<and> written log = content"
proof -
  define fdin where "fdin = os_open E [UStat path] path"
  define l1 where "l1 = [UStat path, UOpen path False fdin]"
  define fdout where "fdout = os_open E l1 dev"
  define l where "l = l1 @ [UOpen dev True fdout, UVolUp fdout (int (length content))
    (os_volup E (l1 @ [UOpen dev True fdout]) (int (length content))), UMalloc]"
  have rl: "reads l = []" "written l = []" by (simp_all add: l_def l1_def)
  obtain n log' where copy: "copy_loop E fdin fdout 0 l = Some (Copied n, log')" "reads log' = content"
    using copy_loop_completes [OF E, of l fdin fdout 0] rl by auto
  have "copied_all (Copied n, log')" by (rule copy_loop_result [OF copy(1)]) (simp_all add: rl)
  then have n: "n = int (length content)" "written log' = content" using copy(2) by (simp_all add: copied_all_def)
  have "ubiwrite_main E [prog, dev, path] = Some (ubiwrite_finish E fdin fdout n (Copied n, log'))"
    using size dev calls(1-3) copy(1) n(1)
    by (simp add: ubiwrite_main_def Let_def fdin_def l1_def fdout_def l_def not_less [symmetric])
  then show ?thesis
    using calls(4,5) n by (simp add: ubiwrite_finish_def Let_def)
qed


section \<open>A volume that accepts nothing\<close>

lemma write_loop_stuck:
  assumes zero: "\<And>log buf. os_write E log buf = 0" and "buf \<noteq> []"
  shows "write_loop E fd buf log = None"
proof (rule ccontr)
  assume "write_loop E fd buf log \<noteq> None"
  then obtain r where run: "write_loop E fd buf log = Some r" by blast
  have "(\<forall>log buf. os_write E log buf = 0) \<longrightarrow> buf = []"
  proof (rule write_loop.raw_induct [where P = "\<lambda>E fd buf log r. (\<forall>log buf. os_write E log buf = 0) \<longrightarrow> buf = []", OF _ run])
    fix wl E fd buf log r
    assume IH: "\<And>E fd buf log r. wl E fd buf log = Some r \<Longrightarrow> (\<forall>log buf. os_write E log buf = 0) \<longrightarrow> buf = []"
      and body: "(if buf = [] then Some (True, log)
        else if os_write E log buf < 0 then Some (False, log @ [UWrite fd buf (os_write E log buf)])
        else wl E fd (drop (nat (os_write E log buf)) buf) (log @ [UWrite fd buf (os_write E log buf)])) = Some r"
    show "(\<forall>log buf. os_write E log buf = 0) \<longrightarrow> buf = []"
    proof
      assume "\<forall>log buf. os_write E log buf = 0"
      with body IH [of E fd buf "log @ [UWrite fd buf 0]" r] show "buf = []" by (simp split: if_splits)
    qed
  qed
  with assms show False by simp
qed

text \<open>
  A volume on which \<^verbatim>\<open>write\<close> answers 0 (no byte accepted, no error) is not noticed: as soon as
  the input delivers a byte the tool writes the same bytes again forever and never returns.
\<close>

theorem ubiwrite_stuck_write:
  assumes "\<And>log buf. os_write E log buf = 0" and "os_read E log = Some buf" and "buf \<noteq> []"
  shows "copy_loop E fdin fdout tot log = None"
  using assms write_loop_stuck [of E buf] by (subst copy_loop.simps) simp

section \<open>Concrete instances\<close>

definition demo_os :: "(u8 list \<Rightarrow> int) \<Rightarrow> ub_os" where
  "demo_os w = \<lparr>os_stat = (\<lambda>_ _. Some 3), os_open = (\<lambda>_ _. 4), os_volup = (\<lambda>_ _. 0), os_malloc = (\<lambda>_. True),
     os_read = (\<lambda>log. Some (take 2 (drop (length (reads log)) [10, 20, 30]))), os_write = (\<lambda>_ buf. w buf),
     os_fsync = (\<lambda>_. (True, False)), os_close = (\<lambda>_ _. True)\<rparr>"

lemma demo_feeds: "feeds (demo_os w) [10, 20, 30]"
  unfolding feeds_def by (intro allI exI [of _ 2]) (simp add: demo_os_def)



theorem ubiwrite_stuck_write_witness:
  "copy_loop (demo_os (\<lambda>_. 0)) 3 4 0 [] = None"
  by (rule ubiwrite_stuck_write [of _ _ "[10, 20]"]) (simp_all add: demo_os_def)

end
