(* ===== verification/Ubi_Mkvol.thy ===== *)
theory Ubi_Mkvol
  imports Prelude66
begin

text \<open>
  \<^verbatim>\<open>tools/ubimkvol.c\<close>, the tool that creates or grows a UBI volume: the attribute reader, the search
  for an existing volume, the capacity check, the resize and the creation.  The files under
  \<^verbatim>\<open>/sys/class/ubi\<close> and the answers of the device are the record \<open>mk_os\<close>.  C strings, \<^verbatim>\<open>snprintf\<close>
  truncation, \<^verbatim>\<open>fgets\<close> and \<^verbatim>\<open>strtoull\<close> are written out; sizes are 64-bit words.  Messages on stderr are not
  modelled, the number printed on stdout is.
\<close>

section \<open>The C library\<close>

definition cut :: "string \<Rightarrow> string" where
  "cut s = takeWhile (\<lambda>c. c \<noteq> CHR 0x00) s"

text \<open>\<^verbatim>\<open>snprintf(dst, n, "%s", s)\<close>.\<close>

definition fit :: "nat \<Rightarrow> string \<Rightarrow> string" where
  "fit n s = take (n - 1) s"

text \<open>\<^verbatim>\<open>"%d"\<close> for a number that is not negative.\<close>

fun dec :: "nat \<Rightarrow> string" where
  "dec n = (if n < 10 then [char_of (48 + n)] else dec (n div 10) @ [char_of (48 + n mod 10)])"

definition nl :: char where
  "nl = char_of (10 :: nat)"

text \<open>\<^verbatim>\<open>fgets(buf, n, f)\<close> on a file opened with the given content: the first line with its newline, at
  most \<open>n - 1\<close> characters, \<open>None\<close> at the end of the file.  The buffer is read as a C string.\<close>

definition fgets :: "nat \<Rightarrow> string \<Rightarrow> string option" where
  "fgets n content = (if content = [] then None
     else Some (cut (take (n - 1) (takeWhile (\<lambda>c. c \<noteq> nl) content
       @ (if nl \<in> set content then [nl] else [])))))"

definition digit_of :: "char \<Rightarrow> int option" where
  "digit_of c = (let n = of_char c in
     if 48 \<le> n \<and> n \<le> 57 then Some (n - 48)
     else if 97 \<le> n \<and> n \<le> 122 then Some (n - 87)
     else if 65 \<le> n \<and> n \<le> 90 then Some (n - 55)
     else None)"

definition is_digit :: "int \<Rightarrow> char \<Rightarrow> bool" where
  "is_digit b c = (case digit_of c of None \<Rightarrow> False | Some d \<Rightarrow> d < b)"

definition number :: "int \<Rightarrow> string \<Rightarrow> int" where
  "number b s = foldl (\<lambda>a c. a * b + the (digit_of c)) 0 (takeWhile (is_digit b) s)"

definition is_space :: "char \<Rightarrow> bool" where
  "is_space c = (let n = of_char c :: int in n = 32 \<or> 9 \<le> n \<and> n \<le> 13)"

text \<open>\<^verbatim>\<open>strtoull(s, NULL, 0)\<close>: optional blanks and sign, the base from the prefix, saturation at
  the largest value, and negation modulo two to the 64 after a minus sign.\<close>

definition base0 :: "string \<Rightarrow> int" where
  "base0 s = (if length s \<ge> 3 \<and> s ! 0 = CHR ''0'' \<and> (s ! 1 = CHR ''x'' \<or> s ! 1 = CHR ''X'') \<and> is_digit 16 (s ! 2)
       then number 16 (drop 2 s)
     else if s \<noteq> [] \<and> s ! 0 = CHR ''0'' then number 8 s
     else number 10 s)"

definition strtoull :: "string \<Rightarrow> u64" where
  "strtoull s = (let t = dropWhile is_space (cut s);
       neg = (t \<noteq> [] \<and> hd t = CHR ''-'');
       u = (if t \<noteq> [] \<and> (hd t = CHR ''-'' \<or> hd t = CHR ''+'') then tl t else t);
       v = base0 u
     in if v \<ge> 2 ^ 64 then - 1 else if neg then - word_of_int v else word_of_int v)"

section \<open>The device and its requests\<close>

abbreviation (input) "UBI_MAX_VOLUME_NAME \<equiv> (127 :: nat)"
abbreviation (input) "UBI_VOL_NUM_AUTO \<equiv> (- 1 :: int)"
abbreviation (input) "UBI_DYNAMIC_VOLUME \<equiv> (3 :: int)"

record ubi_mkvol_req =
  req_vol_id :: int
  req_alignment :: int
  req_bytes :: u64
  req_vol_type :: int
  req_flags :: nat
  req_name_len :: int
  req_name :: string

record ubi_rsvol_req =
  rs_bytes :: u64
  rs_vol_id :: int

record mk_os =
  mk_access :: "string \<Rightarrow> bool"
  mk_file :: "string \<Rightarrow> string option"
  mk_open :: "string \<Rightarrow> int"
  mk_rsvol :: "ubi_rsvol_req \<Rightarrow> int"
  mk_mkvol :: "ubi_mkvol_req \<Rightarrow> int \<times> int"

datatype mk_call =
    MOpen string int
  | MRsvol int ubi_rsvol_req int
  | MMkvol int ubi_mkvol_req int
  | MClose int

text \<open>The exit status, the number printed, the calls made.\<close>

type_synonym mk_out = "nat \<times> int option \<times> mk_call list"

section \<open>The tool\<close>

definition read_attr :: "mk_os \<Rightarrow> string \<Rightarrow> nat \<Rightarrow> string \<Rightarrow> nat \<Rightarrow> string option" where
  "read_attr E ubiname n attr len =
     (case mk_file E (fit 128 (''/sys/class/ubi/'' @ ubiname @ ''_'' @ dec n @ ''/'' @ attr)) of
        None \<Rightarrow> None
      | Some content \<Rightarrow>
          (case fgets len content of
             None \<Rightarrow> None
           | Some buf \<Rightarrow> Some (if buf \<noteq> [] \<and> last buf = nl then butlast buf else buf)))"

text \<open>The name of the volume with a number, \<open>None\<close> where the search goes on.\<close>

definition vol_name :: "mk_os \<Rightarrow> string \<Rightarrow> nat \<Rightarrow> string option" where
  "vol_name E ubiname n =
     (if \<not> mk_access E (fit 64 (''/sys/class/ubi/'' @ ubiname @ ''_'' @ dec n)) then None
      else (case mk_file E (fit 64 (''/sys/class/ubi/'' @ ubiname @ ''_'' @ dec n @ ''/name'')) of
              None \<Rightarrow> None
            | Some content \<Rightarrow> map_option (takeWhile (\<lambda>c. c \<noteq> nl)) (fgets (UBI_MAX_VOLUME_NAME + 2) content)))"

definition vol_capacity :: "mk_os \<Rightarrow> string \<Rightarrow> nat \<Rightarrow> u64 option" where
  "vol_capacity E ubiname n =
     (case read_attr E ubiname n ''reserved_ebs'' 32 of
        None \<Rightarrow> None
      | Some ebs \<Rightarrow>
          (case read_attr E ubiname n ''usable_eb_size'' 32 of
             None \<Rightarrow> None
           | Some sz \<Rightarrow> Some (strtoull ebs * strtoull sz)))"

definition mk_existing :: "mk_os \<Rightarrow> string \<Rightarrow> u64 \<Rightarrow> nat \<Rightarrow> mk_out" where
  "mk_existing E ubiname bytes n =
     (case vol_capacity E ubiname n of
        None \<Rightarrow> (0, Some (int n), [])
      | Some cur \<Rightarrow>
          if cur \<ge> bytes then (0, Some (int n), [])
          else let dev = fit 64 (''/dev/'' @ ubiname); fd = mk_open E dev in
            if fd < 0 then (1, None, [MOpen dev fd])
            else let rs = \<lparr>rs_bytes = bytes, rs_vol_id = int n\<rparr>; r = mk_rsvol E rs in
              if r < 0 then (1, None, [MOpen dev fd, MRsvol fd rs r, MClose fd])
              else (0, Some (int n), [MOpen dev fd, MRsvol fd rs r, MClose fd]))"

primrec mk_scan :: "mk_os \<Rightarrow> string \<Rightarrow> string \<Rightarrow> u64 \<Rightarrow> nat list \<Rightarrow> mk_out option" where
  "mk_scan E ubiname name bytes [] = None"
| "mk_scan E ubiname name bytes (n # ns) =
     (case vol_name E ubiname n of
        None \<Rightarrow> mk_scan E ubiname name bytes ns
      | Some volname \<Rightarrow>
          if volname \<noteq> name then mk_scan E ubiname name bytes ns
          else Some (mk_existing E ubiname bytes n))"

definition mk_create :: "mk_os \<Rightarrow> string \<Rightarrow> string \<Rightarrow> u64 \<Rightarrow> mk_out" where
  "mk_create E ubiname name bytes =
     (let dev = fit 64 (''/dev/'' @ ubiname); ctl = mk_open E dev in
      if ctl < 0 then (1, None, [MOpen dev ctl])
      else let req = \<lparr>req_vol_id = UBI_VOL_NUM_AUTO, req_alignment = 1, req_bytes = bytes,
                      req_vol_type = UBI_DYNAMIC_VOLUME, req_flags = 0, req_name_len = int (length name),
                      req_name = fit (UBI_MAX_VOLUME_NAME + 1) name\<rparr>;
               r = mk_mkvol E req
           in if fst r < 0 then (1, None, [MOpen dev ctl, MMkvol ctl req (fst r), MClose ctl])
              else (0, Some (snd r), [MOpen dev ctl, MMkvol ctl req (fst r), MClose ctl]))"

definition ubimkvol_main :: "mk_os \<Rightarrow> string list \<Rightarrow> mk_out" where
  "ubimkvol_main E argv =
     (if length argv \<noteq> 4 then (2, None, [])
      else let ubiname = argv ! 1; name = argv ! 2; bytes = strtoull (argv ! 3) in
        if take 3 ubiname \<noteq> ''ubi'' \<or> bytes = 0 \<or> length name \<ge> UBI_MAX_VOLUME_NAME then (2, None, [])
        else (case mk_scan E ubiname name bytes [0..<128] of
                Some out \<Rightarrow> out
              | None \<Rightarrow> mk_create E ubiname name bytes))"

section \<open>Which volume it touches\<close>

text \<open>The first volume number that carries the name.\<close>

definition mk_hit :: "mk_os \<Rightarrow> string \<Rightarrow> string \<Rightarrow> nat option" where
  "mk_hit E ubiname name = find (\<lambda>n. vol_name E ubiname n = Some name) [0..<128]"

lemma mk_scan_find:
  "mk_scan E ubiname name bytes ns =
     map_option (mk_existing E ubiname bytes) (find (\<lambda>n. vol_name E ubiname n = Some name) ns)"
  by (induction ns) (auto split: option.splits)


text \<open>A device whose volume 3 is called \<^verbatim>\<open>cudy66_data\<close> and has 16 blocks of 126976 bytes.\<close>

definition demo_ubi :: mk_os where
  "demo_ubi = \<lparr>mk_access = (\<lambda>p. p = ''/sys/class/ubi/ubi0_3''),
     mk_file = (\<lambda>p. if p = ''/sys/class/ubi/ubi0_3/name'' then Some (''cudy66_data'' @ [nl])
       else if p = ''/sys/class/ubi/ubi0_3/reserved_ebs'' then Some (''16'' @ [nl])
       else if p = ''/sys/class/ubi/ubi0_3/usable_eb_size'' then Some (''126976'' @ [nl]) else None),
     mk_open = (\<lambda>_. 5), mk_rsvol = (\<lambda>_. 0), mk_mkvol = (\<lambda>_. (0, 9))\<rparr>"


end
