(* ===== verification/Spec2Isabelle.thy ===== *)
theory Spec2Isabelle
  imports Sf2_Props Cascade_Init Extsw_Props Extsw_Regs Serdes_Props Serdes_Ucode Sysport_Props Nvram_Props Dma419_Props Skb419_Props
    Ubi_Write Ubi_Mkvol
begin

text \<open>
  \<^bold>\<open>OpenWrt 6.6 on the Cudy WR3600: a verification of its own drivers, shims and tools.\<close>

  \<^bold>\<open>The program.\<close> The repository ports a BCM6764 router to Linux 6.6.  Its own code has four parts:
  \<^item> the Ethernet drivers of \<^verbatim>\<open>port66/enet66\<close>: \<^verbatim>\<open>pmc6764.c\<close> powers blocks up and down through the
    processor monitor bus, \<^verbatim>\<open>sf2_6764.c\<close> drives the SF2 switch with its MDIO master and the internal
    PHYs, \<^verbatim>\<open>sysport6764.c\<close> moves frames between the switch and the network stack.  The module init
    registers the three platform drivers in this order; each finds its predecessor through a getter
    (\<^verbatim>\<open>pmc6764_get\<close>, \<^verbatim>\<open>sf2_6764_get\<close>) and defers while it is absent;
  \<^item> further drivers that sit on the exported MDIO calls of the switch driver: \<^verbatim>\<open>cascade6764.c\<close>
    (\<^verbatim>\<open>port66/cascade66\<close>) runs the 2.5G PHY, \<^verbatim>\<open>extsw6764.c\<close> (\<^verbatim>\<open>port66/enet66b\<close>) the external LAN switch;
    \<^verbatim>\<open>serdes6764.c\<close> of the same directory brings up the SerDes cores that both hang on;
  \<^item> the shim of \<^verbatim>\<open>bsp-6.6/compat\<close> that lets a closed Wi-Fi driver built for a 4.19 kernel run on
    6.6: an NVRAM store, a DMA boundary, packet buffers and network devices;
  \<^item> command line tools (\<^verbatim>\<open>tools\<close>) that write UBI volumes.

  \<^bold>\<open>How it is modelled.\<close> A C function is a program of the state monad over a record that holds the
  driver's globals.  Theory \<open>Kio\<close> gives the world: a program appends every register access, delay,
  lock operation, kernel call and stage marker to \<open>io_log\<close> (newest first); what a read or a kernel
  call answers is decided by the parameter \<open>env\<close>, an arbitrary function of the log so far.  Hence a
  theorem that quantifies over \<open>env\<close> holds for every behaviour of the hardware and the kernel, and a
  theorem about a working device states what it needs of \<open>env\<close>.  An errno return is \<open>Inl\<close>, a NULL
  dereference the outcome \<open>Oops\<close>.  Integers are words of their C width where they can wrap.

  \<^bold>\<open>Theories.\<close>
  \<^item> \<open>Prelude66\<close>: words, errnos, the combinators for C idioms, weakest preconditions and the calculi
    \<open>keeps\<close> (an invariant is kept), \<open>rets\<close> (what is returned) and \<open>emits\<close> (what is appended to the
    log); the locale \<open>inv_system\<close> of an invariant over all histories of operations.
  \<^item> \<open>Kio\<close>: the log, its readings (markers, lock state, last value written) and storage-like devices.
  \<^item> \<open>Pmc\<close> (\<^verbatim>\<open>pmc6764.c\<close>): command word fields, lock discipline of the keyhole, refinement of the
    power-up of a device to its effect on a register file, stage markers, register round trip.
  \<^item> \<open>Sf2\<close>, \<open>Sf2_Switch\<close>, \<open>Sf2_Props\<close> (\<^verbatim>\<open>sf2_6764.c\<close>): MDIO command fields, the Clause 45 bracket,
    the mutex of the exported MDIO interface, port isolation after open, restoration on close, the
    order of the stage markers, calibration words.
  \<^item> \<open>Mdio_Frames\<close>: what the MDIO frames of a log say, read by the two theories that follow: the frame
    fields, the Clause 45 writes, a bus that answers.
  \<^item> \<open>Cascade\<close>, \<open>Cascade_Props\<close>, \<open>Cascade_Init\<close> (\<^verbatim>\<open>cascade6764.c\<close>): the firmware image on the bus, the link
    poll as a refinement of an abstract tracker over all histories, which starts lead to polling.
  \<^item> \<open>Extsw\<close>, \<open>Extsw_Props\<close>, \<open>Extsw_Regs\<close> (\<^verbatim>\<open>extsw6764.c\<close>): stage markers and locks of the bring-up, the
    end of the wait for links, the switch behind its pseudo PHY and the refinement of the opening of the
    ports to its effect on the register file.
  \<^item> \<open>Serdes\<close>, \<open>Serdes_Boot\<close> (\<^verbatim>\<open>serdes6764.c\<close>): the indirect access window of a SerDes core, the register programs
    with the table of saved values, the microcontroller, the speed passes, the exported calls and the module.
    \<open>Serdes_Regs\<close> has the core behind its window as a file of registers and refines the speed passes to
    functions on it; \<open>Serdes_Log\<close> states what any property of logs needs to survive the functions of the driver, as
    the locales \<open>link_log\<close> and \<open>core_log\<close>; \<open>Serdes_Props\<close> has the lock and the addressed core in all histories,
    the independence of earlier rates on one core and its failure on two; \<open>Serdes_Ucode\<close> what a successful start
    of the microcontroller has written and read back.
  \<^item> \<open>Sysport\<close>, \<open>Sysport_Data\<close>, \<open>Sysport_Probe\<close>, \<open>Sysport_Inv\<close>, \<open>Sysport_Bind\<close>, \<open>Sysport_Props\<close>
    (\<^verbatim>\<open>sysport6764.c\<close>): the invariant of all histories of a bound driver and its absence of NULL
    dereferences, the probe that establishes it, the receive and transmit steps, the switch tag round
    trip, descriptor addresses, NAPI budget, poll periods and the factory MAC address.
  \<^item> \<open>Stores\<close>: locales of the two tables of the shim, a keyed store and a bounded keyed registry.
  \<^item> \<open>Nvram\<close>, \<open>Nvram_Props\<close> (\<^verbatim>\<open>shim_nvram.c\<close>): lookups after updates and pointer lifetime, the byte
    stream of all entries, the store after boot, memory and lock discipline over all histories.
  \<^item> \<open>Dma419\<close>, \<open>Dma419_Props\<close> (\<^verbatim>\<open>shim_dma.c\<close>, \<^verbatim>\<open>shim_gfp.h\<close>): the registry of legacy devices, balance
    of device references over all histories, round trip of mappings, the self-test, flag translation.
  \<^item> \<open>Skb_Layout\<close>, \<open>Skb419\<close>, \<open>Skb419_Bridge\<close> (\<^verbatim>\<open>shim_skb.c\<close>, \<^verbatim>\<open>shim_skb_layout.h\<close>, \<^verbatim>\<open>shim_skb_meta.h\<close>, the device
    lookup of \<^verbatim>\<open>shim_netdev.c\<close>): the byte layout of a packet descriptor of 4.19, the registry of descriptors
    and shared buffers with its operations, the bridge to native packets.
  \<^item> \<open>Skb419_Inv\<close>, \<open>Skb419_Keep\<close>, \<open>Skb419_Pkt\<close>, \<open>Skb419_Ops\<close>, \<open>Skb419_Conv\<close>, \<open>Skb419_Hist\<close>, \<open>Skb419_Meta\<close>,
    \<open>Skb419_Props\<close>: the invariant of the registry and its preservation, a packet as room in front, payload and
    room behind, clone, copy and release, import and export, all histories of calls, the metadata round trip.
  \<^item> \<open>Ubi_Write\<close>, \<open>Ubi_Mkvol\<close> (\<^verbatim>\<open>ubiwrite.c\<close>, \<^verbatim>\<open>ubimkvol.c\<close>): what a successful run has written,
    that it terminates on a working volume, the loop on a volume that accepts nothing; which volumes
    are touched.

  \<^bold>\<open>Bounds.\<close> Polls run as often as the source allows (1000 busy polls of the MDIO master, the PMC and
  switch bounds of the header); no fuel is added.  The copy loops of \<^verbatim>\<open>ubiwrite.c\<close> have no bound in the
  source: they are partial functions into \<open>option\<close>, with \<open>None\<close> for a loop that never returns.
  The wait for links of \<^verbatim>\<open>extsw6764.c\<close> is bounded by the clock only: it takes a number of passes, and as
  many passes as the wait has jiffies are shown to be enough when a sleep of 100 ms advances the clock.

  The queue loops of \<^verbatim>\<open>shim_skb.c\<close> run at most as often as the queue counts packets, plus one, as in the source.

  \<^bold>\<open>Parameters.\<close> Hardware, kernel services, the device tree, the flash partitions, the firmware file, the
  program image of the SerDes microcontroller (\<open>img\<close>)
  and the SerDes retuning that the cascade driver calls in another module are arguments.
  A SerDes core that works (\<open>sd_works\<close>) is never busy, has its PLL locked and reads back the registers of the programs.
  The kernel below the packet shim (\<open>kernel_ok\<close>) hands out addresses that are not in use and fewer than
  65535 descriptors; the packet functions of 6.6 satisfy \<open>native_laws\<close>.  A packet destructor is logged, not run; the
  kernel configuration has neither the security mark nor the traffic control index.
  Concurrency is modelled by histories: each entry point runs to its end, in any order; the lock
  events of the log carry what the code relies on beyond that.

  \<^bold>\<open>Not modelled.\<close> Log messages; the virtual PCIe host, LED
  and reboot drivers, the network device and wireless configuration shims with the converters of the
  \<^verbatim>\<open>cfg80211\<close> upcalls and the self-tests in \<^verbatim>\<open>shim_skb.c\<close>, \<^verbatim>\<open>wl66ctl\<close> and
  \<^verbatim>\<open>insmodf\<close>, diagnostic modules; the patched files of the upstream kernel, which are third-party code.
\<close>

end
